(* ===== verification/Go_Prelude.thy ===== *)
theory Go_Prelude
  imports Complex_Main
    "HOL-Library.Char_ord" "HOL-Library.List_Lexorder" "HOL-Library.AList" "HOL-Library.Word"
begin

text \<open>
  Shared vocabulary of the development: the parts of the Go language and of its standard
  library that the sources rely on, and the generic lemmas the component theories use.

  A Go string is a byte string and is modelled as \<open>string\<close> (a list of 8-bit characters);
  \<open>len\<close> is \<open>length\<close> and \<open><\<close> is the lexicographic order on bytes. A Go map is an
  association list: a lookup is \<open>map_of\<close>, a store is \<open>AList.update\<close>, a deletion is
  \<open>AList.delete\<close>, and the order of the list is the (unspecified) iteration order, so that
  a theorem about every association list holds for every iteration order. An \<open>error\<close>
  result is a value of a sum type with the error on the left.
\<close>

named_theorems go_eval \<open>unfolding rules that evaluate the model on concrete inputs\<close>
named_theorems alist_simps \<open>lookup after update and delete\<close>

section \<open>Dynamically typed values\<close>

text \<open>
  The values a decoded manifest holds (Go's \<open>any\<close> after YAML or JSON decoding). A
  \<open>float64\<close> produced by a JSON number is finite, hence rational.
\<close>

datatype any =
    ANil
  | ABool bool
  | AInt int
  | AFloat rat
  | AStr string
  | AList "any list"
  | AMap "(string \<times> any) list"

type_synonym anymap = "(string \<times> any) list"

definition index_any :: "anymap \<Rightarrow> string \<Rightarrow> any" where
  "index_any m f = (case map_of m f of None \<Rightarrow> ANil | Some v \<Rightarrow> v)"

text \<open>The comma-ok type assertions; the one-value form yields the type's zero value.\<close>

fun is_map :: "any \<Rightarrow> anymap option" where
  "is_map (AMap m) = Some m"
| "is_map _ = None"

fun is_list :: "any \<Rightarrow> any list option" where
  "is_list (AList l) = Some l"
| "is_list _ = None"

fun is_string :: "any \<Rightarrow> string option" where
  "is_string (AStr s) = Some s"
| "is_string _ = None"

fun is_bool :: "any \<Rightarrow> bool option" where
  "is_bool (ABool b) = Some b"
| "is_bool _ = None"

definition str_of :: "any \<Rightarrow> string" where
  "str_of v = (case is_string v of None \<Rightarrow> [] | Some s \<Rightarrow> s)"

definition bool_of :: "any \<Rightarrow> bool" where
  "bool_of v = (case is_bool v of None \<Rightarrow> False | Some b \<Rightarrow> b)"

text \<open>Go's conversion of a float to an integer truncates towards zero.\<close>

definition trunc_rat :: "rat \<Rightarrow> int" where
  "trunc_rat q = (if 0 \<le> q then \<lfloor>q\<rfloor> else \<lceil>q\<rceil>)"

definition int_of_any :: "any \<Rightarrow> int" where
  "int_of_any v = (case v of AInt n \<Rightarrow> n | AFloat q \<Rightarrow> trunc_rat q | _ \<Rightarrow> 0)"

section \<open>The strings package\<close>

definition Cut :: "char \<Rightarrow> string \<Rightarrow> string \<times> string \<times> bool" where
  "Cut c s = (if c \<in> set s
     then (takeWhile (\<lambda>x. x \<noteq> c) s, tl (dropWhile (\<lambda>x. x \<noteq> c) s), True)
     else (s, [], False))"

fun Split :: "char \<Rightarrow> string \<Rightarrow> string list" where
  "Split c [] = [[]]"
| "Split c (x # xs) =
     (if x = c then [] # Split c xs
      else (case Split c xs of [] \<Rightarrow> [[x]] | y # ys \<Rightarrow> (x # y) # ys))"

fun Join :: "string list \<Rightarrow> string \<Rightarrow> string" where
  "Join [] sep = []"
| "Join [x] sep = x"
| "Join (x # y # ys) sep = x @ sep @ Join (y # ys) sep"

definition is_space :: "char \<Rightarrow> bool" where
  "is_space c \<longleftrightarrow> c = CHR '' '' \<or> (9 \<le> (of_char c :: nat) \<and> (of_char c :: nat) \<le> 13)"

definition TrimSpace :: "string \<Rightarrow> string" where
  "TrimSpace s = rev (dropWhile is_space (rev (dropWhile is_space s)))"

section \<open>Loops with early exit\<close>

text \<open>A loop that returns at its first error, and one that threads an accumulator.\<close>

fun first_error :: "('a \<Rightarrow> 'e option) \<Rightarrow> 'a list \<Rightarrow> 'e option" where
  "first_error f [] = None"
| "first_error f (x # xs) = (case f x of Some e \<Rightarrow> Some e | None \<Rightarrow> first_error f xs)"

fun fold_err :: "('a \<Rightarrow> 's \<Rightarrow> 'e + 's) \<Rightarrow> 'a list \<Rightarrow> 's \<Rightarrow> 'e + 's" where
  "fold_err f [] s = Inr s"
| "fold_err f (x # xs) s = (case f x s of Inl e \<Rightarrow> Inl e | Inr s' \<Rightarrow> fold_err f xs s')"

section \<open>Sorting\<close>

text \<open>
  \<open>sort.Slice\<close> by a string rendering. Go's sort is not stable; where the rendering is
  injective on the sorted elements the result is the same for every sorting algorithm.
\<close>

definition sort_by :: "('a \<Rightarrow> string) \<Rightarrow> 'a list \<Rightarrow> 'a list" where
  "sort_by f xs = sort_key f xs"

definition starts_with :: "string \<Rightarrow> string \<Rightarrow> bool" where
  "starts_with p s \<longleftrightarrow> take (length p) s = p"

section \<open>Lemmas on error returns\<close>

text \<open>A chain of checks succeeds exactly when every check in it does.\<close>

lemma check_None_iff [simp]:
  "(case x of None \<Rightarrow> y | Some e \<Rightarrow> Some (f e)) = None \<longleftrightarrow> x = None \<and> y = None"
  "(case x of None \<Rightarrow> y | Some e \<Rightarrow> Some e) = None \<longleftrightarrow> x = None \<and> y = None"
  by (cases x; simp)+

lemma check_Inr_iff [simp]:
  "(case x of None \<Rightarrow> y | Some e \<Rightarrow> Inl (f e)) = Inr z \<longleftrightarrow> x = None \<and> y = Inr z"
  "(case x of None \<Rightarrow> y' | Some e \<Rightarrow> Inl e) = Inr z' \<longleftrightarrow> x = None \<and> y' = Inr z'"
  by (cases x; simp)+

lemma if_err_None_iff [simp]: "(if b then Some e else y) = None \<longleftrightarrow> \<not> b \<and> y = None"
  by simp

lemma if_err_Inr_iff [simp]: "(if b then Inl e else y) = Inr z \<longleftrightarrow> \<not> b \<and> y = Inr z"
  by simp

lemma bind_Inr_iff: "(case x of Inl e \<Rightarrow> Inl (f e) | Inr v \<Rightarrow> g v) = Inr z \<longleftrightarrow>
    (\<exists>v. x = Inr v \<and> g v = Inr z)"
  by (cases x) auto

section \<open>Lemmas on strings\<close>

lemma first_error_None_iff: "first_error f xs = None \<longleftrightarrow> (\<forall>x\<in>set xs. f x = None)"
  by (induction xs) (auto split: option.splits)

lemma first_error_SomeE:
  assumes "first_error f xs = Some e"
  obtains x where "x \<in> set xs" "f x = Some e"
  using assms by (induction xs) (auto split: option.splits)

lemma first_error_cong:
  "xs = ys \<Longrightarrow> (\<And>x. x \<in> set ys \<Longrightarrow> f x = g x) \<Longrightarrow> first_error f xs = first_error g ys"
  by (induction xs arbitrary: ys) (auto split: option.splits)

lemma fold_err_invariant:
  assumes "fold_err f xs s = Inr t" and "P s"
    and "\<And>x s s'. x \<in> set xs \<Longrightarrow> P s \<Longrightarrow> f x s = Inr s' \<Longrightarrow> P s'"
  shows "P t"
  using assms
proof (induction xs arbitrary: s)
  case (Cons x xs)
  then obtain s' where s': "f x s = Inr s'" "fold_err f xs s' = Inr t"
    by (auto split: sum.splits)
  with Cons.prems have "P s'" by (meson list.set_intros(1))
  with s' Cons show ?case by (meson list.set_intros(2))
qed simp

lemma fold_err_append:
  "fold_err f (xs @ ys) s =
     (case fold_err f xs s of Inl e \<Rightarrow> Inl e | Inr s' \<Rightarrow> fold_err f ys s')"
  by (induction xs arbitrary: s) (auto split: sum.splits)

lemma Split_nonempty [simp]: "Split c s \<noteq> []"
  by (induction s) (auto split: list.splits)

lemma Split_no_sep [simp]: "c \<notin> set s \<Longrightarrow> Split c s = [s]"
  by (induction s) auto

lemma Split_append_sep: "c \<notin> set s \<Longrightarrow> Split c (s @ c # t) = s # Split c t"
  by (induction s) auto

lemma Split_Join:
  assumes "xs \<noteq> []" and "\<forall>x\<in>set xs. c \<notin> set x"
  shows "Split c (Join xs [c]) = xs"
  using assms by (induction xs "[c]" rule: Join.induct) (auto simp: Split_append_sep)

lemma Split_sep_free: "x \<in> set (Split c s) \<Longrightarrow> c \<notin> set x"
  by (induction s arbitrary: x) (auto split: list.splits if_splits)

lemma Join_Split [simp]: "Join (Split c s) [c] = s"
proof (induction s)
  case (Cons x s)
  have "Join ((x # y) # ys) [c] = x # Join (y # ys) [c]" for y ys
    by (cases ys) auto
  moreover have "Join ([] # Split c s) [c] = c # Join (Split c s) [c]"
    by (cases "Split c s") auto
  ultimately show ?case
    using Cons by (cases "Split c s") (auto split: list.splits)
qed simp

lemma Cut_sep: "c \<notin> set s \<Longrightarrow> Cut c (s @ c # t) = (s, t, True)"
proof -
  assume "c \<notin> set s"
  then have "dropWhile (\<lambda>x. x \<noteq> c) (s @ c # t) = c # t"
    and "takeWhile (\<lambda>x. x \<noteq> c) (s @ c # t) = s"
    by (induction s) auto
  then show ?thesis by (simp add: Cut_def)
qed

lemma Cut_True_iff: "Cut c s = (a, b, True) \<longleftrightarrow> s = a @ c # b \<and> c \<notin> set a"
proof
  assume cut: "Cut c s = (a, b, True)"
  then have "c \<in> set s" by (auto simp: Cut_def split: if_splits)
  then obtain a' b' where s: "s = a' @ c # b'" "c \<notin> set a'"
    by (blast dest: split_list_first)
  with cut Cut_sep [OF s(2), of b'] show "s = a @ c # b \<and> c \<notin> set a" by simp
qed (auto simp: Cut_sep)

lemma append_sep_inj:
  fixes a b s t :: string
  assumes "c \<notin> set a" "c \<notin> set b" "a @ c # s = b @ c # t"
  shows "a = b \<and> s = t"
proof -
  from assms(3) have "Cut c (a @ c # s) = Cut c (b @ c # t)" by (rule arg_cong)
  then show ?thesis
    by (simp only: Cut_sep [OF assms(1)] Cut_sep [OF assms(2)] prod.inject)
qed

section \<open>Lemmas on association lists and sorting\<close>

lemma map_of_update [simp, alist_simps]:
  "map_of (AList.update k v m) = (map_of m)(k \<mapsto> v)"
  by (rule update_conv')

lemma map_of_delete [simp, alist_simps]:
  "map_of (AList.delete k m) = (map_of m)(k := None)"
  by (rule delete_conv')

lemma set_sort_by [simp]: "set (sort_by f xs) = set xs"
  by (simp add: sort_by_def)

lemma distinct_sort_by [simp]: "distinct (sort_by f xs) = distinct xs"
  by (simp add: sort_by_def)

lemma length_sort_by [simp]: "length (sort_by f xs) = length xs"
  by (simp add: sort_by_def)

lemma sorted_sort_by: "sorted (map f (sort_by f xs))"
  by (simp add: sort_by_def)

text \<open>With an injective rendering the sorted list depends on the elements only.\<close>

lemma sort_by_unique:
  assumes "set xs = set ys" "distinct xs" "distinct ys" "inj_on f (set xs)"
  shows "sort_by f xs = sort_by f ys"
proof -
  have m: "map f (sort_by f xs) = map f (sort_by f ys)"
  proof (rule sorted_distinct_set_unique)
    show "sorted (map f (sort_by f xs))" "sorted (map f (sort_by f ys))"
      by (rule sorted_sort_by)+
    show "distinct (map f (sort_by f xs))" "distinct (map f (sort_by f ys))"
      using assms by (simp_all add: distinct_map)
    show "set (map f (sort_by f xs)) = set (map f (sort_by f ys))"
      using assms by simp
  qed
  have "inj_on f (set (sort_by f xs) \<union> set (sort_by f ys))"
    using assms by simp
  with m show ?thesis
    by (rule map_inj_on)
qed

lemma update_fresh: "k \<notin> fst ` set al \<Longrightarrow> AList.update k v al = al @ [(k, v)]"
  by (induction al) auto

section \<open>Lemmas on searches\<close>

lemma find_in: "find P xs = Some x \<Longrightarrow> x \<in> set xs \<and> P x"
  by (induction xs) (auto split: if_splits)

lemma find_unique:
  assumes "set xs = set ys" "\<And>x y. x \<in> set ys \<Longrightarrow> y \<in> set ys \<Longrightarrow> P x \<Longrightarrow> P y \<Longrightarrow> x = y"
  shows "find P xs = find P ys"
proof (cases "find P xs")
  case None
  then have "find P ys = None" using assms(1) by (simp add: find_None_iff)
  with None show ?thesis by simp
next
  case (Some x)
  then have x: "x \<in> set ys" "P x" using find_in assms(1) by metis+
  then obtain y where "find P ys = Some y" by (metis find_None_iff option.exhaust)
  with Some x assms(2) find_in show ?thesis by metis
qed

lemma set_map_filter: "set (List.map_filter f xs) = {y. \<exists>x\<in>set xs. f x = Some y}"
  by (force simp: List.map_filter_def)

lemma map_filter_cong: "(\<And>x. x \<in> set xs \<Longrightarrow> f x = g x) \<Longrightarrow> List.map_filter f xs = List.map_filter g xs"
  by (induction xs) (auto split: option.splits)

section \<open>Lemmas on dynamic values\<close>

lemma is_string_Some [simp]: "is_string v = Some s \<longleftrightarrow> v = AStr s"
  by (cases v) auto

lemma is_map_Some [simp]: "is_map v = Some s \<longleftrightarrow> v = AMap s"
  by (cases v) auto

lemma is_list_Some [simp]: "is_list v = Some s \<longleftrightarrow> v = AList s"
  by (cases v) auto

lemma is_bool_Some [simp]: "is_bool v = Some s \<longleftrightarrow> v = ABool s"
  by (cases v) auto

lemma str_of_AStr [simp]: "str_of (AStr s) = s"
  by (simp add: str_of_def)

lemma str_of_nonempty: "str_of v \<noteq> [] \<Longrightarrow> v = AStr (str_of v)"
  by (cases v) (auto simp: str_of_def)

lemma bool_of_iff: "bool_of v \<longleftrightarrow> v = ABool True"
  by (cases v) (auto simp: bool_of_def)

lemmas any_eval [go_eval] =
  index_any_def str_of_def bool_of_def int_of_any_def Cut_def starts_with_def

end
