(* ===== verification/Dag_Search.thy ===== *)
theory Dag_Search
  imports Go_Prelude
begin

text \<open>
  The three recursive closures that \<open>internal/domain/graph/graph.go\<close> runs over an
  adjacency map, over an arbitrary node type: \<open>walk\<close> (the body of \<open>Dependents\<close>
  and \<open>Dependencies\<close>), \<open>dfs\<close> (the three-colour search of \<open>findCycle\<close>) and
  \<open>visit\<close> (the memoised depth of \<open>TopologicalLevels\<close>). The closures recurse on
  mutable maps, so each takes a fuel argument and answers \<open>None\<close> when it runs out. For
  each one: enough fuel is the number of nodes not yet visited, and what it returns is what
  its specification over the edge relation says.
\<close>

section \<open>The closures\<close>

definition edge_rel :: "('a \<Rightarrow> 'a list) \<Rightarrow> ('a \<times> 'a) set" where
  "edge_rel succ = {(x, y). y \<in> set (succ x)}"

fun walk :: "nat \<Rightarrow> ('a \<Rightarrow> 'a list) \<Rightarrow> 'a list \<Rightarrow> 'a list \<Rightarrow> 'a list option" where
  "walk n succ [] out = Some out"
| "walk n succ (d # ds) out =
     (if d \<in> set out then walk n succ ds out
      else (case n of
        0 \<Rightarrow> None
      | Suc m \<Rightarrow> (case walk m succ (succ d) (d # out) of
          None \<Rightarrow> None
        | Some out' \<Rightarrow> walk n succ ds out')))"

datatype color = White | Gray | Black

fun dfs :: "nat \<Rightarrow> ('a \<Rightarrow> 'a list) \<Rightarrow> 'a \<Rightarrow> ('a \<Rightarrow> color) \<Rightarrow> 'a list
    \<Rightarrow> ('a list option \<times> ('a \<Rightarrow> color) \<times> 'a list) option"
  and dfs_loop :: "nat \<Rightarrow> ('a \<Rightarrow> 'a list) \<Rightarrow> 'a \<Rightarrow> 'a list \<Rightarrow> ('a \<Rightarrow> color) \<Rightarrow> 'a list
    \<Rightarrow> ('a list option \<times> ('a \<Rightarrow> color) \<times> 'a list) option" where
  "dfs 0 succ k col stack = None"
| "dfs (Suc n) succ k col stack =
     dfs_loop n succ k (succ k) (col(k := Gray)) (stack @ [k])"
| "dfs_loop n succ k [] col stack = Some (None, col(k := Black), butlast stack)"
| "dfs_loop n succ k (dep # ds) col stack =
     (case col dep of
        Gray \<Rightarrow> (case dropWhile (\<lambda>s. s \<noteq> dep) stack of
            [] \<Rightarrow> dfs_loop n succ k ds col stack
          | s # ss \<Rightarrow> Some (Some ((s # ss) @ [dep]), col, stack))
      | White \<Rightarrow> (case dfs n succ dep col stack of
            None \<Rightarrow> None
          | Some (Some c, col', stack') \<Rightarrow> Some (Some c, col', stack')
          | Some (None, col', stack') \<Rightarrow> dfs_loop n succ k ds col' stack')
      | Black \<Rightarrow> dfs_loop n succ k ds col stack)"

fun visit :: "nat \<Rightarrow> ('a \<Rightarrow> 'a list) \<Rightarrow> 'a \<Rightarrow> ('a \<times> nat) list \<Rightarrow> (nat \<times> ('a \<times> nat) list) option"
  and visit_loop :: "nat \<Rightarrow> ('a \<Rightarrow> 'a list) \<Rightarrow> 'a list \<Rightarrow> ('a \<times> nat) list \<Rightarrow> nat
    \<Rightarrow> (nat \<times> ('a \<times> nat) list) option" where
  "visit n succ k depth =
     (case map_of depth k of
        Some d \<Rightarrow> Some (d, depth)
      | None \<Rightarrow> (case n of
          0 \<Rightarrow> None
        | Suc m \<Rightarrow> (case visit_loop m succ (succ k) (AList.update k 0 depth) 0 of
            None \<Rightarrow> None
          | Some (mx, depth') \<Rightarrow> Some (mx, AList.update k mx depth'))))"
| "visit_loop n succ [] depth mx = Some (mx, depth)"
| "visit_loop n succ (dep # ds) depth mx =
     (case visit n succ dep depth of
        None \<Rightarrow> None
      | Some (d, depth') \<Rightarrow> visit_loop n succ ds depth' (if mx < d + 1 then d + 1 else mx))"

declare visit.simps [simp del]

section \<open>Reachability: walk\<close>

lemma walk_mono: "walk n succ ds out = Some out' \<Longrightarrow> set out \<subseteq> set out' \<and> set ds \<subseteq> set out'"
proof (induction n succ ds out arbitrary: out' rule: walk.induct)
  case (2 n succ d ds out)
  then show ?case
    by (fastforce split: if_splits nat.splits option.splits)
qed simp

lemma walk_distinct: "walk n succ ds out = Some out' \<Longrightarrow> distinct out \<Longrightarrow> distinct out'"
  by (induction n succ ds out arbitrary: out' rule: walk.induct)
    (auto split: if_splits nat.splits option.splits)

lemma walk_closed:
  "walk n succ ds out = Some out' \<Longrightarrow> x \<in> set out' - set out \<Longrightarrow> set (succ x) \<subseteq> set out'"
proof (induction n succ ds out arbitrary: out' x rule: walk.induct)
  case (2 n succ d ds out)
  show ?case
  proof (cases "d \<in> set out")
    case True
    with 2 show ?thesis by simp
  next
    case False
    with "2.prems" obtain m out1 where m: "n = Suc m"
      and w1: "walk m succ (succ d) (d # out) = Some out1"
      and w2: "walk n succ ds out1 = Some out'"
      by (auto split: nat.splits option.splits)
    have sub: "set (succ d) \<subseteq> set out1" "set (d # out) \<subseteq> set out1" "set out1 \<subseteq> set out'"
      using walk_mono [OF w1] walk_mono [OF w2] by auto
    consider "x \<in> set out' - set out1" | "x \<in> set out1 - set (d # out)" | "x = d"
      using "2.prems" by auto
    then show ?thesis
    proof cases
      case 1
      then show ?thesis using "2.IH"(3) [OF False m w1 w2] by simp
    next
      case 2
      then have "set (succ x) \<subseteq> set out1"
        using "2.IH"(2) [OF False m w1] by simp
      with sub show ?thesis by blast
    next
      case 3
      with sub show ?thesis by blast
    qed
  qed
qed simp

lemma walk_sound:
  "walk n succ ds out = Some out' \<Longrightarrow> set out' \<subseteq> set out \<union> (edge_rel succ)\<^sup>* `` set ds"
proof (induction n succ ds out arbitrary: out' rule: walk.induct)
  case (2 n succ d ds out)
  show ?case
  proof (cases "d \<in> set out")
    case True
    with 2 show ?thesis by (simp, blast)
  next
    case False
    with "2.prems" obtain m out1 where m: "n = Suc m"
      and w1: "walk m succ (succ d) (d # out) = Some out1"
      and w2: "walk n succ ds out1 = Some out'"
      by (auto split: nat.splits option.splits)
    have "(edge_rel succ)\<^sup>* `` set (succ d) \<subseteq> (edge_rel succ)\<^sup>* `` {d}"
      by (auto simp: edge_rel_def intro: converse_rtrancl_into_rtrancl)
    moreover have "d \<in> (edge_rel succ)\<^sup>* `` {d}" by simp
    moreover have "(edge_rel succ)\<^sup>* `` {d} \<subseteq> (edge_rel succ)\<^sup>* `` set (d # ds)" by auto
    moreover have "(edge_rel succ)\<^sup>* `` set ds \<subseteq> (edge_rel succ)\<^sup>* `` set (d # ds)" by auto
    ultimately show ?thesis
      using "2.IH"(2) [OF False m w1] "2.IH"(3) [OF False m w1 w2]
      by (simp only: list.set) blast
  qed
qed simp

theorem walk_reachable:
  assumes "walk n succ (succ k) [] = Some out"
  shows "set out = {x. (k, x) \<in> (edge_rel succ)\<^sup>+}"
proof
  show "set out \<subseteq> {x. (k, x) \<in> (edge_rel succ)\<^sup>+}"
    using walk_sound [OF assms]
    by (auto simp: edge_rel_def intro: rtrancl_into_trancl2)
  show "{x. (k, x) \<in> (edge_rel succ)\<^sup>+} \<subseteq> set out"
  proof clarify
    fix x assume "(k, x) \<in> (edge_rel succ)\<^sup>+"
    then show "x \<in> set out"
    proof (induction rule: trancl_induct)
      case (base y)
      then show ?case using walk_mono [OF assms] by (auto simp: edge_rel_def)
    next
      case (step y z)
      then show ?case using walk_closed [OF assms, of y] by (auto simp: edge_rel_def)
    qed
  qed
qed

lemma Suc_le_obtain: "Suc a \<le> n \<Longrightarrow> \<exists>m. n = Suc m \<and> a \<le> m"
  by (cases n) simp_all

lemma card_less_diff:
  assumes "finite N" "d \<in> N" "d \<notin> S"
  shows "card (N - S) = Suc (card (N - insert d S))"
proof -
  have "N - insert d S = (N - S) - {d}" by auto
  then show ?thesis
    using card_Suc_Diff1 [of "N - S" d] assms by simp
qed

lemma walk_fuel:
  assumes "finite N" "set ds \<subseteq> N" "\<And>x. x \<in> N \<Longrightarrow> set (succ x) \<subseteq> N"
    and "card (N - set out) \<le> n"
  shows "\<exists>out'. walk n succ ds out = Some out'"
  using assms
proof (induction n succ ds out rule: walk.induct)
  case (2 n succ d ds out)
  show ?case
  proof (cases "d \<in> set out")
    case True
    with 2 show ?thesis by simp
  next
    case False
    have c: "card (N - set out) = Suc (card (N - set (d # out)))"
      using card_less_diff [OF \<open>finite N\<close>, of d "set out"] False "2.prems"(2) by simp
    from c "2.prems"(4) have "Suc (card (N - set (d # out))) \<le> n" by linarith
    then obtain m where m: "n = Suc m" "card (N - set (d # out)) \<le> m"
      by (auto dest: Suc_le_obtain)
    obtain out1 where w1: "walk m succ (succ d) (d # out) = Some out1"
      using "2.IH"(2) [OF False m(1) \<open>finite N\<close> _ "2.prems"(3) m(2)]
        "2.prems"(2) "2.prems"(3) [of d] by force
    have "card (N - set out1) \<le> card (N - set out)"
      using walk_mono [OF w1] \<open>finite N\<close> by (intro card_mono) auto
    then obtain out2 where "walk n succ ds out1 = Some out2"
      using "2.IH"(3) [OF False m(1) w1 \<open>finite N\<close>] "2.prems" by auto
    with False m w1 show ?thesis by simp
  qed
qed simp

section \<open>Cycle search: dfs\<close>

definition is_cycle :: "('a \<Rightarrow> 'a list) \<Rightarrow> 'a list \<Rightarrow> bool" where
  "is_cycle succ c \<longleftrightarrow> 2 \<le> length c \<and> hd c = last c \<and> successively (\<lambda>x y. y \<in> set (succ x)) c"

definition dfs_inv :: "('a \<Rightarrow> 'a list) \<Rightarrow> ('a \<Rightarrow> color) \<Rightarrow> 'a list \<Rightarrow> bool" where
  "dfs_inv succ col stack \<longleftrightarrow>
     (\<forall>x. col x = Gray \<longleftrightarrow> x \<in> set stack) \<and> distinct stack \<and>
     successively (\<lambda>x y. y \<in> set (succ x)) stack \<and>
     (\<forall>x y. col x = Black \<longrightarrow> y \<in> set (succ x) \<longrightarrow> col y = Black) \<and>
     (\<forall>x. col x = Black \<longrightarrow> (x, x) \<notin> (edge_rel succ)\<^sup>+)"

lemma black_closed:
  assumes "dfs_inv succ col stack" "(x, y) \<in> (edge_rel succ)\<^sup>*" "col x = Black"
  shows "col y = Black"
  using assms(2,3,1) by induction (auto simp: dfs_inv_def edge_rel_def)

lemma dfs_inv_push:
  assumes "dfs_inv succ col stack" "col d = White"
    and "stack = [] \<or> d \<in> set (succ (last stack))"
  shows "dfs_inv succ (col(d := Gray)) (stack @ [d])"
proof -
  from assms(2) have "col d \<noteq> Gray" by simp
  with assms(1) have "d \<notin> set stack" unfolding dfs_inv_def by blast
  then show ?thesis
    using assms by (auto simp: dfs_inv_def successively_append_iff)
qed

lemma dfs_inv_pop:
  assumes inv: "dfs_inv succ col stack" and stack: "stack \<noteq> []" "last stack = k"
    and blacks: "\<forall>y\<in>set (succ k). col y = Black"
  shows "dfs_inv succ (col(k := Black)) (butlast stack)"
proof -
  have k: "col k = Gray" "k \<in> set stack"
    using inv stack by (auto simp: dfs_inv_def)
  have split: "stack = butlast stack @ [k]"
    using stack by (metis append_butlast_last_id)
  have "k \<notin> set (butlast stack)"
    using inv split by (metis dfs_inv_def distinct_append disjoint_iff list.set_intros(1))
  moreover have "set stack = insert k (set (butlast stack))"
    using arg_cong [OF split, of set] by simp
  moreover have "distinct (butlast stack)"
    using inv by (simp add: dfs_inv_def distinct_butlast)
  moreover have "successively (\<lambda>x y. y \<in> set (succ x)) (butlast stack)"
  proof -
    have "successively (\<lambda>x y. y \<in> set (succ x)) (butlast stack @ [k])"
      using inv split by (simp add: dfs_inv_def)
    then show ?thesis by (simp add: successively_append_iff)
  qed
  moreover have "(k, k) \<notin> (edge_rel succ)\<^sup>+"
  proof
    assume "(k, k) \<in> (edge_rel succ)\<^sup>+"
    then obtain y where "(k, y) \<in> edge_rel succ" "(y, k) \<in> (edge_rel succ)\<^sup>*"
      by (meson tranclD)
    with blacks black_closed [OF inv] k show False
      by (auto simp: edge_rel_def)
  qed
  ultimately show ?thesis
    using inv blacks k by (auto simp: dfs_inv_def)
qed

lemma stack_cycle:
  assumes inv: "dfs_inv succ col stack" and stack: "stack \<noteq> []" "last stack = k"
    and dep: "dep \<in> set (succ k)" and drop: "dropWhile (\<lambda>s. s \<noteq> dep) stack = s # ss"
  shows "is_cycle succ ((s # ss) @ [dep])"
proof -
  have s: "s = dep"
    using hd_dropWhile [of "\<lambda>s. s \<noteq> dep" stack] drop by simp
  have app: "stack = takeWhile (\<lambda>s. s \<noteq> dep) stack @ (s # ss)"
    using drop by (metis takeWhile_dropWhile_id)
  then have "last (s # ss) = k"
    using stack by (metis last_appendR list.distinct(1))
  moreover have "successively (\<lambda>x y. y \<in> set (succ x)) (s # ss)"
    using inv app by (metis dfs_inv_def successively_append_iff)
  ultimately have "successively (\<lambda>x y. y \<in> set (succ x)) ((s # ss) @ [dep])"
    using dep by (subst successively_append_iff) auto
  with s show ?thesis
    by (simp add: is_cycle_def)
qed

text \<open>
  One search from an unvisited node: either a genuine cycle comes back, or the invariant
  holds again with the node blackened and the stack as before.
\<close>

lemma dfs_correct_aux:
  "dfs n succ k col stack = Some (r, col', stack') \<Longrightarrow>
     dfs_inv succ col stack \<Longrightarrow> col k = White \<Longrightarrow>
     stack = [] \<or> k \<in> set (succ (last stack)) \<Longrightarrow>
     (case r of Some c \<Rightarrow> is_cycle succ c
      | None \<Rightarrow> dfs_inv succ col' stack' \<and> stack' = stack \<and> col' k = Black \<and>
          (\<forall>x. col x = Black \<longrightarrow> col' x = Black))"
  "dfs_loop n succ k ds col stack = Some (r, col', stack') \<Longrightarrow>
     dfs_inv succ col stack \<Longrightarrow> stack \<noteq> [] \<Longrightarrow> last stack = k \<Longrightarrow>
     set ds \<subseteq> set (succ k) \<Longrightarrow> (\<forall>y\<in>set (succ k). col y = Black \<or> y \<in> set ds) \<Longrightarrow>
     (case r of Some c \<Rightarrow> is_cycle succ c
      | None \<Rightarrow> dfs_inv succ col' stack' \<and> stack' = butlast stack \<and> col' k = Black \<and>
          (\<forall>x. col x = Black \<longrightarrow> col' x = Black))"
proof (induction n succ k col stack and n succ k ds col stack
    arbitrary: r col' stack' and r col' stack' rule: dfs_dfs_loop.induct)
  case (1 succ k col stack)
  then show ?case by simp
next
  case (2 n succ k col stack)
  have push: "dfs_inv succ (col(k := Gray)) (stack @ [k])"
    using "2.prems" by (intro dfs_inv_push) auto
  from "2.prems"(1) have
    "dfs_loop n succ k (succ k) (col(k := Gray)) (stack @ [k]) = Some (r, col', stack')" by simp
  note loop = "2.IH" [OF this push]
  have "col x = Black \<longrightarrow> (col(k := Gray)) x = Black" for x
    using "2.prems"(3) by auto
  with loop show ?case
    by (auto simp del: fun_upd_apply split: option.splits)
next
  case (3 n succ k col stack)
  then have "dfs_inv succ (col(k := Black)) (butlast stack)"
    by (intro dfs_inv_pop) auto
  with 3 show ?case by auto
next
  case (4 n succ k dep ds col stack)
  note prems = "4.prems"
  show ?case
  proof (cases "col dep")
    case White
    from prems(1) White obtain r1 col1 stack1 where
      d: "dfs n succ dep col stack = Some (r1, col1, stack1)"
      by (cases "dfs n succ dep col stack") auto
    have dep: "stack = [] \<or> dep \<in> set (succ (last stack))"
      using prems(4,5) by auto
    show ?thesis
    proof (cases r1)
      case (Some c)
      with prems(1) White d have "r = Some c" by simp
      with "4.IH"(1) [OF White d prems(2) White dep] Some show ?thesis by simp
    next
      case None
      with "4.IH"(1) [OF White d prems(2) White dep]
      have i1: "dfs_inv succ col1 stack1" "stack1 = stack" "col1 dep = Black"
        and mono: "\<forall>x. col x = Black \<longrightarrow> col1 x = Black" by auto
      from prems(1) White d None
      have l: "dfs_loop n succ k ds col1 stack1 = Some (r, col', stack')" by simp
      have "\<forall>y\<in>set (succ k). col1 y = Black \<or> y \<in> set ds"
        using prems(6) mono i1(3) by auto
      then show ?thesis
        using "4.IH"(2) [OF White d refl None refl l i1(1)] i1 prems mono
        by (auto split: option.splits)
    qed
  next
    case Gray
    show ?thesis
    proof (cases "dropWhile (\<lambda>s. s \<noteq> dep) stack")
      case Nil
      then have "dep \<notin> set stack" by (auto simp: dropWhile_eq_Nil_conv)
      with Gray prems(2) show ?thesis by (auto simp: dfs_inv_def)
    next
      case (Cons s ss)
      have "r = Some ((s # ss) @ [dep])" using prems(1) Gray Cons by simp
      moreover have "is_cycle succ ((s # ss) @ [dep])"
        using stack_cycle [OF prems(2,3,4) _ Cons] prems(5) by simp
      ultimately show ?thesis by simp
    qed
  next
    case Black
    with prems have "dfs_loop n succ k ds col stack = Some (r, col', stack')" by simp
    from "4.IH"(4) [OF Black this prems(2,3,4)] prems(5,6) Black show ?thesis by auto
  qed
qed

lemma dfs_white_mono:
  "dfs n succ k col stack = Some (r, col', stack') \<Longrightarrow> col' x = White \<Longrightarrow> col x = White"
  "dfs_loop n succ k ds col stack = Some (r, col', stack') \<Longrightarrow> col' x = White \<Longrightarrow> col x = White"
  by (induction n succ k col stack and n succ k ds col stack
      arbitrary: r col' stack' and r col' stack' rule: dfs_dfs_loop.induct)
    (force split: color.splits option.splits list.splits if_splits)+

abbreviation white_in :: "'a set \<Rightarrow> ('a \<Rightarrow> color) \<Rightarrow> 'a set" where
  "white_in N col \<equiv> {x \<in> N. col x = White}"

lemma dfs_fuel:
  "finite N \<Longrightarrow> (\<And>x. x \<in> N \<Longrightarrow> set (succ x) \<subseteq> N) \<Longrightarrow> k \<in> N \<Longrightarrow> col k = White \<Longrightarrow>
     card (white_in N col) \<le> n \<Longrightarrow> dfs n succ k col stack \<noteq> None"
  "finite N \<Longrightarrow> (\<And>x. x \<in> N \<Longrightarrow> set (succ x) \<subseteq> N) \<Longrightarrow> set ds \<subseteq> N \<Longrightarrow>
     card (white_in N col) \<le> n \<Longrightarrow> dfs_loop n succ k ds col stack \<noteq> None"
proof (induction n succ k col stack and n succ k ds col stack rule: dfs_dfs_loop.induct)
  case (1 succ k col stack)
  then have "white_in N col = {}" by simp
  with 1 show ?case by blast
next
  case (2 n succ k col stack)
  have "white_in N (col(k := Gray)) = white_in N col - {k}" by auto
  then have "card (white_in N (col(k := Gray))) \<le> n"
    using card_Suc_Diff1 [of "white_in N col" k] "2.prems" by simp
  with "2.IH" [OF "2.prems"(1,2) _ this] "2.prems"(2) [OF "2.prems"(3)] show ?case
    by (simp only: dfs.simps) blast
next
  case (4 n succ k dep ds col stack)
  show ?case
  proof (cases "col dep")
    case White
    with 4 obtain r1 col1 stack1 where d: "dfs n succ dep col stack = Some (r1, col1, stack1)"
      by fastforce
    have "card (white_in N col1) \<le> card (white_in N col)"
      using dfs_white_mono(1) [OF d] \<open>finite N\<close> by (intro card_mono) auto
    with "4.prems" have c: "card (white_in N col1) \<le> n" by linarith
    show ?thesis
    proof (cases r1)
      case None
      with "4.IH"(2) [OF White d refl None refl] "4.prems" c d White show ?thesis by simp
    next
      case (Some c)
      with d White show ?thesis by simp
    qed
  next
    case Gray
    with 4 show ?thesis by (auto split: list.splits)
  next
    case Black
    with 4 show ?thesis by simp
  qed
qed simp

section \<open>Longest-path depth: visit\<close>

text \<open>The level of a node over a table of depths: one more than its deepest successor.\<close>

definition level :: "('a \<rightharpoonup> nat) \<Rightarrow> 'a list \<Rightarrow> nat \<Rightarrow> nat" where
  "level depth ds mx = fold (\<lambda>y m. max (the (depth y) + 1) m) ds mx"

definition visit_inv :: "('a \<Rightarrow> 'a list) \<Rightarrow> 'a set \<Rightarrow> ('a \<rightharpoonup> nat) \<Rightarrow> bool" where
  "visit_inv succ opn depth \<longleftrightarrow>
     opn \<subseteq> dom depth \<and>
     (\<forall>k\<in>dom depth - opn. set (succ k) \<subseteq> dom depth - opn \<and> depth k = Some (level depth (succ k) 0))"

lemma level_Cons: "level depth (y # ys) mx = level depth ys (max (the (depth y) + 1) mx)"
  by (simp add: level_def)

lemma level_cong:
  "(\<And>y. y \<in> set ds \<Longrightarrow> depth y = depth' y) \<Longrightarrow> level depth ds mx = level depth' ds mx"
  unfolding level_def by (intro fold_cong) auto

lemma level_ge: "mx \<le> level depth ds mx"
proof (induction ds arbitrary: mx)
  case (Cons y ds)
  have "mx \<le> max (the (depth y) + 1) mx" by simp
  also have "\<dots> \<le> level depth ds (max (the (depth y) + 1) mx)" by (rule Cons.IH)
  finally show ?case by (simp only: level_Cons)
qed (simp add: level_def)

lemma level_gt: "y \<in> set ds \<Longrightarrow> the (depth y) < level depth ds mx"
proof (induction ds arbitrary: mx)
  case (Cons z ds)
  have "max (the (depth z) + 1) mx \<le> level depth ds (max (the (depth z) + 1) mx)"
    by (rule level_ge)
  with Cons show ?case by (auto simp: level_Cons)
qed simp

lemma visit_inv_less:
  assumes "visit_inv succ {} depth" "depth k = Some d" "y \<in> set (succ k)"
  shows "\<exists>dy. depth y = Some dy \<and> dy < d"
proof -
  from assms(1,2) have "set (succ k) \<subseteq> dom depth" "d = level depth (succ k) 0"
    by (auto simp: visit_inv_def dom_def)
  with assms(3) level_gt [of y "succ k" depth 0] show ?thesis
    by (auto simp: dom_def)
qed

text \<open>Two tables with the invariant agree wherever the relation is well-founded.\<close>

lemma visit_inv_unique:
  assumes "wf ((edge_rel succ)\<inverse>)" "visit_inv succ {} d1" "visit_inv succ {} d2"
    and "k \<in> dom d1" "k \<in> dom d2"
  shows "d1 k = d2 k"
  using assms(1,4,5)
proof (induction k rule: wf_induct_rule)
  case (less k)
  from less.prems assms(2,3) have
    1: "set (succ k) \<subseteq> dom d1" "d1 k = Some (level d1 (succ k) 0)" and
    2: "set (succ k) \<subseteq> dom d2" "d2 k = Some (level d2 (succ k) 0)"
    by (auto simp: visit_inv_def)
  have "d1 y = d2 y" if "y \<in> set (succ k)" for y
    using less.IH [of y] that 1 2 by (auto simp: edge_rel_def)
  then have "level d1 (succ k) 0 = level d2 (succ k) 0" by (rule level_cong)
  with 1 2 show ?case by simp
qed

text \<open>
  One visit: the table keeps its entries, the visited node is finished, and every finished
  node holds its level. The nodes in progress are ancestors of the visited one, so on an
  acyclic relation their provisional entries are never read.
\<close>

lemma visit_correct_aux:
  "visit n succ k depth = Some (d, depth') \<Longrightarrow> acyclic (edge_rel succ) \<Longrightarrow>
     visit_inv succ opn (map_of depth) \<Longrightarrow> (\<forall>x\<in>opn. (x, k) \<in> (edge_rel succ)\<^sup>+) \<Longrightarrow>
     visit_inv succ opn (map_of depth') \<and> map_of depth' k = Some d \<and> k \<notin> opn \<and>
     map_of depth \<subseteq>\<^sub>m map_of depth'"
  "visit_loop n succ ds depth mx = Some (mx', depth') \<Longrightarrow> acyclic (edge_rel succ) \<Longrightarrow>
     visit_inv succ opn (map_of depth) \<Longrightarrow> (\<forall>x\<in>opn. \<forall>y\<in>set ds. (x, y) \<in> (edge_rel succ)\<^sup>+) \<Longrightarrow>
     visit_inv succ opn (map_of depth') \<and> set ds \<subseteq> dom (map_of depth') - opn \<and>
     mx' = level (map_of depth') ds mx \<and> map_of depth \<subseteq>\<^sub>m map_of depth'"
proof (induction n succ k depth and n succ ds depth mx arbitrary: d depth' opn
    and mx' depth' opn rule: visit_visit_loop.induct)
  case (1 n succ k depth)
  have k: "k \<notin> opn"
    using "1.prems"(2,4) by (auto simp: acyclic_def)
  show ?case
  proof (cases "map_of depth k")
    case (Some d0)
    with "1.prems" k show ?thesis by (auto simp: visit.simps)
  next
    case None
    with "1.prems"(1) obtain m mx depth1 where m: "n = Suc m"
      and loop: "visit_loop m succ (succ k) (AList.update k 0 depth) 0 = Some (mx, depth1)"
      and res: "d = mx" "depth' = AList.update k mx depth1"
      by (auto simp: visit.simps split: nat.splits option.splits)
    have inv0: "visit_inv succ (insert k opn) (map_of (AList.update k 0 depth))"
    proof -
      have "level ((map_of depth)(k \<mapsto> 0)) (succ x) 0 = level (map_of depth) (succ x) 0"
        if "k \<notin> set (succ x)" for x
        using that by (intro level_cong) auto
      with "1.prems"(3) None show ?thesis
        by (fastforce simp: visit_inv_def)
    qed
    have anc: "\<forall>x\<in>insert k opn. \<forall>y\<in>set (succ k). (x, y) \<in> (edge_rel succ)\<^sup>+"
      using "1.prems"(4) by (auto simp: edge_rel_def intro: trancl_into_trancl)
    from "1.IH" [OF None m loop "1.prems"(2) inv0 anc]
    have inv1: "visit_inv succ (insert k opn) (map_of depth1)"
      and sub: "set (succ k) \<subseteq> dom (map_of depth1) - insert k opn"
      and mx: "mx = level (map_of depth1) (succ k) 0"
      and le: "(map_of depth)(k \<mapsto> 0) \<subseteq>\<^sub>m map_of depth1"
      by (simp_all del: fun_upd_apply)
    have cong: "level ((map_of depth1)(k \<mapsto> mx)) (succ x) 0 = level (map_of depth1) (succ x) 0"
      if "k \<notin> set (succ x)" for x
      using that by (intro level_cong) auto
    have "visit_inv succ opn ((map_of depth1)(k \<mapsto> mx))"
      unfolding visit_inv_def
    proof (intro conjI ballI)
      show "opn \<subseteq> dom ((map_of depth1)(k \<mapsto> mx))"
        using inv1 by (auto simp: visit_inv_def)
      fix x assume x: "x \<in> dom ((map_of depth1)(k \<mapsto> mx)) - opn"
      have *: "set (succ x) \<subseteq> dom (map_of depth1) - insert k opn"
        using x sub inv1 by (cases "x = k") (auto simp: visit_inv_def)
      then have nk: "k \<notin> set (succ x)" by auto
      from * show "set (succ x) \<subseteq> dom ((map_of depth1)(k \<mapsto> mx)) - opn" by auto
      show "((map_of depth1)(k \<mapsto> mx)) x = Some (level ((map_of depth1)(k \<mapsto> mx)) (succ x) 0)"
      proof (cases "x = k")
        case True
        with cong [OF nk] mx show ?thesis by simp
      next
        case False
        then have "map_of depth1 x = Some (level (map_of depth1) (succ x) 0)"
          using x inv1 unfolding visit_inv_def by auto
        with False cong [OF nk] show ?thesis by simp
      qed
    qed
    moreover have "map_of depth \<subseteq>\<^sub>m (map_of depth1)(k \<mapsto> mx)"
      using le None by (auto simp: map_le_def) (metis domI option.distinct(1))
    ultimately show ?thesis
      using k unfolding res map_of_update by (simp add: fun_upd_same del: fun_upd_apply)
  qed
next
  case (2 n succ depth mx)
  then show ?case by (simp add: level_def)
next
  case (3 n succ dep ds depth mx)
  from "3.prems"(1) obtain d1 depth1 where v: "visit n succ dep depth = Some (d1, depth1)"
    and l: "visit_loop n succ ds depth1 (if mx < d1 + 1 then d1 + 1 else mx) = Some (mx', depth')"
    by (auto split: option.splits)
  have "\<forall>x\<in>opn. (x, dep) \<in> (edge_rel succ)\<^sup>+" using "3.prems"(4) by simp
  from "3.IH"(1) [OF v "3.prems"(2,3) this]
  have i1: "visit_inv succ opn (map_of depth1)" and d1: "map_of depth1 dep = Some d1"
    and no: "dep \<notin> opn" and le1: "map_of depth \<subseteq>\<^sub>m map_of depth1" by auto
  have "\<forall>x\<in>opn. \<forall>y\<in>set ds. (x, y) \<in> (edge_rel succ)\<^sup>+" using "3.prems"(4) by simp
  from "3.IH"(2) [OF v refl l "3.prems"(2) i1 this]
  have i2: "visit_inv succ opn (map_of depth')" "set ds \<subseteq> dom (map_of depth') - opn"
    "mx' = level (map_of depth') ds (if mx < d1 + 1 then d1 + 1 else mx)"
    and le2: "map_of depth1 \<subseteq>\<^sub>m map_of depth'" by auto
  have d2: "map_of depth' dep = Some d1"
    using d1 le2 by (metis domI map_le_def)
  then have "mx' = level (map_of depth') (dep # ds) mx"
    using i2(3) by (simp add: level_Cons max_def)
  with i1 i2 d2 no show ?case
    using map_le_trans [OF le1 le2] by auto
qed

lemma visit_dom:
  "visit n succ k depth = Some (d, depth') \<Longrightarrow>
     dom (map_of depth) \<subseteq> dom (map_of depth') \<and> k \<in> dom (map_of depth')"
  "visit_loop n succ ds depth mx = Some (mx', depth') \<Longrightarrow>
     dom (map_of depth) \<subseteq> dom (map_of depth')"
proof (induction n succ k depth and n succ ds depth mx arbitrary: d depth'
    and mx' depth' rule: visit_visit_loop.induct)
  case (1 n succ k depth)
  then show ?case
    by (fastforce simp: visit.simps [of n succ k depth] split: option.splits nat.splits)
qed (fastforce split: option.splits)+

lemma visit_keys:
  "visit n succ k depth = Some (d, depth') \<Longrightarrow> (\<And>x. x \<in> N \<Longrightarrow> set (succ x) \<subseteq> N) \<Longrightarrow> k \<in> N \<Longrightarrow>
     distinct (map fst depth) \<Longrightarrow> fst ` set depth \<subseteq> N \<Longrightarrow>
     distinct (map fst depth') \<and> fst ` set depth' \<subseteq> N"
  "visit_loop n succ ds depth mx = Some (mx', depth') \<Longrightarrow> (\<And>x. x \<in> N \<Longrightarrow> set (succ x) \<subseteq> N) \<Longrightarrow>
     set ds \<subseteq> N \<Longrightarrow> distinct (map fst depth) \<Longrightarrow> fst ` set depth \<subseteq> N \<Longrightarrow>
     distinct (map fst depth') \<and> fst ` set depth' \<subseteq> N"
proof (induction n succ k depth and n succ ds depth mx arbitrary: d depth'
    and mx' depth' rule: visit_visit_loop.induct)
  case (1 n succ k depth)
  show ?case
  proof (cases "map_of depth k")
    case (Some d0)
    with 1 show ?thesis by (simp add: visit.simps)
  next
    case None
    with "1.prems"(1) obtain m mx depth1 where m: "n = Suc m"
      and loop: "visit_loop m succ (succ k) (AList.update k 0 depth) 0 = Some (mx, depth1)"
      and res: "d = mx" "depth' = AList.update k mx depth1"
      by (auto simp: visit.simps split: nat.splits option.splits)
    have "fst ` set (AList.update k 0 depth) \<subseteq> N"
      using "1.prems"(3,5) dom_update [of k 0 depth] by (auto simp: dom_map_of_conv_image_fst)
    then have "distinct (map fst depth1) \<and> fst ` set depth1 \<subseteq> N"
      using "1.IH" [OF None m loop "1.prems"(2)] "1.prems" by (simp add: distinct_update)
    then show ?thesis
      using res "1.prems"(3) dom_update [of k mx depth1]
      by (auto simp: distinct_update dom_map_of_conv_image_fst)
  qed
next
  case (3 n succ dep ds depth mx)
  from "3.prems"(1) obtain d1 depth1 where v: "visit n succ dep depth = Some (d1, depth1)"
    and l: "visit_loop n succ ds depth1 (if mx < d1 + 1 then d1 + 1 else mx) = Some (mx', depth')"
    by (auto split: option.splits)
  from "3.IH"(1) [OF v "3.prems"(2)] "3.IH"(2) [OF v refl l "3.prems"(2)] "3.prems" show ?case
    by simp
qed simp

lemma visit_fuel:
  "finite N \<Longrightarrow> (\<And>x. x \<in> N \<Longrightarrow> set (succ x) \<subseteq> N) \<Longrightarrow> k \<in> N \<Longrightarrow>
     card (N - dom (map_of depth)) \<le> n \<Longrightarrow> visit n succ k depth \<noteq> None"
  "finite N \<Longrightarrow> (\<And>x. x \<in> N \<Longrightarrow> set (succ x) \<subseteq> N) \<Longrightarrow> set ds \<subseteq> N \<Longrightarrow>
     card (N - dom (map_of depth)) \<le> n \<Longrightarrow> visit_loop n succ ds depth mx \<noteq> None"
proof (induction n succ k depth and n succ ds depth mx rule: visit_visit_loop.induct)
  case (1 n succ k depth)
  show ?case
  proof (cases "map_of depth k")
    case None
    then have "k \<notin> dom (map_of depth)" by auto
    note c = card_less_diff [OF \<open>finite N\<close> \<open>k \<in> N\<close> this]
    with "1.prems"(4) have "Suc (card (N - insert k (dom (map_of depth)))) \<le> n" by linarith
    then obtain m where m: "n = Suc m" "card (N - dom (map_of (AList.update k 0 depth))) \<le> m"
      by (auto dest: Suc_le_obtain)
    have "visit_loop m succ (succ k) (AList.update k 0 depth) 0 \<noteq> None"
      using "1.IH" [OF None m(1) "1.prems"(1,2) _ m(2)] "1.prems"(2) [OF "1.prems"(3)] by simp
    with None m(1) show ?thesis by (auto simp: visit.simps)
  qed (simp add: visit.simps)
next
  case (3 n succ dep ds depth mx)
  then obtain d1 depth1 where v: "visit n succ dep depth = Some (d1, depth1)" by fastforce
  have "card (N - dom (map_of depth1)) \<le> card (N - dom (map_of depth))"
    using visit_dom(1) [OF v] \<open>finite N\<close> by (intro card_mono) auto
  with "3.prems"(4) have "card (N - dom (map_of depth1)) \<le> n" by linarith
  then show ?case
    using "3.IH"(2) [OF v refl "3.prems"(1,2)] "3.prems"(3) v by simp
qed simp

end
