(* ===== verification/Status.thy ===== *)
theory Status
  imports Go_Prelude
begin

text \<open>
  The condition vocabulary of \<open>internal/domain/status/status.go\<close>: a status carries a list of
  conditions keyed by their type. \<open>SetCondition\<close> upserts, \<open>Condition\<close> finds the first
  condition of a type, \<open>IsReady\<close> reads the Ready condition. A point in time is an integer.
\<close>

datatype ConditionType = Ready | Progressing | Degraded | DriftDetected

datatype TriState = TrueS | FalseS | UnknownS

record Condition =
  cond_Type :: ConditionType
  cond_Status :: TriState
  cond_Reason :: string
  cond_Message :: string
  cond_LastTransitionTime :: int

record Status =
  Conditions :: "Condition list"
  ObservedGeneration :: int
  ProviderState :: anymap

definition zero_Status :: Status where
  "zero_Status = \<lparr>Conditions = [], ObservedGeneration = 0, ProviderState = []\<rparr>"

fun upsert_condition :: "Condition list \<Rightarrow> Condition \<Rightarrow> int \<Rightarrow> Condition list" where
  "upsert_condition [] c now = [c\<lparr>cond_LastTransitionTime := now\<rparr>]"
| "upsert_condition (existing # rest) c now =
     (if cond_Type existing = cond_Type c
      then (if cond_Status existing = cond_Status c
            then c\<lparr>cond_LastTransitionTime := cond_LastTransitionTime existing\<rparr>
            else c\<lparr>cond_LastTransitionTime := now\<rparr>) # rest
      else existing # upsert_condition rest c now)"

definition SetCondition :: "Condition \<Rightarrow> int \<Rightarrow> Status \<Rightarrow> Status" where
  "SetCondition c now s = s\<lparr>Conditions := upsert_condition (Conditions s) c now\<rparr>"

definition find_Condition :: "Status \<Rightarrow> ConditionType \<Rightarrow> Condition option" where
  "find_Condition s t = find (\<lambda>c. cond_Type c = t) (Conditions s)"

definition IsReady :: "Status \<Rightarrow> bool" where
  "IsReady s = (case find_Condition s Ready of None \<Rightarrow> False | Some c \<Rightarrow> cond_Status c = TrueS)"

text \<open>The literal \<open>status.Condition{Type, Status, Reason, Message}\<close>; its time is zero.\<close>

definition mk_cond :: "ConditionType \<Rightarrow> TriState \<Rightarrow> string \<Rightarrow> string \<Rightarrow> Condition" where
  "mk_cond t s r m = \<lparr>cond_Type = t, cond_Status = s, cond_Reason = r, cond_Message = m,
     cond_LastTransitionTime = 0\<rparr>"

text \<open>The well-formedness invariant: at most one condition of each type.\<close>

definition wf_Status :: "Status \<Rightarrow> bool" where
  "wf_Status s \<longleftrightarrow> distinct (map cond_Type (Conditions s))"

section \<open>Upserts\<close>

lemma upsert_types:
  "map cond_Type (upsert_condition cs c now) =
     (if cond_Type c \<in> cond_Type ` set cs then map cond_Type cs
      else map cond_Type cs @ [cond_Type c])"
  by (induction cs c now rule: upsert_condition.induct) auto

lemma wf_zero_Status [simp]: "wf_Status zero_Status"
  by (simp add: wf_Status_def zero_Status_def)

lemma wf_SetCondition [simp]: "wf_Status (SetCondition c now s) = wf_Status s"
  by (auto simp: wf_Status_def SetCondition_def upsert_types)

lemma find_upsert_same:
  "find (\<lambda>x. cond_Type x = cond_Type c) (upsert_condition cs c now) =
     Some (c\<lparr>cond_LastTransitionTime :=
       (case find (\<lambda>x. cond_Type x = cond_Type c) cs of
          Some old \<Rightarrow> if cond_Status old = cond_Status c then cond_LastTransitionTime old else now
        | None \<Rightarrow> now)\<rparr>)"
  by (induction cs c now rule: upsert_condition.induct) auto

lemma find_upsert_other:
  "t \<noteq> cond_Type c \<Longrightarrow>
     find (\<lambda>x. cond_Type x = t) (upsert_condition cs c now) = find (\<lambda>x. cond_Type x = t) cs"
  by (induction cs c now rule: upsert_condition.induct) auto

lemma find_SetCondition:
  "find_Condition (SetCondition c now s) t =
     (if t = cond_Type c
      then Some (c\<lparr>cond_LastTransitionTime :=
        (case find_Condition s t of
           Some old \<Rightarrow> if cond_Status old = cond_Status c then cond_LastTransitionTime old else now
         | None \<Rightarrow> now)\<rparr>)
      else find_Condition s t)"
  by (simp add: find_Condition_def SetCondition_def find_upsert_same find_upsert_other)

lemma find_zero_Status [simp]: "find_Condition zero_Status t = None"
  by (simp add: find_Condition_def zero_Status_def)

lemma SetCondition_frame [simp]:
  "ObservedGeneration (SetCondition c now s) = ObservedGeneration s"
  "ProviderState (SetCondition c now s) = ProviderState s"
  by (simp_all add: SetCondition_def)

lemma mk_cond_sel [simp]:
  "cond_Type (mk_cond t s r m) = t" "cond_Status (mk_cond t s r m) = s"
  "cond_Reason (mk_cond t s r m) = r" "cond_Message (mk_cond t s r m) = m"
  by (simp_all add: mk_cond_def)

lemma IsReady_SetCondition:
  "IsReady (SetCondition c now s) =
     (if cond_Type c = Ready then cond_Status c = TrueS else IsReady s)"
  by (auto simp: IsReady_def find_SetCondition)

text \<open>
  Setting a condition keeps one condition per type; the set type reads back as the new
  condition with its transition time kept exactly when the status value did not change;
  conditions of the other types, the generation and the provider state are untouched.
\<close>

theorem SetCondition_upsert:
  "wf_Status (SetCondition c now s) = wf_Status s \<and>
   find_Condition (SetCondition c now s) t =
     (if t = cond_Type c
      then Some (c\<lparr>cond_LastTransitionTime :=
        (case find_Condition s t of
           Some old \<Rightarrow> if cond_Status old = cond_Status c then cond_LastTransitionTime old else now
         | None \<Rightarrow> now)\<rparr>)
      else find_Condition s t) \<and>
   length (Conditions (SetCondition c now s)) =
     length (Conditions s) + (if find_Condition s (cond_Type c) = None then 1 else 0) \<and>
   ProviderState (SetCondition c now s) = ProviderState s"
proof -
  have "length (Conditions (SetCondition c now s)) =
      length (map cond_Type (upsert_condition (Conditions s) c now))"
    by (simp add: SetCondition_def)
  also have "\<dots> = length (Conditions s) +
      (if find_Condition s (cond_Type c) = None then 1 else 0)"
    by (auto simp: upsert_types find_Condition_def find_None_iff image_iff)
  finally show ?thesis
    by (simp add: find_SetCondition)
qed

end
