(* ===== verification/Resource.thy ===== *)
theory Resource
  imports Status
begin

text \<open>
  The common envelope of every manifest, \<open>internal/domain/resource/resource.go\<close>: keys,
  name references, label and DNS-label validation, the lifecycle taxonomy and
  \<open>Envelope.Validate\<close>. The regular expressions of the source are written as predicates on
  byte strings; validation errors are values of \<open>resource_error\<close>, one constructor per
  \<open>fmt.Errorf\<close> site.
\<close>

section \<open>Data\<close>

record ObserverRef =
  obs_Name :: string
  obs_Namespace :: string

record Metadata =
  md_Name :: string
  md_Namespace :: string
  md_Labels :: "(string \<times> string) list"
  md_Annotations :: "(string \<times> string) list"
  md_Observers :: "ObserverRef list"
  md_Protect :: bool
  md_Domain :: string

record Envelope =
  env_APIVersion :: string
  env_Kind :: string
  env_Metadata :: Metadata
  env_Spec :: anymap
  env_Status :: Status

datatype Key = Key (key_Namespace: string) (key_Kind: string) (key_Name: string)

datatype NameRef = NameRef (ref_Name: string) (ref_Namespace: string)

datatype Lifecycle = Managed | External | Imported

datatype resource_error =
    FieldRequired string
  | LabelTooLong string string
  | BadDNSLabel string string
  | LabelPrefixTooLong string
  | BadLabelPrefix string
  | LabelNameRequired string
  | LabelNameTooLong string
  | BadLabelName string
  | LabelValueTooLong string
  | BadLabelValue string
  | BadSelector string
  | APIVersionRequired string
  | KindRequired string
  | NameRequired string
  | InLabels "string option" resource_error
  | InResource string string resource_error

text \<open>The zero values Go gives for a missing map entry.\<close>

definition zero_Metadata :: Metadata where
  "zero_Metadata = \<lparr>md_Name = [], md_Namespace = [], md_Labels = [], md_Annotations = [],
     md_Observers = [], md_Protect = False, md_Domain = []\<rparr>"

definition zero_Envelope :: Envelope where
  "zero_Envelope = \<lparr>env_APIVersion = [], env_Kind = [], env_Metadata = zero_Metadata,
     env_Spec = [], env_Status = zero_Status\<rparr>"

definition DefaultNamespace :: string where "DefaultNamespace = ''default''"

definition DefaultDomain :: string where "DefaultDomain = ''default''"

section \<open>Namespaces, keys and references\<close>

definition NormalizeNamespace :: "string \<Rightarrow> string" where
  "NormalizeNamespace ns = (if ns = [] then DefaultNamespace else ns)"

definition NormalizeDomain :: "string \<Rightarrow> string" where
  "NormalizeDomain d = (if d = [] then DefaultDomain else d)"

definition key_String :: "Key \<Rightarrow> string" where
  "key_String k = NormalizeNamespace (key_Namespace k) @ ''/'' @ key_Kind k @ ''/'' @ key_Name k"

definition InNamespace :: "Key \<Rightarrow> string \<Rightarrow> Key" where
  "InNamespace k ns = Key (NormalizeNamespace ns) (key_Kind k) (key_Name k)"

definition env_Key :: "Envelope \<Rightarrow> Key" where
  "env_Key e = Key (NormalizeNamespace (md_Namespace (env_Metadata e))) (env_Kind e)
     (md_Name (env_Metadata e))"

definition NamespaceOr :: "NameRef \<Rightarrow> string \<Rightarrow> string" where
  "NamespaceOr r dflt = (if ref_Namespace r \<noteq> [] then ref_Namespace r else NormalizeNamespace dflt)"

definition ref_Key :: "NameRef \<Rightarrow> string \<Rightarrow> string \<Rightarrow> Key" where
  "ref_Key r dflt kind = Key (NamespaceOr r dflt) kind (ref_Name r)"

definition RefFromSpec :: "anymap \<Rightarrow> string \<Rightarrow> NameRef" where
  "RefFromSpec spec field =
     (case is_map (index_any spec field) of
        None \<Rightarrow> NameRef [] []
      | Some ref \<Rightarrow> NameRef (str_of (index_any ref ''name'')) (str_of (index_any ref ''namespace'')))"

definition RefName :: "anymap \<Rightarrow> string \<Rightarrow> string" where
  "RefName spec field = ref_Name (RefFromSpec spec field)"

definition RefNamespace :: "anymap \<Rightarrow> string \<Rightarrow> string \<Rightarrow> string" where
  "RefNamespace spec field dflt = NamespaceOr (RefFromSpec spec field) dflt"

section \<open>Label syntax\<close>

definition is_lower_alnum :: "char \<Rightarrow> bool" where
  "is_lower_alnum c \<longleftrightarrow> c \<in> set ''abcdefghijklmnopqrstuvwxyz0123456789''"

definition is_alnum :: "char \<Rightarrow> bool" where
  "is_alnum c \<longleftrightarrow> is_lower_alnum c \<or> c \<in> set ''ABCDEFGHIJKLMNOPQRSTUVWXYZ''"

text \<open>\<open>^a(b*a)?$\<close> for a first-and-last class \<open>a\<close> inside an inner class \<open>b\<close>.\<close>

definition bracketed :: "(char \<Rightarrow> bool) \<Rightarrow> (char \<Rightarrow> bool) \<Rightarrow> string \<Rightarrow> bool" where
  "bracketed a b s \<longleftrightarrow> s \<noteq> [] \<and> a (hd s) \<and> a (last s) \<and> list_all b s"

definition dnsLabelPattern :: "string \<Rightarrow> bool" where
  "dnsLabelPattern s = bracketed is_lower_alnum (\<lambda>c. c = CHR ''-'' \<or> is_lower_alnum c) s"

definition labelSegmentPattern :: "string \<Rightarrow> bool" where
  "labelSegmentPattern s = bracketed is_alnum (\<lambda>c. is_alnum c \<or> c \<in> set ''_.-'') s"

definition labelPrefixPattern :: "string \<Rightarrow> bool" where
  "labelPrefixPattern s = list_all dnsLabelPattern (Split (CHR ''.'') s)"

definition ValidateDNSLabel :: "string \<Rightarrow> string \<Rightarrow> resource_error option" where
  "ValidateDNSLabel field value =
     (if value = [] then Some (FieldRequired field)
      else if 63 < length value then Some (LabelTooLong field value)
      else if \<not> dnsLabelPattern value then Some (BadDNSLabel field value)
      else None)"

definition ValidateLabelKey :: "string \<Rightarrow> resource_error option" where
  "ValidateLabelKey key =
     (let (before, after, hasSlash) = Cut (CHR ''/'') key;
          prefix = (if hasSlash then before else []);
          name = (if hasSlash then after else before)
      in if prefix \<noteq> [] \<and> 253 < length prefix then Some (LabelPrefixTooLong prefix)
         else if prefix \<noteq> [] \<and> \<not> labelPrefixPattern prefix then Some (BadLabelPrefix prefix)
         else if name = [] then Some (LabelNameRequired key)
         else if 63 < length name then Some (LabelNameTooLong key)
         else if \<not> labelSegmentPattern name then Some (BadLabelName key)
         else None)"

definition ValidateLabelValue :: "string \<Rightarrow> resource_error option" where
  "ValidateLabelValue value =
     (if value = [] then None
      else if 63 < length value then Some (LabelValueTooLong value)
      else if \<not> labelSegmentPattern value then Some (BadLabelValue value)
      else None)"

definition ParseSelector :: "string \<Rightarrow> string \<Rightarrow> resource_error + Key" where
  "ParseSelector selector namespace =
     (let (kind, name, ok) = Cut (CHR ''/'') selector
      in if \<not> ok \<or> kind = [] \<or> name = [] \<or> CHR ''/'' \<in> set name then Inl (BadSelector selector)
         else case ValidateDNSLabel ''nameRef.name'' name of
           Some e \<Rightarrow> Inl e
         | None \<Rightarrow> (case ValidateDNSLabel ''metadata.namespace'' (NormalizeNamespace namespace) of
             Some e \<Rightarrow> Inl e
           | None \<Rightarrow> Inr (Key (NormalizeNamespace namespace) kind name)))"

section \<open>Lifecycle and envelope validation\<close>

fun lifecycle_String :: "Lifecycle \<Rightarrow> string" where
  "lifecycle_String Managed = ''Managed''"
| "lifecycle_String External = ''External''"
| "lifecycle_String Imported = ''Imported''"

definition LifecycleOf :: "Envelope \<Rightarrow> bool \<Rightarrow> Lifecycle" where
  "LifecycleOf e imported =
     (if is_bool (index_any (env_Spec e) ''external'') = Some True then External
      else if imported then Imported
      else Managed)"

definition validate_labels :: "Metadata \<Rightarrow> resource_error option" where
  "validate_labels md =
     first_error
       (\<lambda>k. case ValidateLabelKey k of
          Some e \<Rightarrow> Some (InLabels None e)
        | None \<Rightarrow> map_option (InLabels (Some k))
            (ValidateLabelValue (case map_of (md_Labels md) k of None \<Rightarrow> [] | Some v \<Rightarrow> v)))
       (sort_by id (map fst (md_Labels md)))"

definition validate_observers :: "Metadata \<Rightarrow> resource_error option" where
  "validate_observers md =
     first_error
       (\<lambda>obs. case ValidateDNSLabel ''metadata.observers.name'' (obs_Name obs) of
          Some e \<Rightarrow> Some e
        | None \<Rightarrow> (if obs_Namespace obs \<noteq> []
            then ValidateDNSLabel ''metadata.observers.namespace'' (obs_Namespace obs) else None))
       (md_Observers md)"

definition Validate :: "Envelope \<Rightarrow> resource_error option" where
  "Validate e =
     (let md = env_Metadata e; wrap = InResource (env_Kind e) (md_Name md) in
      if env_APIVersion e = [] then Some (APIVersionRequired (md_Name md))
      else if env_Kind e = [] then Some (KindRequired (md_Name md))
      else if md_Name md = [] then Some (NameRequired (env_Kind e))
      else case ValidateDNSLabel ''metadata.name'' (md_Name md) of
        Some err \<Rightarrow> Some (wrap err)
      | None \<Rightarrow> (case ValidateDNSLabel ''metadata.namespace'' (NormalizeNamespace (md_Namespace md)) of
          Some err \<Rightarrow> Some (wrap err)
        | None \<Rightarrow> (case ValidateDNSLabel ''metadata.domain'' (NormalizeDomain (md_Domain md)) of
            Some err \<Rightarrow> Some (wrap err)
          | None \<Rightarrow> (case validate_labels md of
              Some err \<Rightarrow> Some (wrap err)
            | None \<Rightarrow> map_option wrap (validate_observers md)))))"

section \<open>Keys are ordered\<close>

text \<open>The order \<open>(Namespace, Kind, Name)\<close>, lexicographic on byte strings.\<close>

instantiation Key :: linorder
begin

definition less_eq_Key :: "Key \<Rightarrow> Key \<Rightarrow> bool" where
  "less_eq_Key a b \<longleftrightarrow> key_Namespace a < key_Namespace b \<or>
     (key_Namespace a = key_Namespace b \<and> (key_Kind a < key_Kind b \<or>
       (key_Kind a = key_Kind b \<and> key_Name a \<le> key_Name b)))"

definition less_Key :: "Key \<Rightarrow> Key \<Rightarrow> bool" where
  "less_Key a b \<longleftrightarrow> a \<le> b \<and> \<not> b \<le> a"

instance
  by standard (auto simp: less_eq_Key_def less_Key_def intro: Key.expand)

end

section \<open>Names that pass validation\<close>

definition valid_label :: "string \<Rightarrow> bool" where
  "valid_label s \<longleftrightarrow> length s \<le> 63 \<and> dnsLabelPattern s"

lemma dnsLabelPattern_Nil [simp]: "\<not> dnsLabelPattern []"
  by (simp add: dnsLabelPattern_def bracketed_def)

lemma ValidateDNSLabel_None [simp]: "ValidateDNSLabel f s = None \<longleftrightarrow> valid_label s"
  by (auto simp: ValidateDNSLabel_def valid_label_def)

lemma valid_label_chars:
  assumes "valid_label s" "c \<in> set s"
  shows "c = CHR ''-'' \<or> is_lower_alnum c"
  using assms by (auto simp: valid_label_def dnsLabelPattern_def bracketed_def list_all_iff)

lemma valid_label_no_slash: "valid_label s \<Longrightarrow> CHR ''/'' \<notin> set s"
  using valid_label_chars [of s "CHR ''/''"] by (auto simp: is_lower_alnum_def)

lemma valid_label_nonempty: "valid_label s \<Longrightarrow> s \<noteq> []"
  by (auto simp: valid_label_def)

lemma valid_label_default [simp]: "valid_label ''default''"
  by (simp add: valid_label_def dnsLabelPattern_def bracketed_def is_lower_alnum_def)

lemma NormalizeNamespace_idem [simp]:
  "NormalizeNamespace (NormalizeNamespace ns) = NormalizeNamespace ns"
  by (simp add: NormalizeNamespace_def DefaultNamespace_def)

lemma NormalizeNamespace_nonempty [simp]: "NormalizeNamespace ns \<noteq> []"
  by (simp add: NormalizeNamespace_def DefaultNamespace_def)

lemma NormalizeNamespace_id: "ns \<noteq> [] \<Longrightarrow> NormalizeNamespace ns = ns"
  by (simp add: NormalizeNamespace_def)

lemma NormalizeDomain_idem [simp]: "NormalizeDomain (NormalizeDomain d) = NormalizeDomain d"
  by (simp add: NormalizeDomain_def DefaultDomain_def)

lemma env_Key_sel [simp]:
  "key_Namespace (env_Key e) = NormalizeNamespace (md_Namespace (env_Metadata e))"
  "key_Kind (env_Key e) = env_Kind e"
  "key_Name (env_Key e) = md_Name (env_Metadata e)"
  by (simp_all add: env_Key_def)

text \<open>
  A key is well formed when its namespace is normalised and neither its namespace nor its
  name contains a slash; on such keys the rendering \<open>namespace/kind/name\<close> is injective.
\<close>

definition wf_Key :: "Key \<Rightarrow> bool" where
  "wf_Key k \<longleftrightarrow> key_Namespace k \<noteq> [] \<and> CHR ''/'' \<notin> set (key_Namespace k) \<and>
     CHR ''/'' \<notin> set (key_Name k)"

lemma key_String_inj:
  assumes "wf_Key a" "wf_Key b" "key_String a = key_String b"
  shows "a = b"
proof -
  let ?sl = "CHR ''/''"
  from assms have eq: "key_Namespace a @ ?sl # (key_Kind a @ ?sl # key_Name a) =
      key_Namespace b @ ?sl # (key_Kind b @ ?sl # key_Name b)"
    by (simp add: key_String_def wf_Key_def NormalizeNamespace_id)
  have "key_Namespace a = key_Namespace b \<and>
      key_Kind a @ ?sl # key_Name a = key_Kind b @ ?sl # key_Name b"
    using assms(1,2) by (intro append_sep_inj [OF _ _ eq]) (auto simp: wf_Key_def)
  note ns = this [THEN conjunct1] and rest = this [THEN conjunct2]
  from rest have rev_eq: "rev (key_Name a) @ ?sl # rev (key_Kind a) =
      rev (key_Name b) @ ?sl # rev (key_Kind b)"
    by (metis append.assoc append_Cons append_Nil rev.simps(2) rev_append)
  have "rev (key_Name a) = rev (key_Name b) \<and> rev (key_Kind a) = rev (key_Kind b)"
    using assms(1,2) by (intro append_sep_inj [OF _ _ rev_eq]) (auto simp: wf_Key_def)
  with ns show ?thesis by (intro Key.expand) simp
qed

lemma inj_on_key_String: "(\<And>k. k \<in> S \<Longrightarrow> wf_Key k) \<Longrightarrow> inj_on key_String S"
  by (auto intro!: inj_onI key_String_inj)

section \<open>What validation establishes\<close>

text \<open>The envelope-level requirements, stated directly.\<close>

definition valid_label_key :: "string \<Rightarrow> bool" where
  "valid_label_key key \<longleftrightarrow>
     (let (before, after, hasSlash) = Cut (CHR ''/'') key;
          name = (if hasSlash then after else before)
      in (hasSlash \<and> before \<noteq> [] \<longrightarrow> length before \<le> 253 \<and> labelPrefixPattern before) \<and>
         name \<noteq> [] \<and> length name \<le> 63 \<and> labelSegmentPattern name)"

definition wf_Envelope :: "Envelope \<Rightarrow> bool" where
  "wf_Envelope e \<longleftrightarrow>
     env_APIVersion e \<noteq> [] \<and> env_Kind e \<noteq> [] \<and>
     valid_label (md_Name (env_Metadata e)) \<and>
     (md_Namespace (env_Metadata e) \<noteq> [] \<longrightarrow> valid_label (md_Namespace (env_Metadata e))) \<and>
     (md_Domain (env_Metadata e) \<noteq> [] \<longrightarrow> valid_label (md_Domain (env_Metadata e))) \<and>
     (\<forall>k v. map_of (md_Labels (env_Metadata e)) k = Some v \<longrightarrow>
        valid_label_key k \<and> (v = [] \<or> length v \<le> 63 \<and> labelSegmentPattern v)) \<and>
     (\<forall>obs\<in>set (md_Observers (env_Metadata e)).
        valid_label (obs_Name obs) \<and> (obs_Namespace obs \<noteq> [] \<longrightarrow> valid_label (obs_Namespace obs)))"

lemma ValidateLabelKey_None: "ValidateLabelKey k = None \<longleftrightarrow> valid_label_key k"
  by (auto simp: ValidateLabelKey_def valid_label_key_def Let_def split: prod.splits)

lemma ValidateLabelValue_None:
  "ValidateLabelValue v = None \<longleftrightarrow> v = [] \<or> length v \<le> 63 \<and> labelSegmentPattern v"
  by (auto simp: ValidateLabelValue_def)

lemma validate_labels_None:
  "validate_labels md = None \<longleftrightarrow>
     (\<forall>k v. map_of (md_Labels md) k = Some v \<longrightarrow>
        valid_label_key k \<and> (v = [] \<or> length v \<le> 63 \<and> labelSegmentPattern v))"
proof -
  have keys: "(\<forall>k\<in>set (map fst (md_Labels md)). P k) \<longleftrightarrow>
      (\<forall>k v. map_of (md_Labels md) k = Some v \<longrightarrow> P k)" for P
    by (metis domIff dom_map_of_conv_image_fst not_Some_eq option.distinct(1) set_map)
  show ?thesis
    unfolding validate_labels_def first_error_None_iff set_sort_by keys
    by (auto simp: ValidateLabelKey_None ValidateLabelValue_None)
qed

lemma validate_observers_None:
  "validate_observers md = None \<longleftrightarrow>
     (\<forall>obs\<in>set (md_Observers md).
        valid_label (obs_Name obs) \<and> (obs_Namespace obs \<noteq> [] \<longrightarrow> valid_label (obs_Namespace obs)))"
  by (auto simp: validate_observers_def first_error_None_iff)

lemma valid_NormalizeNamespace:
  "valid_label (NormalizeNamespace ns) \<longleftrightarrow> (ns \<noteq> [] \<longrightarrow> valid_label ns)"
  by (auto simp: NormalizeNamespace_def DefaultNamespace_def)

lemma valid_NormalizeDomain: "valid_label (NormalizeDomain d) \<longleftrightarrow> (d \<noteq> [] \<longrightarrow> valid_label d)"
  by (auto simp: NormalizeDomain_def DefaultDomain_def)

lemma Validate_None: "Validate e = None \<longleftrightarrow> wf_Envelope e"
  unfolding Validate_def wf_Envelope_def Let_def
  by (simp add: validate_labels_None validate_observers_None valid_NormalizeNamespace
      valid_NormalizeDomain) (auto dest: valid_label_nonempty)

lemma wf_Envelope_Key: "wf_Envelope e \<Longrightarrow> wf_Key (env_Key e)"
  using valid_label_no_slash
  by (auto simp: wf_Envelope_def wf_Key_def NormalizeNamespace_def DefaultNamespace_def)

text \<open>
  An envelope passes \<open>Validate\<close> exactly when its metadata meets the documented
  requirements, and the rendered keys of validated envelopes are equal only for equal keys.
\<close>

theorem Validate_characterised:
  "(Validate e = None \<longleftrightarrow> wf_Envelope e) \<and>
   (Validate e = None \<longrightarrow> Validate e' = None \<longrightarrow>
      key_String (env_Key e) = key_String (env_Key e') \<longrightarrow> env_Key e = env_Key e')"
  by (auto simp: Validate_None intro: key_String_inj wf_Envelope_Key)

definition sample_env :: "string \<Rightarrow> string \<Rightarrow> Envelope" where
  "sample_env kind name = zero_Envelope\<lparr>env_APIVersion := ''datascape.io/v1alpha1'',
     env_Kind := kind, env_Metadata := zero_Metadata\<lparr>md_Name := name\<rparr>\<rparr>"

lemma sample_env_Kind [simp]: "env_Kind (sample_env kind name) = kind"
  by (simp add: sample_env_def)

theorem Validate_characterised_witness:
  "wf_Envelope (sample_env ''Provider'' ''pg'') \<and>
   key_String (env_Key (sample_env ''Provider'' ''pg'')) \<noteq> key_String (env_Key (sample_env ''Source'' ''pg''))"
proof -
  have v: "Validate (sample_env ''Provider'' ''pg'') = None" "Validate (sample_env ''Source'' ''pg'') = None"
    "env_Key (sample_env ''Provider'' ''pg'') \<noteq> env_Key (sample_env ''Source'' ''pg'')"
    by code_simp+
  with Validate_characterised [of "sample_env ''Provider'' ''pg''" "sample_env ''Source'' ''pg''"]
  show ?thesis by blast
qed

text \<open>
  A selector \<open>Kind/name\<close> parses to the key it denotes exactly when the name and the
  namespace are DNS labels; every other selector is refused.
\<close>

theorem ParseSelector_key:
  "ParseSelector sel ns = Inr k \<longleftrightarrow>
     (\<exists>kind name. sel = kind @ ''/'' @ name \<and> kind \<noteq> [] \<and> CHR ''/'' \<notin> set kind \<and>
        valid_label name \<and> valid_label (NormalizeNamespace ns) \<and>
        k = Key (NormalizeNamespace ns) kind name)"
proof
  assume "ParseSelector sel ns = Inr k"
  moreover obtain kind name ok where "Cut (CHR ''/'') sel = (kind, name, ok)"
    by (cases "Cut (CHR ''/'') sel") auto
  ultimately have c: "Cut (CHR ''/'') sel = (kind, name, True)" "kind \<noteq> []"
    "valid_label name" "valid_label (NormalizeNamespace ns)"
    "k = Key (NormalizeNamespace ns) kind name"
    by (simp_all add: ParseSelector_def)
  then show "\<exists>kind name. sel = kind @ ''/'' @ name \<and> kind \<noteq> [] \<and> CHR ''/'' \<notin> set kind \<and>
      valid_label name \<and> valid_label (NormalizeNamespace ns) \<and>
      k = Key (NormalizeNamespace ns) kind name"
    by (auto simp: Cut_True_iff)
next
  assume "\<exists>kind name. sel = kind @ ''/'' @ name \<and> kind \<noteq> [] \<and> CHR ''/'' \<notin> set kind \<and>
      valid_label name \<and> valid_label (NormalizeNamespace ns) \<and>
      k = Key (NormalizeNamespace ns) kind name"
  then obtain kind name where h: "sel = kind @ CHR ''/'' # name" "kind \<noteq> []"
    "CHR ''/'' \<notin> set kind" "valid_label name" "valid_label (NormalizeNamespace ns)"
    "k = Key (NormalizeNamespace ns) kind name" by auto
  have "name \<noteq> []" "CHR ''/'' \<notin> set name"
    using h(4) by (auto dest: valid_label_nonempty valid_label_no_slash)
  with h show "ParseSelector sel ns = Inr k"
    by (simp add: ParseSelector_def Cut_sep)
qed

end
