(* ===== verification/Naming.thy ===== *)
theory Naming
  imports Resource
begin

text \<open>
  The naming authority \<open>internal/domain/naming/naming.go\<close>: every runtime object, network
  and workload identity name is derived here. The FNV-1a hashes of \<open>hash/fnv\<close> are computed
  on machine words; \<open>%08x\<close> and \<open>%016x\<close> render them with leading zeros. \<open>Timestamp\<close>
  (a calendar rendering of the clock) is not modelled.
\<close>

unbundle bit_operations_syntax

section \<open>FNV-1a and hexadecimal rendering\<close>

definition fnv32a :: "string \<Rightarrow> 32 word" where
  "fnv32a s = fold (\<lambda>c h. (h XOR of_nat (of_char c)) * 16777619) s 2166136261"

definition fnv64a :: "string \<Rightarrow> 64 word" where
  "fnv64a s = fold (\<lambda>c h. (h XOR of_nat (of_char c)) * 1099511628211) s 14695981039346656037"

definition hex_digit :: "nat \<Rightarrow> char" where
  "hex_digit n = ''0123456789abcdef'' ! (n mod 16)"

fun hex :: "nat \<Rightarrow> nat \<Rightarrow> string" where
  "hex 0 n = []"
| "hex (Suc w) n = hex w (n div 16) @ [hex_digit n]"

section \<open>Names\<close>

definition RuntimeObjectName :: "Envelope \<Rightarrow> string" where
  "RuntimeObjectName env = md_Name (env_Metadata env)"

definition truncateName :: "string \<Rightarrow> string" where
  "truncateName name =
     (if length name \<le> 63 then name
      else take 54 name @ ''-'' @ hex 8 (unat (fnv32a name)))"

definition NetworkName :: "string \<Rightarrow> string \<Rightarrow> string" where
  "NetworkName base domain =
     (if NormalizeDomain domain = DefaultDomain then base
      else truncateName (base @ ''-'' @ NormalizeDomain domain))"

definition PrivateNetworkName :: "string \<Rightarrow> string \<Rightarrow> Key \<Rightarrow> string" where
  "PrivateNetworkName base domain owner =
     truncateName (NetworkName base domain @ ''-own-'' @ hex 16 (unat (fnv64a (key_String owner))))"

definition edgeKey :: "string \<Rightarrow> string \<Rightarrow> string" where
  "edgeKey a b = (if b < a then b @ ''|'' @ a else a @ ''|'' @ b)"

definition EdgeNetworkName :: "Key \<Rightarrow> Key \<Rightarrow> string" where
  "EdgeNetworkName a b =
     ''access-'' @ hex 16 (unat (fnv64a (edgeKey (key_String a) (key_String b))))"

definition lower_char :: "char \<Rightarrow> char" where
  "lower_char c = (if 65 \<le> (of_char c :: nat) \<and> (of_char c :: nat) \<le> 90
     then char_of ((of_char c :: nat) + 32) else c)"

definition lowerASCII :: "string \<Rightarrow> string" where
  "lowerASCII s = map lower_char s"

definition identityScheme :: string where
  "identityScheme = ''spiffe://datascape''"

definition WorkloadIdentityURI :: "Envelope \<Rightarrow> string" where
  "WorkloadIdentityURI env =
     (let ns = NormalizeNamespace (md_Namespace (env_Metadata env));
          kind = lowerASCII (env_Kind env);
          domain = NormalizeDomain (md_Domain (env_Metadata env));
          name = md_Name (env_Metadata env)
      in if domain = DefaultDomain
         then identityScheme @ ''/'' @ ns @ ''/'' @ kind @ ''/'' @ name
         else identityScheme @ ''/'' @ ns @ ''/'' @ domain @ ''/'' @ kind @ ''/'' @ name)"

definition Derived :: "string \<Rightarrow> string list \<Rightarrow> string" where
  "Derived base parts =
     truncateName (lowerASCII (foldl (\<lambda>name p. name @ ''-'' @ p) base parts))"

section \<open>Hexadecimal suffixes\<close>

lemma length_hex [simp]: "length (hex w n) = w"
  by (induction w arbitrary: n) auto

lemma hex_digit_cases: "hex_digit n \<in> set ''0123456789abcdef''"
proof -
  have "n mod 16 < length ''0123456789abcdef''" by simp
  then show ?thesis
    unfolding hex_digit_def by (rule nth_mem)
qed

lemma hex_digits: "c \<in> set (hex w n) \<Longrightarrow> c \<in> set ''0123456789abcdef''"
proof (induction w arbitrary: n)
  case (Suc w)
  from Suc.prems have "c \<in> set (hex w (n div 16)) \<or> c = hex_digit n" by auto
  with Suc.IH hex_digit_cases show ?case by metis
qed simp

lemma hex_lower_alnum: "c \<in> set (hex w n) \<Longrightarrow> is_lower_alnum c"
  using hex_digits [of c w n] by (auto simp: is_lower_alnum_def)

lemma hex_pattern:
  assumes "0 < w"
  shows "dnsLabelPattern (hex w n)"
proof -
  have ne: "hex w n \<noteq> []" using length_hex [of w n] assms by (metis less_numeral_extra(3) list.size(3))
  show ?thesis
    using ne hex_lower_alnum [OF hd_in_set [OF ne]] hex_lower_alnum [OF last_in_set [OF ne]]
      hex_lower_alnum [of _ w n]
    by (simp add: dnsLabelPattern_def bracketed_def list_all_iff)
qed

section \<open>Truncation keeps DNS labels\<close>

lemma length_truncateName: "length (truncateName s) \<le> 63"
  by (simp add: truncateName_def)

lemma truncateName_short: "length s \<le> 63 \<Longrightarrow> truncateName s = s"
  by (simp add: truncateName_def)

lemma dnsLabelPattern_prefix:
  assumes "dnsLabelPattern s" "dnsLabelPattern h" "0 < n"
  shows "dnsLabelPattern (take n s @ ''-'' @ h)"
proof -
  have "hd (take n s @ ''-'' @ h) = hd s"
    using assms by (cases s; cases n) auto
  moreover have "last (take n s @ ''-'' @ h) = last h"
    using assms(2) by (auto simp: dnsLabelPattern_def bracketed_def)
  moreover have "\<forall>c\<in>set (take n s). c = CHR ''-'' \<or> is_lower_alnum c"
    using assms(1) by (auto simp: dnsLabelPattern_def bracketed_def list_all_iff dest: in_set_takeD)
  ultimately show ?thesis
    using assms(1,2) unfolding dnsLabelPattern_def bracketed_def
    by (auto simp: list_all_iff)
qed

lemma truncateName_valid:
  assumes "dnsLabelPattern s"
  shows "valid_label (truncateName s)"
proof (cases "length s \<le> 63")
  case True
  with assms show ?thesis by (simp add: truncateName_def valid_label_def)
next
  case False
  have "dnsLabelPattern (take 54 s @ ''-'' @ hex 8 (unat (fnv32a s)))"
    by (intro dnsLabelPattern_prefix assms hex_pattern) simp_all
  with False show ?thesis
    by (simp add: truncateName_def valid_label_def)
qed

lemma dnsLabelPattern_join:
  assumes "dnsLabelPattern a" "dnsLabelPattern b"
  shows "dnsLabelPattern (a @ ''-'' @ b)"
  using assms by (auto simp: dnsLabelPattern_def bracketed_def)

lemma dnsLabelPattern_foldl:
  assumes "dnsLabelPattern a" "\<forall>p\<in>set ps. dnsLabelPattern p"
  shows "dnsLabelPattern (foldl (\<lambda>name p. name @ ''-'' @ p) a ps)"
  using assms by (induction ps arbitrary: a) (auto intro: dnsLabelPattern_join [simplified])

lemma lowerASCII_foldl:
  "lowerASCII (foldl (\<lambda>name p. name @ ''-'' @ p) a ps) =
     foldl (\<lambda>name p. name @ ''-'' @ p) (lowerASCII a) (map lowerASCII ps)"
proof (induction ps arbitrary: a)
  case (Cons p ps)
  have "lowerASCII (a @ ''-'' @ p) = lowerASCII a @ ''-'' @ lowerASCII p"
    by (simp add: lowerASCII_def lower_char_def)
  with Cons show ?case by simp
qed simp

lemma edgeKey_sym: "edgeKey a b = edgeKey b a"
  by (cases a b rule: linorder_cases) (auto simp: edgeKey_def)

text \<open>
  A derived runtime object name is a legal DNS label of at most 63 bytes whenever its
  parts lower-case to DNS labels, and short inputs are kept verbatim.
\<close>

theorem Derived_valid_label:
  assumes "dnsLabelPattern (lowerASCII base)" "\<forall>p\<in>set parts. dnsLabelPattern (lowerASCII p)"
  shows "valid_label (Derived base parts)"
  using assms unfolding Derived_def lowerASCII_foldl
  by (intro truncateName_valid dnsLabelPattern_foldl) auto

theorem Derived_valid_label_witness:
  "valid_label (Derived ''Local-PG'' [''backup'', ''20260101t000000z''])"
  by (rule Derived_valid_label) code_simp+

text \<open>
  Network names are total DNS labels and symmetric where they must be: the default
  domain leaves the base name unchanged, any other domain gives a legal label, an edge network
  has the same name from both of its ends, and none of the names exceeds 63 bytes.
\<close>

theorem network_names:
  assumes "valid_label base" and "domain = [] \<or> valid_label domain"
  shows "valid_label (NetworkName base domain) \<and>
    (NormalizeDomain domain = DefaultDomain \<longrightarrow> NetworkName base domain = base) \<and>
    valid_label (PrivateNetworkName base domain k) \<and>
    EdgeNetworkName k k' = EdgeNetworkName k' k \<and> valid_label (EdgeNetworkName k k')"
proof -
  have nd: "valid_label (NormalizeDomain domain)"
    using assms(2) by (auto simp: valid_NormalizeDomain)
  have net: "valid_label (NetworkName base domain)"
  proof (cases "NormalizeDomain domain = DefaultDomain")
    case False
    moreover have "dnsLabelPattern (base @ ''-'' @ NormalizeDomain domain)"
      using assms(1) nd by (intro dnsLabelPattern_join) (auto simp: valid_label_def)
    ultimately show ?thesis
      using truncateName_valid by (simp add: NetworkName_def)
  qed (use assms(1) in \<open>simp add: NetworkName_def\<close>)
  have own: "dnsLabelPattern ''own''" "dnsLabelPattern ''access''" by code_simp+
  note hexpat = hex_pattern [of 16]
  have "dnsLabelPattern (NetworkName base domain @ ''-'' @ ''own'' @ ''-'' @ hex 16 n)" for n
    using net own hexpat by (intro dnsLabelPattern_join) (simp_all add: valid_label_def)
  then have priv: "valid_label (PrivateNetworkName base domain k)"
    unfolding PrivateNetworkName_def by (intro truncateName_valid) simp
  have "dnsLabelPattern (''access'' @ ''-'' @ hex 16 n)" for n
    using own hexpat by (intro dnsLabelPattern_join) simp_all
  then have "valid_label (EdgeNetworkName k k')"
    by (simp add: EdgeNetworkName_def valid_label_def)
  then show ?thesis
    using net priv by (simp add: NetworkName_def EdgeNetworkName_def edgeKey_sym)
qed

lemma network_names_base: "valid_label ''datascape''" "valid_label ''finance''"
  by code_simp+

theorem network_names_witness:
  "valid_label (NetworkName ''datascape'' ''finance'') \<and>
   EdgeNetworkName (Key ''default'' ''Provider'' ''pg'') (Key ''default'' ''Connection'' ''c'') =
     EdgeNetworkName (Key ''default'' ''Connection'' ''c'') (Key ''default'' ''Provider'' ''pg'')"
  using network_names [of "''datascape''" "''finance''"
      "Key ''default'' ''Provider'' ''pg''" "Key ''default'' ''Connection'' ''c''"]
    network_names_base by blast

section \<open>Workload identities\<close>

lemma lower_char_slash: "lower_char c = CHR ''/'' \<longleftrightarrow> c = CHR ''/''"
proof (cases "65 \<le> (of_char c :: nat) \<and> (of_char c :: nat) \<le> 90")
  case True
  then have "of_char (lower_char c) = (of_char c :: nat) + 32"
    by (simp add: lower_char_def of_char_of)
  with True have ge: "97 \<le> (of_char (lower_char c) :: nat)" "65 \<le> (of_char c :: nat)" by simp_all
  have sl: "of_char (CHR ''/'') = (47 :: nat)" by simp
  have "lower_char c \<noteq> CHR ''/''"
  proof
    assume "lower_char c = CHR ''/''"
    with ge(1) show False by (simp only: sl)
  qed
  moreover have "c \<noteq> CHR ''/''"
  proof
    assume "c = CHR ''/''"
    with ge(2) show False by (simp only: sl)
  qed
  ultimately show ?thesis by blast
next
  case False
  then have "lower_char c = c" unfolding lower_char_def by (rule if_not_P)
  then show ?thesis by simp
qed

lemma lowerASCII_no_slash: "CHR ''/'' \<notin> set s \<Longrightarrow> CHR ''/'' \<notin> set (lowerASCII s)"
  unfolding lowerASCII_def set_map image_iff using lower_char_slash by metis

text \<open>The path segments of an identity: the domain appears only when it is not the default.\<close>

definition identity_path :: "Envelope \<Rightarrow> string list" where
  "identity_path env =
     [NormalizeNamespace (md_Namespace (env_Metadata env))] @
     (if NormalizeDomain (md_Domain (env_Metadata env)) = DefaultDomain then []
      else [NormalizeDomain (md_Domain (env_Metadata env))]) @
     [lowerASCII (env_Kind env), md_Name (env_Metadata env)]"

lemma WorkloadIdentityURI_path:
  "WorkloadIdentityURI env = identityScheme @ ''/'' @ Join (identity_path env) ''/''"
  by (simp add: WorkloadIdentityURI_def identity_path_def Let_def)

lemma identity_path_no_slash:
  assumes "wf_Envelope env" "CHR ''/'' \<notin> set (env_Kind env)" "x \<in> set (identity_path env)"
  shows "CHR ''/'' \<notin> set x"
proof -
  have "valid_label (NormalizeDomain (md_Domain (env_Metadata env)))"
    "valid_label (NormalizeNamespace (md_Namespace (env_Metadata env)))"
    "valid_label (md_Name (env_Metadata env))"
    using assms(1) by (simp_all add: wf_Envelope_def valid_NormalizeDomain valid_NormalizeNamespace)
  then show ?thesis
    using assms(2,3) by (auto simp: identity_path_def valid_label_no_slash lowerASCII_no_slash
        split: if_splits)
qed

text \<open>
  Two validated resources share a workload identity exactly when they agree on
  namespace, domain, name and (up to letter case) kind: declaring a non-default domain can never
  produce an identity another resource already has.
\<close>

theorem WorkloadIdentityURI_injective:
  assumes "Validate a = None" "Validate b = None"
    and "CHR ''/'' \<notin> set (env_Kind a)" "CHR ''/'' \<notin> set (env_Kind b)"
  shows "WorkloadIdentityURI a = WorkloadIdentityURI b \<longleftrightarrow>
    NormalizeNamespace (md_Namespace (env_Metadata a)) = NormalizeNamespace (md_Namespace (env_Metadata b)) \<and>
    NormalizeDomain (md_Domain (env_Metadata a)) = NormalizeDomain (md_Domain (env_Metadata b)) \<and>
    lowerASCII (env_Kind a) = lowerASCII (env_Kind b) \<and>
    md_Name (env_Metadata a) = md_Name (env_Metadata b)"
proof -
  have sj: "Split (CHR ''/'') (Join (identity_path e) ''/'') = identity_path e"
    if "Validate e = None" "CHR ''/'' \<notin> set (env_Kind e)" for e
    using that identity_path_no_slash [of e]
    by (intro Split_Join) (auto simp: Validate_None identity_path_def)
  have "WorkloadIdentityURI a = WorkloadIdentityURI b \<longleftrightarrow> identity_path a = identity_path b"
    unfolding WorkloadIdentityURI_path same_append_eq using sj assms by metis
  also have "\<dots> \<longleftrightarrow>
    NormalizeNamespace (md_Namespace (env_Metadata a)) = NormalizeNamespace (md_Namespace (env_Metadata b)) \<and>
    NormalizeDomain (md_Domain (env_Metadata a)) = NormalizeDomain (md_Domain (env_Metadata b)) \<and>
    lowerASCII (env_Kind a) = lowerASCII (env_Kind b) \<and>
    md_Name (env_Metadata a) = md_Name (env_Metadata b)"
    by (auto simp: identity_path_def split: if_splits)
  finally show ?thesis .
qed

theorem WorkloadIdentityURI_injective_witness:
  "WorkloadIdentityURI (sample_env ''Provider'' ''pg'') \<noteq>
   WorkloadIdentityURI (sample_env ''Source'' ''pg'')"
proof -
  have "Validate (sample_env ''Provider'' ''pg'') = None" "Validate (sample_env ''Source'' ''pg'') = None"
    "lowerASCII ''Provider'' \<noteq> lowerASCII ''Source''"
    by code_simp+
  moreover have "CHR ''/'' \<notin> set ''Provider''" "CHR ''/'' \<notin> set ''Source''" by code_simp+
  ultimately show ?thesis
    using WorkloadIdentityURI_injective
      [of "sample_env ''Provider'' ''pg''" "sample_env ''Source'' ''pg''", unfolded sample_env_Kind]
    by blast
qed

end
