(* ===== verification/Alloc.thy ===== *)
theory Alloc
  imports Naming
begin

text \<open>
  The two deterministic allocators and their collision tables:
  \<open>internal/domain/hostport/hostport.go\<close> (host ports) and
  \<open>internal/domain/subnet/subnet.go\<close> (per-edge Docker subnets). The process-level
  \<open>claims\<close> maps are explicit state. \<open>net.ParseCIDR\<close> is modelled for dotted IPv4 networks;
  an IPv6 supernet is refused by the source on every path (not IPv4, or longer than a /28) and
  is refused here with the same error constructor as an unparsable one.
\<close>

unbundle bit_operations_syntax

section \<open>Decimal rendering and parsing\<close>

definition digit_char :: "nat \<Rightarrow> char" where
  "digit_char n = ''0123456789'' ! (n mod 10)"

fun show_nat :: "nat \<Rightarrow> string" where
  "show_nat n = (if n < 10 then [digit_char n] else show_nat (n div 10) @ [digit_char n])"

declare show_nat.simps [simp del]

definition digit_val :: "char \<Rightarrow> nat option" where
  "digit_val c = (if 48 \<le> (of_char c :: nat) \<and> (of_char c :: nat) \<le> 57
     then Some (of_char c - 48) else None)"

fun parse_digits :: "string \<Rightarrow> nat \<Rightarrow> nat option" where
  "parse_digits [] acc = Some acc"
| "parse_digits (c # cs) acc =
     (case digit_val c of None \<Rightarrow> None | Some d \<Rightarrow> parse_digits cs (10 * acc + d))"

definition parse_nat :: "string \<Rightarrow> nat option" where
  "parse_nat s = (if s = [] then None else parse_digits s 0)"

section \<open>Host ports\<close>

type_synonym 'a claims = "('a \<times> string list) list"

definition rangeStart :: int where "rangeStart = 20000"

definition rangeLen :: "32 word" where "rangeLen = 10000"

definition hostport_For :: "string \<Rightarrow> int" where
  "hostport_For name = rangeStart + uint (fnv32a name mod rangeLen)"

definition record_claim :: "'a \<Rightarrow> string \<Rightarrow> 'a claims \<Rightarrow> 'a claims" where
  "record_claim port name claims =
     (let names = (case map_of claims port of None \<Rightarrow> [] | Some ns \<Rightarrow> ns)
      in AList.update port (List.insert name names) claims)"

definition hostport_Resolve :: "int \<Rightarrow> string \<Rightarrow> int claims \<Rightarrow> int \<times> int claims" where
  "hostport_Resolve configured name claims =
     (if 0 < configured then (configured, claims)
      else (hostport_For name, record_claim (hostport_For name) name claims))"

definition Conflicts :: "('a::linorder) claims \<Rightarrow> ('a \<times> string list) list" where
  "Conflicts claims =
     sort_key fst (map (\<lambda>(p, ns). (p, sort_by id ns)) (filter (\<lambda>(p, ns). \<not> length ns < 2) claims))"

definition ConflictError :: "('a::linorder) claims \<Rightarrow> ('a \<times> string list) list option" where
  "ConflictError claims = (let cs = Conflicts claims in if cs = [] then None else Some cs)"

section \<open>Per-edge subnets\<close>

datatype subnet_error = InvalidSupernet string | SupernetTooSmall string

definition DefaultSupernet :: string where
  "DefaultSupernet = ''10.94.0.0/16''"

definition blockPrefix :: nat where
  "blockPrefix = 28"

definition parse_octet :: "string \<Rightarrow> nat option" where
  "parse_octet s = (case parse_nat s of
      None \<Rightarrow> None
    | Some n \<Rightarrow> (if 255 < n \<or> (1 < length s \<and> hd s = CHR ''0'') then None else Some n))"

definition parse_IPv4 :: "string \<Rightarrow> 32 word option" where
  "parse_IPv4 s = (case map parse_octet (Split (CHR ''.'') s) of
      [Some a, Some b, Some c, Some d] \<Rightarrow>
        Some (of_nat a * 16777216 + of_nat b * 65536 + of_nat c * 256 + of_nat d)
    | _ \<Rightarrow> None)"

text \<open>The network of a CIDR: the address with its host bits cleared, and the prefix length.\<close>

definition ParseCIDR :: "string \<Rightarrow> (32 word \<times> nat) option" where
  "ParseCIDR s = (case Cut (CHR ''/'') s of (addr, len, ok) \<Rightarrow>
     if \<not> ok then None
     else (case (parse_IPv4 addr, parse_nat len) of
        (Some ip, Some n) \<Rightarrow>
          (if 32 < n then None else Some (push_bit (32 - n) (drop_bit (32 - n) ip), n))
      | _ \<Rightarrow> None))"

definition show_IPv4 :: "32 word \<Rightarrow> string" where
  "show_IPv4 w = Join (map (\<lambda>k. show_nat (unat (drop_bit k w AND 255))) [24, 16, 8, 0]) ''.''"

definition subnet_block :: "32 word \<Rightarrow> nat \<Rightarrow> string \<Rightarrow> 32 word" where
  "subnet_block base ones edge =
     (let capacity = push_bit (blockPrefix - ones) (1 :: 32 word);
          index = fnv32a edge mod capacity
      in base + push_bit (32 - blockPrefix) index)"

definition subnet_For :: "string \<Rightarrow> string \<Rightarrow> string claims
    \<Rightarrow> (subnet_error + string) \<times> string claims" where
  "subnet_For supernetCIDR edge claims =
     (case ParseCIDR supernetCIDR of
        None \<Rightarrow> (Inl (InvalidSupernet supernetCIDR), claims)
      | Some (ip4, ones) \<Rightarrow>
          (if blockPrefix < ones then (Inl (SupernetTooSmall supernetCIDR), claims)
           else (let cidr = show_IPv4 (subnet_block ip4 ones edge) @ ''/'' @ show_nat blockPrefix
                 in (Inr cidr, record_claim cidr edge claims))))"

definition EdgeKey :: "string \<Rightarrow> string \<Rightarrow> string" where
  "EdgeKey a b = (let (a', b') = (if b < a then (b, a) else (a, b)) in a' @ ''|'' @ b')"

section \<open>Host ports stay in their window\<close>

lemma hostport_For_bounds: "20000 \<le> hostport_For n \<and> hostport_For n < 30000"
proof -
  have "uint (fnv32a n mod rangeLen) < uint rangeLen"
    by (simp add: rangeLen_def uint_mod)
  then have "uint (fnv32a n mod rangeLen) < 10000"
    by (simp add: rangeLen_def)
  then show ?thesis
    by (simp add: hostport_For_def rangeStart_def)
qed

lemma hostport_Resolve_pinned: "0 < c \<Longrightarrow> hostport_Resolve c n cl = (c, cl)"
  by (simp add: hostport_Resolve_def)

section \<open>The collision table\<close>

definition claimants :: "'a claims \<Rightarrow> 'a \<Rightarrow> string list" where
  "claimants cl p = (case map_of cl p of None \<Rightarrow> [] | Some ns \<Rightarrow> ns)"

definition claims_inv :: "(string \<Rightarrow> 'a) \<Rightarrow> string set \<Rightarrow> 'a claims \<Rightarrow> bool" where
  "claims_inv alloc names cl \<longleftrightarrow> distinct (map fst cl) \<and>
     (\<forall>p. distinct (claimants cl p) \<and> set (claimants cl p) = {n \<in> names. alloc n = p})"

lemma claims_inv_Nil [simp]: "claims_inv alloc {} []"
  by (simp add: claims_inv_def claimants_def)

lemma claims_inv_record:
  assumes "claims_inv alloc names cl"
  shows "claims_inv alloc (insert n names) (record_claim (alloc n) n cl)"
proof -
  have "claimants (record_claim (alloc n) n cl) p =
      (if p = alloc n then List.insert n (claimants cl p) else claimants cl p)" for p
    by (simp add: claimants_def record_claim_def Let_def)
  moreover have "distinct (map fst (record_claim (alloc n) n cl))"
    using assms by (simp add: claims_inv_def record_claim_def Let_def distinct_update)
  ultimately show ?thesis
    using assms by (auto simp: claims_inv_def)
qed

lemma Conflicts_mem:
  assumes "claims_inv alloc names cl"
  shows "(p, xs) \<in> set (Conflicts cl) \<longleftrightarrow>
    xs = sort_by id (claimants cl p) \<and> 2 \<le> card {n \<in> names. alloc n = p}"
proof -
  have d: "distinct (map fst cl)" and c: "distinct (claimants cl p)"
    "set (claimants cl p) = {n \<in> names. alloc n = p}"
    using assms by (auto simp: claims_inv_def)
  have len: "length (claimants cl p) = card {n \<in> names. alloc n = p}"
    using c by (metis distinct_card)
  have "(p, ns) \<in> set cl \<longleftrightarrow> map_of cl p = Some ns" for ns
    using d by (auto simp: map_of_eq_Some_iff)
  then have "(p, xs) \<in> set (Conflicts cl) \<longleftrightarrow>
      (\<exists>ns. map_of cl p = Some ns \<and> \<not> length ns < 2 \<and> xs = sort_by id ns)"
    by (force simp: Conflicts_def)
  also have "\<dots> \<longleftrightarrow> xs = sort_by id (claimants cl p) \<and> \<not> length (claimants cl p) < 2"
    by (auto simp: claimants_def split: option.splits)
  finally show ?thesis by (auto simp: len)
qed

text \<open>
  What an allocator promises its callers: the value handed out for a name depends on the name
  alone, and every hand-out is recorded. Over that contract the table reports exactly the
  collisions among the names resolved so far.
\<close>

locale allocator =
  fixes alloc :: "string \<Rightarrow> 'p::linorder"
    and resolve :: "string \<Rightarrow> 'p claims \<Rightarrow> 'p \<times> 'p claims"
  assumes resolve_value: "fst (resolve n cl) = alloc n"
    and resolve_records: "snd (resolve n cl) = record_claim (alloc n) n cl"
begin

definition resolve_all :: "string list \<Rightarrow> 'p claims" where
  "resolve_all ns = fold (\<lambda>n cl. snd (resolve n cl)) ns []"

lemma resolve_all_snoc: "resolve_all (ns @ [n]) = record_claim (alloc n) n (resolve_all ns)"
  by (simp add: resolve_all_def resolve_records)

lemma resolve_all_inv: "claims_inv alloc (set ns) (resolve_all ns)"
proof (induction ns rule: rev_induct)
  case (snoc n ns)
  from claims_inv_record [OF snoc] show ?case
    by (simp add: resolve_all_snoc)
qed (simp add: resolve_all_def)

lemma conflicts_exact:
  "(p, xs) \<in> set (Conflicts (resolve_all ns)) \<longleftrightarrow>
     sorted xs \<and> distinct xs \<and> set xs = {n \<in> set ns. alloc n = p} \<and> 2 \<le> length xs"
proof -
  let ?c = "claimants (resolve_all ns) p"
  have c: "distinct ?c" "set ?c = {n \<in> set ns. alloc n = p}"
    using resolve_all_inv [of ns] by (auto simp: claims_inv_def)
  have s: "sorted (sort_by id ?c)" using sorted_sort_by [of id ?c] by simp
  have "xs = sort_by id ?c \<longleftrightarrow> sorted xs \<and> distinct xs \<and> set xs = set ?c"
  proof
    assume "sorted xs \<and> distinct xs \<and> set xs = set ?c"
    then show "xs = sort_by id ?c"
      using c(1) s by (intro sorted_distinct_set_unique) auto
  qed (use c(1) s in simp)
  then show ?thesis
    using c by (auto simp: Conflicts_mem [OF resolve_all_inv] distinct_card [symmetric])
qed

lemma no_conflict_iff: "ConflictError (resolve_all ns) = None \<longleftrightarrow> inj_on alloc (set ns)"
proof -
  have "Conflicts (resolve_all ns) \<noteq> [] \<longleftrightarrow> (\<exists>p. 2 \<le> card {n \<in> set ns. alloc n = p})"
    using Conflicts_mem [OF resolve_all_inv [of ns]]
    by (metis (no_types, lifting) ex_in_conv set_empty2 surj_pair)
  also have "\<dots> \<longleftrightarrow> \<not> inj_on alloc (set ns)"
  proof -
    have "2 \<le> card {n \<in> set ns. alloc n = p} \<longleftrightarrow>
        (\<exists>a\<in>set ns. \<exists>b\<in>set ns. a \<noteq> b \<and> alloc a = p \<and> alloc b = p)" for p
      using card_le_Suc0_iff_eq [of "{n \<in> set ns. alloc n = p}"] by fastforce
    then show ?thesis by (auto simp: inj_on_def)
  qed
  finally show ?thesis by (auto simp: ConflictError_def Let_def)
qed

end

interpretation hp: allocator hostport_For "hostport_Resolve 0"
  by unfold_locales (simp_all add: hostport_Resolve_def)

section \<open>Subnets stay inside their supernet\<close>

lemma unat_2p: "k < 32 \<Longrightarrow> unat (2 ^ k :: 32 word) = 2 ^ k"
proof -
  assume k: "k < 32"
  have "unat (2 ^ k :: 32 word) = unat (of_nat (2 ^ k) :: 32 word)" by simp
  also have "\<dots> = 2 ^ k mod 2 ^ 32" by (simp add: unat_of_nat del: of_nat_power)
  also have "\<dots> = 2 ^ k"
    using k by (intro mod_less power_strict_increasing) simp_all
  finally show ?thesis .
qed

lemma unat_push_bit:
  fixes w :: "32 word"
  assumes "unat w * 2 ^ k < 2 ^ 32" "k < 32"
  shows "unat (push_bit k w) = unat w * 2 ^ k"
  using assms by (simp add: push_bit_eq_mult unat_word_ariths unat_2p)

lemma unat_push_drop:
  fixes ip :: "32 word"
  assumes "k \<le> 32"
  shows "unat (push_bit k (drop_bit k ip)) = (unat ip div 2 ^ k) * 2 ^ k"
proof (cases "k = 32")
  case True
  have "unat ip < 2 ^ 32" using unsigned_less [of ip] by simp
  with True show ?thesis by (simp add: push_bit_eq_mult)
next
  case False
  have "unat ip div 2 ^ k * 2 ^ k \<le> unat ip" by (rule div_times_less_eq_dividend)
  also have "unat ip < 2 ^ 32" using unsigned_less [of ip] by simp
  finally have lt: "unat ip div 2 ^ k * 2 ^ k < 2 ^ 32" .
  have d: "unat (drop_bit k ip) = unat ip div 2 ^ k"
    unfolding unat_drop_bit_eq by (rule drop_bit_eq_div)
  show ?thesis
    using unat_push_bit [of "drop_bit k ip" k] lt False assms unfolding d by simp
qed

lemma ParseCIDR_aligned:
  assumes "ParseCIDR s = Some (base, ones)"
  shows "ones \<le> 32 \<and> 2 ^ (32 - ones) dvd unat base"
proof -
  from assms obtain ip where "ones \<le> 32" "base = push_bit (32 - ones) (drop_bit (32 - ones) ip)"
    by (auto simp: ParseCIDR_def split: prod.splits option.splits if_splits)
  then show ?thesis by (simp add: unat_push_drop)
qed

lemma aligned_bound:
  fixes base :: "32 word"
  assumes "2 ^ (32 - ones) dvd unat base" "ones \<le> 32"
  shows "unat base + 2 ^ (32 - ones) \<le> 2 ^ 32"
proof -
  obtain q where q: "unat base = 2 ^ (32 - ones) * q" using assms(1) by blast
  have p: "(2 :: nat) ^ 32 = 2 ^ (32 - ones) * 2 ^ ones"
    using assms(2) by (simp flip: power_add)
  have "unat base < 2 ^ 32" using unsigned_less [of base] by simp
  then have "q < 2 ^ ones" unfolding q p by simp
  then have "2 ^ (32 - ones) * Suc q \<le> 2 ^ (32 - ones) * 2 ^ ones" by (intro mult_le_mono2) simp
  then show ?thesis unfolding q p by simp
qed

lemma subnet_block_value:
  assumes "ParseCIDR s = Some (base, ones)" "ones \<le> 28"
  shows "unat (subnet_block base ones e) =
    unat base + 16 * (unat (fnv32a e) mod 2 ^ (28 - ones))"
proof -
  let ?i = "unat (fnv32a e) mod 2 ^ (28 - ones)"
  have cap: "unat (push_bit (28 - ones) (1 :: 32 word)) = 2 ^ (28 - ones)"
    using assms(2) by (simp add: push_bit_eq_mult unat_2p)
  have i: "unat (fnv32a e mod push_bit (28 - ones) 1) = ?i"
    by (simp only: unat_mod_distrib cap)
  have lt: "?i < 2 ^ (28 - ones)" by simp
  have "28 - ones + 4 = 32 - ones" using assms(2) by simp
  then have p: "(2 :: nat) ^ (28 - ones) * 2 ^ 4 = 2 ^ (32 - ones)"
    by (metis power_add)
  have "?i * 2 ^ 4 < 2 ^ (32 - ones)"
    using lt unfolding p [symmetric] by simp
  moreover have "(2 :: nat) ^ (32 - ones) \<le> 2 ^ 32" by (intro power_increasing) auto
  ultimately have "?i * 2 ^ 4 < 2 ^ 32" by (rule order.strict_trans2)
  then have sh: "unat (push_bit 4 (fnv32a e mod push_bit (28 - ones) 1)) = ?i * 2 ^ 4"
    using unat_push_bit [of "fnv32a e mod push_bit (28 - ones) 1" 4] unfolding i by simp
  have "unat base + ?i * 2 ^ 4 < 2 ^ 32"
    using aligned_bound [of ones base] ParseCIDR_aligned [OF assms(1)] \<open>?i * 2 ^ 4 < 2 ^ (32 - ones)\<close>
    by simp
  then show ?thesis
    unfolding subnet_block_def Let_def blockPrefix_def
    using sh by (subst unat_add_lem [THEN iffD1]) simp_all
qed

text \<open>
  A subnet allocated for an edge is a 16-address block aligned to its size that lies
  inside the configured supernet, with no wrap-around of the 32-bit address arithmetic.
\<close>

theorem subnet_block_inside:
  assumes "ParseCIDR s = Some (base, ones)" "ones \<le> 28"
  shows "unat base \<le> unat (subnet_block base ones e) \<and>
    unat (subnet_block base ones e) + 16 \<le> unat base + 2 ^ (32 - ones) \<and>
    16 dvd unat (subnet_block base ones e)"
proof -
  let ?i = "unat (fnv32a e) mod 2 ^ (28 - ones)"
  have p: "(2 :: nat) ^ (32 - ones) = 16 * 2 ^ (28 - ones)"
    using assms(2) power_add [of "2 :: nat" 4 "28 - ones"] by simp
  have "Suc ?i \<le> 2 ^ (28 - ones)" by (simp add: Suc_leI)
  then have "16 * ?i + 16 \<le> 2 ^ (32 - ones)" unfolding p by simp
  moreover have "16 dvd unat base"
    using ParseCIDR_aligned [OF assms(1)] unfolding p by (meson dvd_mult_left)
  ultimately show ?thesis
    by (simp add: subnet_block_value [OF assms])
qed

lemma ParseCIDR_default: "ParseCIDR DefaultSupernet = Some (173932544, 16)"
  by code_simp

theorem subnet_block_inside_witness:
  "unat (173932544 :: 32 word) \<le> unat (subnet_block 173932544 16 ''a|b'') \<and>
   unat (subnet_block 173932544 16 ''a|b'') + 16 \<le> unat (173932544 :: 32 word) + 2 ^ (32 - 16) \<and>
   16 dvd unat (subnet_block 173932544 16 ''a|b'')"
  by (rule subnet_block_inside [OF ParseCIDR_default]) simp

definition default_subnet :: "string \<Rightarrow> string" where
  "default_subnet e = show_IPv4 (subnet_block 173932544 16 e) @ ''/28''"

lemma subnet_For_default:
  "subnet_For DefaultSupernet e cl = (Inr (default_subnet e), record_claim (default_subnet e) e cl)"
proof -
  have "show_nat 28 = ''28''" by code_simp
  then show ?thesis
    by (simp add: subnet_For_def ParseCIDR_default default_subnet_def blockPrefix_def Let_def)
qed

interpretation sn: allocator default_subnet
  "\<lambda>e cl. case subnet_For DefaultSupernet e cl of (r, cl') \<Rightarrow> (case r of Inl _ \<Rightarrow> [] | Inr c \<Rightarrow> c, cl')"
  by unfold_locales (simp_all add: subnet_For_default)

text \<open>
  An auto-allocated host port lies in the window 20000 to 29999 and depends on the
  component's name alone, and after any sequence of resolutions the conflict report is empty
  exactly when no two of the names resolved so far share a port, and otherwise lists each
  shared port with exactly its claimants, sorted.
\<close>

theorem hostport_conflicts_exact:
  "20000 \<le> fst (hostport_Resolve 0 n cl) \<and> fst (hostport_Resolve 0 n cl) < 30000 \<and>
   fst (hostport_Resolve 0 n cl) = fst (hostport_Resolve 0 n cl') \<and>
   (ConflictError (fold (\<lambda>n cl. snd (hostport_Resolve 0 n cl)) ns []) = None \<longleftrightarrow>
      inj_on hostport_For (set ns)) \<and>
   ((p, xs) \<in> set (Conflicts (fold (\<lambda>n cl. snd (hostport_Resolve 0 n cl)) ns [])) \<longleftrightarrow>
      sorted xs \<and> distinct xs \<and> set xs = {n \<in> set ns. hostport_For n = p} \<and> 2 \<le> length xs)"
  using hp.conflicts_exact [of p xs ns] hp.no_conflict_iff [of ns] hostport_For_bounds [of n]
  by (simp add: hp.resolve_value hp.resolve_all_def)

end
