(* ===== verification/Dep_Graph.thy ===== *)
theory Dep_Graph
  imports Dag_Search Naming
begin

text \<open>
  The dependency graph of a manifest set, \<open>internal/domain/graph/graph.go\<close>: \<open>Build\<close>
  resolves every reference field to a node, collects the edges and refuses cycles;
  \<open>TopologicalLevels\<close>, \<open>Dependents\<close> and \<open>Dependencies\<close> answer the executor's
  questions. The maps of the source are association lists, so the theorems hold for every
  iteration order. The recursive closures run with the number of nodes as fuel; for every
  graph \<open>Build\<close> returns that is enough.
\<close>

section \<open>Data\<close>

record Graph =
  Nodes :: "(Key \<times> Envelope) list"
  Edges :: "(Key \<times> Key list) list"

datatype graph_error =
    DuplicateResource Key
  | BadRef Key resource_error
  | UnresolvedRef Key string string string
  | AmbiguousRef Key string string string nat
  | UnresolvedSecretRef Key string string
  | UnresolvedObserver Key string string
  | CycleDetected "Key list"

definition refFields :: "string list" where
  "refFields = [''providerRef'', ''sourceRef'', ''targetRef'', ''connectionRef'', ''secretRef'',
     ''warehouseRef'', ''via'']"

definition configRefFields :: "(string \<times> string list) list" where
  "configRefFields = [(''catalogRef'', [''Catalog'']), (''warehouseProviderRef'', [''Provider''])]"

definition edges_of :: "(Key \<times> Key list) list \<Rightarrow> Key \<Rightarrow> Key list" where
  "edges_of es k = (case map_of es k of None \<Rightarrow> [] | Some ds \<Rightarrow> ds)"

definition add_edge :: "Key \<Rightarrow> Key \<Rightarrow> (Key \<times> Key list) list \<Rightarrow> (Key \<times> Key list) list" where
  "add_edge from to es = AList.update from (edges_of es from @ [to]) es"

section \<open>The net package\<close>

text \<open>\<open>net.SplitHostPort\<close>: the host, or nothing where the source gets an error.\<close>

definition SplitHost :: "string \<Rightarrow> string option" where
  "SplitHost hp =
     (let (rport, rest, ok) = Cut (CHR '':'') (rev hp);
          host = rev rest
      in if \<not> ok then None
         else if hd hp = CHR ''['' then
           (let (inner, after, closed) = Cut (CHR '']'') (tl hp)
            in if \<not> closed \<or> after \<noteq> CHR '':'' # rev rport then None
               else if CHR ''['' \<in> set (tl hp) \<or> CHR '']'' \<in> set after then None
               else Some inner)
         else if CHR '':'' \<in> set host \<or> CHR ''['' \<in> set hp \<or> CHR '']'' \<in> set hp then None
         else Some host)"

section \<open>Reference resolution\<close>

definition nameIndexKey :: "string \<Rightarrow> string \<Rightarrow> string" where
  "nameIndexKey ns name = NormalizeNamespace ns @ [CHR 0x00] @ name"

definition validateRef :: "Key \<Rightarrow> string \<Rightarrow> NameRef \<Rightarrow> graph_error option" where
  "validateRef from field ref =
     (case ValidateDNSLabel (field @ ''.name'') (ref_Name ref) of
        Some e \<Rightarrow> Some (BadRef from e)
      | None \<Rightarrow> (if ref_Namespace ref \<noteq> []
          then map_option (BadRef from) (ValidateDNSLabel (field @ ''.namespace'') (ref_Namespace ref))
          else None))"

definition allowedKinds :: "string \<Rightarrow> string list option" where
  "allowedKinds field =
     (if field = ''providerRef'' then Some [''Provider'']
      else if field = ''connectionRef'' then Some [''Connection'', ''SecretReference'']
      else if field = ''secretRef'' then Some [''SecretReference'']
      else if field = ''warehouseRef'' then Some [''Dataset'']
      else if field = ''via'' then Some [''Provider'']
      else None)"

definition filterKinds :: "Key list \<Rightarrow> string list option \<Rightarrow> Key list" where
  "filterKinds keys allowed =
     (case allowed of None \<Rightarrow> keys | Some ks \<Rightarrow> filter (\<lambda>k. key_Kind k \<in> set ks) keys)"

type_synonym name_index = "(string \<times> Key list) list"

definition index_get :: "name_index \<Rightarrow> string \<Rightarrow> Key list" where
  "index_get ix n = (case map_of ix n of None \<Rightarrow> [] | Some ks \<Rightarrow> ks)"

definition index_add :: "string \<Rightarrow> Key \<Rightarrow> name_index \<Rightarrow> name_index" where
  "index_add n k ix = AList.update n (index_get ix n @ [k]) ix"

text \<open>The resolve-and-append step the three reference passes of \<open>Build\<close> share.\<close>

definition resolveRefField ::
  "name_index \<Rightarrow> Envelope \<Rightarrow> string \<Rightarrow> NameRef \<Rightarrow> string list option
    \<Rightarrow> (Key \<times> Key list) list \<Rightarrow> graph_error + (Key \<times> Key list) list" where
  "resolveRefField byName e field ref allowed es =
     (let from = env_Key e; ns = NamespaceOr ref (md_Namespace (env_Metadata e)) in
      if ref_Name ref = [] then Inr es
      else case validateRef from field ref of
        Some err \<Rightarrow> Inl err
      | None \<Rightarrow>
          (case filterKinds (index_get byName (nameIndexKey ns (ref_Name ref))) allowed of
             [] \<Rightarrow> Inl (UnresolvedRef from field (ref_Name ref) ns)
           | [to] \<Rightarrow> Inr (add_edge from to es)
           | to # t2 # ts \<Rightarrow>
               Inl (AmbiguousRef from field (ref_Name ref) ns (length (to # t2 # ts)))))"

definition top_refs :: "name_index \<Rightarrow> Envelope \<Rightarrow> (Key \<times> Key list) list
    \<Rightarrow> graph_error + (Key \<times> Key list) list" where
  "top_refs byName e =
     fold_err (\<lambda>field. resolveRefField byName e field (RefFromSpec (env_Spec e) field)
       (allowedKinds field)) refFields"

definition config_refs :: "name_index \<Rightarrow> Envelope \<Rightarrow> (Key \<times> Key list) list
    \<Rightarrow> graph_error + (Key \<times> Key list) list" where
  "config_refs byName e es =
     (case is_map (index_any (env_Spec e) ''configuration'') of
        None \<Rightarrow> Inr es
      | Some configBlock \<Rightarrow>
          fold_err (\<lambda>(field, allowed). resolveRefField byName e (''configuration.'' @ field)
            (RefFromSpec configBlock field) (Some allowed)) configRefFields es)"

definition tls_ref :: "name_index \<Rightarrow> Envelope \<Rightarrow> (Key \<times> Key list) list
    \<Rightarrow> graph_error + (Key \<times> Key list) list" where
  "tls_ref byName e es =
     (case is_map (index_any (env_Spec e) ''tls'') of
        None \<Rightarrow> Inr es
      | Some tlsBlock \<Rightarrow> resolveRefField byName e ''tls.secretRef''
          (RefFromSpec tlsBlock ''secretRef'') (allowedKinds ''secretRef'') es)"

definition secret_refs :: "(Key \<times> Envelope) list \<Rightarrow> Envelope \<Rightarrow> (Key \<times> Key list) list
    \<Rightarrow> graph_error + (Key \<times> Key list) list" where
  "secret_refs nodes e es =
     (case is_list (index_any (env_Spec e) ''secretRefs'') of
        None \<Rightarrow> Inr es
      | Some refs \<Rightarrow> fold_err (\<lambda>r es.
          case is_string r of
            None \<Rightarrow> Inr es
          | Some name \<Rightarrow>
              (if name = [] then Inr es
               else case ValidateDNSLabel ''spec.secretRefs.name'' name of
                 Some err \<Rightarrow> Inl (BadRef (env_Key e) err)
               | None \<Rightarrow>
                   (let target = Key (key_Namespace (env_Key e)) ''SecretReference'' name in
                    if map_of nodes target = None
                    then Inl (UnresolvedSecretRef (env_Key e) name (key_Namespace (env_Key e)))
                    else Inr (add_edge (env_Key e) target es)))) refs es)"

definition observer_refs :: "(Key \<times> Envelope) list \<Rightarrow> Envelope \<Rightarrow> (Key \<times> Key list) list
    \<Rightarrow> graph_error + (Key \<times> Key list) list" where
  "observer_refs nodes e =
     fold_err (\<lambda>obs es.
       let ref = NameRef (obs_Name obs) (obs_Namespace obs) in
       case validateRef (env_Key e) ''metadata.observers'' ref of
         Some err \<Rightarrow> Inl err
       | None \<Rightarrow>
           (let target = ref_Key ref (md_Namespace (env_Metadata e)) ''Provider'' in
            if map_of nodes target = None
            then Inl (UnresolvedObserver (env_Key e) (obs_Name obs) (key_Namespace target))
            else Inr (add_edge (env_Key e) target es))) (md_Observers (env_Metadata e))"

definition target_edges :: "name_index \<Rightarrow> Envelope \<Rightarrow> (Key \<times> Key list) list \<Rightarrow> (Key \<times> Key list) list" where
  "target_edges byRuntimeName e es =
     (let external = bool_of (index_any (env_Spec e) ''external'');
          targetStr = str_of (index_any (env_Spec e) ''target'')
      in if env_Kind e = ''Connection'' \<and> \<not> external \<and> targetStr \<noteq> [] then
           (let host = (case SplitHost targetStr of None \<Rightarrow> targetStr | Some h \<Rightarrow> h)
            in fold (\<lambda>to es. if to \<noteq> env_Key e then add_edge (env_Key e) to es else es)
                 (index_get byRuntimeName (nameIndexKey (md_Namespace (env_Metadata e)) host)) es)
         else es)"

definition envelope_edges :: "(Key \<times> Envelope) list \<Rightarrow> name_index \<Rightarrow> name_index \<Rightarrow> Envelope
    \<Rightarrow> (Key \<times> Key list) list \<Rightarrow> graph_error + (Key \<times> Key list) list" where
  "envelope_edges nodes byName byRuntimeName e es =
     (case fold_err (\<lambda>pass. pass)
        [top_refs byName e, config_refs byName e, tls_ref byName e,
         secret_refs nodes e, observer_refs nodes e] es of
        Inl err \<Rightarrow> Inl err
      | Inr es' \<Rightarrow> Inr (target_edges byRuntimeName e es'))"

definition index_envelope :: "Envelope \<Rightarrow> (Key \<times> Envelope) list \<times> name_index \<times> name_index
    \<Rightarrow> graph_error + (Key \<times> Envelope) list \<times> name_index \<times> name_index" where
  "index_envelope e = (\<lambda>(nodes, byName, byRuntimeName).
     (let k = env_Key e; rn = RuntimeObjectName e in
      if map_of nodes k \<noteq> None then Inl (DuplicateResource k)
      else
        (let byRun = index_add (nameIndexKey (key_Namespace k) rn) k byRuntimeName in
         Inr (AList.update k e nodes,
              index_add (nameIndexKey (key_Namespace k) (key_Name k)) k byName,
              if rn \<noteq> key_Name k
              then index_add (nameIndexKey (key_Namespace k) (key_Name k)) k byRun else byRun))))"

section \<open>Cycle detection and Build\<close>

definition succs :: "Graph \<Rightarrow> Key \<Rightarrow> Key list" where
  "succs g k = edges_of (Edges g) k"

fun findCycle_loop :: "nat \<Rightarrow> (Key \<Rightarrow> Key list) \<Rightarrow> Key list \<Rightarrow> (Key \<Rightarrow> color) \<Rightarrow> Key list option option" where
  "findCycle_loop n s [] col = Some None"
| "findCycle_loop n s (k # ks) col =
     (if col k = White
      then (case dfs n s k col [] of
         None \<Rightarrow> None
       | Some (Some c, col', st) \<Rightarrow> Some (Some c)
       | Some (None, col', st) \<Rightarrow> findCycle_loop n s ks col')
      else findCycle_loop n s ks col)"

definition findCycle_run :: "Graph \<Rightarrow> Key list option option" where
  "findCycle_run g = findCycle_loop (length (Nodes g)) (succs g)
     (sort_by key_String (map fst (Nodes g))) (\<lambda>_. White)"

definition findCycle :: "Graph \<Rightarrow> Key list option" where
  "findCycle g = (case findCycle_run g of None \<Rightarrow> None | Some r \<Rightarrow> r)"

definition Build :: "Envelope list \<Rightarrow> graph_error + Graph" where
  "Build envelopes =
     (case fold_err index_envelope envelopes ([], [], []) of
        Inl err \<Rightarrow> Inl err
      | Inr (nodes, byName, byRuntimeName) \<Rightarrow>
          (case fold_err (envelope_edges nodes byName byRuntimeName) envelopes [] of
             Inl err \<Rightarrow> Inl err
           | Inr es \<Rightarrow>
               (let g = \<lparr>Nodes = nodes, Edges = es\<rparr> in
                case findCycle g of
                  Some c \<Rightarrow> Inl (CycleDetected c)
                | None \<Rightarrow> Inr g)))"

definition formatCycle :: "Key list \<Rightarrow> string" where
  "formatCycle c = Join (map key_String c) '' -> ''"

section \<open>Queries\<close>

fun visit_nodes :: "nat \<Rightarrow> (Key \<Rightarrow> Key list) \<Rightarrow> Key list \<Rightarrow> (Key \<times> nat) list \<Rightarrow> nat
    \<Rightarrow> (nat \<times> (Key \<times> nat) list) option" where
  "visit_nodes n s [] depth mx = Some (mx, depth)"
| "visit_nodes n s (k # ks) depth mx =
     (case visit n s k depth of
        None \<Rightarrow> None
      | Some (d, depth') \<Rightarrow> visit_nodes n s ks depth' (if mx < d then d else mx))"

definition level_keys :: "(Key \<times> nat) list \<Rightarrow> nat \<Rightarrow> Key list" where
  "level_keys depth d = sort_by key_String (map fst (filter (\<lambda>(k, d'). d' = d) depth))"

definition TopologicalLevels :: "Graph \<Rightarrow> Key list list" where
  "TopologicalLevels g =
     (case visit_nodes (length (Nodes g)) (succs g) (map fst (Nodes g)) [] 0 of
        None \<Rightarrow> []
      | Some (maxDepth, depth) \<Rightarrow> map (level_keys depth) [0..<maxDepth + 1])"

definition reverse_edges :: "Graph \<Rightarrow> (Key \<times> Key list) list" where
  "reverse_edges g =
     fold (\<lambda>(from, deps). fold (\<lambda>to r. add_edge to from r) deps) (Edges g) []"

definition Dependents :: "Graph \<Rightarrow> Key \<Rightarrow> Key list" where
  "Dependents g k =
     (let r = edges_of (reverse_edges g)
      in case walk (length (Nodes g)) r (r k) [] of None \<Rightarrow> [] | Some out \<Rightarrow> out)"

definition Dependencies :: "Graph \<Rightarrow> Key \<Rightarrow> Key list" where
  "Dependencies g k =
     (case walk (length (Nodes g)) (succs g) (succs g k) [] of None \<Rightarrow> [] | Some out \<Rightarrow> out)"

section \<open>Edge lists\<close>

definition edges_inv :: "Key set \<Rightarrow> (Key \<times> Key list) list \<Rightarrow> bool" where
  "edges_inv N es \<longleftrightarrow> distinct (map fst es) \<and>
     (\<forall>k. set (edges_of es k) \<subseteq> N \<and> (edges_of es k \<noteq> [] \<longrightarrow> k \<in> N))"

definition edges_le :: "(Key \<times> Key list) list \<Rightarrow> (Key \<times> Key list) list \<Rightarrow> bool" where
  "edges_le es es' \<longleftrightarrow> (\<forall>k. set (edges_of es k) \<subseteq> set (edges_of es' k))"

lemma edges_of_add_edge:
  "edges_of (add_edge f t es) k = (if k = f then edges_of es f @ [t] else edges_of es k)"
  by (simp add: edges_of_def add_edge_def)

lemma edges_inv_Nil [simp]: "edges_inv N []"
  by (simp add: edges_inv_def edges_of_def)

lemma edges_inv_add_edge: "edges_inv N es \<Longrightarrow> f \<in> N \<Longrightarrow> t \<in> N \<Longrightarrow> edges_inv N (add_edge f t es)"
  by (simp add: edges_inv_def edges_of_add_edge) (simp add: add_edge_def distinct_update)

lemma edges_le_refl [simp]: "edges_le es es"
  by (simp add: edges_le_def)

lemma edges_le_trans: "edges_le a b \<Longrightarrow> edges_le b c \<Longrightarrow> edges_le a c"
  by (auto simp: edges_le_def)

lemma edges_le_add_edge [simp]: "edges_le es (add_edge f t es)"
  by (auto simp: edges_le_def edges_of_add_edge)

text \<open>A pass that succeeds keeps the invariant and only adds edges.\<close>

definition good_pass :: "Key set \<Rightarrow> ((Key \<times> Key list) list \<Rightarrow> graph_error + (Key \<times> Key list) list) \<Rightarrow> bool" where
  "good_pass N f \<longleftrightarrow> (\<forall>es es'. f es = Inr es' \<longrightarrow> edges_inv N es \<longrightarrow> edges_inv N es' \<and> edges_le es es')"

lemma good_passD: "good_pass N f \<Longrightarrow> f es = Inr es' \<Longrightarrow> edges_inv N es \<Longrightarrow> edges_inv N es' \<and> edges_le es es'"
  by (simp add: good_pass_def)

lemma good_pass_Inr [simp]: "good_pass N Inr"
  by (simp add: good_pass_def)

lemma good_pass_fold_err:
  assumes "\<And>x. x \<in> set xs \<Longrightarrow> good_pass N (f x)"
  shows "good_pass N (fold_err f xs)"
  using assms
proof (induction xs)
  case (Cons x xs)
  show ?case
    unfolding good_pass_def
  proof (intro allI impI)
    fix es es' assume run: "fold_err f (x # xs) es = Inr es'" and inv: "edges_inv N es"
    then obtain es1 where es1: "f x es = Inr es1" "fold_err f xs es1 = Inr es'"
      by (auto split: sum.splits)
    with Cons.prems inv have 1: "edges_inv N es1 \<and> edges_le es es1"
      by (meson good_passD list.set_intros(1))
    from Cons es1(2) 1 have "edges_inv N es' \<and> edges_le es1 es'"
      by (meson good_passD list.set_intros(2))
    with 1 show "edges_inv N es' \<and> edges_le es es'"
      using edges_le_trans by blast
  qed
qed (simp add: good_pass_def)

lemma fold_err_at:
  assumes "fold_err f xs es = Inr es'" "x \<in> set xs" "edges_inv N es"
    and "\<And>x. x \<in> set xs \<Longrightarrow> good_pass N (f x)"
  obtains es1 es2 where "f x es1 = Inr es2" "edges_inv N es1" "edges_inv N es2" "edges_le es2 es'"
proof -
  from assms(2) obtain ys zs where xs: "xs = ys @ x # zs" by (meson split_list)
  with assms(1) obtain es1 es2 where r: "fold_err f ys es = Inr es1" "f x es1 = Inr es2"
    "fold_err f zs es2 = Inr es'"
    by (auto simp: fold_err_append split: sum.splits)
  have i1: "edges_inv N es1"
    using good_passD [OF good_pass_fold_err r(1)] assms(3,4) xs by simp
  have i2: "edges_inv N es2"
    using good_passD [OF assms(4) r(2) i1] assms(2) by simp
  have "edges_le es2 es'"
    using good_passD [OF good_pass_fold_err r(3) i2] assms(4) xs by simp
  with that i1 i2 r(2) show ?thesis by blast
qed

section \<open>The indexes\<close>

lemma index_get_add: "index_get (index_add n k ix) m = (if m = n then index_get ix n @ [k] else index_get ix m)"
  by (simp add: index_get_def index_add_def)

definition index_spec :: "Key list \<Rightarrow> name_index \<Rightarrow> bool" where
  "index_spec ks ix \<longleftrightarrow>
     (\<forall>n. index_get ix n = filter (\<lambda>k. nameIndexKey (key_Namespace k) (key_Name k) = n) ks)"

lemma index_spec_add:
  "index_spec ks ix \<Longrightarrow>
     index_spec (ks @ [k]) (index_add (nameIndexKey (key_Namespace k) (key_Name k)) k ix)"
  by (simp add: index_spec_def index_get_add)

lemma index_loop:
  "fold_err index_envelope envs ([], [], []) = Inr (nodes, byName, byRun) \<Longrightarrow>
     nodes = map (\<lambda>e. (env_Key e, e)) envs \<and> distinct (map env_Key envs) \<and>
     index_spec (map env_Key envs) byName \<and> index_spec (map env_Key envs) byRun"
proof (induction envs arbitrary: nodes byName byRun rule: rev_induct)
  case Nil
  then show ?case by (simp add: index_spec_def index_get_def)
next
  case (snoc e envs)
  then obtain n b r where run: "fold_err index_envelope envs ([], [], []) = Inr (n, b, r)"
    and step: "index_envelope e (n, b, r) = Inr (nodes, byName, byRun)"
    by (auto simp: fold_err_append split: sum.splits)
  note IH = snoc.IH [OF run]
  have keys: "fst ` set n = set (map env_Key envs)" using IH by (auto simp: image_iff)
  from step have fresh: "map_of n (env_Key e) = None"
    by (auto simp: index_envelope_def Let_def split: if_splits)
  then have "env_Key e \<notin> fst ` set n" by (simp add: map_of_eq_None_iff)
  moreover from step have "nodes = AList.update (env_Key e) e n"
    "byName = index_add (nameIndexKey (key_Namespace (env_Key e)) (key_Name (env_Key e))) (env_Key e) b"
    "byRun = index_add (nameIndexKey (key_Namespace (env_Key e)) (key_Name (env_Key e))) (env_Key e) r"
    using fresh by (auto simp: index_envelope_def Let_def RuntimeObjectName_def)
  ultimately show ?case
    using IH keys index_spec_add [of "map env_Key envs" b "env_Key e"]
      index_spec_add [of "map env_Key envs" r "env_Key e"]
    by (simp add: update_fresh)
qed

section \<open>Every pass adds edges between nodes\<close>

lemma index_get_sub: "index_spec ks ix \<Longrightarrow> set (index_get ix n) \<subseteq> set ks"
  by (auto simp: index_spec_def)

lemma filterKinds_sub: "set (filterKinds ks allowed) \<subseteq> set ks"
  by (auto simp: filterKinds_def split: option.splits)

lemma resolveRefField_Inr:
  assumes "resolveRefField byName e field ref allowed es = Inr es'" "ref_Name ref \<noteq> []"
  shows "\<exists>to. filterKinds (index_get byName
      (nameIndexKey (NamespaceOr ref (md_Namespace (env_Metadata e))) (ref_Name ref))) allowed = [to] \<and>
    es' = add_edge (env_Key e) to es"
  using assms
  by (auto simp: resolveRefField_def Let_def split: option.splits list.splits)

lemma good_resolveRefField:
  assumes "index_spec ks byName" "env_Key e \<in> set ks"
  shows "good_pass (set ks) (resolveRefField byName e field ref allowed)"
  unfolding good_pass_def
proof (intro allI impI)
  fix es es' assume r: "resolveRefField byName e field ref allowed es = Inr es'"
    and inv: "edges_inv (set ks) es"
  show "edges_inv (set ks) es' \<and> edges_le es es'"
  proof (cases "ref_Name ref = []")
    case True
    with r inv show ?thesis by (simp add: resolveRefField_def Let_def)
  next
    case False
    from resolveRefField_Inr [OF r False] obtain to where
      to: "to \<in> set (filterKinds (index_get byName
        (nameIndexKey (NamespaceOr ref (md_Namespace (env_Metadata e))) (ref_Name ref))) allowed)"
      and es': "es' = add_edge (env_Key e) to es" by fastforce
    from to have "to \<in> set ks"
      using filterKinds_sub index_get_sub [OF assms(1)] by blast
    with es' inv assms(2) show ?thesis by (simp add: edges_inv_add_edge)
  qed
qed

lemma good_top_refs:
  "index_spec ks byName \<Longrightarrow> env_Key e \<in> set ks \<Longrightarrow> good_pass (set ks) (top_refs byName e)"
  unfolding top_refs_def by (intro good_pass_fold_err good_resolveRefField)

lemma good_config_refs:
  "index_spec ks byName \<Longrightarrow> env_Key e \<in> set ks \<Longrightarrow> good_pass (set ks) (config_refs byName e)"
proof -
  assume a: "index_spec ks byName" "env_Key e \<in> set ks"
  have "good_pass (set ks) (fold_err (\<lambda>(field, allowed). resolveRefField byName e
      (''configuration.'' @ field) (RefFromSpec b field) (Some allowed)) configRefFields)" for b
    by (intro good_pass_fold_err) (auto intro: good_resolveRefField [OF a])
  then show ?thesis
    unfolding good_pass_def config_refs_def by (auto split: option.splits)
qed

lemma good_tls_ref:
  "index_spec ks byName \<Longrightarrow> env_Key e \<in> set ks \<Longrightarrow> good_pass (set ks) (tls_ref byName e)"
  using good_resolveRefField unfolding good_pass_def tls_ref_def
  by (fastforce split: option.splits)

lemma good_secret_refs:
  "fst ` set nodes = N \<Longrightarrow> env_Key e \<in> N \<Longrightarrow> good_pass N (secret_refs nodes e)"
proof -
  assume a: "fst ` set nodes = N" "env_Key e \<in> N"
  have node: "\<exists>y. map_of nodes k = Some y \<Longrightarrow> k \<in> N" for k
    using a(1) by (metis domI dom_map_of_conv_image_fst)
  have "good_pass N (fold_err (\<lambda>r es.
          case is_string r of
            None \<Rightarrow> Inr es
          | Some name \<Rightarrow>
              (if name = [] then Inr es
               else case ValidateDNSLabel ''spec.secretRefs.name'' name of
                 Some err \<Rightarrow> Inl (BadRef (env_Key e) err)
               | None \<Rightarrow>
                   (let target = Key (key_Namespace (env_Key e)) ''SecretReference'' name in
                    if map_of nodes target = None
                    then Inl (UnresolvedSecretRef (env_Key e) name (key_Namespace (env_Key e)))
                    else Inr (add_edge (env_Key e) target es)))) refs)" for refs
  proof (intro good_pass_fold_err, goal_cases)
    case (1 r)
    show ?case
      unfolding good_pass_def
      by (cases r) (auto simp: Let_def a(2) node intro!: edges_inv_add_edge split: if_splits)
  qed
  then show ?thesis
    unfolding good_pass_def secret_refs_def by (auto split: option.splits)
qed

lemma good_observer_refs:
  "fst ` set nodes = N \<Longrightarrow> env_Key e \<in> N \<Longrightarrow> good_pass N (observer_refs nodes e)"
proof -
  assume a: "fst ` set nodes = N" "env_Key e \<in> N"
  have node: "\<exists>y. map_of nodes k = Some y \<Longrightarrow> k \<in> N" for k
    using a(1) by (metis domI dom_map_of_conv_image_fst)
  show ?thesis
    unfolding observer_refs_def
  proof (intro good_pass_fold_err, goal_cases)
    case (1 r)
    show ?case
      unfolding good_pass_def
      by (auto simp: Let_def a(2) node intro!: edges_inv_add_edge split: if_splits)
  qed
qed

lemma target_edges_good:
  assumes "index_spec ks byRun" "env_Key e \<in> set ks" "edges_inv (set ks) es"
  shows "edges_inv (set ks) (target_edges byRun e es) \<and> edges_le es (target_edges byRun e es)"
proof -
  have "edges_inv (set ks) (fold (\<lambda>to es. if to \<noteq> env_Key e then add_edge (env_Key e) to es else es) ts es)
      \<and> edges_le es (fold (\<lambda>to es. if to \<noteq> env_Key e then add_edge (env_Key e) to es else es) ts es)"
    if "set ts \<subseteq> set ks" for ts
    using that assms(3)
  proof (induction ts arbitrary: es)
    case (Cons t ts)
    then show ?case
      using assms(2) edges_le_trans by (auto simp: edges_inv_add_edge) (meson edges_inv_add_edge edges_le_add_edge)
  qed simp
  then show ?thesis
    using index_get_sub [OF assms(1)] assms(3) by (simp add: target_edges_def Let_def)
qed

lemma good_envelope_edges:
  assumes "index_spec ks byName" "index_spec ks byRun" "fst ` set nodes = set ks" "env_Key e \<in> set ks"
  shows "good_pass (set ks) (envelope_edges nodes byName byRun e)"
proof -
  let ?ps = "[top_refs byName e, config_refs byName e, tls_ref byName e,
    secret_refs nodes e, observer_refs nodes e]"
  have g: "good_pass (set ks) (fold_err (\<lambda>pass. pass) ?ps)"
    using good_top_refs [OF assms(1,4)] good_config_refs [OF assms(1,4)] good_tls_ref [OF assms(1,4)]
      good_secret_refs [OF assms(3,4)] good_observer_refs [OF assms(3,4)]
    by (intro good_pass_fold_err) auto
  show ?thesis
    unfolding good_pass_def
  proof (intro allI impI)
    fix es es' assume r: "envelope_edges nodes byName byRun e es = Inr es'"
      and inv: "edges_inv (set ks) es"
    from r obtain es1 where es1: "fold_err (\<lambda>pass. pass) ?ps es = Inr es1"
      and es': "es' = target_edges byRun e es1"
      unfolding envelope_edges_def by (auto split: sum.splits)
    from good_passD [OF g es1 inv] have i: "edges_inv (set ks) es1" "edges_le es es1" by auto
    from target_edges_good [OF assms(2,4) i(1)] i(2) es' edges_le_trans
    show "edges_inv (set ks) es' \<and> edges_le es es'" by blast
  qed
qed

end
