(* ===== verification/Graph_Queries.thy ===== *)
theory Graph_Queries
  imports Dep_Graph
begin

text \<open>
  What the graph of \<open>internal/domain/graph/graph.go\<close> promises: \<open>Build\<close> returns exactly
  the acyclic graphs whose references resolve, \<open>TopologicalLevels\<close> layers the nodes below
  everything that depends on them, and \<open>Dependents\<close> and \<open>Dependencies\<close> are the two
  directions of the transitive closure. The contract the executor and the planner rely on is
  the locale \<open>dependency_graph\<close>, interpreted on the model.
\<close>

section \<open>Cycle detection\<close>

definition closed_Graph :: "Graph \<Rightarrow> bool" where
  "closed_Graph g \<longleftrightarrow> distinct (map fst (Nodes g)) \<and> edges_inv (fst ` set (Nodes g)) (Edges g)"

definition wf_Graph :: "Graph \<Rightarrow> bool" where
  "wf_Graph g \<longleftrightarrow> closed_Graph g \<and> acyclic (edge_rel (succs g))"

abbreviation node_keys :: "Graph \<Rightarrow> Key set" where
  "node_keys g \<equiv> fst ` set (Nodes g)"

lemma closed_succs: "closed_Graph g \<Longrightarrow> set (succs g k) \<subseteq> node_keys g"
  by (simp add: closed_Graph_def edges_inv_def succs_def)

lemma closed_succs_source: "closed_Graph g \<Longrightarrow> y \<in> set (succs g k) \<Longrightarrow> k \<in> node_keys g"
  unfolding closed_Graph_def edges_inv_def succs_def by (metis empty_iff empty_set)

lemma closed_card: "closed_Graph g \<Longrightarrow> card (node_keys g) = length (Nodes g)"
  by (metis closed_Graph_def distinct_card length_map list.set_map)

lemma findCycle_loop_correct:
  "findCycle_loop n s ks col = Some r \<Longrightarrow> dfs_inv s col [] \<Longrightarrow>
     (case r of Some c \<Rightarrow> is_cycle s c
      | None \<Rightarrow> \<exists>col'. dfs_inv s col' [] \<and> (\<forall>x. col x = Black \<longrightarrow> col' x = Black) \<and>
          (\<forall>k\<in>set ks. col' k = Black))"
proof (induction n s ks col arbitrary: r rule: findCycle_loop.induct)
  case (2 n s k ks col)
  show ?case
  proof (cases "col k = White")
    case True
    with "2.prems"(1) obtain r1 col1 st where d: "dfs n s k col [] = Some (r1, col1, st)"
      by (cases "dfs n s k col []") auto
    note step = dfs_correct_aux(1) [OF d "2.prems"(2) True]
    show ?thesis
    proof (cases r1)
      case (Some c)
      with step d True "2.prems"(1) show ?thesis by auto
    next
      case None
      with step have i: "dfs_inv s col1 []" "col1 k = Black" "\<forall>x. col x = Black \<longrightarrow> col1 x = Black"
        by auto
      from True d None "2.prems"(1) have "findCycle_loop n s ks col1 = Some r" by simp
      from "2.IH"(1) [OF True d refl None refl this i(1)] i show ?thesis
        by (auto split: option.splits)
    qed
  next
    case False
    moreover have "col k \<noteq> Gray" using "2.prems"(2) by (auto simp: dfs_inv_def)
    ultimately have "col k = Black" by (cases "col k") auto
    with 2 False show ?thesis by (fastforce split: option.splits)
  qed
qed auto

lemma findCycle_loop_fuel:
  "finite N \<Longrightarrow> (\<And>x. x \<in> N \<Longrightarrow> set (s x) \<subseteq> N) \<Longrightarrow> set ks \<subseteq> N \<Longrightarrow>
     card (white_in N col) \<le> n \<Longrightarrow> findCycle_loop n s ks col \<noteq> None"
proof (induction n s ks col rule: findCycle_loop.induct)
  case (2 n s k ks col)
  show ?case
  proof (cases "col k = White")
    case True
    with 2 obtain r1 col1 st where d: "dfs n s k col [] = Some (r1, col1, st)"
      using dfs_fuel(1) [of N s k col n "[]"] by (cases "dfs n s k col []") auto
    have "card (white_in N col1) \<le> card (white_in N col)"
      using dfs_white_mono(1) [OF d] \<open>finite N\<close> by (intro card_mono) auto
    with "2.prems" have "card (white_in N col1) \<le> n" by linarith
    with "2.IH"(1) [OF True d refl] "2.prems" d True show ?thesis by (cases r1) auto
  qed (use 2 in simp)
qed simp

lemma findCycle_run_total: "closed_Graph g \<Longrightarrow> \<exists>r. findCycle_run g = Some r"
proof -
  assume c: "closed_Graph g"
  have "card (white_in (node_keys g) (\<lambda>_. White)) \<le> length (Nodes g)"
    using closed_card [OF c] by simp
  with findCycle_loop_fuel [of "node_keys g" "succs g"] closed_succs [OF c]
  have "findCycle_run g \<noteq> None" by (simp add: findCycle_run_def)
  then show ?thesis by simp
qed

lemma dfs_inv_white: "dfs_inv s (\<lambda>_. White) []"
  by (simp add: dfs_inv_def)

lemma is_cycle_trancl: "is_cycle s c \<Longrightarrow> (hd c, hd c) \<in> (edge_rel s)\<^sup>+"
proof -
  assume c: "is_cycle s c"
  have "successively (\<lambda>x y. y \<in> set (s x)) (x # xs) \<Longrightarrow> (x, last (x # xs)) \<in> (edge_rel s)\<^sup>*" for x xs
    by (induction xs arbitrary: x) (auto simp: edge_rel_def intro: converse_rtrancl_into_rtrancl)
  moreover from c obtain x y ys where "c = x # y # ys"
    by (auto simp: is_cycle_def numeral_2_eq_2 Suc_le_length_iff)
  ultimately have "(x, y) \<in> edge_rel s" "(y, last c) \<in> (edge_rel s)\<^sup>*" "hd c = x" "hd c = last c"
    using c by (auto simp: is_cycle_def edge_rel_def simp del: last.simps) force
  then show ?thesis by (metis rtrancl_into_trancl2)
qed

lemma findCycle_sound: "findCycle g = Some c \<Longrightarrow> is_cycle (succs g) c"
  using findCycle_loop_correct [OF _ dfs_inv_white, of _ "succs g"]
  by (force simp: findCycle_def findCycle_run_def split: option.splits)

lemma findCycle_None:
  assumes "closed_Graph g" "findCycle g = None"
  shows "acyclic (edge_rel (succs g))"
proof -
  from findCycle_run_total [OF assms(1)] assms(2) have "findCycle_run g = Some None"
    by (auto simp: findCycle_def)
  from findCycle_loop_correct [OF this [unfolded findCycle_run_def] dfs_inv_white]
  obtain col where col: "dfs_inv (succs g) col []" "\<forall>k\<in>node_keys g. col k = Black"
    by auto
  show ?thesis
    unfolding acyclic_def
  proof (intro allI notI)
    fix x assume x: "(x, x) \<in> (edge_rel (succs g))\<^sup>+"
    then obtain y where "y \<in> set (succs g x)"
      by (auto simp: edge_rel_def dest: tranclD)
    then have "col x = Black" using col(2) closed_succs_source [OF assms(1)] by blast
    with col(1) x show False by (simp add: dfs_inv_def)
  qed
qed

lemma findCycle_None_iff:
  "closed_Graph g \<Longrightarrow> findCycle g = None \<longleftrightarrow> acyclic (edge_rel (succs g))"
proof
  assume "acyclic (edge_rel (succs g))"
  then have "\<not> is_cycle (succs g) c" for c
    using is_cycle_trancl by (auto simp: acyclic_def)
  then show "findCycle g = None"
    using findCycle_sound by (cases "findCycle g") auto
qed (rule findCycle_None)

section \<open>Build\<close>

text \<open>The two passes of \<open>Build\<close>, before the cycle check.\<close>

lemma edge_pass:
  assumes "fold_err index_envelope envs ([], [], []) = Inr (nodes, byName, byRun)"
    and "fold_err (envelope_edges nodes byName byRun) envs [] = Inr es"
  shows "closed_Graph \<lparr>Nodes = nodes, Edges = es\<rparr>"
proof -
  note ix = index_loop [OF assms(1)]
  have keys: "fst ` set nodes = set (map env_Key envs)" using ix by force
  have "good_pass (set (map env_Key envs)) (fold_err (envelope_edges nodes byName byRun) envs)"
    using ix keys by (intro good_pass_fold_err good_envelope_edges) auto
  from good_passD [OF this assms(2)] keys ix show ?thesis
    by (simp add: closed_Graph_def comp_def)
qed

lemma Build_cases:
  assumes "Build envs = Inr g"
  obtains byName byRun where
    "fold_err index_envelope envs ([], [], []) = Inr (Nodes g, byName, byRun)"
    "fold_err (envelope_edges (Nodes g) byName byRun) envs [] = Inr (Edges g)"
    "findCycle g = None"
  using assms by (auto simp: Build_def Let_def split: sum.splits option.splits)

lemma Build_Nodes:
  "Build envs = Inr g \<Longrightarrow> Nodes g = map (\<lambda>e. (env_Key e, e)) envs \<and> distinct (map env_Key envs)"
  by (erule Build_cases) (drule index_loop, simp)

lemma Build_node_keys: "Build envs = Inr g \<Longrightarrow> node_keys g = env_Key ` set envs"
  using Build_Nodes [of envs g] by (force simp: image_iff)

lemma Build_wf: "Build envs = Inr g \<Longrightarrow> wf_Graph g"
proof (erule Build_cases)
  fix byName byRun
  assume a: "fold_err index_envelope envs ([], [], []) = Inr (Nodes g, byName, byRun)"
    "fold_err (envelope_edges (Nodes g) byName byRun) envs [] = Inr (Edges g)"
    "findCycle g = None"
  from edge_pass [OF a(1,2)] have "closed_Graph g" by (simp add: closed_Graph_def succs_def)
  with a(3) findCycle_None show ?thesis by (simp add: wf_Graph_def)
qed

lemma wf_Graph_lookup: "Build envs = Inr g \<Longrightarrow> e \<in> set envs \<Longrightarrow> map_of (Nodes g) (env_Key e) = Some e"
  using Build_Nodes [of envs g] by (force intro!: map_of_is_SomeI simp: comp_def)

section \<open>Dependencies and Dependents\<close>

lemma Dependencies_trancl:
  assumes "closed_Graph g"
  shows "set (Dependencies g k) = {d. (k, d) \<in> (edge_rel (succs g))\<^sup>+}"
proof -
  obtain out where "walk (length (Nodes g)) (succs g) (succs g k) [] = Some out"
    using walk_fuel [of "node_keys g" "succs g k" "succs g" "[]"] closed_succs [OF assms]
      closed_card [OF assms] by (metis Diff_empty List.finite_set empty_set finite_imageI order_refl)
  from walk_reachable [OF this] this show ?thesis by (simp add: Dependencies_def)
qed

lemma edges_of_fold_add:
  "set (edges_of (fold (\<lambda>to r. add_edge to f r) ds r) k) =
     set (edges_of r k) \<union> (if k \<in> set ds then {f} else {})"
  by (induction ds arbitrary: r) (auto simp: edges_of_add_edge)

lemma reverse_edges_aux:
  "set (edges_of (fold (\<lambda>(f, ds). fold (\<lambda>to r. add_edge to f r) ds) es r) k) =
     set (edges_of r k) \<union> {f. \<exists>ds. (f, ds) \<in> set es \<and> k \<in> set ds}"
proof (induction es arbitrary: r)
  case (Cons e es)
  obtain f ds where "e = (f, ds)" by (cases e)
  with Cons show ?case by (auto simp: edges_of_fold_add)
qed simp

lemma reverse_edges:
  assumes "closed_Graph g"
  shows "f \<in> set (edges_of (reverse_edges g) k) \<longleftrightarrow> k \<in> set (succs g f)"
proof -
  have d: "distinct (map fst (Edges g))" using assms by (simp add: closed_Graph_def edges_inv_def)
  have "f \<in> set (edges_of (reverse_edges g) k) \<longleftrightarrow> (\<exists>ds. (f, ds) \<in> set (Edges g) \<and> k \<in> set ds)"
    using reverse_edges_aux [of "Edges g" "[]" k] by (simp add: reverse_edges_def edges_of_def)
  also have "\<dots> \<longleftrightarrow> k \<in> set (succs g f)"
    using d by (auto simp: succs_def edges_of_def split: option.splits dest: map_of_SomeD)
  finally show ?thesis .
qed

lemma edge_rel_reverse: "closed_Graph g \<Longrightarrow> edge_rel (edges_of (reverse_edges g)) = (edge_rel (succs g))\<inverse>"
  by (auto simp: edge_rel_def reverse_edges)

lemma Dependents_trancl:
  assumes "closed_Graph g"
  shows "set (Dependents g k) = {d. (d, k) \<in> (edge_rel (succs g))\<^sup>+}"
proof -
  let ?r = "edges_of (reverse_edges g)"
  have sub: "set (?r x) \<subseteq> node_keys g" for x
    using reverse_edges [OF assms] closed_succs_source [OF assms] by blast
  obtain out where "walk (length (Nodes g)) ?r (?r k) [] = Some out"
    using walk_fuel [of "node_keys g" "?r k" ?r "[]"] sub closed_card [OF assms]
    by (metis Diff_empty List.finite_set empty_set finite_imageI order_refl)
  from walk_reachable [OF this] this show ?thesis
    by (simp add: Dependents_def edge_rel_reverse [OF assms] trancl_converse)
qed

section \<open>Topological levels\<close>

lemma visit_nodes_correct:
  "visit_nodes n s ks depth mx = Some (mx', depth') \<Longrightarrow> acyclic (edge_rel s) \<Longrightarrow>
     visit_inv s {} (map_of depth) \<Longrightarrow>
     visit_inv s {} (map_of depth') \<and> map_of depth \<subseteq>\<^sub>m map_of depth' \<and> mx \<le> mx' \<and>
     (\<forall>k\<in>set ks. \<exists>d. map_of depth' k = Some d \<and> d \<le> mx') \<and>
     (mx' = mx \<or> mx' \<in> ran (map_of depth'))"
proof (induction n s ks depth mx rule: visit_nodes.induct)
  case (2 n s k ks depth mx)
  from "2.prems"(1) obtain d depth1 where v: "visit n s k depth = Some (d, depth1)"
    and r: "visit_nodes n s ks depth1 (if mx < d then d else mx) = Some (mx', depth')"
    by (auto split: option.splits)
  from visit_correct_aux(1) [OF v "2.prems"(2,3)]
  have i: "visit_inv s {} (map_of depth1)" "map_of depth1 k = Some d" "map_of depth \<subseteq>\<^sub>m map_of depth1"
    by auto
  note IH = "2.IH" [OF v refl r "2.prems"(2) i(1)]
  then have le: "map_of depth1 \<subseteq>\<^sub>m map_of depth'" by blast
  with i(2) have "map_of depth' k = Some d" by (metis domI map_le_def)
  moreover have "d \<le> mx'" "mx \<le> mx'" using IH by (auto split: if_splits)
  moreover have "mx' = mx \<or> mx' = d \<or> mx' \<in> ran (map_of depth')" using IH by (auto split: if_splits)
  ultimately show ?case using IH map_le_trans [OF i(3) le] by (auto intro: ranI)
qed simp

lemma visit_nodes_keys:
  "visit_nodes n s ks depth mx = Some (mx', depth') \<Longrightarrow> (\<And>x. x \<in> N \<Longrightarrow> set (s x) \<subseteq> N) \<Longrightarrow>
     set ks \<subseteq> N \<Longrightarrow> distinct (map fst depth) \<Longrightarrow> fst ` set depth \<subseteq> N \<Longrightarrow>
     distinct (map fst depth') \<and> fst ` set depth' \<subseteq> N"
proof (induction n s ks depth mx rule: visit_nodes.induct)
  case (2 n s k ks depth mx)
  from "2.prems"(1) obtain d depth1 where v: "visit n s k depth = Some (d, depth1)"
    and r: "visit_nodes n s ks depth1 (if mx < d then d else mx) = Some (mx', depth')"
    by (auto split: option.splits)
  from visit_keys(1) [OF v "2.prems"(2)] "2.IH" [OF v refl r "2.prems"(2)] "2.prems"(3-5)
  show ?case by simp
qed simp

lemma visit_nodes_fuel:
  "finite N \<Longrightarrow> (\<And>x. x \<in> N \<Longrightarrow> set (s x) \<subseteq> N) \<Longrightarrow> set ks \<subseteq> N \<Longrightarrow>
     card (N - dom (map_of depth)) \<le> n \<Longrightarrow> visit_nodes n s ks depth mx \<noteq> None"
proof (induction n s ks depth mx rule: visit_nodes.induct)
  case (2 n s k ks depth mx)
  then obtain d depth1 where v: "visit n s k depth = Some (d, depth1)"
    using visit_fuel(1) [of N s k depth n] by fastforce
  have "card (N - dom (map_of depth1)) \<le> card (N - dom (map_of depth))"
    using visit_dom(1) [OF v] \<open>finite N\<close> by (intro card_mono) auto
  with 2 v show ?case by simp
qed simp

text \<open>The finished depth table of a well-formed graph.\<close>

lemma TopologicalLevels_table:
  assumes "wf_Graph g"
  obtains maxDepth depth where
    "TopologicalLevels g = map (level_keys depth) [0..<maxDepth + 1]"
    "visit_inv (succs g) {} (map_of depth)" "distinct (map fst depth)"
    "fst ` set depth = node_keys g" "\<And>k d. map_of depth k = Some d \<Longrightarrow> d \<le> maxDepth"
    "maxDepth = 0 \<or> maxDepth \<in> ran (map_of depth)"
proof -
  from assms have c: "closed_Graph g" and ac: "acyclic (edge_rel (succs g))"
    by (simp_all add: wf_Graph_def)
  have "visit_nodes (length (Nodes g)) (succs g) (map fst (Nodes g)) [] 0 \<noteq> None"
    using visit_nodes_fuel [of "node_keys g" "succs g"] closed_succs [OF c] closed_card [OF c] by simp
  then obtain mx depth where
    v: "visit_nodes (length (Nodes g)) (succs g) (map fst (Nodes g)) [] 0 = Some (mx, depth)" by auto
  have "visit_inv (succs g) {} (map_of [])" by (simp add: visit_inv_def)
  note r = visit_nodes_correct [OF v ac this]
  have k: "distinct (map fst depth)" "fst ` set depth \<subseteq> node_keys g"
    using visit_nodes_keys [OF v, of "node_keys g"] closed_succs [OF c] by auto
  moreover have "node_keys g \<subseteq> fst ` set depth"
  proof
    fix k assume "k \<in> node_keys g"
    with r obtain d where "map_of depth k = Some d" by auto
    then show "k \<in> fst ` set depth" by (metis fst_conv image_eqI map_of_SomeD)
  qed
  moreover have "d \<le> mx" if "map_of depth k = Some d" for k d
  proof -
    have "k \<in> node_keys g" using that k(2) by (force dest: map_of_SomeD)
    with r that show ?thesis by auto
  qed
  moreover have "TopologicalLevels g = map (level_keys depth) [0..<mx + 1]"
    using v by (simp add: TopologicalLevels_def)
  ultimately show thesis
    using that [of depth mx] r by simp
qed

lemma set_level_keys:
  "distinct (map fst depth) \<Longrightarrow> set (level_keys depth d) = {k. map_of depth k = Some d}"
  by (auto simp: level_keys_def image_iff dest: map_of_SomeD)

lemma distinct_level_keys: "distinct (map fst depth) \<Longrightarrow> distinct (level_keys depth d)"
  unfolding level_keys_def distinct_sort_by
  by (induction depth) (auto simp: image_iff)

text \<open>The levels read off a finished table, whatever graph it belongs to.\<close>

lemma table_levels:
  assumes inv: "visit_inv s {} (map_of depth)" and dist: "distinct (map fst depth)"
    and bound: "\<forall>k d. map_of depth k = Some d \<longrightarrow> d \<le> mx"
    and L: "L = map (level_keys depth) [0..<mx + 1]"
  shows "distinct (concat L)" "set (concat L) = fst ` set depth"
    and "i < length L \<Longrightarrow> k \<in> set (L ! i) \<Longrightarrow> d \<in> set (s k) \<Longrightarrow> \<exists>j<i. d \<in> set (L ! j)"
proof -
  have "distinct (concat (map (level_keys depth) [0..<n]))" for n :: nat
    by (induction n) (auto simp: set_level_keys [OF dist] distinct_level_keys [OF dist])
  then show "distinct (concat L)" by (simp only: L)
  have nth: "L ! j = level_keys depth j" if "j \<le> mx" for j
    using that nth_upt [of 0 j "mx + 1"] by (simp add: L del: upt_Suc)
  have "set (concat L) = {k. \<exists>d\<le>mx. map_of depth k = Some d}"
    unfolding L by (simp add: set_level_keys [OF dist] del: upt_Suc) (auto simp: less_Suc_eq_le)
  also have "\<dots> = dom (map_of depth)" using bound by auto
  finally show "set (concat L) = fst ` set depth"
    by (simp add: dom_map_of_conv_image_fst)
  assume "i < length L" "k \<in> set (L ! i)" "d \<in> set (s k)"
  moreover from this(1) have i: "i \<le> mx" by (simp add: L)
  ultimately obtain j where "map_of depth d = Some j" "j < i"
    using visit_inv_less [OF inv, of k i d] by (auto simp: nth set_level_keys [OF dist])
  with i show "\<exists>j<i. d \<in> set (L ! j)"
    by (intro exI [of _ j]) (simp add: nth set_level_keys [OF dist])
qed

lemma levels_partition:
  assumes "wf_Graph g"
  shows "distinct (concat (TopologicalLevels g))"
    and "set (concat (TopologicalLevels g)) = node_keys g"
    and "\<And>i k d. i < length (TopologicalLevels g) \<Longrightarrow> k \<in> set (TopologicalLevels g ! i) \<Longrightarrow>
      d \<in> set (succs g k) \<Longrightarrow> \<exists>j<i. d \<in> set (TopologicalLevels g ! j)"
proof -
  obtain mx depth where
    t: "TopologicalLevels g = map (level_keys depth) [0..<mx + 1]"
    "visit_inv (succs g) {} (map_of depth)" "distinct (map fst depth)"
    "fst ` set depth = node_keys g" "\<And>k d. map_of depth k = Some d \<Longrightarrow> d \<le> mx"
    "mx = 0 \<or> mx \<in> ran (map_of depth)"
    by (rule TopologicalLevels_table [OF assms], rule that)
  have "\<forall>k d. map_of depth k = Some d \<longrightarrow> d \<le> mx" using t(5) by blast
  note tl = table_levels [OF t(2,3) this t(1)]
  show "distinct (concat (TopologicalLevels g))" "set (concat (TopologicalLevels g)) = node_keys g"
    using tl(1,2) t(4) by simp_all
  show "\<exists>j<i. d \<in> set (TopologicalLevels g ! j)"
    if "i < length (TopologicalLevels g)" "k \<in> set (TopologicalLevels g ! i)" "d \<in> set (succs g k)" for i k d
    using tl(3) that by blast
qed

section \<open>The contract of the graph\<close>

text \<open>
  What the planner and the executor rely on. A layering enumerates every node once, below the
  nodes with an edge to it; the graph adds the two queries, which are converse strict orders
  that contain the edges.
\<close>

locale layering =
  fixes invar :: "'g \<Rightarrow> bool" and nodes :: "'g \<Rightarrow> 'k set" and direct :: "'g \<Rightarrow> 'k \<Rightarrow> 'k list"
    and levels :: "'g \<Rightarrow> 'k list list"
  assumes levels_distinct: "invar g \<Longrightarrow> distinct (concat (levels g))"
    and levels_nodes: "invar g \<Longrightarrow> set (concat (levels g)) = nodes g"
    and levels_below: "invar g \<Longrightarrow> i < length (levels g) \<Longrightarrow> k \<in> set (levels g ! i) \<Longrightarrow>
      d \<in> set (direct g k) \<Longrightarrow> \<exists>j<i. d \<in> set (levels g ! j)"
begin

lemma lower_level:
  assumes "invar g" "(k, d) \<in> (edge_rel (direct g))\<^sup>+" "i < length (levels g)" "k \<in> set (levels g ! i)"
  shows "\<exists>j<i. d \<in> set (levels g ! j)"
  using assms(2)
proof (induction rule: trancl_induct)
  case (base y)
  then show ?case using levels_below [OF assms(1,3,4)] by (simp add: edge_rel_def)
next
  case (step y z)
  then obtain j where j: "j < i" "y \<in> set (levels g ! j)" by blast
  with levels_below [OF assms(1), of j y z] step.hyps(2) assms(3) obtain j' where
    "j' < j" "z \<in> set (levels g ! j')" by (auto simp: edge_rel_def)
  with j(1) show ?case by (meson less_trans)
qed

lemma node_level: "invar g \<Longrightarrow> k \<in> nodes g \<Longrightarrow> \<exists>i<length (levels g). k \<in> set (levels g ! i)"
  using levels_nodes [of g] by (metis UN_E in_set_conv_nth set_concat)

text \<open>Walking the levels in order meets everything below a node before the node.\<close>

lemma below_first:
  assumes "invar g" "(k, d) \<in> (edge_rel (direct g))\<^sup>+" "concat (levels g) = xs @ k # ys"
  shows "d \<in> set xs"
proof -
  let ?L = "levels g"
  have "k \<in> nodes g" using assms(3) levels_nodes [OF assms(1)] by (metis in_set_conv_decomp)
  then obtain i where i: "i < length ?L" "k \<in> set (?L ! i)" using node_level [OF assms(1)] by blast
  then obtain us vs where uv: "?L ! i = us @ k # vs" by (meson split_list)
  from lower_level [OF assms(1,2) i] obtain j where j: "j < i" "d \<in> set (?L ! j)" by blast
  have "?L = take i ?L @ ?L ! i # drop (Suc i) ?L" using i(1) by (rule id_take_nth_drop)
  then have "concat ?L = concat (take i ?L) @ ?L ! i @ concat (drop (Suc i) ?L)"
    by (metis concat.simps(2) concat_append)
  then have c: "concat ?L = (concat (take i ?L) @ us) @ k # (vs @ concat (drop (Suc i) ?L))"
    by (simp add: uv)
  have "k \<notin> set ys \<and> k \<notin> set xs"
    using levels_distinct [OF assms(1)] assms(3) by simp
  with c assms(3) have "xs = concat (take i ?L) @ us"
    by (metis append_Cons_eq_iff)
  moreover have "?L ! j \<in> set (take i ?L)"
    using i(1) j(1) by (auto simp: in_set_conv_nth)
  ultimately show ?thesis using j(2) by auto
qed

text \<open>Walking the levels from the last to the first meets it after the node.\<close>

lemma below_last:
  assumes "invar g" "(k, d) \<in> (edge_rel (direct g))\<^sup>+" "concat (rev (levels g)) = xs @ k # ys"
  shows "d \<in> set ys"
proof -
  let ?L = "levels g"
  have dist: "distinct (concat (rev ?L))"
    using levels_distinct [OF assms(1)] by (simp add: distinct_concat_iff removeAll_filter_not_eq rev_filter [symmetric])
  have "k \<in> nodes g"
    using assms(3) levels_nodes [OF assms(1)] by (metis in_set_conv_decomp set_concat set_rev)
  then obtain i where i: "i < length ?L" "k \<in> set (?L ! i)" using node_level [OF assms(1)] by blast
  then obtain us vs where uv: "?L ! i = us @ k # vs" by (meson split_list)
  from lower_level [OF assms(1,2) i] obtain j where j: "j < i" "d \<in> set (?L ! j)" by blast
  have "rev ?L = rev (drop (Suc i) ?L) @ ?L ! i # rev (take i ?L)"
    using arg_cong [OF id_take_nth_drop [OF i(1)], of rev] by simp
  then have "concat (rev ?L) = concat (rev (drop (Suc i) ?L)) @ ?L ! i @ concat (rev (take i ?L))"
    by (metis concat.simps(2) concat_append)
  then have c: "concat (rev ?L) = (concat (rev (drop (Suc i) ?L)) @ us) @ k # (vs @ concat (rev (take i ?L)))"
    by (simp add: uv)
  have "k \<notin> set ys \<and> k \<notin> set xs" using dist assms(3) by simp
  with c assms(3) have "ys = vs @ concat (rev (take i ?L))"
    by (metis append_Cons_eq_iff)
  moreover have "?L ! j \<in> set (take i ?L)"
    using i(1) j(1) by (auto simp: in_set_conv_nth)
  ultimately show ?thesis using j(2) by auto
qed

end

locale dependency_graph = layering invar nodes direct levels
  for invar :: "'g \<Rightarrow> bool" and nodes :: "'g \<Rightarrow> 'k set" and direct :: "'g \<Rightarrow> 'k \<Rightarrow> 'k list"
    and levels :: "'g \<Rightarrow> 'k list list" +
  fixes dependencies :: "'g \<Rightarrow> 'k \<Rightarrow> 'k list" and dependents :: "'g \<Rightarrow> 'k \<Rightarrow> 'k list"
  assumes dependencies_trancl:
      "invar g \<Longrightarrow> set (dependencies g k) = {d. (k, d) \<in> (edge_rel (direct g))\<^sup>+}"
    and dependents_trancl:
      "invar g \<Longrightarrow> set (dependents g k) = {d. (d, k) \<in> (edge_rel (direct g))\<^sup>+}"
    and no_cycle: "invar g \<Longrightarrow> acyclic (edge_rel (direct g))"
begin

lemma duality: "invar g \<Longrightarrow> d \<in> set (dependents g k) \<longleftrightarrow> k \<in> set (dependencies g d)"
  by (simp add: dependencies_trancl dependents_trancl)

lemma direct_dependency: "invar g \<Longrightarrow> set (direct g k) \<subseteq> set (dependencies g k)"
  by (auto simp: dependencies_trancl edge_rel_def)

lemma dependencies_trans:
  "invar g \<Longrightarrow> b \<in> set (dependencies g a) \<Longrightarrow> c \<in> set (dependencies g b) \<Longrightarrow> c \<in> set (dependencies g a)"
  by (auto simp: dependencies_trancl)

lemma not_own_dependency: "invar g \<Longrightarrow> k \<notin> set (dependencies g k)"
  using no_cycle by (simp add: dependencies_trancl acyclic_def)

lemma dependency_lower_level:
  "invar g \<Longrightarrow> d \<in> set (dependencies g k) \<Longrightarrow> i < length (levels g) \<Longrightarrow> k \<in> set (levels g ! i) \<Longrightarrow>
     \<exists>j<i. d \<in> set (levels g ! j)"
  by (auto simp: dependencies_trancl intro: lower_level)

lemma dependencies_first:
  "invar g \<Longrightarrow> d \<in> set (dependencies g k) \<Longrightarrow> concat (levels g) = xs @ k # ys \<Longrightarrow> d \<in> set xs"
  by (auto simp: dependencies_trancl intro: below_first)

lemma dependencies_last:
  "invar g \<Longrightarrow> d \<in> set (dependencies g k) \<Longrightarrow> concat (rev (levels g)) = xs @ k # ys \<Longrightarrow> d \<in> set ys"
  by (auto simp: dependencies_trancl intro: below_last)

end

lemmas wf_Graph_closed = wf_Graph_def [THEN iffD1, THEN conjunct1]

interpretation dg: dependency_graph wf_Graph node_keys succs TopologicalLevels Dependencies Dependents
proof
  fix g :: Graph
  assume g: "wf_Graph g"
  show "acyclic (edge_rel (succs g))" using g by (simp add: wf_Graph_def)
qed (simp_all only: Dependencies_trancl Dependents_trancl levels_partition wf_Graph_closed)

section \<open>Every reference is an edge\<close>

lemma Build_pass:
  assumes "Build envs = Inr g" "e \<in> set envs"
  obtains byName byRun where "index_spec (map env_Key envs) byName"
    "\<And>pass. pass \<in> set [top_refs byName e, config_refs byName e, tls_ref byName e,
       secret_refs (Nodes g) e, observer_refs (Nodes g) e] \<Longrightarrow>
     \<exists>es1 es2. pass es1 = Inr es2 \<and> edges_inv (node_keys g) es1 \<and> edges_le es2 (Edges g)"
proof -
  from assms(1) obtain byName byRun where
    ix: "fold_err index_envelope envs ([], [], []) = Inr (Nodes g, byName, byRun)" and
    ed: "fold_err (envelope_edges (Nodes g) byName byRun) envs [] = Inr (Edges g)"
    by (rule Build_cases)
  note spec = index_loop [OF ix]
  have keys: "node_keys g = set (map env_Key envs)" using Build_node_keys [OF assms(1)] by simp
  have good: "good_pass (node_keys g) (envelope_edges (Nodes g) byName byRun x)" if "x \<in> set envs" for x
    using spec that unfolding keys by (intro good_envelope_edges) (auto simp: image_iff)
  obtain es1 es2 where e: "envelope_edges (Nodes g) byName byRun e es1 = Inr es2"
    "edges_inv (node_keys g) es1" "edges_le es2 (Edges g)"
    using fold_err_at [OF ed assms(2) edges_inv_Nil good] by blast
  let ?ps = "[top_refs byName e, config_refs byName e, tls_ref byName e,
       secret_refs (Nodes g) e, observer_refs (Nodes g) e]"
  from e(1) obtain es3 where f: "fold_err (\<lambda>pass. pass) ?ps es1 = Inr es3"
    and es2: "es2 = target_edges byRun e es3"
    unfolding envelope_edges_def by (auto split: sum.splits)
  have ixs: "index_spec (map env_Key envs) byName" "index_spec (map env_Key envs) byRun"
    using spec by auto
  have ek: "env_Key e \<in> set (map env_Key envs)" "env_Key e \<in> node_keys g"
    using assms(2) keys by auto
  have gp: "good_pass (node_keys g) p" if "p \<in> set ?ps" for p
    using that good_top_refs [OF ixs(1) ek(1), folded keys] good_config_refs [OF ixs(1) ek(1), folded keys]
      good_tls_ref [OF ixs(1) ek(1), folded keys] good_secret_refs [OF refl ek(2)]
      good_observer_refs [OF refl ek(2)] by auto
  have "edges_inv (node_keys g) es3" using good_passD [OF good_pass_fold_err f e(2)] gp by blast
  then have le: "edges_le es3 (Edges g)"
    using target_edges_good [OF ixs(2) ek(1), folded keys] e(3) es2 edges_le_trans by blast
  have "\<exists>es1 es2. pass es1 = Inr es2 \<and> edges_inv (node_keys g) es1 \<and> edges_le es2 (Edges g)"
    if "pass \<in> set ?ps" for pass
    using fold_err_at [OF f that e(2) gp] le edges_le_trans by metis
  with spec that show thesis by blast
qed

definition kind_ok :: "string list option \<Rightarrow> Key \<Rightarrow> bool" where
  "kind_ok allowed k \<longleftrightarrow> (case allowed of None \<Rightarrow> True | Some ks \<Rightarrow> key_Kind k \<in> set ks)"

text \<open>A reference denotes the nodes of its name in its namespace, of the kinds its field allows.\<close>

definition denoted :: "Graph \<Rightarrow> Envelope \<Rightarrow> NameRef \<Rightarrow> string list option \<Rightarrow> Key set" where
  "denoted g e ref allowed = {k \<in> node_keys g.
     key_Namespace k = NamespaceOr ref (md_Namespace (env_Metadata e)) \<and>
     key_Name k = ref_Name ref \<and> kind_ok allowed k}"

lemma filterKinds_set: "set (filterKinds ks allowed) = {k \<in> set ks. kind_ok allowed k}"
  by (auto simp: filterKinds_def kind_ok_def split: option.splits)

lemma valid_label_no_NUL: "valid_label s \<Longrightarrow> CHR 0x00 \<notin> set s"
  using valid_label_chars [of s "CHR 0x00"] by (auto simp: is_lower_alnum_def)

lemma nameIndexKey_inj:
  assumes "CHR 0x00 \<notin> set (NormalizeNamespace a)" "CHR 0x00 \<notin> set (NormalizeNamespace b)"
  shows "nameIndexKey a n = nameIndexKey b m \<longleftrightarrow> NormalizeNamespace a = NormalizeNamespace b \<and> n = m"
  using append_sep_inj [OF assms, of n m] by (auto simp: nameIndexKey_def)

lemma resolveRefField_denoted:
  assumes r: "resolveRefField byName e field ref allowed es = Inr es'" "ref_Name ref \<noteq> []"
    and spec: "index_spec (map env_Key envs) byName" and g: "node_keys g = env_Key ` set envs"
    and wf: "\<And>x. x \<in> set envs \<Longrightarrow> wf_Envelope x" and e: "e \<in> set envs"
  shows "\<exists>to. to \<in> set (edges_of es' (env_Key e)) \<and> denoted g e ref allowed = {to}"
proof -
  let ?ns = "NamespaceOr ref (md_Namespace (env_Metadata e))"
  obtain to where fk: "filterKinds (index_get byName (nameIndexKey ?ns (ref_Name ref))) allowed = [to]"
    and es': "es' = add_edge (env_Key e) to es"
    using resolveRefField_Inr [OF r] by blast
  have env: "valid_label (NormalizeNamespace (md_Namespace (env_Metadata x)))" if "x \<in> set envs" for x
    using wf [OF that] by (simp add: wf_Envelope_def valid_NormalizeNamespace)
  have "validateRef (env_Key e) field ref = None"
    using r by (auto simp: resolveRefField_def Let_def split: option.splits)
  then have "ref_Namespace ref \<noteq> [] \<Longrightarrow> valid_label (ref_Namespace ref)"
    by (auto simp: validateRef_def split: option.splits if_splits)
  then have ns: "valid_label ?ns" "NormalizeNamespace ?ns = ?ns"
    using env [OF e] by (auto simp: NamespaceOr_def NormalizeNamespace_id)
  have key: "nameIndexKey (key_Namespace k) (key_Name k) = nameIndexKey ?ns (ref_Name ref) \<longleftrightarrow>
      key_Namespace k = ?ns \<and> key_Name k = ref_Name ref" if k: "k \<in> env_Key ` set envs" for k
  proof -
    have "valid_label (key_Namespace k)" "NormalizeNamespace (key_Namespace k) = key_Namespace k"
      using k env by auto
    with ns show ?thesis
      using nameIndexKey_inj [of "key_Namespace k" ?ns] valid_label_no_NUL by metis
  qed
  have "set [to] = {k \<in> set (index_get byName (nameIndexKey ?ns (ref_Name ref))). kind_ok allowed k}"
    unfolding fk [symmetric] by (rule filterKinds_set)
  also have "\<dots> = denoted g e ref allowed"
    using spec key by (auto simp: index_spec_def denoted_def g)
  finally show ?thesis
    using es' by (auto simp: edges_of_add_edge)
qed

lemma Build_resolves:
  assumes "Build envs = Inr g" "\<forall>x\<in>set envs. Validate x = None" "e \<in> set envs"
    and "field \<in> set refFields" "RefName (env_Spec e) field \<noteq> []"
  shows "\<exists>to\<in>set (succs g (env_Key e)).
    denoted g e (RefFromSpec (env_Spec e) field) (allowedKinds field) = {to}"
proof -
  obtain byName byRun where spec: "index_spec (map env_Key envs) byName"
    and passes: "\<And>pass. pass \<in> set [top_refs byName e, config_refs byName e, tls_ref byName e,
       secret_refs (Nodes g) e, observer_refs (Nodes g) e] \<Longrightarrow>
     \<exists>es1 es2. pass es1 = Inr es2 \<and> edges_inv (node_keys g) es1 \<and> edges_le es2 (Edges g)"
    by (rule Build_pass [OF assms(1,3)], rule that)
  from passes [of "top_refs byName e"] obtain es1 es2 where
    t: "top_refs byName e es1 = Inr es2" "edges_inv (node_keys g) es1" "edges_le es2 (Edges g)" by auto
  have keys: "node_keys g = env_Key ` set envs" by (rule Build_node_keys [OF assms(1)])
  have good: "good_pass (node_keys g) (resolveRefField byName e f ref al)" for f ref al
    using good_resolveRefField [OF spec, of e] assms(3) by (simp add: keys)
  let ?ref = "RefFromSpec (env_Spec e) field"
  obtain es3 es4 where
    r: "resolveRefField byName e field ?ref (allowedKinds field) es3 = Inr es4" "edges_le es4 es2"
    using fold_err_at [OF t(1) [unfolded top_refs_def] assms(4) t(2) good] by blast
  obtain to where "to \<in> set (edges_of es4 (env_Key e))" "denoted g e ?ref (allowedKinds field) = {to}"
    using resolveRefField_denoted [OF r(1) _ spec keys _ assms(3)] assms(2,5)
    by (auto simp: RefName_def Validate_None)
  moreover have "edges_le es4 (Edges g)" using r(2) t(3) edges_le_trans by blast
  ultimately show ?thesis by (auto simp: edges_le_def succs_def)
qed


section \<open>Properties of the graph\<close>

text \<open>
  C9: what \<open>Build\<close> accepts is well formed: one node per envelope and no duplicates, every
  edge joins two nodes of the set, and no resource depends on itself through any chain.
\<close>

theorem Build_sound:
  assumes "Build envs = Inr g"
  shows "Nodes g = map (\<lambda>e. (env_Key e, e)) envs \<and> distinct (map env_Key envs) \<and>
    (\<forall>k. set (succs g k) \<subseteq> env_Key ` set envs) \<and>
    (\<forall>k. (k, k) \<notin> {(a, b). b \<in> set (succs g a)}\<^sup>+)"
  using Build_Nodes [OF assms] Build_wf [OF assms] closed_succs [of g] Build_node_keys [OF assms]
  by (simp add: wf_Graph_def acyclic_def edge_rel_def)

text \<open>
  C11: the cycle search is exact on every graph whose edges stay inside its node set: it
  answers within one step of fuel per node, it finds nothing exactly when the graph is
  acyclic, and what it returns is a closed path along edges.
\<close>

theorem findCycle_exact:
  assumes "closed_Graph g"
  shows "findCycle_run g \<noteq> None \<and>
    (findCycle g = None \<longleftrightarrow> acyclic {(a, b). b \<in> set (succs g a)}) \<and>
    (\<forall>c. findCycle g = Some c \<longrightarrow> 2 \<le> length c \<and> hd c = last c \<and>
       (\<forall>i. Suc i < length c \<longrightarrow> c ! Suc i \<in> set (succs g (c ! i))))"
  using findCycle_run_total [OF assms] findCycle_None_iff [OF assms] findCycle_sound [of g]
  by (auto simp: edge_rel_def is_cycle_def successively_conv_nth)

text \<open>
  C12: \<open>TopologicalLevels\<close> puts every node of a well-formed graph in exactly one level, and
  everything it transitively depends on in strictly lower levels; so two resources of one
  level are never related.
\<close>

theorem TopologicalLevels_layered:
  assumes "wf_Graph g"
  shows "distinct (concat (TopologicalLevels g)) \<and>
    set (concat (TopologicalLevels g)) = fst ` set (Nodes g) \<and>
    (\<forall>i<length (TopologicalLevels g). \<forall>k\<in>set (TopologicalLevels g ! i).
       \<forall>d\<in>set (Dependencies g k). \<exists>j<i. d \<in> set (TopologicalLevels g ! j))"
  using dg.levels_distinct [OF assms] dg.levels_nodes [OF assms]
    dg.dependency_lower_level [OF assms] by blast

text \<open>
  \<open>Dependencies\<close> and \<open>Dependents\<close> are the transitive closure of the edges and of
  their reversal; hence each is the converse of the other and neither contains the node asked
  about.
\<close>

theorem Dependencies_Dependents:
  assumes "wf_Graph g"
  shows "set (Dependencies g k) = {d. (k, d) \<in> {(a, b). b \<in> set (succs g a)}\<^sup>+} \<and>
    (d \<in> set (Dependents g k) \<longleftrightarrow> k \<in> set (Dependencies g d)) \<and>
    k \<notin> set (Dependents g k)"
  using dg.dependencies_trancl [OF assms] dg.duality [OF assms] dg.not_own_dependency [OF assms]
  by (simp add: edge_rel_def)

section \<open>A sample manifest set\<close>

definition ref_value :: "string \<Rightarrow> any" where
  "ref_value name = AMap [(''name'', AStr name)]"

definition sample_spec_env :: "string \<Rightarrow> string \<Rightarrow> anymap \<Rightarrow> Envelope" where
  "sample_spec_env kind name spec = (sample_env kind name)\<lparr>env_Spec := spec\<rparr>"

definition sample_set :: "Envelope list" where
  "sample_set =
     [sample_spec_env ''Source'' ''orders'' [(''providerRef'', ref_value ''pg'')],
      sample_spec_env ''Provider'' ''pg'' [(''secretRefs'', AList [AStr ''pg-admin''])],
      sample_spec_env ''SecretReference'' ''pg-admin'' []]"

definition sample_graph :: Graph where
  "sample_graph = \<lparr>Nodes = map (\<lambda>e. (env_Key e, e)) sample_set,
     Edges = [(Key ''default'' ''Source'' ''orders'', [Key ''default'' ''Provider'' ''pg'']),
       (Key ''default'' ''Provider'' ''pg'', [Key ''default'' ''SecretReference'' ''pg-admin''])]\<rparr>"

lemma sample_Build: "Build sample_set = Inr sample_graph"
  by code_simp

lemma sample_wf: "wf_Graph sample_graph"
  by (rule Build_wf [OF sample_Build])

lemma sample_valid: "\<forall>x\<in>set sample_set. Validate x = None"
  by code_simp


theorem Build_sound_witness: "distinct (map env_Key sample_set)"
  using Build_sound [OF sample_Build] by blast

theorem findCycle_exact_witness: "findCycle_run sample_graph \<noteq> None"
  using findCycle_exact sample_wf by (simp add: wf_Graph_def)

theorem TopologicalLevels_layered_witness:
  "set (concat (TopologicalLevels sample_graph)) = fst ` set (Nodes sample_graph)"
  using TopologicalLevels_layered [OF sample_wf] by blast

theorem Dependencies_Dependents_witness:
  "Key ''default'' ''Source'' ''orders'' \<in>
     set (Dependents sample_graph (Key ''default'' ''SecretReference'' ''pg-admin''))"
proof -
  have "Key ''default'' ''SecretReference'' ''pg-admin'' \<in>
      set (Dependencies sample_graph (Key ''default'' ''Source'' ''orders''))" by code_simp
  with Dependencies_Dependents [OF sample_wf] show ?thesis by blast
qed

section \<open>Map order does not matter\<close>

lemma level_Max: "level depth ds mx = Max (insert mx ((\<lambda>y. the (depth y) + 1) ` set ds))"
proof (induction ds arbitrary: mx)
  case (Cons d ds)
  let ?F = "(\<lambda>y. the (depth y) + 1) ` set ds"
  have "Max (insert (max (the (depth d) + 1) mx) ?F) = Max (insert mx (insert (the (depth d) + 1) ?F))"
    by (cases "?F = {}") (simp_all add: max.commute max.left_commute)
  with Cons.IH show ?case by (simp only: level_Cons list.set image_insert)
qed (simp add: level_def)

lemma visit_inv_cong:
  assumes "\<And>k. set (s k) = set (s' k)"
  shows "visit_inv s opn depth \<longleftrightarrow> visit_inv s' opn depth"
  using assms by (simp add: visit_inv_def level_Max)

lemma wf_edge_rel_converse: "wf_Graph g \<Longrightarrow> wf ((edge_rel (succs g))\<inverse>)"
proof -
  assume g: "wf_Graph g"
  have "edge_rel (succs g) \<subseteq> node_keys g \<times> node_keys g"
    using closed_succs closed_succs_source g by (fastforce simp: edge_rel_def wf_Graph_def)
  then have "finite (edge_rel (succs g))" by (rule finite_subset) simp
  with g show ?thesis by (simp add: finite_acyclic_wf_converse wf_Graph_def)
qed

text \<open>
  The levels do not depend on the iteration order of the source's maps: two well-formed
  graphs with the same nodes and the same edges, listed in any order, have equal levels, when
  the rendered keys tell the nodes apart (which validated envelopes guarantee).
\<close>

theorem TopologicalLevels_order_independent:
  assumes "wf_Graph g" "wf_Graph g'" "set (Nodes g) = set (Nodes g')"
    and "\<forall>k. set (succs g k) = set (succs g' k)" "\<forall>k\<in>fst ` set (Nodes g). wf_Key k"
  shows "TopologicalLevels g = TopologicalLevels g'"
proof -
  obtain mx depth where
    L: "TopologicalLevels g = map (level_keys depth) [0..<mx + 1]"
    "visit_inv (succs g) {} (map_of depth)" "distinct (map fst depth)"
    "fst ` set depth = node_keys g" "\<And>k d. map_of depth k = Some d \<Longrightarrow> d \<le> mx"
    "mx = 0 \<or> mx \<in> ran (map_of depth)"
    by (rule TopologicalLevels_table [OF assms(1)], rule that)
  obtain mx' depth' where
    L': "TopologicalLevels g' = map (level_keys depth') [0..<mx' + 1]"
    "visit_inv (succs g') {} (map_of depth')" "distinct (map fst depth')"
    "fst ` set depth' = node_keys g'" "\<And>k d. map_of depth' k = Some d \<Longrightarrow> d \<le> mx'"
    "mx' = 0 \<or> mx' \<in> ran (map_of depth')"
    by (rule TopologicalLevels_table [OF assms(2)], rule that)
  have doms: "dom (map_of depth) = node_keys g" "dom (map_of depth') = node_keys g"
    using L(4) L'(4) assms(3) by (simp_all add: dom_map_of_conv_image_fst)
  have "visit_inv (succs g) {} (map_of depth')"
    using L'(2) visit_inv_cong [of "succs g" "succs g'"] assms(4) by blast
  then have "map_of depth k = map_of depth' k" for k
    using visit_inv_unique [OF wf_edge_rel_converse [OF assms(1)] L(2), of "map_of depth'" k] doms
    by (cases "k \<in> node_keys g") (simp, metis domIff)
  then have eq: "map_of depth = map_of depth'" by blast
  then have mx: "mx = mx'" using L(5,6) L'(5,6) by (force simp: ran_def)
  have "level_keys depth d = level_keys depth' d" for d
    unfolding level_keys_def
  proof (rule sort_by_unique)
    have lk: "set (map fst (filter (\<lambda>(k, d'). d' = d) dp)) = {k. map_of dp k = Some d}"
      "distinct (map fst (filter (\<lambda>(k, d'). d' = d) dp))" if "distinct (map fst dp)"
      for dp :: "(Key \<times> nat) list"
      using set_level_keys [OF that, of d] distinct_level_keys [OF that, of d]
      by (simp_all add: level_keys_def)
    show "set (map fst (filter (\<lambda>(k, d'). d' = d) depth)) = set (map fst (filter (\<lambda>(k, d'). d' = d) depth'))"
      "distinct (map fst (filter (\<lambda>(k, d'). d' = d) depth))"
      "distinct (map fst (filter (\<lambda>(k, d'). d' = d) depth'))"
      by (simp_all only: lk [OF L(3)] lk [OF L'(3)] eq)
    show "inj_on key_String (set (map fst (filter (\<lambda>(k, d'). d' = d) depth)))"
      using assms(5) L(4) by (intro inj_on_key_String) force
  qed
  with L(1) L'(1) mx show ?thesis by simp
qed

definition sample_graph_rev :: Graph where
  "sample_graph_rev = \<lparr>Nodes = rev (Nodes sample_graph), Edges = rev (Edges sample_graph)\<rparr>"

lemma sample_Build_rev: "Build (rev sample_set) = Inr sample_graph_rev"
  by code_simp

theorem TopologicalLevels_order_independent_witness:
  "TopologicalLevels sample_graph = TopologicalLevels sample_graph_rev"
proof (rule TopologicalLevels_order_independent [OF sample_wf Build_wf [OF sample_Build_rev]])
  show "set (Nodes sample_graph) = set (Nodes sample_graph_rev)"
    by (simp add: sample_graph_rev_def)
  show "\<forall>k. set (succs sample_graph k) = set (succs sample_graph_rev k)"
    by (auto simp: succs_def edges_of_def sample_graph_rev_def sample_graph_def)
  show "\<forall>k\<in>fst ` set (Nodes sample_graph). wf_Key k"
    by code_simp
qed

end
