(* ===== verification/State_Store.thy ===== *)
theory State_Store
  imports Resource
begin

text \<open>
  The persisted state: \<open>internal/ports/state/state.go\<close> (entries, the serialised key
  form, migrations, \<open>Normalize\<close> and \<open>Flatten\<close>) and its file backend
  \<open>internal/adapters/state/localfile/localfile.go\<close>. Go maps are association lists; the
  JSON document is the record of the fields that carry a JSON tag, so the in-memory map, which
  is tagged \<open>json:"-"\<close>, is lost on disk and rebuilt by \<open>Normalize\<close>. The pointers
  \<open>LastApplied\<close> that \<open>Flatten\<close> writes through are shared between the typed and
  the raw map, so both show the write.
\<close>

section \<open>Data\<close>

definition CurrentVersion :: int where "CurrentVersion = 2"

record ResourceState =
  rs_SpecHash :: string
  rs_SecretHash :: string
  rs_Status :: Status
  rs_Lifecycle :: string
  rs_Imported :: bool
  rs_Provider :: anymap
  rs_LastApplied :: "Envelope option"
  rs_Dependencies :: "Key list"
  rs_DependencyHashes :: "(string \<times> string) list"

record MediationFabricState =
  mf_Status :: Status
  mf_Provider :: anymap

record State =
  st_Version :: int
  st_Resources :: "(Key \<times> ResourceState) list"
  st_RawResources :: "(string \<times> ResourceState) list"
  st_MediationFabric :: "MediationFabricState option"

definition zero_ResourceState :: ResourceState where
  "zero_ResourceState = \<lparr>rs_SpecHash = [], rs_SecretHash = [], rs_Status = zero_Status,
     rs_Lifecycle = [], rs_Imported = False, rs_Provider = [], rs_LastApplied = None,
     rs_Dependencies = [], rs_DependencyHashes = []\<rparr>"

definition zero_State :: State where
  "zero_State = \<lparr>st_Version = 0, st_Resources = [], st_RawResources = [], st_MediationFabric = None\<rparr>"

section \<open>Escaping of path segments (net/url)\<close>

definition shouldEscape :: "char \<Rightarrow> bool" where
  "shouldEscape c \<longleftrightarrow> \<not> (is_alnum c \<or> c \<in> set ''-_.~$&+:=@'')"

definition upperhex :: string where "upperhex = ''0123456789ABCDEF''"

definition PathEscape :: "string \<Rightarrow> string" where
  "PathEscape s = concat (map (\<lambda>c. if shouldEscape c
     then [CHR ''%'', upperhex ! (of_char c div 16), upperhex ! (of_char c mod 16)] else [c]) s)"

definition unhex :: "char \<Rightarrow> nat option" where
  "unhex c = (let n = (of_char c :: nat) in
     if 48 \<le> n \<and> n \<le> 57 then Some (n - 48)
     else if 97 \<le> n \<and> n \<le> 102 then Some (n - 87)
     else if 65 \<le> n \<and> n \<le> 70 then Some (n - 55)
     else None)"

fun PathUnescape :: "string \<Rightarrow> string option" where
  "PathUnescape [] = Some []"
| "PathUnescape (c # s) =
     (if c = CHR ''%''
      then (case s of
          a # b # r \<Rightarrow> (case (unhex a, unhex b) of
              (Some x, Some y) \<Rightarrow> map_option ((#) (char_of (16 * x + y))) (PathUnescape r)
            | _ \<Rightarrow> None)
        | _ \<Rightarrow> None)
      else map_option ((#) c) (PathUnescape s))"

text \<open>The callers drop the error: a failed \<open>PathUnescape\<close> leaves the empty string.\<close>

definition unescaped :: "string \<Rightarrow> string" where
  "unescaped s = (case PathUnescape s of None \<Rightarrow> [] | Some t \<Rightarrow> t)"

section \<open>Serialised keys\<close>

definition KeyString :: "Key \<Rightarrow> string" where
  "KeyString k = Join [PathEscape (NormalizeNamespace (key_Namespace k)), PathEscape (key_Kind k),
     PathEscape (key_Name k)] ''/''"

definition parseV1Key :: "string \<Rightarrow> Key" where
  "parseV1Key s = (let (kind, name, ok) = Cut (CHR ''/'') s in
     if \<not> ok then Key DefaultNamespace [] s else Key DefaultNamespace kind name)"

definition ParseKey :: "string \<Rightarrow> Key" where
  "ParseKey s = (case Split (CHR ''/'') s of
     [ns, kind, name] \<Rightarrow> Key (NormalizeNamespace (unescaped ns)) (unescaped kind) (unescaped name)
   | _ \<Rightarrow> parseV1Key s)"

section \<open>Migration, Normalize and Flatten\<close>

record migration =
  FromVersion :: int
  Migrate :: "State \<Rightarrow> State"

text \<open>A fresh map filled in a loop over another, each entry stored under a computed key.\<close>

definition rekey :: "('a \<Rightarrow> 'b) \<Rightarrow> ('a \<times> 'v) list \<Rightarrow> ('b \<times> 'v) list" where
  "rekey f kvs = fold (\<lambda>(k, v) up. AList.update (f k) v up) kvs []"

definition rekey_v1 :: "State \<Rightarrow> State" where
  "rekey_v1 s = s\<lparr>st_RawResources := rekey (\<lambda>k. KeyString (parseV1Key k)) (st_RawResources s)\<rparr>"

definition migrations :: "migration list" where
  "migrations = [\<lparr>FromVersion = 1, Migrate = rekey_v1\<rparr>]"

definition run_migrations :: "migration list \<Rightarrow> State \<Rightarrow> State" where
  "run_migrations ms s = fold (\<lambda>m s. if st_Version s = FromVersion m
     then (Migrate m s)\<lparr>st_Version := FromVersion m + 1\<rparr> else s) ms s"

definition norm_LastApplied :: "ResourceState \<Rightarrow> ResourceState" where
  "norm_LastApplied v = v\<lparr>rs_LastApplied := map_option (\<lambda>e. e\<lparr>env_Metadata :=
     (env_Metadata e)\<lparr>md_Namespace := NormalizeNamespace (md_Namespace (env_Metadata e))\<rparr>\<rparr>)
       (rs_LastApplied v)\<rparr>"

definition Normalize :: "State \<Rightarrow> State" where
  "Normalize s0 =
     (let s1 = (if st_Version s0 = 0 then s0\<lparr>st_Version := 1\<rparr> else s0);
          s = run_migrations migrations s1;
          raw = map (\<lambda>(k, v). (k, norm_LastApplied v)) (st_RawResources s)
      in s\<lparr>st_Resources := rekey ParseKey raw,
           st_RawResources := raw, st_Version := CurrentVersion\<rparr>)"

definition Flatten :: "State \<Rightarrow> State" where
  "Flatten s =
     (let res = map (\<lambda>(k, v). (k, norm_LastApplied v)) (st_Resources s)
      in s\<lparr>st_Resources := res,
           st_RawResources := rekey (\<lambda>k. KeyString
             (Key (NormalizeNamespace (key_Namespace k)) (key_Kind k) (key_Name k))) res\<rparr>)"

section \<open>The local file backend\<close>

text \<open>
  The JSON document of a state: \<open>doc_Version\<close> is \<open>None\<close> when the field is absent.
  A file holds a document or bytes that do not parse.
\<close>

record doc =
  doc_Version :: "int option"
  doc_resources :: "(string \<times> ResourceState) list"
  doc_mediationFabric :: "MediationFabricState option"

datatype content = Doc doc | Garbage

definition marshal :: "State \<Rightarrow> doc" where
  "marshal s = \<lparr>doc_Version = Some (st_Version s), doc_resources = st_RawResources s,
     doc_mediationFabric = st_MediationFabric s\<rparr>"

definition unmarshal :: "doc \<Rightarrow> State \<Rightarrow> State" where
  "unmarshal d s = s\<lparr>st_Version := (case doc_Version d of None \<Rightarrow> st_Version s | Some v \<Rightarrow> v),
     st_RawResources := doc_resources d, st_MediationFabric := doc_mediationFabric d\<rparr>"

record file_system =
  state_file :: "content option"
  temp_file :: "content option"

datatype io_op = ReadFile | MkdirAll | CreateTemp | WriteTemp | SyncTemp | CloseTemp | Rename

datatype store_error = IOError io_op | ParseError | NewerVersion int

definition Load :: "(io_op \<Rightarrow> bool) \<Rightarrow> file_system \<Rightarrow> store_error + State" where
  "Load fails fs =
     (let st = zero_State\<lparr>st_Version := CurrentVersion\<rparr> in
      case state_file fs of
        None \<Rightarrow> Inr (Normalize st)
      | Some c \<Rightarrow>
          (if fails ReadFile then Inl (IOError ReadFile)
           else case c of
             Garbage \<Rightarrow> Inl ParseError
           | Doc d \<Rightarrow>
               (let st = unmarshal d st in
                if st_Version st > CurrentVersion then Inl (NewerVersion (st_Version st))
                else Inr (Normalize st))))"

text \<open>
  \<open>Save\<close> as the list of its effects on the file system, each of which may fail; the
  deferred removal of the temporary file runs on every exit once the file exists.
\<close>

definition save_steps :: "doc \<Rightarrow> (io_op \<times> (file_system \<Rightarrow> file_system)) list" where
  "save_steps d =
     [(MkdirAll, id),
      (CreateTemp, \<lambda>fs. fs\<lparr>temp_file := Some Garbage\<rparr>),
      (WriteTemp, \<lambda>fs. fs\<lparr>temp_file := Some (Doc d)\<rparr>),
      (SyncTemp, id),
      (CloseTemp, id),
      (Rename, \<lambda>fs. fs\<lparr>state_file := temp_file fs, temp_file := None\<rparr>)]"

fun run_steps :: "(io_op \<Rightarrow> bool) \<Rightarrow> (io_op \<times> (file_system \<Rightarrow> file_system)) list \<Rightarrow> file_system
    \<Rightarrow> store_error option \<times> file_system" where
  "run_steps fails [] fs = (None, fs)"
| "run_steps fails ((op, eff) # steps) fs =
     (if fails op then (Some (IOError op), fs\<lparr>temp_file := None\<rparr>)
      else run_steps fails steps (eff fs))"

definition Save :: "(io_op \<Rightarrow> bool) \<Rightarrow> State \<Rightarrow> file_system \<Rightarrow> store_error option \<times> file_system" where
  "Save fails st fs =
     run_steps fails (save_steps (marshal (Flatten (st\<lparr>st_Version := CurrentVersion\<rparr>)))) fs"

definition RawVersion :: "(io_op \<Rightarrow> bool) \<Rightarrow> file_system \<Rightarrow> store_error + int" where
  "RawVersion fails fs =
     (case state_file fs of
        None \<Rightarrow> Inr CurrentVersion
      | Some c \<Rightarrow>
          (if fails ReadFile then Inl (IOError ReadFile)
           else case c of
             Garbage \<Rightarrow> Inl ParseError
           | Doc d \<Rightarrow>
               (let v = (case doc_Version d of None \<Rightarrow> 0 | Some v \<Rightarrow> v)
                in Inr (if v = 0 then 1 else v))))"

section \<open>Keys round trip\<close>

lemma unhex_upperhex: "n < 16 \<Longrightarrow> unhex (upperhex ! n) = Some n"
proof -
  have "\<forall>n<16. unhex (upperhex ! n) = Some n" by code_simp
  then show "n < 16 \<Longrightarrow> ?thesis" by blast
qed

lemma of_char_div_mod:
  "(of_char c :: nat) div 16 < 16" "(of_char c :: nat) mod 16 < 16"
  "char_of (16 * ((of_char c :: nat) div 16) + of_char c mod 16) = c"
proof -
  have "(of_char c :: nat) < 256" by simp
  then show "(of_char c :: nat) div 16 < 16" by linarith
  show "char_of (16 * ((of_char c :: nat) div 16) + of_char c mod 16) = c"
    by (simp only: mult_div_mod_eq char_of_char)
qed simp

lemma not_escaped_percent: "\<not> shouldEscape c \<Longrightarrow> c \<noteq> CHR ''%''"
  by (auto simp: shouldEscape_def is_alnum_def is_lower_alnum_def)

lemma PathEscape_Cons:
  "PathEscape (c # s) = (if shouldEscape c
     then [CHR ''%'', upperhex ! (of_char c div 16), upperhex ! (of_char c mod 16)] else [c]) @ PathEscape s"
  by (simp add: PathEscape_def)

lemma PathUnescape_Escape [simp]: "PathUnescape (PathEscape s) = Some s"
proof (induction s)
  case (Cons c s)
  then show ?case
    using not_escaped_percent [of c]
    by (auto simp: PathEscape_Cons unhex_upperhex of_char_div_mod)
qed (simp add: PathEscape_def)

lemma unescaped_Escape [simp]: "unescaped (PathEscape s) = s"
  by (simp add: unescaped_def)

lemma upperhex_no_slash: "n < 16 \<Longrightarrow> upperhex ! n \<noteq> CHR ''/''"
proof -
  have "\<forall>n<16. upperhex ! n \<noteq> CHR ''/''" by code_simp
  then show "n < 16 \<Longrightarrow> ?thesis" by blast
qed

lemma PathEscape_no_slash: "CHR ''/'' \<notin> set (PathEscape s)"
proof (induction s)
  case (Cons c s)
  have "shouldEscape (CHR ''/'')" by code_simp
  with Cons show ?case
    using upperhex_no_slash [OF of_char_div_mod(1) [of c]] upperhex_no_slash [OF of_char_div_mod(2) [of c]]
    by (auto simp: PathEscape_Cons)
qed (simp add: PathEscape_def)

lemma ParseKey_KeyString:
  "ParseKey (KeyString k) = Key (NormalizeNamespace (key_Namespace k)) (key_Kind k) (key_Name k)"
proof -
  have "Split (CHR ''/'') (KeyString k) = [PathEscape (NormalizeNamespace (key_Namespace k)),
      PathEscape (key_Kind k), PathEscape (key_Name k)]"
    unfolding KeyString_def by (rule Split_Join) (simp_all add: PathEscape_no_slash)
  then show ?thesis by (simp add: ParseKey_def)
qed

lemma ParseKey_KeyString_id: "key_Namespace k \<noteq> [] \<Longrightarrow> ParseKey (KeyString k) = k"
  by (cases k) (simp add: ParseKey_KeyString NormalizeNamespace_id)

section \<open>Rekeying\<close>

lemma rekey_snoc: "rekey f (kvs @ [(k, v)]) = AList.update (f k) v (rekey f kvs)"
  by (simp add: rekey_def)

lemma rekey_Nil [simp]: "rekey f [] = []"
  by (simp add: rekey_def)

lemma rekey_keys: "fst ` set (rekey f kvs) = f ` fst ` set kvs"
proof (induction kvs rule: rev_induct)
  case (snoc kv kvs)
  then show ?case
    by (cases kv) (simp add: rekey_snoc dom_update [unfolded dom_map_of_conv_image_fst])
qed simp

lemma distinct_rekey [simp]: "distinct (map fst (rekey f kvs))"
  by (induction kvs rule: rev_induct) (auto simp: rekey_snoc distinct_update)

lemma rekey_lookup:
  assumes "inj_on f (insert k (fst ` set kvs))" "distinct (map fst kvs)"
  shows "map_of (rekey f kvs) (f k) = map_of kvs k"
  using assms
proof (induction kvs rule: rev_induct)
  case (snoc kv kvs)
  obtain a v where kv: "kv = (a, v)" by (cases kv)
  have IH: "map_of (rekey f kvs) (f k) = map_of kvs k"
    using snoc by (auto intro: inj_on_subset)
  show ?case
  proof (cases "a = k")
    case True
    with snoc.prems(2) kv have "map_of kvs k = None" by (auto simp: map_of_eq_None_iff)
    with True kv show ?thesis by (simp add: rekey_snoc map_add_def)
  next
    case False
    moreover have "f a \<noteq> f k"
      using False inj_onD [OF snoc.prems(1), of a k] kv by auto
    ultimately show ?thesis using IH kv by (simp add: rekey_snoc map_add_def split: option.splits)
  qed
qed simp

lemma rekey_fresh:
  assumes "inj_on f (fst ` set kvs)" "distinct (map fst kvs)"
  shows "rekey f kvs = map (\<lambda>(k, v). (f k, v)) kvs"
  using assms
proof (induction kvs rule: rev_induct)
  case (snoc kv kvs)
  obtain a v where kv: "kv = (a, v)" by (cases kv)
  have "f a \<notin> f ` fst ` set kvs" using snoc.prems kv by (auto dest: inj_onD)
  then have "f a \<notin> fst ` set (rekey f kvs)" by (simp only: rekey_keys not_False_eq_True)
  moreover have "rekey f kvs = map (\<lambda>(k, v). (f k, v)) kvs"
    using snoc by (auto intro: inj_on_subset)
  ultimately show ?case
    using update_fresh [of "f a" "rekey f kvs" v] by (simp add: kv rekey_snoc)
qed simp

section \<open>Save then Load\<close>

text \<open>In-memory states carry every key once, with a normalised namespace.\<close>

definition wf_State :: "State \<Rightarrow> bool" where
  "wf_State s \<longleftrightarrow> distinct (map fst (st_Resources s)) \<and>
     (\<forall>k\<in>fst ` set (st_Resources s). key_Namespace k \<noteq> [])"

definition norm_entries :: "('k \<times> ResourceState) list \<Rightarrow> ('k \<times> ResourceState) list" where
  "norm_entries kvs = map (\<lambda>(k, v). (k, norm_LastApplied v)) kvs"

text \<open>What a saved state looks like when it is loaded again.\<close>

definition reloaded :: "State \<Rightarrow> State" where
  "reloaded s = (let res = norm_entries (st_Resources s) in
     \<lparr>st_Version = CurrentVersion, st_Resources = res,
      st_RawResources = map (\<lambda>(k, v). (KeyString k, v)) res,
      st_MediationFabric = st_MediationFabric s\<rparr>)"

lemma norm_LastApplied_idem [simp]: "norm_LastApplied (norm_LastApplied v) = norm_LastApplied v"
  by (simp add: norm_LastApplied_def option.map_comp comp_def)

lemma norm_entries_idem [simp]: "norm_entries (norm_entries kvs) = norm_entries kvs"
  by (simp add: norm_entries_def comp_def split_def)

lemma keys_norm_entries [simp]: "map fst (norm_entries kvs) = map fst kvs"
  by (simp add: norm_entries_def comp_def split_def)

lemma set_keys_norm_entries [simp]: "fst ` set (norm_entries kvs) = fst ` set kvs"
  by (metis keys_norm_entries list.set_map)

lemma inj_on_KeyString: "(\<And>k. k \<in> S \<Longrightarrow> key_Namespace k \<noteq> []) \<Longrightarrow> inj_on KeyString S"
  by (metis ParseKey_KeyString_id inj_onI)

lemma Flatten_raw:
  assumes "wf_State s"
  shows "st_RawResources (Flatten s) = map (\<lambda>(k, v). (KeyString k, v)) (norm_entries (st_Resources s))"
proof -
  have eq: "(\<lambda>k. KeyString (Key (NormalizeNamespace (key_Namespace k)) (key_Kind k) (key_Name k))) = KeyString"
    by (simp add: KeyString_def fun_eq_iff)
  have "inj_on KeyString (fst ` set (norm_entries (st_Resources s)))"
    using assms by (intro inj_on_KeyString) (auto simp: wf_State_def)
  then have "rekey KeyString (norm_entries (st_Resources s)) =
      map (\<lambda>(k, v). (KeyString k, v)) (norm_entries (st_Resources s))"
    using assms by (intro rekey_fresh) (simp_all add: wf_State_def)
  then show ?thesis by (simp add: Flatten_def Let_def eq norm_entries_def [symmetric])
qed

lemma Flatten_sel [simp]:
  "st_Version (Flatten s) = st_Version s" "st_MediationFabric (Flatten s) = st_MediationFabric s"
  by (simp_all add: Flatten_def Let_def)

lemma Normalize_current:
  "st_Version s = CurrentVersion \<Longrightarrow>
     Normalize s = s\<lparr>st_RawResources := norm_entries (st_RawResources s),
       st_Resources := rekey ParseKey (norm_entries (st_RawResources s))\<rparr>"
  by (simp add: Normalize_def Let_def CurrentVersion_def run_migrations_def migrations_def
      norm_entries_def)

lemma reload_marshal:
  assumes "wf_State s"
  shows "Normalize (unmarshal (marshal (Flatten (s\<lparr>st_Version := CurrentVersion\<rparr>)))
           (zero_State\<lparr>st_Version := CurrentVersion\<rparr>)) = reloaded s"
proof -
  let ?s = "s\<lparr>st_Version := CurrentVersion\<rparr>" and ?res = "norm_entries (st_Resources s)"
  let ?raw = "map (\<lambda>(k, v). (KeyString k, v)) ?res"
  have raw: "st_RawResources (Flatten ?s) = ?raw"
    using Flatten_raw [of ?s] assms by (simp add: wf_State_def)
  have ne: "norm_entries ?raw = ?raw"
    using norm_entries_idem [of "st_Resources s"]
    by (simp add: norm_entries_def comp_def split_def)
  have "inj_on ParseKey (fst ` set ?raw)"
  proof (rule inj_on_inverseI [where g = KeyString])
    fix x assume "x \<in> fst ` set ?raw"
    moreover have "fst ` set ?raw = KeyString ` fst ` set ?res"
      by (simp add: image_image split_def del: set_keys_norm_entries)
    ultimately obtain k where "x = KeyString k" "k \<in> fst ` set ?res" by blast
    then show "KeyString (ParseKey x) = x"
      using assms by (auto simp: wf_State_def ParseKey_KeyString_id)
  qed
  moreover have "distinct (map fst ?raw)"
  proof -
    have "map fst ?raw = map KeyString (map fst ?res)"
      by (simp add: comp_def split_def del: keys_norm_entries)
    then show ?thesis
      using assms inj_on_KeyString [of "fst ` set (st_Resources s)"]
      unfolding wf_State_def by (metis distinct_map keys_norm_entries list.set_map)
  qed
  ultimately have "rekey ParseKey ?raw = map (\<lambda>(k, v). (ParseKey k, v)) ?raw"
    by (rule rekey_fresh)
  also have "\<dots> = ?res"
    unfolding map_map
  proof (rule map_idI)
    fix kv assume "kv \<in> set ?res"
    then have "fst kv \<in> fst ` set (st_Resources s)"
      by (metis imageI set_keys_norm_entries)
    then have "key_Namespace (fst kv) \<noteq> []" using assms by (auto simp: wf_State_def)
    then show "((\<lambda>(k, v). (ParseKey k, v)) \<circ> (\<lambda>(k, v). (KeyString k, v))) kv = kv"
      by (simp add: ParseKey_KeyString_id split_def)
  qed
  finally show ?thesis
    by (simp add: Normalize_current unmarshal_def marshal_def raw ne reloaded_def Let_def zero_State_def)
qed

lemma run_steps_error:
  "run_steps fails (save_steps d) fs = (Some e, fs') \<Longrightarrow>
     state_file fs' = state_file fs \<and> temp_file fs' = None"
  by (auto simp: save_steps_def split: if_splits)

lemma run_steps_ok:
  "run_steps fails (save_steps d) fs = (None, fs') \<Longrightarrow> fs' = fs\<lparr>state_file := Some (Doc d), temp_file := None\<rparr>"
  by (auto simp: save_steps_def split: if_splits)

lemma Save_reload:
  assumes "wf_State s" "Save fails s fs = (None, fs')"
  shows "Load (\<lambda>_. False) fs' = Inr (reloaded s) \<and> temp_file fs' = None"
proof -
  let ?d = "marshal (Flatten (s\<lparr>st_Version := CurrentVersion\<rparr>))"
  have "fs' = fs\<lparr>state_file := Some (Doc ?d), temp_file := None\<rparr>"
    using assms(2) by (auto simp: Save_def dest: run_steps_ok)
  moreover have "st_Version (unmarshal ?d (zero_State\<lparr>st_Version := CurrentVersion\<rparr>)) = CurrentVersion"
    by (simp add: unmarshal_def marshal_def)
  ultimately show ?thesis
    using reload_marshal [OF assms(1)] by (simp add: Load_def Let_def)
qed

lemma Load_reads: "\<not> fails ReadFile \<Longrightarrow> Load fails fs = Load (\<lambda>_. False) fs"
  by (cases "state_file fs") (simp_all add: Load_def Let_def)

text \<open>
  Serialising a resource key and parsing it back gives the key with its namespace
  normalised, for every namespace, kind and name; so serialised keys never collide.
\<close>

theorem KeyString_round_trip:
  "ParseKey (KeyString k) = Key (NormalizeNamespace (key_Namespace k)) (key_Kind k) (key_Name k) \<and>
   (KeyString k = KeyString k' \<longleftrightarrow>
      NormalizeNamespace (key_Namespace k) = NormalizeNamespace (key_Namespace k') \<and>
      key_Kind k = key_Kind k' \<and> key_Name k = key_Name k')"
proof (intro conjI iffI)
  assume "KeyString k = KeyString k'"
  then have "ParseKey (KeyString k) = ParseKey (KeyString k')" by (rule arg_cong)
  then show "NormalizeNamespace (key_Namespace k) = NormalizeNamespace (key_Namespace k')"
    "key_Kind k = key_Kind k'" "key_Name k = key_Name k'"
    by (simp_all only: ParseKey_KeyString Key.inject)
qed (simp_all only: ParseKey_KeyString, simp only: KeyString_def)



section \<open>Migration of version 1 files\<close>

text \<open>A version 1 key is \<open>Kind/Name\<close>: two segments.\<close>

definition v1_key :: "string \<Rightarrow> bool" where
  "v1_key k \<longleftrightarrow> length (Split (CHR ''/'') k) = 2"

lemma v1_key_split:
  assumes "v1_key k"
  obtains kind name where "k = kind @ ''/'' @ name" "CHR ''/'' \<notin> set kind" "CHR ''/'' \<notin> set name"
    "Split (CHR ''/'') k = [kind, name]" "parseV1Key k = Key DefaultNamespace kind name"
proof -
  from assms obtain kind name where sp: "Split (CHR ''/'') k = [kind, name]"
    by (auto simp: v1_key_def numeral_2_eq_2 length_Suc_conv)
  have k: "k = kind @ ''/'' @ name"
    using Join_Split [of "CHR ''/''" k] by (simp add: sp)
  have ns: "CHR ''/'' \<notin> set kind" "CHR ''/'' \<notin> set name"
    using Split_sep_free [of _ "CHR ''/''" k] by (simp_all add: sp)
  have "parseV1Key k = Key DefaultNamespace kind name"
    using Cut_sep [OF ns(1), of name] by (simp add: parseV1Key_def k)
  with that k ns sp show thesis by blast
qed

lemma ParseKey_v1: "v1_key k \<Longrightarrow> ParseKey k = parseV1Key k"
  by (erule v1_key_split) (simp add: ParseKey_def)

lemma parseV1Key_inj: "v1_key a \<Longrightarrow> v1_key b \<Longrightarrow> parseV1Key a = parseV1Key b \<Longrightarrow> a = b"
  by (metis v1_key_split Key.inject)

lemma parseV1Key_ns [simp]: "key_Namespace (parseV1Key k) = DefaultNamespace"
  by (simp add: parseV1Key_def Let_def split: prod.splits)

lemma rekey_norm_entries:
  assumes "inj_on f (fst ` set kvs)" "distinct (map fst kvs)"
  shows "rekey f (norm_entries kvs) = map (\<lambda>(k, v). (f k, norm_LastApplied v)) kvs"
proof -
  have "rekey f (norm_entries kvs) = map (\<lambda>(k, v). (f k, v)) (norm_entries kvs)"
    using assms by (intro rekey_fresh) simp_all
  then show ?thesis by (simp add: norm_entries_def comp_def split_def)
qed

lemma Normalize_v1:
  assumes keys: "\<forall>k\<in>fst ` set (st_RawResources s). v1_key k" "distinct (map fst (st_RawResources s))"
    and v: "st_Version s \<in> {0, 1, 2}"
  shows "st_Resources (Normalize s) =
    map (\<lambda>(k, v). (parseV1Key k, norm_LastApplied v)) (st_RawResources s)"
proof -
  let ?raw = "st_RawResources s" and ?up = "\<lambda>k. KeyString (parseV1Key k)"
  have unup: "ParseKey (?up k) = parseV1Key k" for k
    by (rule ParseKey_KeyString_id) (simp add: DefaultNamespace_def)
  have inj: "inj_on parseV1Key (fst ` set ?raw)"
    using keys(1) by (auto intro!: inj_onI intro: parseV1Key_inj)
  then have inj_up: "inj_on ?up (fst ` set ?raw)"
    by (metis (no_types, lifting) unup inj_on_def)
  have parse: "map (\<lambda>(k, v). (ParseKey k, norm_LastApplied v)) ?raw =
      map (\<lambda>(k, v). (parseV1Key k, norm_LastApplied v)) ?raw"
    using keys(1) by (auto simp: ParseKey_v1)
  have up: "rekey ?up ?raw = map (\<lambda>(k, v). (?up k, v)) ?raw"
    by (rule rekey_fresh [OF inj_up keys(2)])
  have inj_p: "inj_on ParseKey (fst ` set ?raw)"
    using inj keys(1) by (auto simp: inj_on_def ParseKey_v1)
  have "fst ` set (rekey ?up ?raw) = ?up ` fst ` set ?raw" by (rule rekey_keys)
  then have inj_r: "inj_on ParseKey (fst ` set (rekey ?up ?raw))"
    using inj by (auto simp: inj_on_def unup)
  have "rekey ParseKey (norm_entries (rekey ?up ?raw)) =
      map (\<lambda>(k, v). (parseV1Key k, norm_LastApplied v)) ?raw"
    using rekey_norm_entries [OF inj_r distinct_rekey] by (simp add: up comp_def split_def unup)
  moreover have "rekey ParseKey (norm_entries ?raw) =
      map (\<lambda>(k, v). (parseV1Key k, norm_LastApplied v)) ?raw"
    using rekey_norm_entries [OF inj_p keys(2)] parse by simp
  ultimately show ?thesis
    using v by (auto simp: Normalize_def Let_def run_migrations_def migrations_def rekey_v1_def
        norm_entries_def [symmetric])
qed

text \<open>
  A version 1 file loads with every entry \<open>Kind/Name\<close> under that kind and name in the
  default namespace, whether its version field says 1, 0, the current version, or is missing
  (in which case the field keeps the preset current version and the key parser, not the
  migration, does the work).
\<close>

theorem Load_v1:
  assumes "state_file fs = Some (Doc d)" "\<not> fails ReadFile"
    and "doc_Version d \<in> {None, Some 0, Some 1, Some 2}"
    and "\<forall>k\<in>fst ` set (doc_resources d). v1_key k" "distinct (map fst (doc_resources d))"
  shows "\<exists>s. Load fails fs = Inr s \<and> st_Version s = CurrentVersion \<and>
    st_Resources s = map (\<lambda>(k, v). (parseV1Key k, norm_LastApplied v)) (doc_resources d) \<and>
    (\<forall>kind name. CHR ''/'' \<notin> set kind \<longrightarrow> CHR ''/'' \<notin> set name \<longrightarrow>
       parseV1Key (kind @ ''/'' @ name) = Key DefaultNamespace kind name)"
proof -
  let ?st = "unmarshal d (zero_State\<lparr>st_Version := CurrentVersion\<rparr>)"
  have v: "st_Version ?st \<in> {0, 1, 2}"
    using assms(3) by (auto simp: unmarshal_def CurrentVersion_def)
  then have "Load fails fs = Inr (Normalize ?st)"
    using assms(1,2) by (auto simp: Load_def Let_def CurrentVersion_def)
  moreover have "st_Resources (Normalize ?st) =
      map (\<lambda>(k, v). (parseV1Key k, norm_LastApplied v)) (doc_resources d)"
    using Normalize_v1 [of ?st] v assms(4,5) by (simp add: unmarshal_def)
  moreover have "st_Version (Normalize ?st) = CurrentVersion" by (simp add: Normalize_def Let_def)
  ultimately show ?thesis
    using Cut_sep [of "CHR ''/''"] by (auto simp: parseV1Key_def)
qed

section \<open>Witnesses\<close>

definition sample_state :: State where
  "sample_state = zero_State\<lparr>st_Resources :=
     [(Key ''default'' ''Provider'' ''pg'', zero_ResourceState\<lparr>rs_SpecHash := ''h1''\<rparr>),
      (Key ''team-a'' ''Source'' ''pg'', zero_ResourceState)]\<rparr>"

lemma sample_state_wf: "wf_State sample_state"
  by (simp add: wf_State_def sample_state_def zero_State_def)

definition empty_fs :: file_system where
  "empty_fs = \<lparr>state_file = None, temp_file = None\<rparr>"


definition sample_v1 :: file_system where
  "sample_v1 = empty_fs\<lparr>state_file := Some (Doc \<lparr>doc_Version = None,
     doc_resources = [(''Provider/pg'', zero_ResourceState)], doc_mediationFabric = None\<rparr>)\<rparr>"

theorem Load_v1_witness:
  "\<exists>s. Load (\<lambda>_. False) sample_v1 = Inr s \<and>
     map fst (st_Resources s) = [Key ''default'' ''Provider'' ''pg'']"
proof -
  let ?d = "\<lparr>doc_Version = None, doc_resources = [(''Provider/pg'', zero_ResourceState)],
    doc_mediationFabric = None\<rparr>"
  have "v1_key ''Provider/pg''" "parseV1Key ''Provider/pg'' = Key ''default'' ''Provider'' ''pg''"
    by code_simp+
  with Load_v1 [of sample_v1 ?d "\<lambda>_. False"] show ?thesis
    by (auto simp: sample_v1_def)
qed

end
