(* ===== verification/State_Backends.thy ===== *)
theory State_Backends
  imports State_Store
begin

text \<open>
  The object-storage backend of the state (\<open>internal/adapters/state/s3/s3.go\<close>) and the
  contract of the \<open>StateStore\<close> port that both backends meet: the locale
  \<open>state_store\<close>, interpreted on the local file and on the object store.
\<close>

section \<open>The object store\<close>

text \<open>The state object is absent, empty, or holds some content.\<close>

datatype state_object = NoSuchKey | EmptyObject | Object content

datatype s3_op = GetObject | ReadAll | PutStateObject

datatype s3_error = S3Error s3_op | S3ParseError | S3NewerVersion int

definition S3Load :: "(s3_op \<Rightarrow> bool) \<Rightarrow> state_object \<Rightarrow> s3_error + State" where
  "S3Load fails obj =
     (let st = zero_State\<lparr>st_Version := CurrentVersion\<rparr> in
      if fails GetObject then Inl (S3Error GetObject)
      else case obj of
        NoSuchKey \<Rightarrow> Inr (Normalize st)
      | EmptyObject \<Rightarrow> if fails ReadAll then Inl (S3Error ReadAll) else Inr (Normalize st)
      | Object c \<Rightarrow>
          (if fails ReadAll then Inl (S3Error ReadAll)
           else case c of
             Garbage \<Rightarrow> Inl S3ParseError
           | Doc d \<Rightarrow>
               (let st = unmarshal d st in
                if st_Version st > CurrentVersion then Inl (S3NewerVersion (st_Version st))
                else Inr (Normalize st))))"

definition S3Save :: "(s3_op \<Rightarrow> bool) \<Rightarrow> State \<Rightarrow> state_object \<Rightarrow> s3_error option \<times> state_object" where
  "S3Save fails st obj =
     (let st = Flatten (st\<lparr>st_Version := CurrentVersion\<rparr>) in
      if fails PutStateObject then (Some (S3Error PutStateObject), obj)
      else (None, Object (Doc (marshal st))))"

definition S3RawVersion :: "(s3_op \<Rightarrow> bool) \<Rightarrow> state_object \<Rightarrow> s3_error + int" where
  "S3RawVersion fails obj =
     (if fails GetObject then Inl (S3Error GetObject)
      else case obj of
        NoSuchKey \<Rightarrow> Inr CurrentVersion
      | EmptyObject \<Rightarrow> if fails ReadAll then Inl (S3Error ReadAll) else Inr CurrentVersion
      | Object c \<Rightarrow>
          (if fails ReadAll then Inl (S3Error ReadAll)
           else case c of
             Garbage \<Rightarrow> Inl S3ParseError
           | Doc d \<Rightarrow>
               (let v = (case doc_Version d of None \<Rightarrow> 0 | Some v \<Rightarrow> v)
                in Inr (if v = 0 then 1 else v))))"

section \<open>The contract of a state store\<close>

text \<open>
  A client sees a store through \<open>load\<close> and \<open>save\<close>. What was saved is what is loaded,
  up to normalisation; a failed save changes nothing a load can see.
\<close>

text \<open>A run of saves: the last state whose save succeeded, and the store afterwards.\<close>

primrec save_all :: "(State \<Rightarrow> 'w \<Rightarrow> 'e option \<times> 'w) \<Rightarrow> State list \<Rightarrow> 'w \<Rightarrow> State option \<times> 'w" where
  "save_all save [] w = (None, w)"
| "save_all save (s # ss) w =
     (let (r, w1) = save s w; (last_ok, w2) = save_all save ss w1
      in (case last_ok of Some t \<Rightarrow> Some t | None \<Rightarrow> if r = None then Some s else None, w2))"

locale state_store =
  fixes load :: "'w \<Rightarrow> 'e + State" and save :: "State \<Rightarrow> 'w \<Rightarrow> 'e option \<times> 'w"
  assumes save_ok: "wf_State s \<Longrightarrow> save s w = (None, w') \<Longrightarrow> load w' = Inr (reloaded s)"
    and save_error: "save s w = (Some e, w') \<Longrightarrow> load w' = load w"
begin

lemma load_after_saves:
  assumes "\<forall>s\<in>set ss. wf_State s" "save_all save ss w = (last_ok, w')"
  shows "load w' = (case last_ok of None \<Rightarrow> load w | Some s \<Rightarrow> Inr (reloaded s))"
  using assms
proof (induction ss arbitrary: w last_ok)
  case (Cons s ss)
  obtain r w1 where 1: "save s w = (r, w1)" by fastforce
  obtain l2 where 2: "save_all save ss w1 = (l2, w')"
    using Cons.prems(2) 1 by (auto split: prod.splits)
  from Cons.IH [OF _ 2] Cons.prems(1)
  have IH: "load w' = (case l2 of None \<Rightarrow> load w1 | Some s \<Rightarrow> Inr (reloaded s))" by simp
  show ?case
  proof (cases r)
    case None
    with 1 Cons.prems(1) have "load w1 = Inr (reloaded s)" by (auto intro: save_ok)
    with IH None 1 2 Cons.prems(2) show ?thesis by (auto split: option.splits)
  next
    case (Some e)
    with 1 have "load w1 = load w" by (auto intro: save_error)
    with IH Some 1 2 Cons.prems(2) show ?thesis by (auto split: option.splits)
  qed
qed simp

lemma resave_stable:
  assumes "wf_State s" "save s w = (None, w1)" "load w1 = Inr t"
  shows "t = reloaded s" "wf_State t" "reloaded t = t"
proof -
  show t: "t = reloaded s" using save_ok [OF assms(1,2)] assms(3) by simp
  show "wf_State t" using assms(1) by (auto simp: t wf_State_def reloaded_def Let_def)
  show "reloaded t = t" by (simp add: t reloaded_def Let_def)
qed

end

interpretation localfile: state_store "Load (\<lambda>_. False)" "Save fails" for fails
proof
  fix s w w' assume "wf_State s" "Save fails s w = (None, w')"
  then show "Load (\<lambda>_. False) w' = Inr (reloaded s)"
    using Save_reload by blast
next
  fix s w e w' assume "Save fails s w = (Some e, w')"
  then show "Load (\<lambda>_. False) w' = Load (\<lambda>_. False) w"
    using run_steps_error by (fastforce simp: Save_def Load_def)
qed

interpretation s3: state_store "S3Load (\<lambda>_. False)" "S3Save fails" for fails
proof
  fix s w w' assume a: "wf_State s" "S3Save fails s w = (None, w')"
  then have "w' = Object (Doc (marshal (Flatten (s\<lparr>st_Version := CurrentVersion\<rparr>))))"
    by (auto simp: S3Save_def Let_def split: if_splits)
  then show "S3Load (\<lambda>_. False) w' = Inr (reloaded s)"
    using reload_marshal [OF a(1)] by (simp add: S3Load_def unmarshal_def marshal_def Let_def)
qed (auto simp: S3Save_def Let_def split: if_splits)



end
