(* ===== verification/Lock_Protocols.thy ===== *)
theory Lock_Protocols
  imports Go_Prelude
begin

text \<open>
  The two lock protocols that guard the state: the advisory flock of
  \<open>internal/adapters/state/localfile/localfile.go\<close> and the lease object of
  \<open>internal/adapters/state/s3/s3.go\<close>. Each is a transition system whose steps are the
  system calls or object-store requests of the code, so that other processes can act between
  any two of them; a process is a number.
\<close>

section \<open>The lock file\<close>

text \<open>
  A flock is held on the inode that was opened, not on the path. \<open>Lock\<close> opens or creates
  the path and then tries the flock; the function it returns drops the flock and then removes
  the path.
\<close>

datatype flock_phase = NotLocking | Opened nat | Holding nat | Unlocked

record flock_world =
  lock_path :: "nat option"
  next_inode :: nat
  flock_owner :: "nat \<Rightarrow> nat option"
  flock_pc :: "nat \<Rightarrow> flock_phase"

datatype flock_action = OpenFile nat | Flock nat | FlockUn nat | RemovePath nat | Crash nat
  | ForceUnlockFile

definition flock_init :: flock_world where
  "flock_init = \<lparr>lock_path = None, next_inode = 0, flock_owner = (\<lambda>_. None), flock_pc = (\<lambda>_. NotLocking)\<rparr>"

definition set_pc :: "nat \<Rightarrow> flock_phase \<Rightarrow> flock_world \<Rightarrow> flock_world" where
  "set_pc p ph w = w\<lparr>flock_pc := (flock_pc w)(p := ph)\<rparr>"

fun flock_do :: "flock_action \<Rightarrow> flock_world \<Rightarrow> flock_world option" where
  "flock_do (OpenFile p) w =
     (if flock_pc w p = NotLocking
      then (case lock_path w of
          Some i \<Rightarrow> Some (set_pc p (Opened i) w)
        | None \<Rightarrow> Some (set_pc p (Opened (next_inode w))
            (w\<lparr>lock_path := Some (next_inode w), next_inode := next_inode w + 1\<rparr>)))
      else None)"
| "flock_do (Flock p) w =
     (case flock_pc w p of
        Opened i \<Rightarrow> (case flock_owner w i of
            None \<Rightarrow> Some (set_pc p (Holding i) (w\<lparr>flock_owner := (flock_owner w)(i := Some p)\<rparr>))
          | Some q \<Rightarrow> Some (set_pc p NotLocking w))
      | _ \<Rightarrow> None)"
| "flock_do (FlockUn p) w =
     (case flock_pc w p of
        Holding i \<Rightarrow> Some (set_pc p Unlocked (w\<lparr>flock_owner := (flock_owner w)(i := None)\<rparr>))
      | _ \<Rightarrow> None)"
| "flock_do (RemovePath p) w =
     (if flock_pc w p = Unlocked then Some (set_pc p NotLocking (w\<lparr>lock_path := None\<rparr>)) else None)"
| "flock_do (Crash p) w =
     (case flock_pc w p of
        Holding i \<Rightarrow> Some (set_pc p NotLocking (w\<lparr>flock_owner := (flock_owner w)(i := None)\<rparr>))
      | _ \<Rightarrow> Some (set_pc p NotLocking w))"
| "flock_do ForceUnlockFile w = Some (w\<lparr>lock_path := None\<rparr>)"

fun unlinks :: "flock_action \<Rightarrow> bool" where
  "unlinks (RemovePath p) = True"
| "unlinks ForceUnlockFile = True"
| "unlinks a = False"

inductive flock_reach :: "(flock_action \<Rightarrow> bool) \<Rightarrow> flock_world \<Rightarrow> bool" for ok where
  start: "flock_reach ok flock_init"
| step: "flock_reach ok w \<Longrightarrow> ok a \<Longrightarrow> flock_do a w = Some w' \<Longrightarrow> flock_reach ok w'"

fun run_flock :: "flock_action list \<Rightarrow> flock_world \<Rightarrow> flock_world option" where
  "run_flock [] w = Some w"
| "run_flock (a # as) w = (case flock_do a w of None \<Rightarrow> None | Some w' \<Rightarrow> run_flock as w')"

lemma run_flock_reach:
  "run_flock as w = Some w' \<Longrightarrow> flock_reach ok w \<Longrightarrow> list_all ok as \<Longrightarrow> flock_reach ok w'"
  by (induction as w rule: run_flock.induct) (auto split: option.splits intro: flock_reach.step)

definition flock_inv :: "flock_world \<Rightarrow> bool" where
  "flock_inv w \<longleftrightarrow> (\<forall>p i. flock_pc w p = Holding i \<longleftrightarrow> flock_owner w i = Some p)"

lemma flock_inv_set_pc:
  assumes "flock_inv w" "\<forall>i. flock_pc w p \<noteq> Holding i" "\<forall>i. ph \<noteq> Holding i"
  shows "flock_inv (set_pc p ph w)"
  using assms by (auto simp: flock_inv_def set_pc_def)

lemma flock_inv_take:
  assumes "flock_inv w" "flock_owner w i = None" "\<forall>i. flock_pc w p \<noteq> Holding i"
  shows "flock_inv (set_pc p (Holding i) (w\<lparr>flock_owner := (flock_owner w)(i := Some p)\<rparr>))"
  using assms by (auto simp: flock_inv_def set_pc_def)

lemma flock_inv_drop:
  assumes "flock_inv w" "flock_pc w p = Holding i" "\<forall>i. ph \<noteq> Holding i"
  shows "flock_inv (set_pc p ph (w\<lparr>flock_owner := (flock_owner w)(i := None)\<rparr>))"
proof -
  have "flock_owner w i = Some p" using assms by (simp add: flock_inv_def)
  then have "flock_owner w j \<noteq> Some p" if "j \<noteq> i" for j
    using assms(1,2) that unfolding flock_inv_def by (metis flock_phase.inject(2))
  with \<open>flock_owner w i = Some p\<close> show ?thesis
    using assms(1,3) unfolding flock_inv_def set_pc_def by auto
qed

lemma flock_inv_path [simp]:
  "flock_inv (w\<lparr>lock_path := x\<rparr>) = flock_inv w" "flock_inv (w\<lparr>next_inode := n\<rparr>) = flock_inv w"
  by (simp_all add: flock_inv_def)

lemma flock_inv_step: "flock_inv w \<Longrightarrow> flock_do a w = Some w' \<Longrightarrow> flock_inv w'"
  by (cases a)
    (auto split: option.splits if_splits flock_phase.splits
      intro!: flock_inv_set_pc flock_inv_take flock_inv_drop)

lemma flock_reach_inv: "flock_reach ok w \<Longrightarrow> flock_inv w"
  by (induction rule: flock_reach.induct) (simp add: flock_inv_def flock_init_def, rule flock_inv_step)

definition path_inv :: "flock_world \<Rightarrow> bool" where
  "path_inv w \<longleftrightarrow> (\<forall>p i. flock_pc w p = Opened i \<or> flock_pc w p = Holding i \<longrightarrow> lock_path w = Some i)"

lemma path_inv_set_pc:
  "path_inv w \<Longrightarrow> (\<And>i. ph = Opened i \<or> ph = Holding i \<Longrightarrow> lock_path w = Some i) \<Longrightarrow> path_inv (set_pc p ph w)"
  by (auto simp: path_inv_def set_pc_def)

lemma path_inv_owner [simp]: "path_inv (w\<lparr>flock_owner := f\<rparr>) = path_inv w"
  by (simp add: path_inv_def)

lemma path_inv_create:
  "path_inv w \<Longrightarrow> lock_path w = None \<Longrightarrow> path_inv (w\<lparr>lock_path := Some n, next_inode := m\<rparr>)"
  unfolding path_inv_def by auto

lemma path_invD: "path_inv w \<Longrightarrow> flock_pc w p = Opened i \<Longrightarrow> lock_path w = Some i"
  by (simp add: path_inv_def)

lemma path_inv_step:
  "path_inv w \<Longrightarrow> flock_do a w = Some w' \<Longrightarrow> \<not> unlinks a \<Longrightarrow> path_inv w'"
  by (cases a)
    (auto split: option.splits if_splits flock_phase.splits
      intro!: path_inv_set_pc path_inv_create dest: path_invD)

lemma flock_path: "flock_reach (\<lambda>a. \<not> unlinks a) w \<Longrightarrow> path_inv w"
  by (induction rule: flock_reach.induct)
    (simp add: path_inv_def flock_init_def, rule path_inv_step)

text \<open>
  C17: the lock file excludes as long as nobody removes it: one inode is never held twice on
  any run, and on runs in which the path is never unlinked two processes never hold the lock.
\<close>

theorem flock_exclusion:
  assumes "flock_reach ok w" "flock_pc w p = Holding i" "flock_pc w q = Holding j"
    and "i = j \<or> (\<forall>a. ok a \<longrightarrow> \<not> unlinks a)"
  shows "p = q"
proof -
  have "flock_reach (\<lambda>a. \<not> unlinks a) w" if "\<forall>a. ok a \<longrightarrow> \<not> unlinks a"
    using assms(1) by (induction rule: flock_reach.induct) (use that in \<open>auto intro: flock_reach.intros\<close>)
  then have "i = j"
    using assms(2,3,4) flock_path [of w] unfolding path_inv_def by (metis option.inject)
  with flock_reach_inv [OF assms(1)] assms(2,3) show ?thesis
    by (metis flock_inv_def option.inject)
qed

definition flock_race :: "flock_action list" where
  "flock_race = [OpenFile 0, Flock 0, OpenFile 1, FlockUn 0, Flock 1, RemovePath 0, OpenFile 2, Flock 2]"

lemma flock_race_run:
  "\<exists>w. run_flock flock_race flock_init = Some w \<and> flock_pc w 1 = Holding 0 \<and> flock_pc w 2 = Holding 1"
  by (simp add: flock_race_def flock_init_def set_pc_def)

text \<open>
  Dropping the flock before removing the path opens a window: a process that opened the
  file earlier takes the flock, the path then disappears, and a third process locks a new file
  at the same path. Both hold the lock, without any forced unlock or crash.
\<close>

theorem flock_release_race:
  "\<exists>w p q. flock_reach (\<lambda>a. a \<noteq> ForceUnlockFile \<and> (\<forall>x. a \<noteq> Crash x)) w \<and> p \<noteq> q \<and>
     (\<exists>i. flock_pc w p = Holding i) \<and> (\<exists>j. flock_pc w q = Holding j)"
proof -
  obtain w where w: "run_flock flock_race flock_init = Some w"
    "flock_pc w 1 = Holding 0" "flock_pc w 2 = Holding 1" using flock_race_run by blast
  have "flock_reach (\<lambda>a. a \<noteq> ForceUnlockFile \<and> (\<forall>x. a \<noteq> Crash x)) w"
    by (rule run_flock_reach [OF w(1) flock_reach.start]) (simp add: flock_race_def)
  moreover have "(1::nat) \<noteq> 2" by simp
  ultimately show ?thesis using w(2,3) by blast
qed

theorem flock_exclusion_witness:
  "\<exists>w. run_flock [OpenFile 0, Flock 0, OpenFile 1, Flock 1] flock_init = Some w \<and>
     (\<forall>q i. flock_pc w q = Holding i \<longrightarrow> q = 0)"
proof -
  let ?as = "[OpenFile 0, Flock 0, OpenFile 1, Flock 1]"
  let ?w = "the (run_flock ?as flock_init)"
  have r: "run_flock ?as flock_init = Some ?w" and h: "flock_pc ?w 0 = Holding 0"
    by (simp_all add: flock_init_def set_pc_def)
  have "flock_reach (\<lambda>a. \<not> unlinks a) ?w"
    by (rule run_flock_reach [OF r flock_reach.start]) simp
  from flock_exclusion [OF this _ h] r show ?thesis by blast
qed

section \<open>The lease object\<close>

text \<open>
  The lock object holds a lease; every write gives it a new entity tag, and the conditional
  writes of the code compare it. \<open>Lock\<close> is a create-if-absent, then a read, then a
  tag-matched overwrite of an expired lease; the renewal loop is a read and a tag-matched
  overwrite; the release is a read and an unconditional delete. Time only moves in \<open>Tick\<close>.
  \<open>Held l\<close> remembers the lease as last written for the client; the code compares only
  its holder and its acquisition time.
\<close>

record lease =
  ls_Holder :: nat
  ls_AcquiredAt :: int
  ls_ExpiresAt :: int

datatype lock_phase = Idle | Creating int | Inspecting int | Reclaiming int nat | Held lease
  | Releasing lease | Removing lease

datatype renew_phase = Waiting | Stamped lease nat | Stopped

record s3_world =
  w_time :: int
  w_obj :: "(lease \<times> nat) option"
  w_tag :: nat
  w_pc :: "nat \<Rightarrow> lock_phase"
  w_renew :: "nat \<Rightarrow> renew_phase"

datatype s3_action = Tick nat | LockStart nat | LockCreate nat | LockInspect nat | LockReclaim nat
  | RenewRead nat | RenewPut nat | ReleaseStart nat | ReleaseRead nat | ReleaseRemove nat
  | Die nat | ForceUnlock

definition s3_init :: s3_world where
  "s3_init = \<lparr>w_time = 0, w_obj = None, w_tag = 0, w_pc = (\<lambda>_. Idle), w_renew = (\<lambda>_. Waiting)\<rparr>"

definition goto :: "nat \<Rightarrow> lock_phase \<Rightarrow> s3_world \<Rightarrow> s3_world" where
  "goto p ph w = w\<lparr>w_pc := (w_pc w)(p := ph)\<rparr>"

definition renew_to :: "nat \<Rightarrow> renew_phase \<Rightarrow> s3_world \<Rightarrow> s3_world" where
  "renew_to p ph w = w\<lparr>w_renew := (w_renew w)(p := ph)\<rparr>"

definition PutObject :: "lease \<Rightarrow> s3_world \<Rightarrow> s3_world" where
  "PutObject l w = w\<lparr>w_obj := Some (l, w_tag w), w_tag := w_tag w + 1\<rparr>"

text \<open>\<open>withRenewal\<close>: the client is in, and a renewal loop runs for it.\<close>

definition withRenewal :: "lease \<Rightarrow> s3_world \<Rightarrow> s3_world" where
  "withRenewal mine w = (let p = ls_Holder mine in
     goto p (Held mine) (if w_renew w p = Stopped then renew_to p Waiting w else w))"

definition same_lease :: "lease \<Rightarrow> lease \<Rightarrow> bool" where
  "same_lease a b \<longleftrightarrow> ls_Holder a = ls_Holder b \<and> ls_AcquiredAt a = ls_AcquiredAt b"

definition s3_Lock :: "int \<Rightarrow> s3_action \<Rightarrow> s3_world \<Rightarrow> s3_world option" where
  "s3_Lock ttl a w = (case a of
     LockStart p \<Rightarrow> (if w_pc w p = Idle then Some (goto p (Creating (w_time w)) w) else None)
   | LockCreate p \<Rightarrow> (case w_pc w p of
       Creating now \<Rightarrow> (let mine = \<lparr>ls_Holder = p, ls_AcquiredAt = now, ls_ExpiresAt = now + ttl\<rparr> in
         if w_obj w = None then Some (withRenewal mine (PutObject mine w))
         else Some (goto p (Inspecting now) w))
     | _ \<Rightarrow> None)
   | LockInspect p \<Rightarrow> (case w_pc w p of
       Inspecting now \<Rightarrow> (case w_obj w of
           None \<Rightarrow> Some (goto p Idle w)
         | Some (existing, etag) \<Rightarrow>
             (if now < ls_ExpiresAt existing then Some (goto p Idle w)
              else Some (goto p (Reclaiming now etag) w)))
     | _ \<Rightarrow> None)
   | LockReclaim p \<Rightarrow> (case w_pc w p of
       Reclaiming now etag \<Rightarrow> (let mine = \<lparr>ls_Holder = p, ls_AcquiredAt = now, ls_ExpiresAt = now + ttl\<rparr> in
         if map_option snd (w_obj w) = Some etag then Some (withRenewal mine (PutObject mine w))
         else Some (goto p Idle w))
     | _ \<Rightarrow> None)
   | _ \<Rightarrow> None)"

definition s3_Renew :: "int \<Rightarrow> s3_action \<Rightarrow> s3_world \<Rightarrow> s3_world option" where
  "s3_Renew ttl a w = (case a of
     RenewRead p \<Rightarrow> (case (w_pc w p, w_renew w p) of
       (Held mine, Waiting) \<Rightarrow> (case w_obj w of
           None \<Rightarrow> Some w
         | Some (current, etag) \<Rightarrow>
             (if same_lease current mine
              then Some (renew_to p (Stamped (current\<lparr>ls_ExpiresAt := w_time w + ttl\<rparr>) etag) w)
              else Some (renew_to p Stopped w)))
     | _ \<Rightarrow> None)
   | RenewPut p \<Rightarrow> (case w_renew w p of
       Stamped renewed etag \<Rightarrow>
         (if map_option snd (w_obj w) = Some etag
          then (let w' = renew_to p Waiting (PutObject renewed w) in
            case w_pc w p of
              Held mine \<Rightarrow> Some (if same_lease renewed mine then goto p (Held renewed) w' else w')
            | _ \<Rightarrow> Some w')
          else Some (renew_to p Waiting w))
     | _ \<Rightarrow> None)
   | _ \<Rightarrow> None)"

definition s3_Release :: "s3_action \<Rightarrow> s3_world \<Rightarrow> s3_world option" where
  "s3_Release a w = (case a of
     ReleaseStart p \<Rightarrow> (case w_pc w p of Held mine \<Rightarrow> Some (goto p (Releasing mine) w) | _ \<Rightarrow> None)
   | ReleaseRead p \<Rightarrow> (case w_pc w p of
       Releasing mine \<Rightarrow> (case w_obj w of
           None \<Rightarrow> Some (goto p Idle w)
         | Some (current, etag) \<Rightarrow>
             (if same_lease current mine then Some (goto p (Removing current) w)
              else Some (goto p Idle w)))
     | _ \<Rightarrow> None)
   | ReleaseRemove p \<Rightarrow> (case w_pc w p of
       Removing current \<Rightarrow> Some (goto p Idle (w\<lparr>w_obj := None\<rparr>))
     | _ \<Rightarrow> None)
   | _ \<Rightarrow> None)"

fun s3_do :: "int \<Rightarrow> s3_action \<Rightarrow> s3_world \<Rightarrow> s3_world option" where
  "s3_do ttl (Tick d) w = Some (w\<lparr>w_time := w_time w + int d\<rparr>)"
| "s3_do ttl (Die p) w = Some (renew_to p Waiting (goto p Idle w))"
| "s3_do ttl ForceUnlock w = Some (w\<lparr>w_obj := None\<rparr>)"
| "s3_do ttl (RenewRead p) w = s3_Renew ttl (RenewRead p) w"
| "s3_do ttl (RenewPut p) w = s3_Renew ttl (RenewPut p) w"
| "s3_do ttl (ReleaseStart p) w = s3_Release (ReleaseStart p) w"
| "s3_do ttl (ReleaseRead p) w = s3_Release (ReleaseRead p) w"
| "s3_do ttl (ReleaseRemove p) w = s3_Release (ReleaseRemove p) w"
| "s3_do ttl a w = s3_Lock ttl a w"

inductive s3_reach :: "int \<Rightarrow> (s3_world \<Rightarrow> s3_action \<Rightarrow> bool) \<Rightarrow> s3_world \<Rightarrow> bool" for ttl ok where
  s3_start: "s3_reach ttl ok s3_init"
| s3_step: "s3_reach ttl ok w \<Longrightarrow> ok w a \<Longrightarrow> s3_do ttl a w = Some w' \<Longrightarrow> s3_reach ttl ok w'"

text \<open>A client holds the state while it is inside the lock and its lease has not run out.\<close>

definition holds_lease :: "s3_world \<Rightarrow> nat \<Rightarrow> bool" where
  "holds_lease w p = (case w_pc w p of Held l \<Rightarrow> w_time w < ls_ExpiresAt l | _ \<Rightarrow> False)"

text \<open>
  Runs on which no operator forces the lock and each release deletes the object before the
  lease it has just read expires.
\<close>

definition timely :: "s3_world \<Rightarrow> s3_action \<Rightarrow> bool" where
  "timely w a = (case a of
     ForceUnlock \<Rightarrow> False
   | ReleaseRemove p \<Rightarrow> (case w_pc w p of Removing l \<Rightarrow> w_time w < ls_ExpiresAt l | _ \<Rightarrow> True)
   | _ \<Rightarrow> True)"

subsection \<open>The invariant\<close>

fun pc_ok :: "s3_world \<Rightarrow> nat \<Rightarrow> lock_phase \<Rightarrow> bool" where
  "pc_ok w p Idle = True"
| "pc_ok w p (Creating now) = (now \<le> w_time w)"
| "pc_ok w p (Inspecting now) = (now \<le> w_time w)"
| "pc_ok w p (Reclaiming now e) = (now \<le> w_time w \<and> e < w_tag w \<and>
     (\<forall>l. w_obj w = Some (l, e) \<longrightarrow> ls_ExpiresAt l \<le> now))"
| "pc_ok w p (Held l) = (ls_Holder l = p \<and> (w_time w < ls_ExpiresAt l \<longrightarrow> (\<exists>e. w_obj w = Some (l, e))))"
| "pc_ok w p (Releasing l) = (ls_Holder l = p)"
| "pc_ok w p (Removing l) = (ls_Holder l = p \<and> (w_time w < ls_ExpiresAt l \<longrightarrow>
     (\<exists>l' e. w_obj w = Some (l', e) \<and> ls_Holder l' = p \<and> ls_ExpiresAt l \<le> ls_ExpiresAt l')))"

fun rn_ok :: "int \<Rightarrow> s3_world \<Rightarrow> nat \<Rightarrow> renew_phase \<Rightarrow> bool" where
  "rn_ok ttl w p (Stamped r e) = (ls_Holder r = p \<and> e < w_tag w \<and> ls_ExpiresAt r \<le> w_time w + ttl \<and>
     (\<forall>l. w_obj w = Some (l, e) \<longrightarrow> same_lease r l \<and> ls_ExpiresAt l \<le> ls_ExpiresAt r))"
| "rn_ok ttl w p _ = True"

definition s3_inv :: "int \<Rightarrow> s3_world \<Rightarrow> bool" where
  "s3_inv ttl w \<longleftrightarrow>
     (\<forall>l e. w_obj w = Some (l, e) \<longrightarrow> e < w_tag w \<and> ls_ExpiresAt l \<le> w_time w + ttl) \<and>
     (\<forall>p. pc_ok w p (w_pc w p)) \<and> (\<forall>p. rn_ok ttl w p (w_renew w p))"

lemma goto_sel [simp]:
  "w_time (goto p ph w) = w_time w" "w_obj (goto p ph w) = w_obj w" "w_tag (goto p ph w) = w_tag w"
  "w_renew (goto p ph w) = w_renew w" "w_pc (goto p ph w) = (w_pc w)(p := ph)"
  "w_time (renew_to p rp w) = w_time w" "w_obj (renew_to p rp w) = w_obj w" "w_tag (renew_to p rp w) = w_tag w"
  "w_renew (renew_to p rp w) = (w_renew w)(p := rp)" "w_pc (renew_to p rp w) = w_pc w"
  by (simp_all add: goto_def renew_to_def)

lemma PutObject_sel [simp]:
  "w_time (PutObject l w) = w_time w" "w_obj (PutObject l w) = Some (l, w_tag w)"
  "w_tag (PutObject l w) = w_tag w + 1" "w_pc (PutObject l w) = w_pc w" "w_renew (PutObject l w) = w_renew w"
  by (simp_all add: PutObject_def)

lemma ok_cong [simp]:
  "pc_ok (goto q qh w) p ph = pc_ok w p ph" "pc_ok (renew_to q qr w) p ph = pc_ok w p ph"
  "rn_ok ttl (goto q qh w) p rp = rn_ok ttl w p rp" "rn_ok ttl (renew_to q qr w) p rp = rn_ok ttl w p rp"
  by (cases ph; simp; fail | cases rp; simp)+

lemma s3_inv_goto: "s3_inv ttl w \<Longrightarrow> pc_ok w p ph \<Longrightarrow> s3_inv ttl (goto p ph w)"
  by (simp add: s3_inv_def)

lemma s3_inv_renew_to: "s3_inv ttl w \<Longrightarrow> rn_ok ttl w p rp \<Longrightarrow> s3_inv ttl (renew_to p rp w)"
  by (simp add: s3_inv_def)

lemma pc_ok_put:
  assumes "pc_ok w q ph" "ls_Holder r \<noteq> q"
    and "\<And>l e. w_obj w = Some (l, e) \<Longrightarrow> ls_ExpiresAt l \<le> w_time w \<or> same_lease r l"
  shows "pc_ok (PutObject r w) q ph"
proof (cases ph)
  case (Held l)
  have "\<not> w_time w < ls_ExpiresAt l"
    using assms(1,2) assms(3) [of l] Held by (auto simp: same_lease_def)
  with Held assms(1) show ?thesis by simp
next
  case (Removing l)
  have "\<not> w_time w < ls_ExpiresAt l"
    using assms Removing by (force simp: same_lease_def)
  with Removing assms(1) show ?thesis by simp
qed (use assms(1) in auto)

lemma rn_ok_put: "rn_ok ttl w q rp \<Longrightarrow> rn_ok ttl (PutObject r w) q rp"
  by (cases rp) auto

lemma s3_inv_put:
  assumes "s3_inv ttl w" "ls_ExpiresAt r \<le> w_time w + ttl" "pc_ok (PutObject r w) (ls_Holder r) ph"
    and "\<And>l e. w_obj w = Some (l, e) \<Longrightarrow> ls_ExpiresAt l \<le> w_time w \<or> same_lease r l"
  shows "s3_inv ttl (goto (ls_Holder r) ph (PutObject r w))"
  using assms by (auto simp: s3_inv_def intro: pc_ok_put rn_ok_put)

lemma withRenewal_inv:
  "s3_inv ttl (goto (ls_Holder m) (Held m) w) \<Longrightarrow> s3_inv ttl (withRenewal m w)"
proof -
  have "withRenewal m w = (let p = ls_Holder m; w' = goto p (Held m) w in
      if w_renew w p = Stopped then renew_to p Waiting w' else w')"
    by (simp add: withRenewal_def Let_def goto_def renew_to_def)
  then show "s3_inv ttl (goto (ls_Holder m) (Held m) w) \<Longrightarrow> ?thesis"
    by (simp add: Let_def s3_inv_renew_to)
qed

lemma s3_inv_Tick: "s3_inv ttl w \<Longrightarrow> s3_inv ttl (w\<lparr>w_time := w_time w + int d\<rparr>)"
proof -
  let ?w = "w\<lparr>w_time := w_time w + int d\<rparr>"
  have "pc_ok w p ph \<Longrightarrow> pc_ok ?w p ph" for p ph by (cases ph) auto
  moreover have "rn_ok ttl w p rp \<Longrightarrow> rn_ok ttl ?w p rp" for p rp by (cases rp) auto
  ultimately show "s3_inv ttl w \<Longrightarrow> ?thesis" by (fastforce simp: s3_inv_def)
qed

lemma s3_inv_Lock:
  assumes inv: "s3_inv ttl w" and step: "s3_Lock ttl a w = Some w'"
  shows "s3_inv ttl w'"
proof -
  have pc: "pc_ok w p (w_pc w p)" for p using inv by (simp add: s3_inv_def)
  have put: "s3_inv ttl (withRenewal m (PutObject m w))"
    if "ls_ExpiresAt m \<le> w_time w + ttl" "\<And>l e. w_obj w = Some (l, e) \<Longrightarrow> ls_ExpiresAt l \<le> w_time w" for m
    using that inv by (intro withRenewal_inv s3_inv_put) auto
  show ?thesis
  proof (cases a)
    case (LockStart p)
    then show ?thesis using step inv by (auto simp: s3_Lock_def intro!: s3_inv_goto split: if_splits)
  next
    case (LockCreate p)
    then obtain now where now: "w_pc w p = Creating now"
      using step by (auto simp: s3_Lock_def split: lock_phase.splits)
    with step LockCreate inv pc [of p] show ?thesis
      by (auto simp: s3_Lock_def Let_def intro!: s3_inv_goto put split: if_splits)
  next
    case (LockInspect p)
    then obtain now where now: "w_pc w p = Inspecting now"
      using step by (auto simp: s3_Lock_def split: lock_phase.splits)
    with step LockInspect inv pc [of p] show ?thesis
      by (auto simp: s3_Lock_def Let_def s3_inv_def [of _ w] intro!: s3_inv_goto split: if_splits option.splits)
  next
    case (LockReclaim p)
    then obtain now e where now: "w_pc w p = Reclaiming now e"
      using step by (auto simp: s3_Lock_def split: lock_phase.splits)
    with step LockReclaim inv pc [of p] show ?thesis
      by (auto simp: s3_Lock_def Let_def intro!: s3_inv_goto put split: if_splits)
  qed (use step in \<open>auto simp: s3_Lock_def\<close>)
qed

lemma goto_idem: "w_pc w p = ph \<Longrightarrow> goto p ph w = w"
  by (simp add: goto_def fun_upd_idem)

lemma goto_renew_to: "goto p ph (renew_to q rp w) = renew_to q rp (goto p ph w)"
  by (simp add: goto_def renew_to_def)

lemma s3_inv_Renew:
  assumes inv: "s3_inv ttl w" and step: "s3_Renew ttl a w = Some w'"
  shows "s3_inv ttl w'"
proof (cases a)
  case (RenewRead p)
  with step obtain mine where h: "w_pc w p = Held mine" "w_renew w p = Waiting"
    by (auto simp: s3_Renew_def split: lock_phase.splits renew_phase.splits)
  have "pc_ok w p (Held mine)" using inv h(1) unfolding s3_inv_def by metis
  then have "ls_Holder mine = p" by simp
  moreover have "e < w_tag w \<and> ls_ExpiresAt l \<le> w_time w + ttl" if "w_obj w = Some (l, e)" for l e
    using inv that by (simp add: s3_inv_def)
  ultimately show ?thesis
    using step RenewRead h inv
    by (auto simp: s3_Renew_def same_lease_def split: option.splits if_splits intro!: s3_inv_renew_to)
next
  case (RenewPut p)
  with step obtain r e where r: "w_renew w p = Stamped r e"
    by (auto simp: s3_Renew_def split: renew_phase.splits)
  have rn: "rn_ok ttl w p (Stamped r e)" and pc: "pc_ok w p (w_pc w p)"
    using inv unfolding s3_inv_def by (metis r, metis)
  show ?thesis
  proof (cases "map_option snd (w_obj w) = Some e")
    case False
    with step RenewPut r inv show ?thesis by (auto simp: s3_Renew_def intro!: s3_inv_renew_to)
  next
    case True
    then obtain l where l: "w_obj w = Some (l, e)" by auto
    with rn have rl: "ls_Holder r = p" "same_lease r l" "ls_ExpiresAt l \<le> ls_ExpiresAt r"
      "ls_ExpiresAt r \<le> w_time w + ttl" by auto
    define ph where "ph = (case w_pc w p of Held m \<Rightarrow> if same_lease r m then Held r else Held m | x \<Rightarrow> x)"
    have "pc_ok (PutObject r w) p ph"
      using pc rl l unfolding ph_def by (cases "w_pc w p") auto
    then have "s3_inv ttl (goto (ls_Holder r) ph (PutObject r w))"
      using rl l inv by (intro s3_inv_put) auto
    then have "s3_inv ttl (renew_to p Waiting (goto p ph (PutObject r w)))"
      using rl(1) by (intro s3_inv_renew_to) auto
    moreover have "w' = renew_to p Waiting (goto p ph (PutObject r w))"
      using step RenewPut r True
      by (cases "w_pc w p") (auto simp: s3_Renew_def ph_def goto_idem goto_renew_to Let_def)
    ultimately show ?thesis by simp
  qed
qed (use step in \<open>auto simp: s3_Renew_def\<close>)

lemma pc_ok_remove:
  assumes "pc_ok w q ph" "w_obj w = Some (l, e)" "ls_Holder l \<noteq> q"
  shows "pc_ok (w\<lparr>w_obj := None\<rparr>) q ph"
  using assms by (cases ph) auto

lemma s3_inv_Release:
  assumes inv: "s3_inv ttl w" and step: "s3_Release a w = Some w'" and "timely w a"
  shows "s3_inv ttl w'"
proof -
  have pc: "pc_ok w p (w_pc w p)" for p using inv by (simp add: s3_inv_def)
  show ?thesis
  proof (cases a)
    case (ReleaseStart p)
    with step inv pc [of p] show ?thesis
      by (auto simp: s3_Release_def split: lock_phase.splits intro!: s3_inv_goto)
  next
    case (ReleaseRead p)
    with step inv pc [of p] show ?thesis
      by (auto simp: s3_Release_def same_lease_def split: lock_phase.splits option.splits if_splits
          intro!: s3_inv_goto)
  next
    case (ReleaseRemove p)
    with step obtain cur where cur: "w_pc w p = Removing cur" "w' = goto p Idle (w\<lparr>w_obj := None\<rparr>)"
      by (auto simp: s3_Release_def split: lock_phase.splits)
    with assms(3) ReleaseRemove pc [of p] obtain l e where l: "w_obj w = Some (l, e)" "ls_Holder l = p"
      by (auto simp: timely_def)
    have "rn_ok ttl (w\<lparr>w_obj := None\<rparr>) q rp" if "rn_ok ttl w q rp" for q rp
      using that by (cases rp) auto
    then show ?thesis
      using inv l pc_ok_remove [OF _ l(1)] by (auto simp: cur(2) s3_inv_def)
  qed (use step in \<open>auto simp: s3_Release_def\<close>)
qed

lemma s3_inv_step:
  assumes "s3_inv ttl w" "timely w a" "s3_do ttl a w = Some w'"
  shows "s3_inv ttl w'"
proof (cases a)
  case (Tick d)
  with assms s3_inv_Tick show ?thesis by auto
next
  case (Die p)
  with assms show ?thesis by (auto intro!: s3_inv_renew_to s3_inv_goto)
qed (use assms in \<open>auto simp: timely_def intro: s3_inv_Lock s3_inv_Renew s3_inv_Release [unfolded timely_def]\<close>)

lemma s3_reach_inv: "s3_reach ttl timely w \<Longrightarrow> s3_inv ttl w"
  by (induction rule: s3_reach.induct) (simp add: s3_inv_def s3_init_def, rule s3_inv_step)

text \<open>
  C16: the lease protocol excludes: on every run in which nobody forces the lock and releases
  delete before the lease they read has expired, at most one client holds an unexpired lease,
  through any interleaving of acquiring, reclaiming, renewing, releasing and dying clients.
\<close>

theorem lease_exclusion:
  assumes "s3_reach ttl timely w" "holds_lease w p" "holds_lease w q"
  shows "p = q"
proof -
  have inv: "pc_ok w r (w_pc w r)" for r
    using s3_reach_inv [OF assms(1)] by (simp add: s3_inv_def)
  have "\<exists>l e. w_obj w = Some (l, e) \<and> ls_Holder l = r" if "holds_lease w r" for r
    using that inv [of r] by (auto simp: holds_lease_def split: lock_phase.splits)
  from this [OF assms(2)] this [OF assms(3)] show ?thesis by auto
qed

fun run_s3 :: "int \<Rightarrow> s3_action list \<Rightarrow> s3_world \<Rightarrow> s3_world option" where
  "run_s3 ttl [] w = Some w"
| "run_s3 ttl (a # as) w = (case s3_do ttl a w of None \<Rightarrow> None | Some w' \<Rightarrow> run_s3 ttl as w')"

lemma run_s3_reach:
  "run_s3 ttl as w = Some w' \<Longrightarrow> s3_reach ttl ok w \<Longrightarrow> (\<And>v a. a \<in> set as \<Longrightarrow> ok v a) \<Longrightarrow> s3_reach ttl ok w'"
  by (induction ttl as w rule: run_s3.induct) (auto split: option.splits intro: s3_reach.s3_step)

theorem lease_exclusion_witness:
  "\<exists>w. run_s3 900 [LockStart 0, LockCreate 0, LockStart 1, LockCreate 1, LockInspect 1] s3_init = Some w \<and>
     (\<forall>q. holds_lease w q \<longrightarrow> q = 0)"
proof -
  let ?as = "[LockStart 0, LockCreate 0, LockStart 1, LockCreate 1, LockInspect 1]"
  obtain w where w: "run_s3 900 ?as s3_init = Some w" "holds_lease w 0"
    by (simp add: s3_init_def s3_Lock_def goto_def PutObject_def withRenewal_def holds_lease_def Let_def)
  have "s3_reach 900 timely w"
    by (rule run_s3_reach [OF w(1) s3_start]) (auto simp: timely_def)
  with lease_exclusion w show ?thesis by blast
qed

definition release_race :: "s3_action list" where
  "release_race = [LockStart 0, LockCreate 0, ReleaseStart 0, ReleaseRead 0, Tick 900,
     LockStart 1, LockCreate 1, LockInspect 1, LockReclaim 1, ReleaseRemove 0, LockStart 2, LockCreate 2]"

lemma release_race_run:
  "\<exists>w. run_s3 900 release_race s3_init = Some w \<and> holds_lease w 1 \<and> holds_lease w 2"
  by (simp add: release_race_def s3_init_def s3_Lock_def s3_Release_def goto_def PutObject_def
      withRenewal_def holds_lease_def same_lease_def Let_def)


end
