(* ===== verification/Planner.thy ===== *)
theory Planner
  imports Graph_Queries State_Store "HOL-Library.Multiset"
begin

text \<open>
  The diff engine, \<open>internal/application/plan/plan.go\<close>: desired envelopes against the
  recorded state, in dependency order. \<open>SpecHash\<close> takes the digest as an argument
  \<open>H\<close>: it stands for the hexadecimal SHA-256 of the canonical JSON text of a value, and is
  applied to the value with its map keys sorted, which is all that canonical JSON depends on.
  The texts of the reasons are the constructors of \<open>plan_reason\<close>.
\<close>

section \<open>Data\<close>

datatype Action = ActionCreate | ActionUpdate | ActionConfigure | ActionNoop | ActionDelete
  | ActionOrphanUnknown | ActionRefused

datatype plan_reason =
    ExternalDiffers | ExternalUnchanged | NotInState | SpecChanged | SecretNotRecorded
  | SecretChanged | SpecUnchanged | DependencyChanged Key | DependencySecretChanged Key
  | PredatesLastApplied | ProtectedLastApplied Key | AbsentFromDesired
  | ExternalIncluded | ExternalSkipped | ImportedIncluded | ImportedSkipped
  | ManagedInState | NothingToDestroy | Protected Key

record Entry =
  pe_Key :: Key
  pe_Action :: Action
  pe_Reason :: plan_reason
  pe_SpecHash :: string
  pe_SecretHash :: string

record Plan =
  Entries :: "Entry list"
  Levels :: "Key list list"

definition HasChanges :: "Plan \<Rightarrow> bool" where
  "HasChanges p \<longleftrightarrow> list_ex (\<lambda>e. pe_Action e \<noteq> ActionNoop) (Entries p)"

section \<open>The specification hash\<close>

fun canonical :: "any \<Rightarrow> any" where
  "canonical (AMap m) = AMap (sort_by fst (map (\<lambda>(k, v). (k, canonical v)) m))"
| "canonical (AList xs) = AList (map canonical xs)"
| "canonical v = v"

definition observerNames :: "Envelope \<Rightarrow> string list" where
  "observerNames e = sort_by id (map (\<lambda>obs.
     NamespaceOr (NameRef (obs_Name obs) (obs_Namespace obs)) (md_Namespace (env_Metadata e))
       @ ''/'' @ obs_Name obs) (md_Observers (env_Metadata e)))"

definition SpecHash :: "(any \<Rightarrow> string) \<Rightarrow> Envelope \<Rightarrow> string" where
  "SpecHash H e = H (canonical (AMap
     [(''apiVersion'', AStr (env_APIVersion e)),
      (''kind'', AStr (env_Kind e)),
      (''name'', AStr (md_Name (env_Metadata e))),
      (''namespace'', AStr (NormalizeNamespace (md_Namespace (env_Metadata e)))),
      (''observers'', AList (map AStr (observerNames e))),
      (''spec'', AMap (env_Spec e))]))"

section \<open>Compute\<close>

text \<open>A lookup in a Go map: the zero value when the key is absent.\<close>

definition get_or :: "'v \<Rightarrow> ('k \<times> 'v) list \<Rightarrow> 'k \<Rightarrow> 'v" where
  "get_or z m k = (case map_of m k of None \<Rightarrow> z | Some v \<Rightarrow> v)"

definition by_key :: "Envelope list \<Rightarrow> (Key \<times> Envelope) list" where
  "by_key envelopes = fold (\<lambda>e m. AList.update (env_Key e) e m) envelopes []"

definition secretMaterialChanged :: "Envelope \<Rightarrow> bool \<Rightarrow> ResourceState \<Rightarrow> string \<Rightarrow> bool" where
  "secretMaterialChanged env exists prior secretHash =
     (if env_Kind env \<noteq> ''SecretReference'' \<or> \<not> exists \<or> secretHash = [] then False
      else rs_SecretHash prior = [] \<or> rs_SecretHash prior \<noteq> secretHash)"

definition dependencySecretChanged ::
  "Key \<Rightarrow> (Key \<times> Envelope) list \<Rightarrow> State \<Rightarrow> ResourceState \<Rightarrow> (Key \<times> string) list \<Rightarrow> bool" where
  "dependencySecretChanged dep desired st prior secretHashes =
     (case map_of desired dep of
        None \<Rightarrow> False
      | Some depEnv \<Rightarrow>
          (if env_Kind depEnv \<noteq> ''SecretReference'' then False
           else
             (let h = get_or [] secretHashes dep;
                  currentHash = (if h = []
                    then rs_SecretHash (get_or zero_ResourceState (st_Resources st) dep) else h)
              in currentHash \<noteq> [] \<and>
                 get_or [] (rs_DependencyHashes prior) (KeyString dep) \<noteq> currentHash)))"

text \<open>The action before dependencies are looked at.\<close>

definition own_action ::
  "Envelope \<Rightarrow> ResourceState option \<Rightarrow> string \<Rightarrow> string \<Rightarrow> Action \<times> plan_reason" where
  "own_action e stored hash secretHash =
     (let exists = (stored \<noteq> None);
          prior = (case stored of None \<Rightarrow> zero_ResourceState | Some r \<Rightarrow> r);
          lifecycle = LifecycleOf e (exists \<and> rs_Imported prior)
      in if lifecycle = External
         then (if \<not> exists \<or> rs_SpecHash prior \<noteq> hash \<or> secretMaterialChanged e exists prior secretHash
               then (ActionConfigure, ExternalDiffers) else (ActionNoop, ExternalUnchanged))
         else if \<not> exists then (ActionCreate, NotInState)
         else if rs_SpecHash prior \<noteq> hash then (ActionUpdate, SpecChanged)
         else if secretMaterialChanged e exists prior secretHash
         then (ActionUpdate, if rs_SecretHash prior = [] then SecretNotRecorded else SecretChanged)
         else (ActionNoop, SpecUnchanged))"

fun dependency_reason :: "(Key \<Rightarrow> bool) \<Rightarrow> (Key \<Rightarrow> bool) \<Rightarrow> Key list \<Rightarrow> plan_reason option" where
  "dependency_reason changed secretChanged [] = None"
| "dependency_reason changed secretChanged (dep # deps) =
     (if changed dep then Some (DependencyChanged dep)
      else if secretChanged dep then Some (DependencySecretChanged dep)
      else dependency_reason changed secretChanged deps)"

definition plan_entry ::
  "(any \<Rightarrow> string) \<Rightarrow> (Key \<times> Envelope) list \<Rightarrow> State \<Rightarrow> Graph \<Rightarrow> (Key \<times> string) list \<Rightarrow> Key list
    \<Rightarrow> Key \<Rightarrow> Entry" where
  "plan_entry H byKey st g secretHashes changed key =
     (let e = get_or zero_Envelope byKey key;
          hash = SpecHash H e;
          stored = map_of (st_Resources st) key;
          prior = (case stored of None \<Rightarrow> zero_ResourceState | Some r \<Rightarrow> r);
          lifecycle = LifecycleOf e (stored \<noteq> None \<and> rs_Imported prior);
          secretHash = (if env_Kind e = ''SecretReference'' then get_or [] secretHashes key else []);
          (action, reason) = own_action e stored hash secretHash;
          cascade = (if action = ActionNoop \<and> lifecycle = Managed
            then dependency_reason (\<lambda>d. d \<in> set changed)
              (\<lambda>d. dependencySecretChanged d byKey st prior secretHashes) (succs g key)
            else None)
      in case cascade of
           None \<Rightarrow> \<lparr>pe_Key = key, pe_Action = action, pe_Reason = reason, pe_SpecHash = hash,
               pe_SecretHash = secretHash\<rparr>
         | Some r \<Rightarrow> \<lparr>pe_Key = key, pe_Action = ActionUpdate, pe_Reason = r, pe_SpecHash = hash,
               pe_SecretHash = secretHash\<rparr>)"

fun plan_loop :: "(Key list \<Rightarrow> Key \<Rightarrow> Entry) \<Rightarrow> Key list \<Rightarrow> Key list \<Rightarrow> Entry list" where
  "plan_loop mk [] changed = []"
| "plan_loop mk (k # ks) changed =
     (let e = mk changed k
      in e # plan_loop mk ks (if pe_Action e \<noteq> ActionNoop then k # changed else changed))"

section \<open>Deletes\<close>

text \<open>
  The depth of an absent resource over its recorded dependencies; a key being visited counts
  as depth 0, so recorded cycles do not recurse for ever. The fuel is the number of absent keys.
\<close>

fun del_visit :: "nat \<Rightarrow> (Key \<Rightarrow> Key list) \<Rightarrow> Key \<Rightarrow> Key list \<Rightarrow> (Key \<times> nat) list
    \<Rightarrow> (nat \<times> (Key \<times> nat) list) option"
  and del_loop :: "nat \<Rightarrow> (Key \<Rightarrow> Key list) \<Rightarrow> Key list \<Rightarrow> Key list \<Rightarrow> (Key \<times> nat) list \<Rightarrow> nat
    \<Rightarrow> (nat \<times> (Key \<times> nat) list) option" where
  "del_visit n deps k visiting depth =
     (case map_of depth k of
        Some d \<Rightarrow> Some (d, depth)
      | None \<Rightarrow>
          (if k \<in> set visiting then Some (0, depth)
           else (case n of
             0 \<Rightarrow> None
           | Suc m \<Rightarrow> (case del_loop m deps (deps k) (k # visiting) depth 0 of
               None \<Rightarrow> None
             | Some (mx, depth') \<Rightarrow> Some (mx, AList.update k mx depth')))))"
| "del_loop n deps [] visiting depth mx = Some (mx, depth)"
| "del_loop n deps (dep # ds) visiting depth mx =
     (case del_visit n deps dep visiting depth of
        None \<Rightarrow> None
      | Some (d, depth') \<Rightarrow> del_loop n deps ds visiting depth' (if mx < d + 1 then d + 1 else mx))"

declare del_visit.simps [simp del]

fun del_nodes :: "nat \<Rightarrow> (Key \<Rightarrow> Key list) \<Rightarrow> Key list \<Rightarrow> (Key \<times> nat) list \<Rightarrow> nat
    \<Rightarrow> (nat \<times> (Key \<times> nat) list) option" where
  "del_nodes n deps [] depth mx = Some (mx, depth)"
| "del_nodes n deps (k # ks) depth mx =
     (case del_visit n deps k [] depth of
        None \<Rightarrow> None
      | Some (d, depth') \<Rightarrow> del_nodes n deps ks depth' (if mx < d then d else mx))"

definition delete_entry :: "(Key \<times> ResourceState) list \<Rightarrow> Key \<Rightarrow> Entry" where
  "delete_entry absent key =
     (let rs = get_or zero_ResourceState absent key;
          (action, reason) = (case rs_LastApplied rs of
              None \<Rightarrow> (ActionOrphanUnknown, PredatesLastApplied)
            | Some applied \<Rightarrow>
                (if md_Protect (env_Metadata applied) then (ActionRefused, ProtectedLastApplied key)
                 else (ActionDelete, AbsentFromDesired)))
      in \<lparr>pe_Key = key, pe_Action = action, pe_Reason = reason, pe_SpecHash = [], pe_SecretHash = []\<rparr>)"

definition absent_resources :: "(Key \<times> Envelope) list \<Rightarrow> State \<Rightarrow> (Key \<times> ResourceState) list" where
  "absent_resources desired st = filter (\<lambda>(k, rs). map_of desired k = None) (st_Resources st)"

definition absent_deps :: "(Key \<times> ResourceState) list \<Rightarrow> Key \<Rightarrow> Key list" where
  "absent_deps absent k =
     filter (\<lambda>d. map_of absent d \<noteq> None) (rs_Dependencies (get_or zero_ResourceState absent k))"

definition delete_levels :: "(Key \<times> ResourceState) list \<Rightarrow> Key list list" where
  "delete_levels absent =
     (case del_nodes (length absent) (absent_deps absent) (map fst absent) [] 0 of
        None \<Rightarrow> []
      | Some (maxDepth, depth) \<Rightarrow> map (level_keys depth) [0..<maxDepth + 1])"

definition computeApplyDeletes :: "(Key \<times> Envelope) list \<Rightarrow> State \<Rightarrow> Key list list \<times> Entry list" where
  "computeApplyDeletes desired st =
     (let absent = absent_resources desired st in
      if absent = [] then ([], [])
      else (let levels = filter (\<lambda>l. l \<noteq> []) (rev (delete_levels absent))
            in (levels, map (delete_entry absent) (concat levels))))"

definition ComputeWithSecretHashes ::
  "(any \<Rightarrow> string) \<Rightarrow> Envelope list \<Rightarrow> State \<Rightarrow> Graph \<Rightarrow> (Key \<times> string) list \<Rightarrow> Plan" where
  "ComputeWithSecretHashes H envelopes st g secretHashes =
     (let byKey = by_key envelopes;
          levels = TopologicalLevels g;
          entries = plan_loop (plan_entry H byKey st g secretHashes) (concat levels) [];
          (deleteLevels, deleteEntries) = computeApplyDeletes byKey st
      in \<lparr>Entries = entries @ deleteEntries, Levels = levels @ deleteLevels\<rparr>)"

definition Compute :: "(any \<Rightarrow> string) \<Rightarrow> Envelope list \<Rightarrow> State \<Rightarrow> Graph \<Rightarrow> Plan" where
  "Compute H envelopes st g = ComputeWithSecretHashes H envelopes st g []"

section \<open>Destroy\<close>

definition isProtected :: "Envelope \<Rightarrow> ResourceState \<Rightarrow> bool" where
  "isProtected e prior =
     (if env_Kind e \<noteq> [] then md_Protect (env_Metadata e)
      else case rs_LastApplied prior of
        Some applied \<Rightarrow> md_Protect (env_Metadata applied)
      | None \<Rightarrow> False)"

definition destroy_entry ::
  "(Key \<times> Envelope) list \<Rightarrow> State \<Rightarrow> bool \<Rightarrow> bool \<Rightarrow> Key \<Rightarrow> Entry" where
  "destroy_entry byKey st includeExternal includeImported key =
     (let e = get_or zero_Envelope byKey key;
          stored = map_of (st_Resources st) key;
          prior = (case stored of None \<Rightarrow> zero_ResourceState | Some r \<Rightarrow> r);
          (action, reason) = (case LifecycleOf e (stored \<noteq> None \<and> rs_Imported prior) of
              External \<Rightarrow> if includeExternal then (ActionDelete, ExternalIncluded) else (ActionNoop, ExternalSkipped)
            | Imported \<Rightarrow> if includeImported then (ActionDelete, ImportedIncluded) else (ActionNoop, ImportedSkipped)
            | Managed \<Rightarrow> if stored \<noteq> None then (ActionDelete, ManagedInState) else (ActionNoop, NothingToDestroy));
          (action, reason) = (if action = ActionDelete \<and> isProtected e prior
            then (ActionRefused, Protected key) else (action, reason))
      in \<lparr>pe_Key = key, pe_Action = action, pe_Reason = reason, pe_SpecHash = [], pe_SecretHash = []\<rparr>)"

definition ComputeDestroy :: "Envelope list \<Rightarrow> State \<Rightarrow> Graph \<Rightarrow> bool \<Rightarrow> bool \<Rightarrow> Plan" where
  "ComputeDestroy envelopes st g includeExternal includeImported =
     (let byKey = by_key envelopes; levels = rev (TopologicalLevels g)
      in \<lparr>Entries = map (destroy_entry byKey st includeExternal includeImported) (concat levels),
          Levels = levels\<rparr>)"

section \<open>Lookups\<close>

lemma by_key_rekey: "by_key envs = rekey (\<lambda>k. k) (map (\<lambda>e. (env_Key e, e)) envs)"
  by (simp add: by_key_def rekey_def fold_map comp_def)

lemma by_key_lookup:
  "distinct (map env_Key envs) \<Longrightarrow> map_of (by_key envs) k = map_of (map (\<lambda>e. (env_Key e, e)) envs) k"
  unfolding by_key_rekey by (rule rekey_lookup) (simp_all add: comp_def)

lemma by_key_dom: "map_of (by_key envs) k = None \<longleftrightarrow> k \<notin> env_Key ` set envs"
  by (simp add: by_key_rekey map_of_eq_None_iff rekey_keys image_image)

lemma by_key_Some:
  "distinct (map env_Key envs) \<Longrightarrow> e \<in> set envs \<Longrightarrow> map_of (by_key envs) (env_Key e) = Some e"
  by (simp add: by_key_lookup comp_def)

section \<open>Delete order\<close>

text \<open>
  The memoised depth with a separate set of keys being visited computes what the one of
  \<open>TopologicalLevels\<close>, which stores a provisional 0 instead, computes.
\<close>

definition del_sim :: "Key list \<Rightarrow> (Key \<times> nat) list \<Rightarrow> (Key \<times> nat) list \<Rightarrow> bool" where
  "del_sim vis d d' \<longleftrightarrow> set vis \<inter> dom (map_of d') = {} \<and>
     map_of d = map_of d' ++ (\<lambda>x. if x \<in> set vis then Some 0 else None)"

lemma del_sim_push:
  "del_sim vis d d' \<Longrightarrow> map_of d k = None \<Longrightarrow> del_sim (k # vis) (AList.update k 0 d) d'"
  by (auto simp: del_sim_def map_add_def fun_eq_iff domIff split: option.splits if_splits)

lemma del_sim_pop:
  "del_sim (k # vis) d d' \<Longrightarrow> k \<notin> set vis \<Longrightarrow> del_sim vis (AList.update k m d) (AList.update k m d')"
  by (auto simp: del_sim_def map_add_def fun_eq_iff domIff split: option.splits if_splits)

lemma del_visit_sim:
  "del_sim vis d d' \<Longrightarrow>
     (case visit n s k d of None \<Rightarrow> del_visit n s k vis d' = None
      | Some (v, d1) \<Rightarrow> \<exists>d1'. del_visit n s k vis d' = Some (v, d1') \<and> del_sim vis d1 d1')"
  "del_sim vis d d' \<Longrightarrow>
     (case visit_loop n s ks d mx of None \<Rightarrow> del_loop n s ks vis d' mx = None
      | Some (v, d1) \<Rightarrow> \<exists>d1'. del_loop n s ks vis d' mx = Some (v, d1') \<and> del_sim vis d1 d1')"
proof (induction n s k d and n s ks d mx arbitrary: vis d' and vis d' rule: visit_visit_loop.induct)
  case (1 n s k d)
  show ?case
  proof (cases "map_of d k")
    case (Some v)
    show ?thesis
    proof (cases "k \<in> set vis")
      case True
      with Some "1.prems" have "map_of d' k = None" "v = 0" by (auto simp: del_sim_def domIff)
      with Some True "1.prems" show ?thesis by (simp add: visit.simps del_visit.simps)
    next
      case False
      with Some "1.prems" have "map_of d' k = Some v" by (auto simp: del_sim_def map_add_def split: option.splits)
      with Some "1.prems" show ?thesis by (simp add: visit.simps del_visit.simps)
    qed
  next
    case None
    with "1.prems" have k: "k \<notin> set vis" "map_of d' k = None"
      by (auto simp: del_sim_def map_add_def split: option.splits if_splits)
    show ?thesis
    proof (cases n)
      case 0
      with None k show ?thesis by (simp add: visit.simps del_visit.simps)
    next
      case (Suc m)
      note IH = "1.IH" [OF None Suc del_sim_push [OF "1.prems" None]]
      show ?thesis
      proof (cases "visit_loop m s (s k) (AList.update k 0 d) 0")
        case None': None
        with IH None k Suc show ?thesis by (simp add: visit.simps del_visit.simps)
      next
        case (Some r)
        obtain mx d1 where r: "r = (mx, d1)" by (cases r)
        with IH Some obtain d1' where
          d1': "del_loop m s (s k) (k # vis) d' 0 = Some (mx, d1')" "del_sim (k # vis) d1 d1'" by auto
        with del_sim_pop [OF d1'(2) k(1)] None k Suc Some r show ?thesis
          by (simp add: visit.simps del_visit.simps)
      qed
    qed
  qed
next
  case (3 n s dep ds d mx)
  show ?case
  proof (cases "visit n s dep d")
    case None
    with "3.IH"(1) [OF "3.prems"] show ?thesis by simp
  next
    case (Some r)
    obtain v d1 where r: "r = (v, d1)" by (cases r)
    with "3.IH"(1) [OF "3.prems"] Some obtain d1' where
      "del_visit n s dep vis d' = Some (v, d1')" "del_sim vis d1 d1'" by auto
    with "3.IH"(2) [OF Some r [symmetric], of vis d1'] Some r show ?thesis
      by (auto split: option.splits)
  qed
qed simp

lemma del_visit_distinct:
  "del_visit n s k vis d = Some (v, d') \<Longrightarrow> distinct (map fst d) \<Longrightarrow> distinct (map fst d')"
  "del_loop n s ks vis d mx = Some (v, d') \<Longrightarrow> distinct (map fst d) \<Longrightarrow> distinct (map fst d')"
proof (induction n s k vis d and n s ks vis d mx arbitrary: v d' and v d' rule: del_visit_del_loop.induct)
  case (1 n s k vis d)
  then show ?case
    by (auto simp: del_visit.simps [of n s k vis d] distinct_update split: option.splits if_splits nat.splits)
qed (auto split: option.splits)

lemma del_nodes_sim:
  "map_of d = map_of d' \<Longrightarrow>
     (case visit_nodes n s ks d mx of None \<Rightarrow> del_nodes n s ks d' mx = None
      | Some (v, d1) \<Rightarrow> \<exists>d1'. del_nodes n s ks d' mx = Some (v, d1') \<and> map_of d1 = map_of d1')"
proof (induction n s ks d mx arbitrary: d' rule: visit_nodes.induct)
  case (2 n s k ks d mx)
  have sim: "del_sim [] d d'" using "2.prems" by (simp add: del_sim_def map_add_def)
  note v = del_visit_sim(1) [OF sim, of n s k]
  show ?case
  proof (cases "visit n s k d")
    case None
    with v show ?thesis by simp
  next
    case (Some r)
    obtain x d1 where r: "r = (x, d1)" by (cases r)
    with v Some obtain d1' where d1': "del_visit n s k [] d' = Some (x, d1')" "del_sim [] d1 d1'" by auto
    then have "map_of d1 = map_of d1'" by (auto simp: del_sim_def map_add_def fun_eq_iff split: option.splits)
    from "2.IH" [OF Some r [symmetric] this] Some r d1'(1) show ?thesis
      by (auto split: option.splits)
  qed
qed simp

lemma del_nodes_distinct:
  "del_nodes n s ks d mx = Some (v, d') \<Longrightarrow> distinct (map fst d) \<Longrightarrow> distinct (map fst d')"
  by (induction n s ks d mx rule: del_nodes.induct)
    (auto split: option.splits dest: del_visit_distinct(1))

definition del_invar :: "(Key \<times> ResourceState) list \<Rightarrow> bool" where
  "del_invar absent \<longleftrightarrow> distinct (map fst absent) \<and> acyclic (edge_rel (absent_deps absent))"

lemma absent_deps_closed: "set (absent_deps absent k) \<subseteq> fst ` set absent"
  by (auto simp: absent_deps_def dom_map_of_conv_image_fst [symmetric])

lemma delete_levels_table:
  assumes "del_invar absent"
  obtains mx depth where "delete_levels absent = map (level_keys depth) [0..<mx + 1]"
    "visit_inv (absent_deps absent) {} (map_of depth)" "distinct (map fst depth)"
    "\<forall>k d. map_of depth k = Some d \<longrightarrow> d \<le> mx" "fst ` set depth = fst ` set absent"
proof -
  let ?N = "fst ` set absent" and ?s = "absent_deps absent" and ?n = "length absent"
  have ac: "acyclic (edge_rel ?s)" and dist: "distinct (map fst absent)"
    using assms by (simp_all add: del_invar_def)
  have "card ?N \<le> ?n" using dist by (metis card_length length_map list.set_map)
  then have "visit_nodes ?n ?s (map fst absent) [] 0 \<noteq> None"
    using visit_nodes_fuel [of ?N ?s "map fst absent" "[]" ?n 0] absent_deps_closed by simp
  then obtain mx d where v: "visit_nodes ?n ?s (map fst absent) [] 0 = Some (mx, d)" by auto
  have "visit_inv ?s {} (map_of [])" by (simp add: visit_inv_def)
  note c = visit_nodes_correct [OF v ac this]
  have keys: "distinct (map fst d) \<and> fst ` set d \<subseteq> ?N"
    using visit_nodes_keys [OF v, of ?N] absent_deps_closed by simp
  from del_nodes_sim [of "[]" "[]" ?n ?s "map fst absent" 0] v obtain d' where
    d': "del_nodes ?n ?s (map fst absent) [] 0 = Some (mx, d')" "map_of d = map_of d'" by auto
  have "distinct (map fst d')" using del_nodes_distinct [OF d'(1)] by simp
  moreover have dom: "dom (map_of d') = ?N"
  proof
    show "dom (map_of d') \<subseteq> ?N" using keys d'(2) by (simp add: dom_map_of_conv_image_fst [symmetric])
    show "?N \<subseteq> dom (map_of d')" using c d'(2) by auto
  qed
  moreover have "\<forall>k e. map_of d' k = Some e \<longrightarrow> e \<le> mx"
  proof (intro allI impI)
    fix k e assume e: "map_of d' k = Some e"
    then have "k \<in> ?N" using dom by auto
    with c e d'(2) show "e \<le> mx" by auto
  qed
  moreover have "delete_levels absent = map (level_keys d') [0..<mx + 1]"
    using d'(1) by (simp add: delete_levels_def)
  ultimately show thesis
    using that [of d' mx] c d'(2) by (simp add: dom_map_of_conv_image_fst)
qed

lemma delete_levels_layered:
  assumes "del_invar absent"
  shows "distinct (concat (delete_levels absent))"
    and "set (concat (delete_levels absent)) = fst ` set absent"
    and "i < length (delete_levels absent) \<Longrightarrow> k \<in> set (delete_levels absent ! i) \<Longrightarrow>
      d \<in> set (absent_deps absent k) \<Longrightarrow> \<exists>j<i. d \<in> set (delete_levels absent ! j)"
proof -
  obtain mx depth where t: "delete_levels absent = map (level_keys depth) [0..<mx + 1]"
    "visit_inv (absent_deps absent) {} (map_of depth)" "distinct (map fst depth)"
    "\<forall>k d. map_of depth k = Some d \<longrightarrow> d \<le> mx" "fst ` set depth = fst ` set absent"
    by (rule delete_levels_table [OF assms], rule that)
  note tl = table_levels [OF t(2,3,4,1)]
  show "distinct (concat (delete_levels absent))" by (rule tl(1))
  show "set (concat (delete_levels absent)) = fst ` set absent" using tl(2) t(5) by simp
  show "i < length (delete_levels absent) \<Longrightarrow> k \<in> set (delete_levels absent ! i) \<Longrightarrow>
      d \<in> set (absent_deps absent k) \<Longrightarrow> \<exists>j<i. d \<in> set (delete_levels absent ! j)" by (rule tl(3))
qed

interpretation del: layering del_invar "\<lambda>absent. fst ` set absent" absent_deps delete_levels
  by unfold_locales (rule delete_levels_layered; assumption)+

section \<open>The loop over the levels\<close>

definition planned_action :: "Plan \<Rightarrow> Key \<Rightarrow> Action option" where
  "planned_action p k = map_option pe_Action (find (\<lambda>e. pe_Key e = k) (Entries p))"

fun changed_after :: "(Key list \<Rightarrow> Key \<Rightarrow> Entry) \<Rightarrow> Key list \<Rightarrow> Key list \<Rightarrow> Key list" where
  "changed_after mk [] ch = ch"
| "changed_after mk (k # ks) ch =
     changed_after mk ks (if pe_Action (mk ch k) \<noteq> ActionNoop then k # ch else ch)"

lemma plan_entry_Key [simp]: "pe_Key (plan_entry H m st g sh ch k) = k"
  by (simp add: plan_entry_def Let_def split: option.splits prod.splits)

lemma plan_loop_append:
  "plan_loop mk (xs @ ys) ch = plan_loop mk xs ch @ plan_loop mk ys (changed_after mk xs ch)"
  by (induction xs arbitrary: ch) (simp_all add: Let_def)

lemma plan_loop_keys: "(\<And>ch k. pe_Key (mk ch k) = k) \<Longrightarrow> map pe_Key (plan_loop mk ks ch) = ks"
  by (induction ks arbitrary: ch) (simp_all add: Let_def)

lemma set_changed_after:
  "(\<And>ch k. pe_Key (mk ch k) = k) \<Longrightarrow>
     set (changed_after mk ks ch) =
       set ch \<union> set (map pe_Key (filter (\<lambda>e. pe_Action e \<noteq> ActionNoop) (plan_loop mk ks ch)))"
  by (induction ks arbitrary: ch) (auto simp: Let_def)

lemma find_map_key: "k \<notin> set (map f xs) \<Longrightarrow> find (\<lambda>e. f e = k) (xs @ ys) = find (\<lambda>e. f e = k) ys"
  by (induction xs) auto

lemma find_key_append: "k \<in> set (map f xs) \<Longrightarrow> find (\<lambda>e. f e = k) (xs @ ys) = find (\<lambda>e. f e = k) xs"
  by (induction xs) auto

lemma find_key_unique:
  "distinct (map f xs) \<Longrightarrow> e \<in> set xs \<Longrightarrow> find (\<lambda>x. f x = f e) xs = Some e"
  by (induction xs) (auto simp: image_iff)

lemma loop_entry:
  assumes mk: "\<And>ch k. pe_Key (mk ch k) = k" and d: "distinct (xs @ k # ys)"
  shows "find (\<lambda>e. pe_Key e = k) (plan_loop mk (xs @ k # ys) []) = Some (mk (changed_after mk xs []) k)"
proof -
  have "k \<notin> set (map pe_Key (plan_loop mk xs []))"
    unfolding plan_loop_keys [OF mk] using d by simp
  then show ?thesis by (simp add: plan_loop_append find_map_key Let_def mk)
qed

lemma loop_changed:
  assumes mk: "\<And>ch k. pe_Key (mk ch k) = k" and d: "distinct (xs @ zs)" and x: "x \<in> set xs"
  shows "x \<in> set (changed_after mk xs []) \<longleftrightarrow>
    map_option pe_Action (find (\<lambda>e. pe_Key e = x) (plan_loop mk (xs @ zs) [])) \<noteq> Some ActionNoop"
proof -
  let ?es = "plan_loop mk xs []"
  have keys: "map pe_Key ?es = xs" by (rule plan_loop_keys [OF mk])
  then obtain e where e: "e \<in> set ?es" "pe_Key e = x" using x by (metis in_set_conv_nth length_map nth_map)
  have dist: "distinct (map pe_Key ?es)" using keys d by simp
  have f: "find (\<lambda>e. pe_Key e = x) ?es = Some e"
    using find_key_unique [OF dist e(1)] e(2) by simp
  have uniq: "e' = e" if "e' \<in> set ?es" "pe_Key e' = x" for e'
    using find_key_unique [OF dist that(1)] that(2) f by simp
  have "x \<in> set (map pe_Key ?es)" using keys x by simp
  then have "find (\<lambda>e. pe_Key e = x) (plan_loop mk (xs @ zs) []) = Some e"
    using f by (simp add: plan_loop_append find_key_append)
  moreover have "x \<in> set (changed_after mk xs []) \<longleftrightarrow> pe_Action e \<noteq> ActionNoop"
  proof -
    have set: "set (changed_after mk xs []) = pe_Key ` {e \<in> set ?es. pe_Action e \<noteq> ActionNoop}"
      using set_changed_after [where mk = mk and ks = xs and ch = "[]"] mk by simp
    show ?thesis
    proof
      assume "x \<in> set (changed_after mk xs [])"
      then obtain e' where e': "e' \<in> set ?es" "pe_Key e' = x" "pe_Action e' \<noteq> ActionNoop"
        unfolding set by auto
      from uniq [OF e'(1,2)] e'(3) show "pe_Action e \<noteq> ActionNoop" by simp
    next
      assume "pe_Action e \<noteq> ActionNoop"
      with e show "x \<in> set (changed_after mk xs [])" unfolding set by force
    qed
  qed
  ultimately show ?thesis by simp
qed

section \<open>When an entry is a no-op\<close>

text \<open>The resource itself needs nothing: it is recorded with this specification and secret.\<close>

definition recorded :: "(any \<Rightarrow> string) \<Rightarrow> State \<Rightarrow> (Key \<times> string) list \<Rightarrow> Envelope \<Rightarrow> bool" where
  "recorded H st sh e \<longleftrightarrow>
     (case map_of (st_Resources st) (env_Key e) of
        None \<Rightarrow> False
      | Some prior \<Rightarrow> rs_SpecHash prior = SpecHash H e \<and>
          (env_Kind e = ''SecretReference'' \<and> get_or [] sh (env_Key e) \<noteq> [] \<longrightarrow>
             rs_SecretHash prior = get_or [] sh (env_Key e)))"

definition prior_of :: "State \<Rightarrow> Key \<Rightarrow> ResourceState" where
  "prior_of st k = get_or zero_ResourceState (st_Resources st) k"

definition lifecycle_in :: "State \<Rightarrow> Envelope \<Rightarrow> Lifecycle" where
  "lifecycle_in st e = LifecycleOf e (map_of (st_Resources st) (env_Key e) \<noteq> None \<and>
     rs_Imported (prior_of st (env_Key e)))"

lemma own_action_Noop:
  "fst (own_action e (map_of (st_Resources st) (env_Key e)) (SpecHash H e)
      (if env_Kind e = ''SecretReference'' then get_or [] sh (env_Key e) else [])) = ActionNoop \<longleftrightarrow>
   recorded H st sh e"
  by (auto simp: own_action_def recorded_def secretMaterialChanged_def Let_def split: option.splits if_splits)

lemma dependency_reason_None:
  "dependency_reason c s ds = None \<longleftrightarrow> (\<forall>d\<in>set ds. \<not> c d \<and> \<not> s d)"
  by (induction ds) auto

lemma plan_entry_Noop:
  assumes "map_of m (env_Key e) = Some e"
  shows "pe_Action (plan_entry H m st g sh ch (env_Key e)) = ActionNoop \<longleftrightarrow>
    recorded H st sh e \<and> (lifecycle_in st e = Managed \<longrightarrow> (\<forall>d\<in>set (succs g (env_Key e)).
      d \<notin> set ch \<and> \<not> dependencySecretChanged d m st (prior_of st (env_Key e)) sh))"
proof -
  let ?oa = "own_action e (map_of (st_Resources st) (env_Key e)) (SpecHash H e)
      (if env_Kind e = ''SecretReference'' then get_or [] sh (env_Key e) else [])"
  have e: "get_or zero_Envelope m (env_Key e) = e" using assms by (simp add: get_or_def)
  obtain a r where oa: "?oa = (a, r)" by (cases ?oa)
  have a: "a = ActionNoop \<longleftrightarrow> recorded H st sh e" using own_action_Noop [of e st H sh] oa by simp
  have "pe_Action (plan_entry H m st g sh ch (env_Key e)) = ActionNoop \<longleftrightarrow>
    a = ActionNoop \<and> (lifecycle_in st e = Managed \<longrightarrow>
      dependency_reason (\<lambda>d. d \<in> set ch)
        (\<lambda>d. dependencySecretChanged d m st (prior_of st (env_Key e)) sh) (succs g (env_Key e)) = None)"
    using oa by (auto simp: plan_entry_def Let_def e prior_of_def [unfolded get_or_def]
        lifecycle_in_def split: option.splits)
  then show ?thesis by (simp only: a dependency_reason_None)
qed

section \<open>Properties of Compute\<close>

lemma concat_filter_nonempty: "concat (filter (\<lambda>l. l \<noteq> []) ls) = concat ls"
  by (induction ls) auto

lemma computeApplyDeletes_eq:
  "computeApplyDeletes m st = (let absent = absent_resources m st;
       levels = (if absent = [] then [] else filter (\<lambda>l. l \<noteq> []) (rev (delete_levels absent)))
     in (levels, map (delete_entry absent) (concat levels)))"
  by (simp add: computeApplyDeletes_def Let_def)

lemma delete_entry_Key [simp]: "pe_Key (delete_entry absent k) = k"
  by (simp add: delete_entry_def Let_def split: option.splits)

lemma delete_entry_Action:
  "pe_Action (delete_entry absent k) = (case rs_LastApplied (get_or zero_ResourceState absent k) of
       None \<Rightarrow> ActionOrphanUnknown
     | Some e \<Rightarrow> if md_Protect (env_Metadata e) then ActionRefused else ActionDelete)"
  by (simp add: delete_entry_def Let_def split: option.splits)

lemma delete_keys:
  assumes "del_invar (absent_resources m st)" "computeApplyDeletes m st = (levels, es)"
  shows "map pe_Key es = concat levels" "distinct (concat levels)"
    "set (concat levels) = {k \<in> fst ` set (st_Resources st). map_of m k = None}"
proof -
  let ?a = "absent_resources m st"
  have keys: "fst ` set ?a = {k \<in> fst ` set (st_Resources st). map_of m k = None}"
    by (force simp: absent_resources_def)
  show "map pe_Key es = concat levels"
    using assms(2) by (auto simp: computeApplyDeletes_eq Let_def comp_def)
  have c: "concat levels = (if ?a = [] then [] else concat (rev (delete_levels ?a)))"
    using assms(2) by (auto simp: computeApplyDeletes_eq Let_def concat_filter_nonempty)
  have "set (concat (rev (delete_levels ?a))) = fst ` set ?a"
    using del.levels_nodes [OF assms(1)] by simp
  then show "set (concat levels) = {k \<in> fst ` set (st_Resources st). map_of m k = None}"
    using c keys by auto
  have "distinct (concat (rev (delete_levels ?a)))"
    using del.levels_distinct [OF assms(1)]
    by (simp add: distinct_concat_iff removeAll_filter_not_eq rev_filter [symmetric])
  then show "distinct (concat levels)" using c by simp
qed

lemma Compute_keys:
  assumes "Build envs = Inr g" "del_invar (absent_resources (by_key envs) st)"
  shows "map pe_Key (Entries (ComputeWithSecretHashes H envs st g sh)) =
      concat (Levels (ComputeWithSecretHashes H envs st g sh)) \<and>
    distinct (map pe_Key (Entries (ComputeWithSecretHashes H envs st g sh))) \<and>
    set (map pe_Key (Entries (ComputeWithSecretHashes H envs st g sh))) =
      env_Key ` set envs \<union> fst ` set (st_Resources st) \<and>
    take (length envs) (map pe_Key (Entries (ComputeWithSecretHashes H envs st g sh))) =
      concat (TopologicalLevels g)"
proof -
  obtain levels es where d: "computeApplyDeletes (by_key envs) st = (levels, es)" by fastforce
  note dk = delete_keys [OF assms(2) d]
  have wf: "wf_Graph g" by (rule Build_wf [OF assms(1)])
  have nodes: "set (concat (TopologicalLevels g)) = env_Key ` set envs"
    using dg.levels_nodes [OF wf] Build_node_keys [OF assms(1)] by simp
  have lk: "map pe_Key (plan_loop (plan_entry H (by_key envs) st g sh) (concat (TopologicalLevels g)) []) =
      concat (TopologicalLevels g)"
    by (rule plan_loop_keys) simp
  have len: "length (concat (TopologicalLevels g)) = length envs"
    using nodes dg.levels_distinct [OF wf] Build_Nodes [OF assms(1)]
    by (metis distinct_card length_map list.set_map)
  have disj: "set (concat (TopologicalLevels g)) \<inter> set (concat levels) = {}"
    using nodes dk(3) by_key_dom by blast
  have un: "set (concat (TopologicalLevels g)) \<union> set (concat levels) =
      env_Key ` set envs \<union> fst ` set (st_Resources st)"
    using nodes dk(3) by_key_dom by auto
  show ?thesis
    using d lk dk(1,2) disj un len dg.levels_distinct [OF wf]
    by (simp add: ComputeWithSecretHashes_def Let_def)
qed

text \<open>
  A plan has exactly one entry per resource that is desired or recorded: the desired ones
  in dependency order, then the recorded ones that are no longer desired; the executor's levels
  list the same keys in the same order.
\<close>

theorem Compute_entries:
  assumes "Build envs = Inr g" "del_invar (absent_resources (by_key envs) st)"
    and "p = ComputeWithSecretHashes H envs st g sh"
  shows "map pe_Key (Entries p) = concat (Levels p) \<and> distinct (map pe_Key (Entries p)) \<and>
    set (map pe_Key (Entries p)) = env_Key ` set envs \<union> fst ` set (st_Resources st) \<and>
    take (length envs) (map pe_Key (Entries p)) = concat (TopologicalLevels g)"
  unfolding assms(3) by (rule Compute_keys [OF assms(1,2)])

lemma planned_desired:
  assumes "Build envs = Inr g" "k \<in> env_Key ` set envs"
  shows "planned_action (ComputeWithSecretHashes H envs st g sh) k =
    map_option pe_Action (find (\<lambda>e. pe_Key e = k)
      (plan_loop (plan_entry H (by_key envs) st g sh) (concat (TopologicalLevels g)) []))"
proof -
  have "k \<in> set (map pe_Key (plan_loop (plan_entry H (by_key envs) st g sh) (concat (TopologicalLevels g)) []))"
    using assms dg.levels_nodes [OF Build_wf [OF assms(1)]] Build_node_keys [OF assms(1)]
    by (simp add: plan_loop_keys)
  then show ?thesis
    by (simp add: planned_action_def ComputeWithSecretHashes_def Let_def find_key_append split: prod.splits)
qed

lemma Compute_entry_noop:
  assumes "Build envs = Inr g" "e \<in> set envs"
  shows "planned_action (ComputeWithSecretHashes H envs st g sh) (env_Key e) = Some ActionNoop \<longleftrightarrow>
    recorded H st sh e \<and> (lifecycle_in st e = Managed \<longrightarrow> (\<forall>d\<in>set (succs g (env_Key e)).
      planned_action (ComputeWithSecretHashes H envs st g sh) d = Some ActionNoop \<and>
      \<not> dependencySecretChanged d (by_key envs) st (prior_of st (env_Key e)) sh))"
proof -
  let ?mk = "plan_entry H (by_key envs) st g sh" and ?L = "concat (TopologicalLevels g)" and ?k = "env_Key e"
  have wf: "wf_Graph g" by (rule Build_wf [OF assms(1)])
  have nodes: "set ?L = env_Key ` set envs"
    using dg.levels_nodes [OF wf] Build_node_keys [OF assms(1)] by simp
  then have "?k \<in> set ?L" using assms(2) by simp
  then obtain xs ys where L: "?L = xs @ ?k # ys" by (meson split_list)
  have dist: "distinct (xs @ ?k # ys)" using dg.levels_distinct [OF wf] L by simp
  have mk: "\<And>ch k. pe_Key (?mk ch k) = k" by simp
  have dep: "d \<in> set xs" if "d \<in> set (succs g ?k)" for d
    using dg.dependencies_first [OF wf _ L] dg.direct_dependency [OF wf] that by blast
  have ch: "d \<notin> set (changed_after ?mk xs []) \<longleftrightarrow>
      planned_action (ComputeWithSecretHashes H envs st g sh) d = Some ActionNoop"
    if "d \<in> set (succs g ?k)" for d
  proof -
    have "d \<in> env_Key ` set envs" using dep [OF that] nodes L by auto
    from planned_desired [OF assms(1) this] loop_changed [of ?mk, OF mk dist dep [OF that]] L
    show ?thesis by simp
  qed
  have "planned_action (ComputeWithSecretHashes H envs st g sh) ?k =
      Some (pe_Action (?mk (changed_after ?mk xs []) ?k))"
    using planned_desired [OF assms(1), of ?k] assms(2) loop_entry [of ?mk, OF mk dist] L by simp
  moreover have "map_of (by_key envs) ?k = Some e"
    using by_key_Some Build_Nodes [OF assms(1)] assms(2) by blast
  ultimately show ?thesis
    using plan_entry_Noop [of "by_key envs" e H st g sh "changed_after ?mk xs []"] ch by simp
qed


text \<open>The desired set and the recorded state agree: nothing is left to do.\<close>

definition in_sync :: "(any \<Rightarrow> string) \<Rightarrow> Envelope list \<Rightarrow> State \<Rightarrow> Graph \<Rightarrow> (Key \<times> string) list \<Rightarrow> bool" where
  "in_sync H envs st g sh \<longleftrightarrow>
     (\<forall>k\<in>fst ` set (st_Resources st). k \<in> env_Key ` set envs) \<and>
     (\<forall>e\<in>set envs. recorded H st sh e \<and> (lifecycle_in st e = Managed \<longrightarrow>
        (\<forall>d\<in>set (succs g (env_Key e)).
           \<not> dependencySecretChanged d (by_key envs) st (prior_of st (env_Key e)) sh)))"

lemma planned_action_Noop_all:
  assumes "distinct (map pe_Key (Entries p))"
  shows "\<not> HasChanges p \<longleftrightarrow> (\<forall>k\<in>set (map pe_Key (Entries p)). planned_action p k = Some ActionNoop)"
proof -
  have "planned_action p (pe_Key e) = Some (pe_Action e)" if "e \<in> set (Entries p)" for e
    using find_key_unique [OF assms that] by (simp add: planned_action_def)
  then show ?thesis by (auto simp: HasChanges_def list_ex_iff)
qed

lemma planned_delete_not_noop:
  assumes "k \<in> fst ` set (st_Resources st)" "k \<notin> env_Key ` set envs"
    "Build envs = Inr g" "del_invar (absent_resources (by_key envs) st)"
  shows "planned_action (ComputeWithSecretHashes H envs st g sh) k \<noteq> Some ActionNoop"
proof -
  obtain levels es where d: "computeApplyDeletes (by_key envs) st = (levels, es)" by fastforce
  let ?loop = "plan_loop (plan_entry H (by_key envs) st g sh) (concat (TopologicalLevels g)) []"
  have "k \<notin> set (map pe_Key ?loop)"
    using assms(2) dg.levels_nodes [OF Build_wf [OF assms(3)]] Build_node_keys [OF assms(3)]
    by (simp add: plan_loop_keys)
  then have "planned_action (ComputeWithSecretHashes H envs st g sh) k =
      map_option pe_Action (find (\<lambda>e. pe_Key e = k) es)"
    using d by (simp add: planned_action_def ComputeWithSecretHashes_def Let_def find_map_key)
  moreover have "pe_Action x \<noteq> ActionNoop" if "x \<in> set es" for x
    using d that by (auto simp: computeApplyDeletes_eq Let_def delete_entry_def split: option.splits if_splits)
  ultimately show ?thesis by (auto simp: find_Some_iff)
qed

lemma no_changes_in_sync:
  assumes "Build envs = Inr g" "del_invar (absent_resources (by_key envs) st)"
  shows "\<not> HasChanges (ComputeWithSecretHashes H envs st g sh) \<longleftrightarrow> in_sync H envs st g sh"
proof -
  let ?p = "ComputeWithSecretHashes H envs st g sh"
  have ents: "distinct (map pe_Key (Entries ?p))"
    "set (map pe_Key (Entries ?p)) = env_Key ` set envs \<union> fst ` set (st_Resources st)"
    using Compute_keys [OF assms] by blast+
  have deps: "d \<in> env_Key ` set envs" if "d \<in> set (succs g k)" for d k
    using closed_succs [of g k] that Build_wf [OF assms(1)] Build_node_keys [OF assms(1)]
    by (auto simp: wf_Graph_def)
  note noop = Compute_entry_noop [OF assms(1)]
  show ?thesis
  proof
    assume "\<not> HasChanges ?p"
    then have all: "\<forall>k\<in>env_Key ` set envs \<union> fst ` set (st_Resources st). planned_action ?p k = Some ActionNoop"
      using planned_action_Noop_all [OF ents(1)] by (simp only: ents(2))
    have "k \<in> env_Key ` set envs" if "k \<in> fst ` set (st_Resources st)" for k
      using planned_delete_not_noop [OF that _ assms] all that by blast
    moreover have "planned_action ?p (env_Key e) = Some ActionNoop" if "e \<in> set envs" for e
      using all that by blast
    ultimately show "in_sync H envs st g sh"
      unfolding in_sync_def using noop by blast
  next
    assume sync: "in_sync H envs st g sh"
    have "planned_action ?p k = Some ActionNoop" if "k \<in> env_Key ` set envs" for k
      using wf_edge_rel_converse [OF Build_wf [OF assms(1)]] that
    proof (induction k rule: wf_induct_rule)
      case (less k)
      then obtain e where e: "e \<in> set envs" "k = env_Key e" by blast
      have "planned_action ?p d = Some ActionNoop" if "d \<in> set (succs g k)" for d
        using less.IH [of d] that deps by (auto simp: edge_rel_def)
      with sync e noop [OF e(1)] show ?case by (auto simp: in_sync_def)
    qed
    then show "\<not> HasChanges ?p"
      using sync unfolding planned_action_Noop_all [OF ents(1)] ents(2) by (auto simp: in_sync_def)
  qed
qed

text \<open>
  A plan reports no changes exactly when the state is in sync with the manifests: nothing is
  recorded that is not desired, every desired resource is recorded with its specification and
  secret hash, and every managed one with the secret fingerprints of its dependencies.
\<close>

theorem Compute_no_changes_iff:
  assumes "Build envs = Inr g" "del_invar (absent_resources (by_key envs) st)"
  shows "\<not> HasChanges (ComputeWithSecretHashes H envs st g sh) \<longleftrightarrow> in_sync H envs st g sh"
  by (rule no_changes_in_sync [OF assms])

section \<open>Deletes and teardown\<close>

lemma absent_lookup:
  "map_of (absent_resources m st) k = (if map_of m k = None then map_of (st_Resources st) k else None)"
proof -
  have "map_of (filter (\<lambda>(k, rs). map_of m k = None) kvs) k =
      (if map_of m k = None then map_of kvs k else None)" for kvs :: "(Key \<times> ResourceState) list"
    by (induction kvs) auto
  then show ?thesis by (simp add: absent_resources_def)
qed


lemma destroy_entry_Key [simp]: "pe_Key (destroy_entry m st ie ii k) = k"
  by (simp add: destroy_entry_def Let_def split: prod.splits)

lemma destroy_entry_Delete:
  assumes "map_of m (env_Key e) = Some e" "env_Kind e \<noteq> []"
  shows "pe_Action (destroy_entry m st ie ii (env_Key e)) = ActionDelete \<longleftrightarrow>
    \<not> md_Protect (env_Metadata e) \<and>
    (case lifecycle_in st e of
       External \<Rightarrow> ie | Imported \<Rightarrow> ii | Managed \<Rightarrow> map_of (st_Resources st) (env_Key e) \<noteq> None)"
  using assms
  by (auto simp: destroy_entry_def Let_def get_or_def isProtected_def lifecycle_in_def prior_of_def
      split: Lifecycle.splits if_splits option.splits)

text \<open>
  C8: a teardown never touches what it must keep. Every desired resource has one entry; it is a
  delete exactly when the manifest is not protected and the resource is a managed one that is
  recorded, an external one with external resources included, or an imported one with imported
  resources included; and every resource comes before all it transitively depends on.
\<close>

theorem ComputeDestroy_safe:
  assumes "Build envs = Inr g" "\<forall>e\<in>set envs. env_Kind e \<noteq> []" "p = ComputeDestroy envs st g ie ii"
  shows "map pe_Key (Entries p) = concat (Levels p) \<and> set (map pe_Key (Entries p)) = env_Key ` set envs \<and>
    (\<forall>e\<in>set envs. \<forall>x\<in>set (Entries p). pe_Key x = env_Key e \<longrightarrow>
      (pe_Action x = ActionDelete \<longleftrightarrow> \<not> md_Protect (env_Metadata e) \<and>
        (case lifecycle_in st e of
           External \<Rightarrow> ie | Imported \<Rightarrow> ii | Managed \<Rightarrow> map_of (st_Resources st) (env_Key e) \<noteq> None))) \<and>
    (\<forall>xs ys k d. map pe_Key (Entries p) = xs @ k # ys \<longrightarrow> d \<in> set (Dependencies g k) \<longrightarrow> d \<in> set ys)"
proof -
  have wf: "wf_Graph g" by (rule Build_wf [OF assms(1)])
  have nodes: "set (concat (rev (TopologicalLevels g))) = env_Key ` set envs"
    using dg.levels_nodes [OF wf] Build_node_keys [OF assms(1)] by simp
  have keys: "map pe_Key (Entries p) = concat (rev (TopologicalLevels g))"
    by (simp add: assms(3) ComputeDestroy_def Let_def comp_def)
  have ent: "x = destroy_entry (by_key envs) st ie ii (pe_Key x)" if "x \<in> set (Entries p)" for x
    using that by (auto simp: assms(3) ComputeDestroy_def Let_def)
  have "pe_Action x = ActionDelete \<longleftrightarrow> \<not> md_Protect (env_Metadata e) \<and>
        (case lifecycle_in st e of
           External \<Rightarrow> ie | Imported \<Rightarrow> ii | Managed \<Rightarrow> map_of (st_Resources st) (env_Key e) \<noteq> None)"
    if "e \<in> set envs" "x \<in> set (Entries p)" "pe_Key x = env_Key e" for e x
    using destroy_entry_Delete [of "by_key envs" e st ie ii] that ent [OF that(2)] assms(2)
      by_key_Some Build_Nodes [OF assms(1)] by metis
  moreover have "map pe_Key (Entries p) = concat (Levels p)"
    using keys by (simp add: assms(3) ComputeDestroy_def Let_def)
  ultimately show ?thesis
    using nodes keys dg.dependencies_last [OF wf] by metis
qed

section \<open>The hash does not depend on map order\<close>

text \<open>Values that differ only in the order of the keys of their maps.\<close>

inductive same_json :: "any \<Rightarrow> any \<Rightarrow> bool" where
  json_refl: "same_json v v"
| json_trans: "same_json u v \<Longrightarrow> same_json v w \<Longrightarrow> same_json u w"
| json_perm: "mset m = mset m' \<Longrightarrow> distinct (map fst m) \<Longrightarrow> same_json (AMap m) (AMap m')"
| json_map: "map fst m = map fst m' \<Longrightarrow> list_all2 same_json (map snd m) (map snd m') \<Longrightarrow>
    same_json (AMap m) (AMap m')"
| json_list: "list_all2 same_json xs ys \<Longrightarrow> same_json (AList xs) (AList ys)"

lemma sort_by_fst_perm:
  assumes "mset m = mset m'" "distinct (map fst m)"
  shows "sort_by fst m = sort_by fst m'"
proof (rule sort_by_unique)
  show "set m = set m'" using assms(1) by (rule mset_eq_setD)
  show d: "distinct m" using assms(2) by (simp add: distinct_map)
  show "distinct m'" using d assms(1) mset_eq_imp_distinct_iff by blast
  show "inj_on fst (set m)" using assms(2) by (simp add: distinct_map)
qed

lemma canonical_same: "same_json v w \<Longrightarrow> canonical v = canonical w"
proof (induction rule: same_json.induct)
  case (json_perm m m')
  have "sort_by fst (map (\<lambda>(k, v). (k, canonical v)) m) = sort_by fst (map (\<lambda>(k, v). (k, canonical v)) m')"
  proof (rule sort_by_fst_perm)
    show "mset (map (\<lambda>(k, v). (k, canonical v)) m) = mset (map (\<lambda>(k, v). (k, canonical v)) m')"
      using json_perm.hyps(1) by simp
    show "distinct (map fst (map (\<lambda>(k, v). (k, canonical v)) m))"
      using json_perm.hyps(2) by (simp add: comp_def split_def)
  qed
  then show ?case by simp
next
  case (json_map m m')
  have "list_all2 (\<lambda>v w. canonical v = canonical w) (map snd m) (map snd m')"
    by (rule list_all2_mono [OF json_map.IH]) simp
  then have "map canonical (map snd m) = map canonical (map snd m')"
    by (induction rule: list_all2_induct) auto
  moreover have "map (\<lambda>(k, v). (k, canonical v)) kvs = zip (map fst kvs) (map canonical (map snd kvs))"
    for kvs :: "(string \<times> any) list" by (induction kvs) auto
  ultimately show ?case using json_map.hyps(1) by simp
next
  case (json_list xs ys)
  then have "map canonical xs = map canonical ys" by (induction rule: list_all2_induct) auto
  then show ?case by simp
qed simp_all

text \<open>
  The specification hash is insensitive to the order in which a manifest writes the keys of
  its maps, at any depth, and to the order of its observers; labels, annotations, the protect
  flag, the domain and the status do not enter it.
\<close>

theorem SpecHash_order_insensitive:
  assumes "same_json (AMap (env_Spec e)) (AMap (env_Spec e'))"
    and "env_APIVersion e = env_APIVersion e'" "env_Key e = env_Key e'"
    and "mset (md_Observers (env_Metadata e)) = mset (md_Observers (env_Metadata e'))"
  shows "SpecHash H e = SpecHash H e'"
proof -
  have key: "NormalizeNamespace (md_Namespace (env_Metadata e)) = NormalizeNamespace (md_Namespace (env_Metadata e'))"
    "env_Kind e = env_Kind e'" "md_Name (env_Metadata e) = md_Name (env_Metadata e')"
    using assms(3) by (simp_all add: env_Key_def)
  have sort: "sort_by id xs = sort_by id ys" if "mset xs = mset ys" for xs ys :: "string list"
    unfolding sort_by_def id_def by (metis sorted_list_of_multiset_mset that)
  have "observerNames e = observerNames e'"
    unfolding observerNames_def NamespaceOr_def key(1) by (rule sort) (simp add: assms(4))
  moreover have "canonical (AMap (env_Spec e)) = canonical (AMap (env_Spec e'))"
    by (rule canonical_same [OF assms(1)])
  ultimately show ?thesis
    using assms(2) key by (simp add: SpecHash_def)
qed

section \<open>Witnesses\<close>

text \<open>A digest that keeps the whole value: enough to run the planner on concrete inputs.\<close>

fun render :: "any \<Rightarrow> string" where
  "render (AStr s) = s"
| "render (AList xs) = concat (map render xs)"
| "render (AMap m) = concat (map (\<lambda>(k, v). k @ render v) m)"
| "render v = []"

definition sample_synced :: State where
  "sample_synced = zero_State\<lparr>st_Resources := map (\<lambda>e. (env_Key e,
     zero_ResourceState\<lparr>rs_SpecHash := SpecHash render e, rs_LastApplied := Some e,
       rs_Dependencies := succs sample_graph (env_Key e)\<rparr>)) sample_set\<rparr>"

lemma sample_del_invar: "del_invar (absent_resources (by_key sample_set) sample_synced)"
proof -
  have "absent_resources (by_key sample_set) sample_synced = []" by code_simp
  then show ?thesis by (simp add: del_invar_def absent_deps_def get_or_def edge_rel_def
        zero_ResourceState_def acyclic_def)
qed

theorem Compute_entries_witness:
  "distinct (map pe_Key (Entries (Compute render sample_set sample_synced sample_graph)))"
  unfolding Compute_def using Compute_entries [OF sample_Build sample_del_invar refl] by blast


theorem Compute_no_changes_iff_witness:
  "\<not> HasChanges (Compute render sample_set sample_synced sample_graph)"
proof -
  have "in_sync render sample_set sample_synced sample_graph []" by code_simp
  with Compute_no_changes_iff [OF sample_Build sample_del_invar] show ?thesis by (simp add: Compute_def)
qed

definition sample_orphans :: "(Key \<times> ResourceState) list" where
  "sample_orphans = [(Key ''default'' ''Provider'' ''pg'', zero_ResourceState),
     (Key ''default'' ''Source'' ''orders'', zero_ResourceState\<lparr>rs_LastApplied := Some (hd sample_set),
        rs_Dependencies := [Key ''default'' ''Provider'' ''pg'']\<rparr>)]"

lemma sample_orphans_invar: "del_invar (absent_resources [] (zero_State\<lparr>st_Resources := sample_orphans\<rparr>))"
proof -
  have "absent_resources [] (zero_State\<lparr>st_Resources := sample_orphans\<rparr>) = sample_orphans"
    by (simp add: absent_resources_def)
  moreover have "edge_rel (absent_deps sample_orphans) =
      {(Key ''default'' ''Source'' ''orders'', Key ''default'' ''Provider'' ''pg'')}"
    by (auto simp: edge_rel_def absent_deps_def get_or_def sample_orphans_def zero_ResourceState_def
        split: if_splits)
  ultimately show ?thesis
    by (simp add: del_invar_def acyclic_insert acyclic_def [of "{}"]) (simp add: sample_orphans_def)
qed


theorem ComputeDestroy_safe_witness:
  "set (map pe_Key (Entries (ComputeDestroy sample_set sample_synced sample_graph False False))) =
     env_Key ` set sample_set"
proof -
  have "\<forall>e\<in>set sample_set. env_Kind e \<noteq> []" by code_simp
  from ComputeDestroy_safe [OF sample_Build this refl] show ?thesis by blast
qed

theorem SpecHash_order_insensitive_witness:
  "SpecHash render (sample_spec_env ''Dataset'' ''d'' [(''a'', AInt 1), (''b'', AInt 2)]) =
   SpecHash render (sample_spec_env ''Dataset'' ''d'' [(''b'', AInt 2), (''a'', AInt 1)])"
proof (rule SpecHash_order_insensitive)
  have "same_json (AMap [(''a'', AInt 1), (''b'', AInt 2)]) (AMap [(''b'', AInt 2), (''a'', AInt 1)])"
    by (rule json_perm) simp_all
  then show "same_json (AMap (env_Spec (sample_spec_env ''Dataset'' ''d'' [(''a'', AInt 1), (''b'', AInt 2)])))
     (AMap (env_Spec (sample_spec_env ''Dataset'' ''d'' [(''b'', AInt 2), (''a'', AInt 1)])))"
    by (simp add: sample_spec_env_def)
qed (simp_all add: sample_spec_env_def sample_env_def env_Key_def)

end
