(* ===== verification/Kinds.thy ===== *)
theory Kinds
  imports Alloc
begin

text \<open>
  The resource kinds: the decoders \<open>FromEnvelope\<close> and the structural checks of
  \<open>internal/domain/{provider,secret,source,eventstream,catalog,binding,dataset,connection}\<close>.
  A decoder returns the decoded value together with the first failed check, as the Go functions
  do. An optional reference (\<open>*string\<close>) is \<open>string option\<close>. Decoding a managed
  Connection resolves its port in the shared table of host ports, so that decoder threads the
  table.
\<close>

section \<open>Errors and references\<close>

datatype kind_error =
    MissingField string string string
  | MissingWhenExternal string string string
  | NotMeaningful string string string
  | BadValue string string string string
  | ReservedMode string
  | TLSShape string nat

definition refName :: "anymap \<Rightarrow> string \<Rightarrow> string" where
  "refName spec field =
     (case is_map (index_any spec field) of
        None \<Rightarrow> []
      | Some ref \<Rightarrow> str_of (index_any ref ''name''))"

definition opt_ref :: "anymap \<Rightarrow> string \<Rightarrow> string option" where
  "opt_ref spec field = (let ref = refName spec field in if ref \<noteq> [] then Some ref else None)"

definition map_or_nil :: "any \<Rightarrow> anymap" where
  "map_or_nil v = (case is_map v of None \<Rightarrow> [] | Some m \<Rightarrow> m)"

abbreviation env_name :: "Envelope \<Rightarrow> string" where
  "env_name e \<equiv> md_Name (env_Metadata e)"

section \<open>Provider\<close>

record Provider =
  pv_Type :: string
  pv_RuntimeType :: string
  pv_RuntimeConfig :: anymap
  pv_Configuration :: anymap
  pv_SecretRefs :: "string list"
  pv_External :: bool
  pv_ConnectionRef :: "string option"

definition string_items :: "any list \<Rightarrow> string list" where
  "string_items xs = concat (map (\<lambda>r. case is_string r of None \<Rightarrow> [] | Some s \<Rightarrow> [s]) xs)"

definition Provider_validate :: "Provider \<Rightarrow> string \<Rightarrow> kind_error option" where
  "Provider_validate p name =
     (if pv_Type p = [] then Some (MissingField ''Provider'' name ''spec.type'')
      else if pv_RuntimeType p = [] then Some (MissingField ''Provider'' name ''spec.runtime.type'')
      else if pv_External p \<and> pv_ConnectionRef p = None
      then Some (MissingWhenExternal ''Provider'' name ''spec.connectionRef'')
      else None)"

definition Provider_FromEnvelope :: "Envelope \<Rightarrow> Provider \<times> kind_error option" where
  "Provider_FromEnvelope e =
     (let spec = env_Spec e;
          rt = map_or_nil (index_any spec ''runtime'');
          p = \<lparr>pv_Type = str_of (index_any spec ''type''),
               pv_RuntimeType = str_of (index_any rt ''type''),
               pv_RuntimeConfig = rt,
               pv_Configuration = map_or_nil (index_any spec ''configuration''),
               pv_SecretRefs = (case is_list (index_any spec ''secretRefs'') of
                   None \<Rightarrow> [] | Some refs \<Rightarrow> string_items refs),
               pv_External = bool_of (index_any spec ''external''),
               pv_ConnectionRef = opt_ref spec ''connectionRef''\<rparr>
      in (p, Provider_validate p (env_name e)))"

definition HasSecretRef :: "Provider \<Rightarrow> string \<Rightarrow> bool" where
  "HasSecretRef p name \<longleftrightarrow> list_ex (\<lambda>r. r = name) (pv_SecretRefs p)"

section \<open>SecretReference\<close>

record SecretReference =
  sr_Name :: string
  sr_Namespace :: string
  sr_Backend :: string
  sr_Keys :: "string list"
  sr_KubernetesName :: string
  sr_KubernetesNamespace :: string

definition SecretReference_Validate :: "SecretReference \<Rightarrow> kind_error option" where
  "SecretReference_Validate s =
     (if sr_Backend s \<notin> set [''env'', ''file'', ''kubernetes'', ''vault'']
      then Some (BadValue ''SecretReference'' (sr_Name s) ''spec.backend'' (sr_Backend s))
      else if sr_Keys s = [] then Some (MissingField ''SecretReference'' (sr_Name s) ''spec.keys'')
      else None)"

section \<open>Source and Catalog\<close>

record Source =
  so_Engine :: string
  so_ProviderRef :: "string option"
  so_External :: bool
  so_ConnectionRef :: "string option"
  so_EngineConfig :: anymap
  so_DeletionPolicy :: string

definition DeletionRetain :: string where "DeletionRetain = ''retain''"
definition DeletionDelete :: string where "DeletionDelete = ''delete''"

definition Source_validate :: "Source \<Rightarrow> string \<Rightarrow> kind_error option" where
  "Source_validate s name =
     (if so_Engine s = [] then Some (MissingField ''Source'' name ''spec.engine'')
      else if so_External s \<and> so_ConnectionRef s = None
      then Some (MissingWhenExternal ''Source'' name ''spec.connectionRef'')
      else if \<not> so_External s \<and> so_ProviderRef s = None
      then Some (MissingField ''Source'' name ''spec.providerRef'')
      else if so_DeletionPolicy s \<noteq> DeletionRetain \<and> so_DeletionPolicy s \<noteq> DeletionDelete
      then Some (BadValue ''Source'' name ''spec.deletionPolicy'' (so_DeletionPolicy s))
      else None)"

definition Source_FromEnvelope :: "Envelope \<Rightarrow> Source \<times> kind_error option" where
  "Source_FromEnvelope e =
     (let spec = env_Spec e;
          engine = str_of (index_any spec ''engine'');
          policy = str_of (index_any spec ''deletionPolicy'');
          s = \<lparr>so_Engine = engine,
               so_ProviderRef = opt_ref spec ''providerRef'',
               so_External = bool_of (index_any spec ''external''),
               so_ConnectionRef = opt_ref spec ''connectionRef'',
               so_EngineConfig = (if engine \<noteq> [] then map_or_nil (index_any spec engine) else []),
               so_DeletionPolicy = (if policy = [] then DeletionRetain else policy)\<rparr>
      in (s, Source_validate s (env_name e)))"

record Catalog =
  ca_Engine :: string
  ca_ProviderRef :: "string option"
  ca_External :: bool
  ca_ConnectionRef :: "string option"
  ca_EngineConfig :: anymap
  ca_WarehouseRef :: "string option"

definition Catalog_validate :: "Catalog \<Rightarrow> string \<Rightarrow> kind_error option" where
  "Catalog_validate c name =
     (if ca_Engine c = [] then Some (MissingField ''Catalog'' name ''spec.engine'')
      else if ca_External c \<and> ca_ConnectionRef c = None
      then Some (MissingWhenExternal ''Catalog'' name ''spec.connectionRef'')
      else if \<not> ca_External c \<and> ca_ProviderRef c = None
      then Some (MissingField ''Catalog'' name ''spec.providerRef'')
      else None)"

definition Catalog_FromEnvelope :: "Envelope \<Rightarrow> Catalog \<times> kind_error option" where
  "Catalog_FromEnvelope e =
     (let spec = env_Spec e;
          engine = str_of (index_any spec ''engine'');
          c = \<lparr>ca_Engine = engine,
               ca_ProviderRef = opt_ref spec ''providerRef'',
               ca_External = bool_of (index_any spec ''external''),
               ca_ConnectionRef = opt_ref spec ''connectionRef'',
               ca_EngineConfig = (if engine \<noteq> [] then map_or_nil (index_any spec engine) else []),
               ca_WarehouseRef = opt_ref spec ''warehouseRef''\<rparr>
      in (c, Catalog_validate c (env_name e)))"

section \<open>EventStream and Dataset\<close>

record EventStream =
  es_ProviderRef :: string
  es_Partitions :: int
  es_RetentionDuration :: string
  es_Replication :: int
  es_External :: bool

definition EventStream_validate :: "EventStream \<Rightarrow> string \<Rightarrow> kind_error option" where
  "EventStream_validate es name =
     (if \<not> es_External es \<and> es_ProviderRef es = [] then Some (MissingField ''EventStream'' name ''spec.providerRef'')
      else if es_Partitions es < 0 then Some (BadValue ''EventStream'' name ''spec.partitions'' [])
      else if es_Replication es < 0 then Some (BadValue ''EventStream'' name ''spec.replication'' [])
      else None)"

definition EventStream_FromEnvelope :: "Envelope \<Rightarrow> EventStream \<times> kind_error option" where
  "EventStream_FromEnvelope e =
     (let spec = env_Spec e;
          es = \<lparr>es_ProviderRef = refName spec ''providerRef'',
                es_Partitions = int_of_any (index_any spec ''partitions''),
                es_RetentionDuration =
                  str_of (index_any (map_or_nil (index_any spec ''retention'')) ''duration''),
                es_Replication = int_of_any (index_any spec ''replication''),
                es_External = bool_of (index_any spec ''external'')\<rparr>
      in (es, EventStream_validate es (env_name e)))"

definition ReplicationFactor :: "EventStream \<Rightarrow> int" where
  "ReplicationFactor es = (if es_Replication es \<le> 0 then 1 else es_Replication es)"

record DatasetLifecycle =
  lc_ExpireAfterDays :: int
  lc_Versioning :: string

record Dataset =
  da_ProviderRef :: string
  da_Bucket :: string
  da_Prefix :: string
  da_Format :: string
  da_External :: bool
  da_DeletionPolicy :: string
  da_Lifecycle :: DatasetLifecycle

definition HasExpiration :: "DatasetLifecycle \<Rightarrow> bool" where
  "HasExpiration l \<longleftrightarrow> lc_ExpireAfterDays l > 0"

definition HasVersioning :: "DatasetLifecycle \<Rightarrow> bool" where
  "HasVersioning l \<longleftrightarrow> lc_Versioning l \<noteq> []"

definition lifecycle_Empty :: "DatasetLifecycle \<Rightarrow> bool" where
  "lifecycle_Empty l \<longleftrightarrow> \<not> HasExpiration l \<and> \<not> HasVersioning l"

definition Dataset_validate :: "Dataset \<Rightarrow> string \<Rightarrow> kind_error option" where
  "Dataset_validate d name =
     (let v = lc_Versioning (da_Lifecycle d) in
      if \<not> da_External d \<and> da_ProviderRef d = [] then Some (MissingField ''Dataset'' name ''spec.providerRef'')
      else if da_Bucket d = [] then Some (MissingField ''Dataset'' name ''spec.bucket'')
      else if da_Format d = [] then Some (MissingField ''Dataset'' name ''spec.format'')
      else if da_DeletionPolicy d \<noteq> DeletionRetain \<and> da_DeletionPolicy d \<noteq> DeletionDelete
      then Some (BadValue ''Dataset'' name ''spec.deletionPolicy'' (da_DeletionPolicy d))
      else if lc_ExpireAfterDays (da_Lifecycle d) < 0
      then Some (BadValue ''Dataset'' name ''spec.lifecycle.expireAfterDays'' [])
      else if v \<noteq> [] \<and> v \<noteq> ''enabled'' \<and> v \<noteq> ''suspended''
      then Some (BadValue ''Dataset'' name ''spec.lifecycle.versioning'' v)
      else None)"

definition Dataset_FromEnvelope :: "Envelope \<Rightarrow> Dataset \<times> kind_error option" where
  "Dataset_FromEnvelope e =
     (let spec = env_Spec e;
          policy = str_of (index_any spec ''deletionPolicy'');
          lc = map_or_nil (index_any spec ''lifecycle'');
          d = \<lparr>da_ProviderRef = refName spec ''providerRef'',
               da_Bucket = str_of (index_any spec ''bucket''),
               da_Prefix = str_of (index_any spec ''prefix''),
               da_Format = str_of (index_any spec ''format''),
               da_External = bool_of (index_any spec ''external''),
               da_DeletionPolicy = (if policy = [] then DeletionRetain else policy),
               da_Lifecycle = \<lparr>lc_ExpireAfterDays = int_of_any (index_any lc ''expireAfterDays''),
                 lc_Versioning = str_of (index_any lc ''versioning'')\<rparr>\<rparr>
      in (d, Dataset_validate d (env_name e)))"

section \<open>Binding\<close>

record DeadLetter =
  dl_Stream :: string
  dl_Tolerance :: string

record Binding =
  bi_Mode :: string
  bi_SourceRef :: string
  bi_TargetRef :: string
  bi_ProviderRef :: string
  bi_Options :: anymap
  bi_DeadLetter :: "DeadLetter option"
  bi_Transport :: string

definition AllowedKindPairs :: "(string \<times> (string \<times> string) list) list" where
  "AllowedKindPairs =
     [(''cdc'', [(''Source'', ''EventStream'')]),
      (''sink'', [(''EventStream'', ''Dataset''), (''EventStream'', ''Source'')]),
      (''ingest'', [(''Dataset'', ''EventStream'')])]"

definition Binding_validate :: "Binding \<Rightarrow> string \<Rightarrow> kind_error option" where
  "Binding_validate b name =
     (if bi_Mode b = ''batch'' then Some (ReservedMode name)
      else if bi_Mode b \<notin> set [''cdc'', ''sink'', ''ingest''] then Some (BadValue ''Binding'' name ''spec.mode'' (bi_Mode b))
      else if bi_SourceRef b = [] then Some (MissingField ''Binding'' name ''spec.sourceRef'')
      else if bi_TargetRef b = [] then Some (MissingField ''Binding'' name ''spec.targetRef'')
      else if bi_ProviderRef b = [] then Some (MissingField ''Binding'' name ''spec.providerRef'')
      else if bi_Transport b \<noteq> [] \<and> bi_Transport b \<noteq> ''direct''
      then Some (BadValue ''Binding'' name ''spec.transport'' (bi_Transport b))
      else case bi_DeadLetter b of
        None \<Rightarrow> None
      | Some dl \<Rightarrow>
          (if bi_Mode b \<noteq> ''sink'' then Some (NotMeaningful ''Binding'' name ''spec.options.deadLetter'')
           else if dl_Stream dl = [] then Some (MissingField ''Binding'' name ''spec.options.deadLetter.stream'')
           else if dl_Tolerance dl \<noteq> ''all'' \<and> dl_Tolerance dl \<noteq> ''none''
           then Some (BadValue ''Binding'' name ''spec.options.deadLetter.tolerance'' (dl_Tolerance dl))
           else None))"

definition Binding_FromEnvelope :: "Envelope \<Rightarrow> Binding \<times> kind_error option" where
  "Binding_FromEnvelope e =
     (let spec = env_Spec e;
          opts = map_or_nil (index_any spec ''options'');
          dead = (case is_map (index_any opts ''deadLetter'') of
              None \<Rightarrow> None
            | Some raw \<Rightarrow> (let t = str_of (index_any raw ''tolerance'') in
                Some \<lparr>dl_Stream = str_of (index_any raw ''stream''),
                      dl_Tolerance = (if t = [] then ''all'' else t)\<rparr>));
          b = \<lparr>bi_Mode = str_of (index_any spec ''mode''),
               bi_SourceRef = refName spec ''sourceRef'',
               bi_TargetRef = refName spec ''targetRef'',
               bi_ProviderRef = refName spec ''providerRef'',
               bi_Options = opts, bi_DeadLetter = dead,
               bi_Transport = str_of (index_any spec ''transport'')\<rparr>
      in (b, Binding_validate b (env_name e)))"

section \<open>Connection\<close>

record TLS =
  tls_SecretRef :: "string option"
  tls_SelfSigned :: bool
  tls_SecretName :: "string option"
  tls_Mode :: string
  tls_CASecretRef :: "string option"

record Connection =
  co_ProviderRef :: "string option"
  co_External :: bool
  co_Scheme :: string
  co_Host :: string
  co_Port :: int
  co_Target :: string
  co_SecretRef :: "string option"
  co_Via :: "string option"
  co_TLS :: "TLS option"
  co_Transport :: string

definition tls_modes :: "string list" where
  "tls_modes = [''require'', ''verify-ca'', ''verify-full'']"

definition validateExternalTLS :: "Connection \<Rightarrow> string \<Rightarrow> kind_error option" where
  "validateExternalTLS c name =
     (case co_TLS c of
        None \<Rightarrow> None
      | Some t \<Rightarrow>
          (if tls_Mode t = [] then Some (MissingWhenExternal ''Connection'' name ''spec.tls.mode'')
           else if tls_Mode t \<notin> set tls_modes then Some (BadValue ''Connection'' name ''spec.tls.mode'' (tls_Mode t))
           else if tls_SecretRef t \<noteq> None \<or> tls_SelfSigned t \<or> tls_SecretName t \<noteq> None
           then Some (NotMeaningful ''Connection'' name ''spec.tls.secretRef/selfSigned/secretName'')
           else None))"

definition tls_terminators :: "TLS \<Rightarrow> nat" where
  "tls_terminators t = (if tls_SecretRef t \<noteq> None then 1 else 0) + (if tls_SelfSigned t then 1 else 0) +
     (if tls_SecretName t \<noteq> None then 1 else 0)"

definition validateManagedTLS :: "Connection \<Rightarrow> string \<Rightarrow> kind_error option" where
  "validateManagedTLS c name =
     (case co_TLS c of
        None \<Rightarrow> if co_Scheme c = ''https'' then Some (MissingField ''Connection'' name ''spec.tls'') else None
      | Some t \<Rightarrow>
          (if co_Scheme c \<noteq> ''https'' then Some (BadValue ''Connection'' name ''spec.scheme'' (co_Scheme c))
           else if tls_Mode t \<noteq> [] \<or> tls_CASecretRef t \<noteq> None
           then Some (NotMeaningful ''Connection'' name ''spec.tls.mode/caSecretRef'')
           else if tls_terminators t \<noteq> 1 then Some (TLSShape name (tls_terminators t))
           else None))"

definition validateTLS :: "Connection \<Rightarrow> string \<Rightarrow> kind_error option" where
  "validateTLS c name = (if co_External c then validateExternalTLS c name else validateManagedTLS c name)"

definition Connection_validate :: "Connection \<Rightarrow> string \<Rightarrow> kind_error option" where
  "Connection_validate c name =
     (if co_External c \<and> co_Port c \<le> 0 then Some (MissingWhenExternal ''Connection'' name ''spec.port'')
      else if co_Transport c \<noteq> [] \<and> co_Transport c \<noteq> ''direct''
      then Some (BadValue ''Connection'' name ''spec.transport'' (co_Transport c))
      else if co_External c then
        (if co_Host c = [] then Some (MissingWhenExternal ''Connection'' name ''spec.host'')
         else if co_Target c \<noteq> [] then Some (NotMeaningful ''Connection'' name ''spec.target'')
         else if co_Via c \<noteq> None then Some (NotMeaningful ''Connection'' name ''spec.via'')
         else validateTLS c name)
      else
        (if co_ProviderRef c = None then Some (MissingField ''Connection'' name ''spec.providerRef'')
         else if co_Target c = [] then Some (MissingField ''Connection'' name ''spec.target'')
         else validateTLS c name))"

definition TLS_of :: "any \<Rightarrow> TLS option" where
  "TLS_of v = map_option (\<lambda>raw.
     \<lparr>tls_SecretRef = opt_ref raw ''secretRef'',
      tls_SelfSigned = bool_of (index_any raw ''selfSigned''),
      tls_SecretName = (let n = str_of (index_any raw ''secretName'') in if n \<noteq> [] then Some n else None),
      tls_Mode = str_of (index_any raw ''mode''),
      tls_CASecretRef = opt_ref raw ''caSecretRef''\<rparr>) (is_map v)"

definition Connection_FromEnvelope ::
  "Envelope \<Rightarrow> int claims \<Rightarrow> (Connection \<times> kind_error option) \<times> int claims" where
  "Connection_FromEnvelope e claims =
     (let spec = env_Spec e;
          scheme = str_of (index_any spec ''scheme'');
          external = bool_of (index_any spec ''external'');
          declared = int_of_any (index_any spec ''port'');
          (port, claims') = (if \<not> external
            then hostport_Resolve declared (RuntimeObjectName e) claims else (declared, claims));
          c = \<lparr>co_ProviderRef = opt_ref spec ''providerRef'',
               co_External = external,
               co_Scheme = (if scheme \<noteq> [] then scheme else ''tcp''),
               co_Host = str_of (index_any spec ''host''),
               co_Port = port,
               co_Target = str_of (index_any spec ''target''),
               co_SecretRef = opt_ref spec ''secretRef'',
               co_Via = opt_ref spec ''via'',
               co_TLS = TLS_of (index_any spec ''tls''),
               co_Transport = str_of (index_any spec ''transport'')\<rparr>
      in ((c, Connection_validate c (env_name e)), claims'))"

definition connection_Endpoint :: "Connection \<Rightarrow> string \<Rightarrow> string \<times> int" where
  "connection_Endpoint c name = (if co_External c then (co_Host c, co_Port c) else (name, co_Port c))"

definition show_int :: "int \<Rightarrow> string" where
  "show_int n = (if n < 0 then ''-'' @ show_nat (nat (- n)) else show_nat (nat n))"

definition JoinHostPort :: "string \<Rightarrow> string \<Rightarrow> string" where
  "JoinHostPort host port =
     (if CHR '':'' \<in> set host then ''['' @ host @ '']:'' @ port else host @ '':'' @ port)"

definition ExternalAddress :: "Connection \<Rightarrow> string option" where
  "ExternalAddress c =
     (if \<not> co_External c then None else Some (JoinHostPort (co_Host c) (show_int (co_Port c))))"

definition ViaFactName :: "string \<Rightarrow> string \<Rightarrow> string" where
  "ViaFactName namespace name = ''via:'' @ NormalizeNamespace namespace @ ''/'' @ name"

section \<open>Properties\<close>

lemma opt_ref_Some: "opt_ref spec f \<noteq> None \<longleftrightarrow> refName spec f \<noteq> []"
  by (simp add: opt_ref_def Let_def)

lemma refName_RefName: "refName spec f = RefName spec f"
  by (simp add: refName_def RefName_def RefFromSpec_def split: option.splits)

text \<open>
  Every accepted resource says where it is realised: a managed Source, Catalog, EventStream,
  Dataset, Connection or Binding names a provider, and an external Provider, Source or Catalog
  names a connection; the names are the ones the dependency graph resolves.
\<close>

theorem accepted_kinds_are_anchored:
  "(snd (Source_FromEnvelope e) = None \<longrightarrow>
      RefName (env_Spec e) (if bool_of (index_any (env_Spec e) ''external'') then ''connectionRef'' else ''providerRef'') \<noteq> []) \<and>
   (snd (Catalog_FromEnvelope e) = None \<longrightarrow>
      RefName (env_Spec e) (if bool_of (index_any (env_Spec e) ''external'') then ''connectionRef'' else ''providerRef'') \<noteq> []) \<and>
   (snd (Provider_FromEnvelope e) = None \<longrightarrow> bool_of (index_any (env_Spec e) ''external'') \<longrightarrow>
      RefName (env_Spec e) ''connectionRef'' \<noteq> []) \<and>
   (snd (fst (Connection_FromEnvelope e claims)) = None \<longrightarrow> \<not> bool_of (index_any (env_Spec e) ''external'') \<longrightarrow>
      RefName (env_Spec e) ''providerRef'' \<noteq> []) \<and>
   (snd (EventStream_FromEnvelope e) = None \<longrightarrow> \<not> bool_of (index_any (env_Spec e) ''external'') \<longrightarrow>
      RefName (env_Spec e) ''providerRef'' \<noteq> []) \<and>
   (snd (Dataset_FromEnvelope e) = None \<longrightarrow> \<not> bool_of (index_any (env_Spec e) ''external'') \<longrightarrow>
      RefName (env_Spec e) ''providerRef'' \<noteq> []) \<and>
   (snd (Binding_FromEnvelope e) = None \<longrightarrow> RefName (env_Spec e) ''providerRef'' \<noteq> [])"
proof (intro conjI)
  show "snd (fst (Connection_FromEnvelope e claims)) = None \<longrightarrow> \<not> bool_of (index_any (env_Spec e) ''external'') \<longrightarrow>
      RefName (env_Spec e) ''providerRef'' \<noteq> []"
    by (auto simp: Connection_FromEnvelope_def Connection_validate_def Let_def opt_ref_def
        refName_RefName split: prod.splits if_splits)
qed (auto simp: Source_FromEnvelope_def Source_validate_def Catalog_FromEnvelope_def Catalog_validate_def
    Provider_FromEnvelope_def Provider_validate_def EventStream_FromEnvelope_def EventStream_validate_def
    Dataset_FromEnvelope_def Dataset_validate_def Binding_FromEnvelope_def Binding_validate_def
    Let_def opt_ref_def refName_RefName split: if_splits)

definition sample_source :: Envelope where
  "sample_source = (sample_env ''Source'' ''orders'')\<lparr>env_Spec :=
     [(''engine'', AStr ''postgres''), (''providerRef'', AMap [(''name'', AStr ''pg'')])]\<rparr>"

theorem accepted_kinds_are_anchored_witness:
  "snd (Source_FromEnvelope sample_source) = None \<and> RefName (env_Spec sample_source) ''providerRef'' \<noteq> []"
proof -
  have a: "snd (Source_FromEnvelope sample_source) = None"
    "\<not> bool_of (index_any (env_Spec sample_source) ''external'')" by code_simp+
  with accepted_kinds_are_anchored [of sample_source "[]"] show ?thesis by simp
qed

lemma Connection_parts:
  assumes "Connection_FromEnvelope e claims = ((c, err), claims')"
  shows "err = Connection_validate c (env_name e)"
    "co_External c = bool_of (index_any (env_Spec e) ''external'')"
    "(co_Port c, claims') = (if \<not> co_External c
       then hostport_Resolve (int_of_any (index_any (env_Spec e) ''port'')) (RuntimeObjectName e) claims
       else (int_of_any (index_any (env_Spec e) ''port''), claims))"
  using assms by (auto simp: Connection_FromEnvelope_def Let_def split: prod.splits)

lemma Connection_validate_None:
  "Connection_validate c name = None \<longleftrightarrow>
     (co_Transport c = [] \<or> co_Transport c = ''direct'') \<and>
     (if co_External c
      then 0 < co_Port c \<and> co_Host c \<noteq> [] \<and> co_Target c = [] \<and> co_Via c = None \<and>
        (\<forall>t. co_TLS c = Some t \<longrightarrow> tls_Mode t \<in> set tls_modes \<and>
           tls_SecretRef t = None \<and> \<not> tls_SelfSigned t \<and> tls_SecretName t = None)
      else co_ProviderRef c \<noteq> None \<and> co_Target c \<noteq> [] \<and>
        (co_Scheme c = ''https'' \<longleftrightarrow> co_TLS c \<noteq> None) \<and>
        (\<forall>t. co_TLS c = Some t \<longrightarrow> tls_Mode t = [] \<and> tls_CASecretRef t = None \<and> tls_terminators t = 1))"
  by (cases "co_TLS c")
    (auto simp: Connection_validate_def validateTLS_def validateExternalTLS_def validateManagedTLS_def tls_modes_def)

text \<open>
  An accepted Connection always has a usable port and a coherent TLS stanza. A declared
  positive port is kept; a managed connection without one gets its deterministic port in
  20000--29999 and is recorded as its claimant. A managed connection declares TLS exactly when
  its scheme is https, with exactly one way to terminate it; an external one declares only an
  outbound mode.
\<close>

theorem Connection_accepted:
  assumes "Connection_FromEnvelope e claims = ((c, None), claims')"
    and "declared = int_of_any (index_any (env_Spec e) ''port'')"
  shows "0 < co_Port c \<and>
    (co_External c \<or> 0 < declared \<longrightarrow> co_Port c = declared \<and> claims' = claims) \<and>
    (\<not> co_External c \<and> declared \<le> 0 \<longrightarrow> co_Port c = hostport_For (RuntimeObjectName e) \<and>
       20000 \<le> co_Port c \<and> co_Port c < 30000 \<and>
       RuntimeObjectName e \<in> set (claimants claims' (co_Port c))) \<and>
    (\<not> co_External c \<longrightarrow> (co_Scheme c = ''https'' \<longleftrightarrow> co_TLS c \<noteq> None) \<and>
       (\<forall>t. co_TLS c = Some t \<longrightarrow> tls_terminators t = 1)) \<and>
    (co_External c \<longrightarrow> (\<forall>t. co_TLS c = Some t \<longrightarrow> tls_Mode t \<in> set tls_modes \<and> tls_terminators t = 0))"
proof -
  note parts = Connection_parts [OF assms(1)]
  have val: "Connection_validate c (env_name e) = None" using parts(1) by simp
  note v = val [unfolded Connection_validate_None]
  have port: "co_Port c = declared \<and> claims' = claims" if "co_External c \<or> 0 < declared"
    using parts(3) that by (auto simp: assms(2) hostport_Resolve_def split: if_splits)
  have auto_port: "co_Port c = hostport_For (RuntimeObjectName e) \<and>
      claims' = record_claim (co_Port c) (RuntimeObjectName e) claims"
    if "\<not> co_External c" "declared \<le> 0"
    using parts(3) that by (auto simp: assms(2) hostport_Resolve_def split: if_splits)
  have "0 < co_Port c"
    using v port auto_port hostport_For_bounds [of "RuntimeObjectName e"]
    by (cases "co_External c"; cases "0 < declared") auto
  moreover have "RuntimeObjectName e \<in> set (claimants (record_claim p (RuntimeObjectName e) claims) p)" for p :: int
    by (simp add: claimants_def record_claim_def Let_def)
  moreover have "tls_Mode t \<in> set tls_modes \<and> tls_terminators t = 0" if "co_External c" "co_TLS c = Some t" for t
    using v that by (simp add: tls_terminators_def)
  moreover have "(co_Scheme c = ''https'' \<longleftrightarrow> co_TLS c \<noteq> None) \<and>
      (\<forall>t. co_TLS c = Some t \<longrightarrow> tls_terminators t = 1)" if "\<not> co_External c"
    using v that by simp
  ultimately show ?thesis
    using port auto_port hostport_For_bounds [of "RuntimeObjectName e"] by metis
qed

definition sample_connection :: Envelope where
  "sample_connection = (sample_env ''Connection'' ''db'')\<lparr>env_Spec :=
     [(''providerRef'', AMap [(''name'', AStr ''fwd'')]), (''target'', AStr ''pg:5432'')]\<rparr>"

theorem Connection_accepted_witness:
  "\<exists>c claims'. Connection_FromEnvelope sample_connection [] = ((c, None), claims') \<and>
     20000 \<le> co_Port c \<and> co_Port c < 30000"
proof -
  have v: "snd (fst (Connection_FromEnvelope sample_connection [])) = None"
    "\<not> co_External (fst (fst (Connection_FromEnvelope sample_connection [])))"
    "int_of_any (index_any (env_Spec sample_connection) ''port'') \<le> 0" by code_simp+
  then obtain c claims' where c: "Connection_FromEnvelope sample_connection [] = ((c, None), claims')"
    "\<not> co_External c"
    by (cases "Connection_FromEnvelope sample_connection []") auto
  from Connection_accepted [OF c(1) refl] c v(3) show ?thesis by auto
qed

lemma Binding_validate_None:
  "Binding_validate b name = None \<longleftrightarrow>
     bi_Mode b \<in> set [''cdc'', ''sink'', ''ingest''] \<and> bi_SourceRef b \<noteq> [] \<and> bi_TargetRef b \<noteq> [] \<and>
     bi_ProviderRef b \<noteq> [] \<and> (bi_Transport b = [] \<or> bi_Transport b = ''direct'') \<and>
     (\<forall>dl. bi_DeadLetter b = Some dl \<longrightarrow> bi_Mode b = ''sink'' \<and> dl_Stream dl \<noteq> [] \<and>
        dl_Tolerance dl \<in> {''all'', ''none''})"
  by (cases "bi_DeadLetter b"; cases "bi_Mode b = ''batch''") (simp_all add: Binding_validate_def)

lemma Binding_modes:
  "m \<in> set [''cdc'', ''sink'', ''ingest''] \<Longrightarrow> \<exists>pairs. map_of AllowedKindPairs m = Some pairs \<and> pairs \<noteq> []"
  by (auto simp: AllowedKindPairs_def)

text \<open>
  An accepted Binding has one of the implemented modes, for which at least one pair of
  kinds is allowed, names its origin, target and provider, and carries a dead-letter queue only
  in sink mode, with a stream and a tolerance that defaults to all.
\<close>

theorem Binding_accepted:
  assumes "Binding_FromEnvelope e = (b, None)"
  shows "(\<exists>pairs. map_of AllowedKindPairs (bi_Mode b) = Some pairs \<and> pairs \<noteq> []) \<and>
    bi_SourceRef b = RefName (env_Spec e) ''sourceRef'' \<and> bi_SourceRef b \<noteq> [] \<and>
    bi_TargetRef b = RefName (env_Spec e) ''targetRef'' \<and> bi_TargetRef b \<noteq> [] \<and> bi_ProviderRef b \<noteq> [] \<and>
    (\<forall>dl. bi_DeadLetter b = Some dl \<longrightarrow> bi_Mode b = ''sink'' \<and> dl_Stream dl \<noteq> [] \<and>
       dl_Tolerance dl \<in> {''all'', ''none''})"
proof -
  have b: "Binding_validate b (env_name e) = None" "bi_SourceRef b = RefName (env_Spec e) ''sourceRef''"
    "bi_TargetRef b = RefName (env_Spec e) ''targetRef''"
    using assms by (auto simp: Binding_FromEnvelope_def Let_def refName_RefName)
  show ?thesis
    using b(1) Binding_modes [of "bi_Mode b"] unfolding Binding_validate_None b(2,3) [symmetric] by blast
qed

definition sample_binding :: Envelope where
  "sample_binding = (sample_env ''Binding'' ''b'')\<lparr>env_Spec :=
     [(''mode'', AStr ''sink''), (''sourceRef'', AMap [(''name'', AStr ''s'')]),
      (''targetRef'', AMap [(''name'', AStr ''d'')]), (''providerRef'', AMap [(''name'', AStr ''p'')]),
      (''options'', AMap [(''deadLetter'', AMap [(''stream'', AStr ''dlq'')])])]\<rparr>"

theorem Binding_accepted_witness:
  "\<exists>b dl. Binding_FromEnvelope sample_binding = (b, None) \<and> bi_DeadLetter b = Some dl \<and>
     dl_Tolerance dl \<in> {''all'', ''none''}"
proof -
  let ?b = "fst (Binding_FromEnvelope sample_binding)"
  have "snd (Binding_FromEnvelope sample_binding) = None" by code_simp
  then have b: "Binding_FromEnvelope sample_binding = (?b, None)" by (metis prod.collapse)
  have "bi_DeadLetter ?b \<noteq> None" by code_simp
  with Binding_accepted [OF b] b show ?thesis by auto
qed

end
