(* ===== verification/Facts.thy ===== *)
theory Facts
  imports Go_Prelude
begin

text \<open>
  Published facts and pinned definitions: the endpoints a provider publishes in its state
  (\<open>internal/domain/endpoint/endpoint.go\<close>), version profiles
  (\<open>internal/domain/versionprofile/versionprofile.go\<close>) and backup locations
  (\<open>internal/domain/backup/backup.go\<close>).
\<close>

section \<open>Endpoints\<close>

record Endpoint =
  ep_Name :: string
  ep_Scheme :: string
  ep_Host :: string
  ep_Internal :: string
  ep_Insecure :: bool
  ep_RuntimeName :: string
  ep_ContainerPort :: int
  ep_Audience :: string
  ep_Network :: string

definition str_entry :: "string \<Rightarrow> string \<Rightarrow> anymap" where
  "str_entry k v = (if v \<noteq> [] then [(k, AStr v)] else [])"

definition endpoint_map :: "Endpoint \<Rightarrow> anymap" where
  "endpoint_map e =
     [(''name'', AStr (ep_Name e)), (''scheme'', AStr (ep_Scheme e))]
     @ str_entry ''host'' (ep_Host e)
     @ str_entry ''internal'' (ep_Internal e)
     @ (if ep_Insecure e then [(''insecure'', ABool True)] else [])
     @ str_entry ''runtimeName'' (ep_RuntimeName e)
     @ (if ep_ContainerPort e \<noteq> 0 then [(''containerPort'', AInt (ep_ContainerPort e))] else [])
     @ str_entry ''audience'' (ep_Audience e)
     @ str_entry ''network'' (ep_Network e)"

definition ToState :: "Endpoint list \<Rightarrow> anymap list" where
  "ToState l = map endpoint_map l"

definition endpoint_of :: "anymap \<Rightarrow> Endpoint" where
  "endpoint_of m =
     \<lparr>ep_Name = str_of (index_any m ''name''), ep_Scheme = str_of (index_any m ''scheme''),
      ep_Host = str_of (index_any m ''host''), ep_Internal = str_of (index_any m ''internal''),
      ep_Insecure = bool_of (index_any m ''insecure''),
      ep_RuntimeName = str_of (index_any m ''runtimeName''),
      ep_ContainerPort = int_of_any (index_any m ''containerPort''),
      ep_Audience = str_of (index_any m ''audience''), ep_Network = str_of (index_any m ''network'')\<rparr>"

definition FromState :: "any \<Rightarrow> Endpoint list" where
  "FromState v =
     (case is_list v of
        None \<Rightarrow> []
      | Some items \<Rightarrow> map endpoint_of
          (concat (map (\<lambda>item. case is_map item of None \<Rightarrow> [] | Some m \<Rightarrow> [m]) items)))"

text \<open>
  What \<open>encoding/json\<close> makes of a value that is written and read back into \<open>any\<close>:
  every number becomes a float.
\<close>

fun json_decoded :: "any \<Rightarrow> any" where
  "json_decoded (AInt n) = AFloat (of_int n)"
| "json_decoded (AList xs) = AList (map json_decoded xs)"
| "json_decoded (AMap m) = AMap (map (\<lambda>(k, v). (k, json_decoded v)) m)"
| "json_decoded v = v"

section \<open>Version profiles\<close>

record Profile =
  pr_Version :: string
  pr_Image :: string
  pr_DataMount :: string
  pr_Env :: "(string \<times> string) list"

record VersionCatalog =
  vc_Default :: string
  vc_Profiles :: "(string \<times> Profile) list"

datatype profile_error = UnsupportedVersion string "string list" | ImageWithoutVersion "string list"

definition Versions :: "VersionCatalog \<Rightarrow> string list" where
  "Versions c = sort_by id (map fst (vc_Profiles c))"

definition profile_Resolve :: "VersionCatalog \<Rightarrow> string \<Rightarrow> profile_error + Profile" where
  "profile_Resolve c version =
     (let v = (if version = [] then vc_Default c else version)
      in case map_of (vc_Profiles c) v of
           None \<Rightarrow> Inl (UnsupportedVersion v (Versions c))
         | Some p \<Rightarrow> Inr p)"

definition ValidateConfig :: "VersionCatalog \<Rightarrow> anymap \<Rightarrow> profile_error option" where
  "ValidateConfig c configuration =
     (let version = str_of (index_any configuration ''version'');
          image = str_of (index_any configuration ''image'')
      in if image \<noteq> [] \<and> version = [] then Some (ImageWithoutVersion (Versions c))
         else case profile_Resolve c version of Inl err \<Rightarrow> Some err | Inr p \<Rightarrow> None)"

section \<open>Backup locations\<close>

record Location =
  lo_Endpoint :: string
  lo_Bucket :: string
  lo_Prefix :: string
  lo_Insecure :: bool
  lo_Network :: string
  lo_RuntimeName :: string
  lo_ContainerPort :: int
  lo_AccessKey :: string
  lo_SecretKey :: string

record BackupRef =
  br_Endpoint :: string
  br_Bucket :: string
  br_Key :: string
  br_Prefix :: string

text \<open>The part of a key before its last slash, empty when there is none.\<close>

definition key_dir :: "string \<Rightarrow> string" where
  "key_dir key = (let (tail, dir, ok) = Cut (CHR ''/'') (rev key) in if ok then rev dir else [])"

definition RefOf :: "Location \<Rightarrow> string \<Rightarrow> BackupRef" where
  "RefOf loc key =
     \<lparr>br_Endpoint = lo_Endpoint loc, br_Bucket = lo_Bucket loc, br_Key = key,
      br_Prefix = (if key \<noteq> [] then key_dir key else lo_Prefix loc)\<rparr>"

section \<open>Properties\<close>

lemma trunc_rat_of_int [simp]: "trunc_rat (of_int n) = n"
  by (simp add: trunc_rat_def)

lemma endpoint_map_lookup:
  "map_of (endpoint_map e) ''name'' = Some (AStr (ep_Name e))"
  "map_of (endpoint_map e) ''scheme'' = Some (AStr (ep_Scheme e))"
  "map_of (endpoint_map e) ''host'' = (if ep_Host e \<noteq> [] then Some (AStr (ep_Host e)) else None)"
  "map_of (endpoint_map e) ''internal'' = (if ep_Internal e \<noteq> [] then Some (AStr (ep_Internal e)) else None)"
  "map_of (endpoint_map e) ''insecure'' = (if ep_Insecure e then Some (ABool True) else None)"
  "map_of (endpoint_map e) ''runtimeName'' = (if ep_RuntimeName e \<noteq> [] then Some (AStr (ep_RuntimeName e)) else None)"
  "map_of (endpoint_map e) ''containerPort'' = (if ep_ContainerPort e \<noteq> 0 then Some (AInt (ep_ContainerPort e)) else None)"
  "map_of (endpoint_map e) ''audience'' = (if ep_Audience e \<noteq> [] then Some (AStr (ep_Audience e)) else None)"
  "map_of (endpoint_map e) ''network'' = (if ep_Network e \<noteq> [] then Some (AStr (ep_Network e)) else None)"
  by (simp_all add: endpoint_map_def str_entry_def)

lemma map_of_decoded:
  "map_of (map (\<lambda>(k, v). (k, json_decoded v)) m) k = map_option json_decoded (map_of m k)"
  by (induction m) auto

lemma endpoint_of_map: "endpoint_of (endpoint_map e) = e"
  by (simp add: endpoint_of_def index_any_def endpoint_map_lookup str_of_def bool_of_def int_of_any_def)

lemma endpoint_of_decoded:
  "endpoint_of (map (\<lambda>(k, v). (k, json_decoded v)) (endpoint_map e)) = e"
  by (simp add: endpoint_of_def index_any_def map_of_decoded endpoint_map_lookup str_of_def
      bool_of_def int_of_any_def)

text \<open>
  Published endpoints survive the state file: reading back a rendered list gives the list,
  both in the process that rendered it and after a trip through JSON, which turns the port
  into a float.
\<close>

theorem endpoints_round_trip:
  "FromState (AList (map AMap (ToState l))) = l \<and>
   FromState (json_decoded (AList (map AMap (ToState l)))) = l"
  by (simp add: FromState_def ToState_def comp_def endpoint_of_map endpoint_of_decoded)

text \<open>
  The versioned-provider contract: a configuration is accepted exactly when it resolves to
  a supported profile, and an image override always comes with an explicit supported version.
\<close>

theorem ValidateConfig_pins_version:
  "ValidateConfig c cfg = None \<longleftrightarrow>
     (\<exists>p. profile_Resolve c (str_of (index_any cfg ''version'')) = Inr p) \<and>
     (str_of (index_any cfg ''image'') = [] \<or>
        (\<exists>p. str_of (index_any cfg ''version'') \<noteq> [] \<and>
           map_of (vc_Profiles c) (str_of (index_any cfg ''version'')) = Some p))"
  by (auto simp: ValidateConfig_def Let_def profile_Resolve_def split: sum.splits option.splits if_splits)

lemma key_dir_split: "CHR ''/'' \<notin> set base \<Longrightarrow> key_dir (dir @ ''/'' @ base) = dir"
  using Cut_sep [of "CHR ''/''" "rev base" "rev dir"] by (simp add: key_dir_def)

lemma key_dir_flat: "CHR ''/'' \<notin> set key \<Longrightarrow> key_dir key = []"
proof -
  assume ns: "CHR ''/'' \<notin> set key"
  obtain t d ok where c: "Cut (CHR ''/'') (rev key) = (t, d, ok)" by (cases "Cut (CHR ''/'') (rev key)")
  have "\<not> ok"
  proof
    assume ok
    with c have "rev key = t @ CHR ''/'' # d" by (simp add: Cut_True_iff)
    then have "CHR ''/'' \<in> set (rev key)" by simp
    with ns show False by simp
  qed
  with c show ?thesis by (simp add: key_dir_def)
qed

text \<open>
  A backup reference carries no credential: it is a function of the endpoint, the bucket,
  the prefix and the key alone, and for an object key its prefix is the key's directory.
\<close>

theorem RefOf_credential_free:
  "RefOf (loc\<lparr>lo_AccessKey := a, lo_SecretKey := s, lo_Network := n, lo_RuntimeName := r\<rparr>) key = RefOf loc key \<and>
   (CHR ''/'' \<notin> set base \<longrightarrow> base \<noteq> [] \<longrightarrow>
      br_Prefix (RefOf loc (dir @ ''/'' @ base)) = dir \<and> br_Prefix (RefOf loc base) = []) \<and>
   br_Prefix (RefOf loc []) = lo_Prefix loc"
  by (auto simp: RefOf_def key_dir_flat key_dir_split [simplified])

theorem RefOf_credential_free_witness:
  "br_Prefix (RefOf \<lparr>lo_Endpoint = ''e'', lo_Bucket = ''b'', lo_Prefix = ''p'', lo_Insecure = True,
     lo_Network = [], lo_RuntimeName = [], lo_ContainerPort = 0, lo_AccessKey = ''k'', lo_SecretKey = ''s''\<rparr>
     (''daily'' @ ''/'' @ ''dump'')) = ''daily''"
proof -
  have "CHR ''/'' \<notin> set ''dump''" "''dump'' \<noteq> []" by simp_all
  with RefOf_credential_free [where dir = "''daily''" and base = "''dump''"] show ?thesis by blast
qed

end
