(* ===== verification/Feature_Gates.thy ===== *)
theory Feature_Gates
  imports Go_Prelude
begin

text \<open>
  Feature gates (\<open>internal/application/featuregate/featuregate.go\<close>) and the registry of
  provider and runtime constructors that consults them
  (\<open>internal/application/registry/registry.go\<close>). What a constructor returns is a parameter:
  \<open>'p\<close> is a provider, a runtime constructor is a function of its configuration. The
  \<open>HighAvailability\<close> guard of the registry is modelled on \<open>EnsureContainer\<close>, the
  only method it intercepts.
\<close>

section \<open>Gates\<close>

datatype Stage = Alpha | Beta | GA

record GateState =
  gs_Stage :: Stage
  gs_Default :: bool
  gs_Enabled :: bool

type_synonym gates = "(string \<times> GateState) list"

datatype gate_error =
    GateNotRegistered string
  | GateDisabled string Stage
  | BadOverride string
  | UnknownGate string
  | BadGateValue string string

definition zeroTrustFamily :: "string list" where
  "zeroTrustFamily = [''MediatedConnections'', ''GraphScopedAccess'', ''LabelScopedAccess'', ''PolicyEngine'']"

definition gate_flag :: "gates \<Rightarrow> string \<Rightarrow> bool" where
  "gate_flag r name = (case map_of r name of None \<Rightarrow> False | Some g \<Rightarrow> gs_Enabled g)"

definition enabledLocked :: "gates \<Rightarrow> string \<Rightarrow> bool" where
  "enabledLocked r name =
     (if gate_flag r name then True
      else if name \<in> set zeroTrustFamily \<and> gate_flag r ''ZeroTrust'' then True
      else False)"

definition Register :: "string \<Rightarrow> Stage \<Rightarrow> bool \<Rightarrow> gates \<Rightarrow> gates" where
  "Register name stage def r =
     AList.update name \<lparr>gs_Stage = stage, gs_Default = def, gs_Enabled = def\<rparr> r"

definition Enabled :: "gates \<Rightarrow> string \<Rightarrow> bool" where
  "Enabled r name = enabledLocked r name"

definition Require :: "gates \<Rightarrow> string \<Rightarrow> gate_error option" where
  "Require r name =
     (case map_of r name of
        None \<Rightarrow> Some (GateNotRegistered name)
      | Some g \<Rightarrow> if \<not> enabledLocked r name then Some (GateDisabled name (gs_Stage g)) else None)"

text \<open>\<open>strconv.ParseBool\<close>.\<close>

definition ParseBool :: "string \<Rightarrow> bool option" where
  "ParseBool s =
     (if s \<in> set [''1'', ''t'', ''T'', ''TRUE'', ''true'', ''True''] then Some True
      else if s \<in> set [''0'', ''f'', ''F'', ''FALSE'', ''false'', ''False''] then Some False
      else None)"

text \<open>
  One override of the comma-separated list, and the loop over them. The loop writes the gates as
  it goes, so an error returns the gates with the overrides before it applied.
\<close>

definition apply_override :: "string \<Rightarrow> gates \<Rightarrow> gate_error + gates" where
  "apply_override pair r =
     (let (name, val, found) = Cut (CHR ''='') (TrimSpace pair) in
      if \<not> found then Inl (BadOverride pair)
      else case map_of r name of
        None \<Rightarrow> Inl (UnknownGate name)
      | Some g \<Rightarrow> (case ParseBool val of
          None \<Rightarrow> Inl (BadGateValue name val)
        | Some b \<Rightarrow> Inr (AList.update name (g\<lparr>gs_Enabled := b\<rparr>) r)))"

fun apply_overrides :: "string list \<Rightarrow> gates \<Rightarrow> gate_error option \<times> gates" where
  "apply_overrides [] r = (None, r)"
| "apply_overrides (pair # ps) r =
     (case apply_override pair r of
        Inl e \<Rightarrow> (Some e, r)
      | Inr r' \<Rightarrow> apply_overrides ps r')"

definition Apply_gates :: "string \<Rightarrow> gates \<Rightarrow> gate_error option \<times> gates" where
  "Apply_gates overrides r =
     (if overrides = [] then (None, r) else apply_overrides (Split (CHR '','') overrides) r)"

definition List_gates :: "gates \<Rightarrow> gates" where
  "List_gates r = sort_by fst r"

section \<open>The registry\<close>

datatype registry_error =
    UnknownProviderType string "string list"
  | ProviderGate string gate_error
  | PlannedRuntime string
  | UnknownRuntimeType string "string list"
  | RuntimeError string
  | ReplicasGate string int gate_error

definition PlannedRuntimes :: "string list" where
  "PlannedRuntimes = [''external'', ''terraform'']"

record ('p, 'r) Registry =
  reg_providers :: "(string \<times> 'p) list"
  reg_runtimes :: "(string \<times> (anymap \<Rightarrow> string + 'r)) list"
  reg_providerGate :: "(string \<times> string) list"
  reg_gates :: gates

definition New_Registry :: "gates \<Rightarrow> ('p, 'r) Registry" where
  "New_Registry g = \<lparr>reg_providers = [], reg_runtimes = [], reg_providerGate = [], reg_gates = g\<rparr>"

definition RegisterProvider :: "string \<Rightarrow> 'p \<Rightarrow> string \<Rightarrow> ('p, 'r) Registry \<Rightarrow> ('p, 'r) Registry" where
  "RegisterProvider typeName ctor gateName r =
     r\<lparr>reg_providers := AList.update typeName ctor (reg_providers r),
       reg_providerGate := (if gateName \<noteq> [] then AList.update typeName gateName (reg_providerGate r)
         else reg_providerGate r)\<rparr>"

definition RegisterRuntime ::
  "string \<Rightarrow> (anymap \<Rightarrow> string + 'r) \<Rightarrow> ('p, 'r) Registry \<Rightarrow> ('p, 'r) Registry" where
  "RegisterRuntime typeName ctor r = r\<lparr>reg_runtimes := AList.update typeName ctor (reg_runtimes r)\<rparr>"

definition RequireGate :: "('p, 'r) Registry \<Rightarrow> string \<Rightarrow> gate_error option" where
  "RequireGate r name = Require (reg_gates r) name"

definition GateEnabled :: "('p, 'r) Registry \<Rightarrow> string \<Rightarrow> bool" where
  "GateEnabled r name = Enabled (reg_gates r) name"

definition joinKeys :: "(string \<times> 'v) list \<Rightarrow> string list" where
  "joinKeys m = sort_by id (map fst m)"

definition registry_Provider :: "('p, 'r) Registry \<Rightarrow> string \<Rightarrow> registry_error + 'p" where
  "registry_Provider r typeName =
     (case map_of (reg_providers r) typeName of
        None \<Rightarrow> Inl (UnknownProviderType typeName (joinKeys (reg_providers r)))
      | Some ctor \<Rightarrow>
          (case map_of (reg_providerGate r) typeName of
             None \<Rightarrow> Inr ctor
           | Some gate \<Rightarrow> (case Require (reg_gates r) gate of
               Some e \<Rightarrow> Inl (ProviderGate typeName e)
             | None \<Rightarrow> Inr ctor)))"

definition registry_Runtime :: "('p, 'r) Registry \<Rightarrow> string \<Rightarrow> anymap \<Rightarrow> registry_error + 'r" where
  "registry_Runtime r typeName config =
     (if typeName \<in> set PlannedRuntimes then Inl (PlannedRuntime typeName)
      else case map_of (reg_runtimes r) typeName of
        None \<Rightarrow> Inl (UnknownRuntimeType typeName (joinKeys (reg_runtimes r)))
      | Some ctor \<Rightarrow> (case ctor config of Inl e \<Rightarrow> Inl (RuntimeError e) | Inr rt \<Rightarrow> Inr rt))"

text \<open>
  The guard every runtime is wrapped with. \<open>ensure\<close> is the wrapped runtime's own
  \<open>EnsureContainer\<close>; the fields of a container specification the guard does not read are
  the extension of the record.
\<close>

record ContainerSpec =
  cs_Name :: string
  cs_Replicas :: int

definition ReplicaCount :: "'x ContainerSpec_scheme \<Rightarrow> int" where
  "ReplicaCount s = (if cs_Replicas s \<le> 0 then 1 else cs_Replicas s)"

definition haGuard_EnsureContainer ::
  "gates \<Rightarrow> ('x ContainerSpec_scheme \<Rightarrow> 'w \<Rightarrow> (registry_error + 'c) \<times> 'w)
    \<Rightarrow> 'x ContainerSpec_scheme \<Rightarrow> 'w \<Rightarrow> (registry_error + 'c) \<times> 'w" where
  "haGuard_EnsureContainer g ensure spec w =
     (if ReplicaCount spec > 1
      then (case Require g ''HighAvailability'' of
          Some e \<Rightarrow> (Inl (ReplicasGate (cs_Name spec) (cs_Replicas spec) e), w)
        | None \<Rightarrow> ensure spec w)
      else ensure spec w)"

section \<open>Properties of the gates\<close>

lemma Require_None_iff: "Require r name = None \<longleftrightarrow> map_of r name \<noteq> None \<and> Enabled r name"
  by (auto simp: Require_def Enabled_def split: option.splits if_splits)

lemma gate_flag_update [simp]:
  "gate_flag (AList.update n g r) m = (if m = n then gs_Enabled g else gate_flag r m)"
  by (simp add: gate_flag_def)

text \<open>The value an override list assigns to a gate: the one of its last valid mention.\<close>

definition override_of :: "string \<Rightarrow> (string \<times> bool) option" where
  "override_of pair =
     (let (name, val, found) = Cut (CHR ''='') (TrimSpace pair)
      in if found then map_option (Pair name) (ParseBool val) else None)"

fun assigned :: "string list \<Rightarrow> string \<Rightarrow> bool option" where
  "assigned [] name = None"
| "assigned (p # ps) name =
     (case assigned ps name of
        Some b \<Rightarrow> Some b
      | None \<Rightarrow> (case override_of p of
          Some (n, b) \<Rightarrow> if n = name then Some b else None
        | None \<Rightarrow> None))"

lemma apply_override_Inr:
  assumes "apply_override pair r = Inr r'"
  obtains n b where "override_of pair = Some (n, b)" "map_of r n \<noteq> None"
    "\<And>m. gate_flag r' m = (if m = n then b else gate_flag r m)"
    "map fst r' = map fst r"
proof -
  obtain name val found where c: "Cut (CHR ''='') (TrimSpace pair) = (name, val, found)"
    by (cases "Cut (CHR ''='') (TrimSpace pair)")
  from assms c obtain g b where *: "found" "map_of r name = Some g" "ParseBool val = Some b"
    "r' = AList.update name (g\<lparr>gs_Enabled := b\<rparr>) r"
    by (auto simp: apply_override_def split: option.splits if_splits)
  show thesis
  proof (rule that [of name b])
    show "override_of pair = Some (name, b)" using c * by (simp add: override_of_def)
    show "map fst r' = map fst r" using * by (force simp: AList.update_keys dest: map_of_SomeD)
  qed (use * in \<open>auto simp: gate_flag_def\<close>)
qed

lemma apply_overrides_flags:
  "apply_overrides ps r = (None, r') \<Longrightarrow>
     map fst r' = map fst r \<and>
     (\<forall>m. gate_flag r' m = (case assigned ps m of Some b \<Rightarrow> b | None \<Rightarrow> gate_flag r m)) \<and>
     (\<forall>m. assigned ps m \<noteq> None \<longrightarrow> map_of r m \<noteq> None)"
proof (induction ps arbitrary: r)
  case (Cons p ps)
  from Cons.prems obtain r1 where r1: "apply_override p r = Inr r1" "apply_overrides ps r1 = (None, r')"
    by (auto split: sum.splits)
  from r1(1) obtain n b where n: "override_of p = Some (n, b)" "map_of r n \<noteq> None"
    "\<And>m. gate_flag r1 m = (if m = n then b else gate_flag r m)" "map fst r1 = map fst r"
    by (rule apply_override_Inr) (rule that)
  from n(4) have dom: "map_of r1 m \<noteq> None \<longleftrightarrow> map_of r m \<noteq> None" for m
    by (metis list.set_map map_of_eq_None_iff)
  from Cons.IH [OF r1(2)] n dom show ?case by (auto split: option.splits)
qed simp

text \<open>
  A successful \<open>--feature-gates\<close> string switches exactly the gates it names, the last
  mention winning, names registered gates only, and neither adds nor removes a gate. The string
  is a list of \<open>Name=bool\<close> pairs; gates it does not mention keep their flag. A gate counts
  as enabled when its own flag is set or when it belongs to the zero-trust family and
  \<open>ZeroTrust\<close> is on, and \<open>Require\<close> lets a caller pass exactly when the gate is
  registered and enabled.
\<close>

theorem Apply_gates_exact:
  assumes "Apply_gates overrides r = (None, r')" "overrides \<noteq> []"
  shows "map fst r' = map fst r \<and>
    (\<forall>m. gate_flag r' m =
       (case assigned (Split (CHR '','') overrides) m of Some b \<Rightarrow> b | None \<Rightarrow> gate_flag r m)) \<and>
    (\<forall>m. assigned (Split (CHR '','') overrides) m \<noteq> None \<longrightarrow> map_of r m \<noteq> None) \<and>
    (\<forall>m. Require r' m = None \<longleftrightarrow> m \<in> fst ` set r \<and>
       (gate_flag r' m \<or> m \<in> set zeroTrustFamily \<and> gate_flag r' ''ZeroTrust''))"
proof -
  have *: "apply_overrides (Split (CHR '','') overrides) r = (None, r')"
    using assms by (simp add: Apply_gates_def)
  note flags = apply_overrides_flags [OF *]
  then have "fst ` set r' = fst ` set r" by (metis list.set_map)
  then have "Require r' m = None \<longleftrightarrow> m \<in> fst ` set r \<and>
       (gate_flag r' m \<or> m \<in> set zeroTrustFamily \<and> gate_flag r' ''ZeroTrust'')" for m
    by (auto simp: Require_None_iff Enabled_def enabledLocked_def map_of_eq_None_iff)
  with flags show ?thesis by blast
qed

definition sample_gates :: gates where
  "sample_gates = Register ''ZeroTrust'' Alpha False (Register ''PolicyEngine'' Beta False [])"

theorem Apply_gates_exact_witness:
  "Require (snd (Apply_gates ''ZeroTrust=true, PolicyEngine=false'' sample_gates)) ''PolicyEngine'' = None"
proof -
  have "Apply_gates ''ZeroTrust=true, PolicyEngine=false'' sample_gates =
      (None, snd (Apply_gates ''ZeroTrust=true, PolicyEngine=false'' sample_gates))" by code_simp
  note * = Apply_gates_exact [OF this]
  have "gate_flag (snd (Apply_gates ''ZeroTrust=true, PolicyEngine=false'' sample_gates)) ''ZeroTrust''"
    "''PolicyEngine'' \<in> fst ` set sample_gates" "''PolicyEngine'' \<in> set zeroTrustFamily" by code_simp+
  with * show ?thesis by blast
qed

section \<open>Properties of the registry\<close>

text \<open>
  The registry is the one place that enforces gates. A provider type registered behind a gate
  is handed out exactly while the gate is enabled, a planned runtime never is, and through the
  guard of \<open>Registry.Runtime\<close> a request for more than one replica reaches the runtime only
  while \<open>HighAvailability\<close> is enabled: otherwise it fails and the world does not change.
\<close>

theorem registry_enforces_gates:
  "(gate \<noteq> [] \<longrightarrow>
     (registry_Provider (RegisterProvider t p gate r) t = Inr p \<longleftrightarrow>
        gate \<in> fst ` set (reg_gates r) \<and> Enabled (reg_gates r) gate)) \<and>
   (t \<in> set PlannedRuntimes \<longrightarrow> registry_Runtime r t config = Inl (PlannedRuntime t)) \<and>
   (haGuard_EnsureContainer (reg_gates r) ensure spec w =
      (if cs_Replicas spec \<le> 1 \<or> RequireGate r ''HighAvailability'' = None then ensure spec w
       else (Inl (ReplicasGate (cs_Name spec) (cs_Replicas spec) (the (RequireGate r ''HighAvailability''))), w)))"
proof -
  have "gate \<noteq> [] \<longrightarrow>
     (registry_Provider (RegisterProvider t p gate r) t = Inr p \<longleftrightarrow> Require (reg_gates r) gate = None)"
    by (auto simp: registry_Provider_def RegisterProvider_def split: option.splits)
  moreover have "Require (reg_gates r) gate = None \<longleftrightarrow>
      gate \<in> fst ` set (reg_gates r) \<and> Enabled (reg_gates r) gate"
    by (auto simp: Require_None_iff map_of_eq_None_iff)
  moreover have "haGuard_EnsureContainer (reg_gates r) ensure spec w =
      (if cs_Replicas spec \<le> 1 \<or> RequireGate r ''HighAvailability'' = None then ensure spec w
       else (Inl (ReplicasGate (cs_Name spec) (cs_Replicas spec) (the (RequireGate r ''HighAvailability''))), w))"
    by (auto simp: haGuard_EnsureContainer_def RequireGate_def ReplicaCount_def split: option.splits)
  ultimately show ?thesis by (simp add: registry_Runtime_def)
qed

definition sample_registry :: "(nat, nat) Registry" where
  "sample_registry = New_Registry sample_gates"

theorem registry_enforces_gates_witness:
  "registry_Provider (RegisterProvider ''nessie'' 7 ''PolicyEngine'' sample_registry) ''nessie'' \<noteq> Inr 7 \<and>
   registry_Runtime sample_registry ''terraform'' [] = Inl (PlannedRuntime ''terraform'')"
proof -
  have "''PolicyEngine'' \<noteq> []" "\<not> Enabled (reg_gates sample_registry) ''PolicyEngine''"
    "''terraform'' \<in> set PlannedRuntimes" by code_simp+
  moreover define ensure :: "ContainerSpec \<Rightarrow> nat \<Rightarrow> (registry_error + nat) \<times> nat"
    where "ensure = (\<lambda>s w. (Inr 0, w))"
  moreover note registry_enforces_gates [of "''PolicyEngine''" "''nessie''" 7 sample_registry "[]" ensure
      "\<lparr>cs_Name = ''c'', cs_Replicas = 3\<rparr>" 0]
    registry_enforces_gates [of "[]" "''terraform''" 7 sample_registry "[]" ensure
      "\<lparr>cs_Name = ''c'', cs_Replicas = 3\<rparr>" 0]
  ultimately show ?thesis by blast
qed

end
