(* ===== verification/Ports.thy ===== *)
theory Ports
  imports Kinds Facts State_Store Feature_Gates
begin

text \<open>
  The provider port, \<open>internal/ports/reconciler/reconciler.go\<close>: the request value every
  provider call receives, the published facts it can query, and a provider as the record of its
  methods. An optional capability interface is an \<open>option\<close> field: \<open>Some\<close> when the
  provider implements it. A method that acts on the outside takes and returns the world
  \<open>'w\<close> (containers, databases, networks, secret backends, the clock); \<open>'r\<close> is a
  runtime handle. Errors of a provider are their texts.
\<close>

section \<open>Facts\<close>

type_synonym StaticFacts = "(Key \<times> Endpoint list) list"

record PublishedFact =
  pf_Owner :: Key
  pf_Endpoint :: Endpoint

definition fact_named :: "string \<Rightarrow> Endpoint \<Rightarrow> bool" where
  "fact_named factName ep \<longleftrightarrow> ep_Name ep = factName \<and> ep_Internal ep \<noteq> []"

definition facts_Endpoint :: "StaticFacts \<Rightarrow> Key \<Rightarrow> string \<Rightarrow> Endpoint option" where
  "facts_Endpoint f providerKey factName =
     (case map_of f providerKey of
        None \<Rightarrow> None
      | Some eps \<Rightarrow> find (fact_named factName) eps)"

definition owner_order :: "PublishedFact \<Rightarrow> string list" where
  "owner_order p = [key_Namespace (pf_Owner p), key_Kind (pf_Owner p), key_Name (pf_Owner p)]"

definition facts_ByName :: "StaticFacts \<Rightarrow> string \<Rightarrow> PublishedFact list" where
  "facts_ByName f factName =
     sort_key owner_order (concat (map (\<lambda>(key, eps).
       map (\<lambda>ep. \<lparr>pf_Owner = key, pf_Endpoint = ep\<rparr>) (filter (fact_named factName) eps)) f))"

record MetricsTarget =
  mt_JobName :: string
  mt_Endpoint :: Endpoint

record CatalogFacts =
  cf_RestInternal :: string
  cf_S3Internal :: string
  cf_S3SecretRef :: string

record WarehouseFacts =
  wf_Bucket :: string
  wf_Prefix :: string
  wf_S3Internal :: string
  wf_S3SecretRef :: string

record LineageEndpoint =
  le_URL :: string
  le_Namespace :: string
  le_AuthRef :: "SecretReference option"

section \<open>Requests and providers\<close>

record 'r Request =
  rq_Resource :: Envelope
  rq_Runtime :: 'r
  rq_Provider :: Envelope
  rq_Secrets :: "(string \<times> (string \<times> string) list) list"
  rq_Resources :: "(Key \<times> Envelope) list"
  rq_Facts :: "StaticFacts option"
  rq_SchemaRegistryURL :: string
  rq_KafkaBootstrapServers :: string
  rq_MetricsTargets :: "MetricsTarget list"
  rq_CatalogFacts :: "CatalogFacts option"
  rq_PrometheusURL :: string
  rq_WarehouseFacts :: "WarehouseFacts option"

record ('w, 'r) Impl =
  im_Type :: string
  im_Reconcile :: "'r Request \<Rightarrow> 'w \<Rightarrow> (string + Status) \<times> 'w"
  im_Destroy :: "'r Request \<Rightarrow> 'w \<Rightarrow> string option \<times> 'w"
  im_Probe :: "'r Request \<Rightarrow> 'w \<Rightarrow> (string + Status) \<times> 'w"
  im_ConfigureExternal :: "('r Request \<Rightarrow> 'w \<Rightarrow> (string + Status) \<times> 'w) option"
  im_ConfigureLineage :: "('r Request \<Rightarrow> LineageEndpoint \<Rightarrow> 'w \<Rightarrow> string option \<times> 'w) option"
  im_SourceEngines :: "string list option"
  im_SinkFormats :: "string list option"
  im_SinkEngines :: "string list option"
  im_IngestFormats :: "string list option"
  im_CatalogEngines :: "string list option"
  im_ConnectionSchemes :: "string list option"
  im_TunnelChaining :: bool
  im_ConsumesVia :: bool
  im_VersionCatalog :: "(Provider \<Rightarrow> VersionCatalog) option"
  im_ValidateSpec :: "(Provider \<Rightarrow> string option) option"
  im_ValidateBindingOptions :: "(string \<Rightarrow> anymap \<Rightarrow> string option) option"
  im_SchemaFormats :: "(Provider \<Rightarrow> string list) option"
  im_KafkaBootstrapAddress :: "(string \<Rightarrow> Provider \<Rightarrow> string) option"
  im_ValidateStreamReplication :: "(Provider \<Rightarrow> int \<Rightarrow> string option) option"

text \<open>A provider that implements none of the optional capabilities.\<close>

definition plain_Impl ::
  "string \<Rightarrow> ('r Request \<Rightarrow> 'w \<Rightarrow> (string + Status) \<times> 'w) \<Rightarrow> ('r Request \<Rightarrow> 'w \<Rightarrow> string option \<times> 'w)
    \<Rightarrow> ('r Request \<Rightarrow> 'w \<Rightarrow> (string + Status) \<times> 'w) \<Rightarrow> ('w, 'r) Impl" where
  "plain_Impl ty rec des pr =
     \<lparr>im_Type = ty, im_Reconcile = rec, im_Destroy = des, im_Probe = pr,
      im_ConfigureExternal = None, im_ConfigureLineage = None, im_SourceEngines = None,
      im_SinkFormats = None, im_SinkEngines = None, im_IngestFormats = None,
      im_CatalogEngines = None, im_ConnectionSchemes = None, im_TunnelChaining = False,
      im_ConsumesVia = False, im_VersionCatalog = None, im_ValidateSpec = None,
      im_ValidateBindingOptions = None, im_SchemaFormats = None, im_KafkaBootstrapAddress = None,
      im_ValidateStreamReplication = None\<rparr>"

section \<open>Lemmas on facts\<close>

lemma facts_Endpoint_published:
  "facts_Endpoint f k n = Some ep \<Longrightarrow> \<exists>eps. map_of f k = Some eps \<and> ep \<in> set eps \<and> fact_named n ep"
  by (auto simp: facts_Endpoint_def find_Some_iff split: option.splits)

lemma set_facts_ByName:
  "set (facts_ByName f n) =
     {\<lparr>pf_Owner = k, pf_Endpoint = ep\<rparr> |k eps ep. (k, eps) \<in> set f \<and> ep \<in> set eps \<and> fact_named n ep}"
  by (force simp: facts_ByName_def)

end
