(* ===== verification/Compatibility.thy ===== *)
theory Compatibility
  imports Ports Dep_Graph "HOL-Library.Multiset"
begin

text \<open>
  The validate-time checks of \<open>internal/application/compatibility\<close>: reference syntax, domain
  coherence, provider capabilities, Binding pairings, and the inference of a Kafka bootstrap
  address from the manifest graph. \<open>resolve\<close> stands for \<open>registry.Provider\<close>. Decoding
  a managed Connection claims a host port, so the capability check threads the claims.
\<close>

section \<open>The index\<close>

record manifestIndex =
  ix_byName :: "(string \<times> Envelope list) list"
  ix_byKey :: "(Key \<times> Envelope) list"

definition ix_named :: "manifestIndex \<Rightarrow> string \<Rightarrow> Envelope list" where
  "ix_named idx n = (case map_of (ix_byName idx) n of None \<Rightarrow> [] | Some es \<Rightarrow> es)"

definition indexKey :: "string \<Rightarrow> string \<Rightarrow> string" where
  "indexKey namespace name = NormalizeNamespace namespace @ [CHR 0x00] @ name"

definition add_index :: "Envelope \<Rightarrow> manifestIndex \<Rightarrow> manifestIndex" where
  "add_index e idx =
     (let key = env_Key e; n = indexKey (key_Namespace key) (key_Name key)
      in \<lparr>ix_byName = AList.update n (ix_named idx n @ [e]) (ix_byName idx),
          ix_byKey = AList.update key e (ix_byKey idx)\<rparr>)"

definition newIndex :: "Envelope list \<Rightarrow> manifestIndex" where
  "newIndex envelopes = fold add_index envelopes \<lparr>ix_byName = [], ix_byKey = []\<rparr>"

definition resolveKind :: "manifestIndex \<Rightarrow> Envelope \<Rightarrow> NameRef \<Rightarrow> string \<Rightarrow> Envelope option" where
  "resolveKind idx from ref kind =
     map_of (ix_byKey idx) (ref_Key ref (md_Namespace (env_Metadata from)) kind)"

datatype resolved = NotFound | Found Envelope | Ambiguous

definition resolve_ref :: "manifestIndex \<Rightarrow> Envelope \<Rightarrow> NameRef \<Rightarrow> string list \<Rightarrow> resolved" where
  "resolve_ref idx from ref kinds =
     (case filter (\<lambda>env. kinds = [] \<or> env_Kind env \<in> set kinds)
        (ix_named idx (indexKey (NamespaceOr ref (md_Namespace (env_Metadata from))) (ref_Name ref))) of
        [] \<Rightarrow> NotFound
      | [env] \<Rightarrow> Found env
      | _ \<Rightarrow> Ambiguous)"

section \<open>Errors\<close>

datatype compat_error =
    BadNameRef Key resource_error
  | DomainMismatch Key string string
  | KindError kind_error
  | ResolverError string string registry_error
  | RefUnresolved string string string
  | RefAmbiguous string string string
  | RefWrongKind string string string string
  | NoCapability string string string
  | Unsupported string string string "string list"
  | NoPairing string string
  | BadPairing string string string string
  | ProviderRejects string string
  | ProfileError string profile_error

type_synonym ('w, 'r) resolver = "string \<Rightarrow> registry_error + ('w, 'r) Impl"

section \<open>References and domains\<close>

definition nameRef_fields :: "string list" where
  "nameRef_fields = [''providerRef'', ''sourceRef'', ''targetRef'', ''connectionRef'', ''secretRef'']"

definition validate_field_ref :: "Envelope \<Rightarrow> string \<Rightarrow> compat_error option" where
  "validate_field_ref e field =
     (let ref = RefFromSpec (env_Spec e) field in
      if ref_Name ref = [] then None
      else case ValidateDNSLabel (''spec.'' @ field @ ''.name'') (ref_Name ref) of
        Some err \<Rightarrow> Some (BadNameRef (env_Key e) err)
      | None \<Rightarrow>
          (if ref_Namespace ref \<noteq> []
           then map_option (BadNameRef (env_Key e))
             (ValidateDNSLabel (''spec.'' @ field @ ''.namespace'') (ref_Namespace ref))
           else None))"

definition validateNameRefs :: "Envelope \<Rightarrow> compat_error option" where
  "validateNameRefs e =
     (case first_error (validate_field_ref e) nameRef_fields of
        Some err \<Rightarrow> Some err
      | None \<Rightarrow> (case is_list (index_any (env_Spec e) ''secretRefs'') of
          None \<Rightarrow> None
        | Some refs \<Rightarrow> first_error (\<lambda>item. let name = str_of item in
            if name = [] then None
            else map_option (BadNameRef (env_Key e)) (ValidateDNSLabel ''spec.secretRefs.name'' name)) refs))"

definition check_domain :: "manifestIndex \<Rightarrow> Envelope \<Rightarrow> compat_error option" where
  "check_domain idx e =
     (if md_Domain (env_Metadata e) = [] \<or> env_Kind e = ''Provider'' then None
      else let provRef = RefFromSpec (env_Spec e) ''providerRef'' in
        if ref_Name provRef = [] then None
        else case resolveKind idx e provRef ''Provider'' of
          None \<Rightarrow> None
        | Some provEnv \<Rightarrow>
            (let dm = NormalizeDomain (md_Domain (env_Metadata e));
                 pd = NormalizeDomain (md_Domain (env_Metadata provEnv))
             in if dm \<noteq> pd then Some (DomainMismatch (env_Key e) dm pd) else None))"

section \<open>The Kafka bootstrap address\<close>

definition stream_of :: "manifestIndex \<Rightarrow> Envelope \<Rightarrow> Envelope option" where
  "stream_of idx e =
     (case resolveKind idx e (RefFromSpec (env_Spec e) ''sourceRef'') ''EventStream'' of
        Some es \<Rightarrow> Some es
      | None \<Rightarrow> resolveKind idx e (RefFromSpec (env_Spec e) ''targetRef'') ''EventStream'')"

text \<open>What one Binding contributes: the address of its stream's broker and the broker's key.\<close>

definition kafka_match ::
  "manifestIndex \<Rightarrow> ('w, 'r) resolver \<Rightarrow> Key \<Rightarrow> Envelope \<Rightarrow> (string \<times> Key) option" where
  "kafka_match idx resolve workerKey e =
     (if env_Kind e \<noteq> ''Binding'' then None
      else case resolveKind idx e (RefFromSpec (env_Spec e) ''providerRef'') ''Provider'' of
        None \<Rightarrow> None
      | Some provEnv \<Rightarrow>
          (if env_Key provEnv \<noteq> workerKey then None
           else case stream_of idx e of
             None \<Rightarrow> None
           | Some esEnv \<Rightarrow>
               (case resolveKind idx esEnv (RefFromSpec (env_Spec esEnv) ''providerRef'') ''Provider'' of
                  None \<Rightarrow> None
                | Some esProvEnv \<Rightarrow>
                    (case Provider_FromEnvelope esProvEnv of
                       (_, Some err) \<Rightarrow> None
                     | (esProv, None) \<Rightarrow>
                         (case resolve (pv_Type esProv) of
                            Inl err \<Rightarrow> None
                          | Inr impl \<Rightarrow>
                              (case im_KafkaBootstrapAddress impl of
                                 None \<Rightarrow> None
                               | Some kb \<Rightarrow>
                                   (let a = kb (RuntimeObjectName esProvEnv) esProv
                                    in if a \<noteq> [] then Some (a, env_Key esProvEnv) else None)))))))"

definition add_match :: "manifestIndex \<Rightarrow> ('w, 'r) resolver \<Rightarrow> Key \<Rightarrow> Envelope
    \<Rightarrow> (string \<times> Key \<times> Key list) list \<Rightarrow> (string \<times> Key \<times> Key list) list" where
  "add_match idx resolve workerKey e addrs =
     (case kafka_match idx resolve workerKey e of
        None \<Rightarrow> addrs
      | Some (a, target) \<Rightarrow>
          (let bindings = (case map_of addrs a of None \<Rightarrow> [] | Some (_, bs) \<Rightarrow> bs)
           in AList.update a (target, bindings @ [env_Key e]) addrs))"

definition resolveKafkaBootstrapTarget ::
  "Envelope \<Rightarrow> Envelope list \<Rightarrow> ('w, 'r) resolver \<Rightarrow> (Key \<times> string \<times> Key list) option" where
  "resolveKafkaBootstrapTarget workerEnv envelopes resolve =
     (case fold (add_match (newIndex envelopes) resolve (env_Key workerEnv)) envelopes [] of
        [(a, target, bindings)] \<Rightarrow> Some (target, a, bindings)
      | _ \<Rightarrow> None)"

definition ResolveKafkaBootstrapAddress :: "Envelope \<Rightarrow> Envelope list \<Rightarrow> ('w, 'r) resolver \<Rightarrow> string" where
  "ResolveKafkaBootstrapAddress workerEnv envelopes resolve =
     (case resolveKafkaBootstrapTarget workerEnv envelopes resolve of
        None \<Rightarrow> []
      | Some (_, addr, _) \<Rightarrow> addr)"

section \<open>Capabilities of the providers behind single resources\<close>

definition resolveProviderImpl ::
  "manifestIndex \<Rightarrow> ('w, 'r) resolver \<Rightarrow> Envelope \<Rightarrow> string \<Rightarrow> string \<Rightarrow> NameRef
    \<Rightarrow> compat_error + (('w, 'r) Impl \<times> Provider)" where
  "resolveProviderImpl idx resolve env kind name ref =
     (case resolveKind idx env ref ''Provider'' of
        None \<Rightarrow> Inl (RefUnresolved kind name ''providerRef'')
      | Some provEnv \<Rightarrow>
          (if env_Kind provEnv \<noteq> ''Provider'' then Inl (RefUnresolved kind name ''providerRef'')
           else case Provider_FromEnvelope provEnv of
             (_, Some err) \<Rightarrow> Inl (KindError err)
           | (p, None) \<Rightarrow> (case resolve (pv_Type p) of
               Inl err \<Rightarrow> Inl (ResolverError kind name err)
             | Inr impl \<Rightarrow> Inr (impl, p))))"

definition check_external :: "manifestIndex \<Rightarrow> ('w, 'r) resolver \<Rightarrow> Envelope \<Rightarrow> compat_error option" where
  "check_external idx resolve e =
     (if \<not> bool_of (index_any (env_Spec e) ''external'') then None
      else let ref = RefFromSpec (env_Spec e) ''providerRef'' in
        if ref_Name ref = [] then None
        else case resolveProviderImpl idx resolve e (env_Kind e) (env_name e) ref of
          Inl err \<Rightarrow> Some err
        | Inr (impl, p) \<Rightarrow>
            (if im_ConfigureExternal impl = None
             then Some (NoCapability (env_Kind e) (env_name e) ''ExternalConfigurer'') else None))"

definition check_connectionRef :: "manifestIndex \<Rightarrow> Envelope \<Rightarrow> compat_error option" where
  "check_connectionRef idx e =
     (let ref = RefFromSpec (env_Spec e) ''connectionRef'' in
      if ref_Name ref = [] then None
      else case resolve_ref idx e ref [''Connection'', ''SecretReference''] of
        Ambiguous \<Rightarrow> Some (RefAmbiguous (env_Kind e) (env_name e) ''connectionRef'')
      | NotFound \<Rightarrow> (case resolve_ref idx e ref [] of
          Ambiguous \<Rightarrow> Some (RefAmbiguous (env_Kind e) (env_name e) ''connectionRef'')
        | Found wrong \<Rightarrow> Some (RefWrongKind (env_Kind e) (env_name e) ''connectionRef'' (env_Kind wrong))
        | NotFound \<Rightarrow> Some (RefUnresolved (env_Kind e) (env_name e) ''connectionRef''))
      | Found target \<Rightarrow>
          (if env_Kind target \<noteq> ''Connection'' \<and> env_Kind target \<noteq> ''SecretReference''
           then Some (RefWrongKind (env_Kind e) (env_name e) ''connectionRef'' (env_Kind target))
           else None))"

definition check_Provider ::
  "Envelope list \<Rightarrow> ('w, 'r) resolver \<Rightarrow> Envelope \<Rightarrow> compat_error option" where
  "check_Provider envelopes resolve e =
     (case Provider_FromEnvelope e of
        (_, Some err) \<Rightarrow> Some (KindError err)
      | (p, None) \<Rightarrow>
          (case resolve (pv_Type p) of
             Inl err \<Rightarrow> Some (ResolverError ''Provider'' (env_name e) err)
           | Inr impl \<Rightarrow>
               (let addr = ResolveKafkaBootstrapAddress e envelopes resolve;
                    validated = (if map_of (pv_Configuration p) ''bootstrapServers'' = None \<and> addr \<noteq> []
                      then p\<lparr>pv_Configuration := AList.update ''bootstrapServers'' (AStr addr) (pv_Configuration p)\<rparr>
                      else p)
                in case (case im_ValidateSpec impl of None \<Rightarrow> None | Some sv \<Rightarrow> sv validated) of
                     Some m \<Rightarrow> Some (ProviderRejects (env_name e) m)
                   | None \<Rightarrow> (case im_VersionCatalog impl of
                       None \<Rightarrow> None
                     | Some vc \<Rightarrow> map_option (ProfileError (env_name e)) (ValidateConfig (vc p) (pv_Configuration p))))))"

definition check_EventStream :: "manifestIndex \<Rightarrow> ('w, 'r) resolver \<Rightarrow> Envelope \<Rightarrow> compat_error option" where
  "check_EventStream idx resolve e =
     (case EventStream_FromEnvelope e of
        (_, Some err) \<Rightarrow> Some (KindError err)
      | (es, None) \<Rightarrow>
          (if es_External es \<or> ReplicationFactor es \<le> 1 then None
           else case resolveProviderImpl idx resolve e ''EventStream'' (env_name e)
               (RefFromSpec (env_Spec e) ''providerRef'') of
             Inl err \<Rightarrow> Some err
           | Inr (impl, p) \<Rightarrow> (case im_ValidateStreamReplication impl of
               None \<Rightarrow> None
             | Some srv \<Rightarrow> map_option (ProviderRejects (env_name e)) (srv p (ReplicationFactor es)))))"

definition check_Catalog :: "manifestIndex \<Rightarrow> ('w, 'r) resolver \<Rightarrow> Envelope \<Rightarrow> compat_error option" where
  "check_Catalog idx resolve e =
     (case Catalog_FromEnvelope e of
        (_, Some err) \<Rightarrow> Some (KindError err)
      | (c, None) \<Rightarrow>
          (if ca_External c then None
           else case resolveProviderImpl idx resolve e ''Catalog'' (env_name e)
               (RefFromSpec (env_Spec e) ''providerRef'') of
             Inl err \<Rightarrow> Some err
           | Inr (impl, p) \<Rightarrow> (case im_CatalogEngines impl of
               None \<Rightarrow> Some (NoCapability ''Catalog'' (env_name e) ''catalog'')
             | Some engines \<Rightarrow>
                 (if ca_Engine c \<notin> set engines
                  then Some (Unsupported ''Catalog'' (env_name e) (ca_Engine c) engines) else None))))"

definition check_secret_target :: "manifestIndex \<Rightarrow> Envelope \<Rightarrow> NameRef \<Rightarrow> string \<Rightarrow> compat_error option" where
  "check_secret_target idx e ref field =
     (case resolveKind idx e ref ''SecretReference'' of
        None \<Rightarrow> Some (RefUnresolved ''Connection'' (env_name e) field)
      | Some target \<Rightarrow> (if env_Kind target \<noteq> ''SecretReference''
          then Some (RefUnresolved ''Connection'' (env_name e) field) else None))"

definition check_via :: "manifestIndex \<Rightarrow> ('w, 'r) resolver \<Rightarrow> Envelope \<Rightarrow> ('w, 'r) Impl \<Rightarrow> compat_error option" where
  "check_via idx resolve e impl =
     (case resolveKind idx e (RefFromSpec (env_Spec e) ''via'') ''Provider'' of
        None \<Rightarrow> Some (RefUnresolved ''Connection'' (env_name e) ''via'')
      | Some viaProvEnv \<Rightarrow>
          (if env_Kind viaProvEnv \<noteq> ''Provider'' then Some (RefUnresolved ''Connection'' (env_name e) ''via'')
           else case Provider_FromEnvelope viaProvEnv of
             (_, Some err) \<Rightarrow> Some (KindError err)
           | (viaProv, None) \<Rightarrow> (case resolve (pv_Type viaProv) of
               Inl err \<Rightarrow> Some (ResolverError ''Connection'' (env_name e) err)
             | Inr viaImpl \<Rightarrow>
                 (if \<not> im_TunnelChaining viaImpl then Some (NoCapability ''Connection'' (env_name e) ''tunnel'')
                  else if \<not> im_ConsumesVia impl then Some (NoCapability ''Connection'' (env_name e) ''via'')
                  else None))))"

definition check_Connection ::
  "manifestIndex \<Rightarrow> ('w, 'r) resolver \<Rightarrow> Envelope \<Rightarrow> int claims \<Rightarrow> compat_error option \<times> int claims" where
  "check_Connection idx resolve e claims =
     (case Connection_FromEnvelope e claims of
        ((_, Some err), claims') \<Rightarrow> (Some (KindError err), claims')
      | ((c, None), claims') \<Rightarrow>
          (case (if co_SecretRef c = None then None
                 else check_secret_target idx e (RefFromSpec (env_Spec e) ''secretRef'') ''secretRef'') of
             Some err \<Rightarrow> Some err
           | None \<Rightarrow> (case (case co_TLS c of None \<Rightarrow> None | Some t \<Rightarrow> if tls_SecretRef t = None then None
                 else check_secret_target idx e
                   (RefFromSpec (map_or_nil (index_any (env_Spec e) ''tls'')) ''secretRef'') ''tls.secretRef'') of
               Some err \<Rightarrow> Some err
             | None \<Rightarrow>
                 (if co_External c then None
                  else case resolveProviderImpl idx resolve e ''Connection'' (env_name e)
                      (RefFromSpec (env_Spec e) ''providerRef'') of
                    Inl err \<Rightarrow> Some err
                  | Inr (impl, p) \<Rightarrow> (case im_ConnectionSchemes impl of
                      None \<Rightarrow> Some (NoCapability ''Connection'' (env_name e) ''connection'')
                    | Some schemes \<Rightarrow>
                        (if co_Scheme c \<notin> set schemes
                         then Some (Unsupported ''Connection'' (env_name e) (co_Scheme c) schemes)
                         else if co_Via c = None then None else check_via idx resolve e impl)))), claims'))"

definition check_resource ::
  "manifestIndex \<Rightarrow> Envelope list \<Rightarrow> ('w, 'r) resolver \<Rightarrow> Envelope \<Rightarrow> int claims
    \<Rightarrow> compat_error option \<times> int claims" where
  "check_resource idx envelopes resolve e claims =
     (case check_external idx resolve e of
        Some err \<Rightarrow> (Some err, claims)
      | None \<Rightarrow> (case check_connectionRef idx e of
          Some err \<Rightarrow> (Some err, claims)
        | None \<Rightarrow>
            (if env_Kind e = ''Provider'' then (check_Provider envelopes resolve e, claims)
             else if env_Kind e = ''EventStream'' then (check_EventStream idx resolve e, claims)
             else if env_Kind e = ''Catalog'' then (check_Catalog idx resolve e, claims)
             else if env_Kind e = ''Connection'' then check_Connection idx resolve e claims
             else (None, claims))))"

fun checkResourceCapabilities ::
  "manifestIndex \<Rightarrow> Envelope list \<Rightarrow> ('w, 'r) resolver \<Rightarrow> Envelope list \<Rightarrow> int claims
    \<Rightarrow> compat_error option \<times> int claims" where
  "checkResourceCapabilities idx envelopes resolve [] claims = (None, claims)"
| "checkResourceCapabilities idx envelopes resolve (e # es) claims =
     (case check_resource idx envelopes resolve e claims of
        (Some err, claims') \<Rightarrow> (Some err, claims')
      | (None, claims') \<Rightarrow> checkResourceCapabilities idx envelopes resolve es claims')"

section \<open>Bindings\<close>

definition checkSchemaFormat ::
  "manifestIndex \<Rightarrow> ('w, 'r) resolver \<Rightarrow> string \<Rightarrow> Envelope \<Rightarrow> Envelope \<Rightarrow> Binding \<Rightarrow> string \<Rightarrow> compat_error option" where
  "checkSchemaFormat idx resolve bindingName srcEnv tgtEnv b datasetSinkFormat =
     (let format = str_of (index_any (bi_Options b) ''format'');
          schemaCarrying = (format = ''avro'' \<or> format = ''protobuf'');
          parquetSink = (datasetSinkFormat = ''parquet'')
      in if \<not> schemaCarrying \<and> \<not> parquetSink then None
         else case (if env_Kind srcEnv = ''EventStream'' then Some srcEnv
                    else if env_Kind tgtEnv = ''EventStream'' then Some tgtEnv else None) of
           None \<Rightarrow> None
         | Some esEnv \<Rightarrow>
             (case resolveKind idx esEnv (RefFromSpec (env_Spec esEnv) ''providerRef'') ''Provider'' of
                None \<Rightarrow> Some (RefUnresolved ''Binding'' bindingName ''providerRef'')
              | Some esProvEnv \<Rightarrow>
                  (if env_Kind esProvEnv \<noteq> ''Provider'' then Some (RefUnresolved ''Binding'' bindingName ''providerRef'')
                   else case Provider_FromEnvelope esProvEnv of
                     (_, Some err) \<Rightarrow> Some (KindError err)
                   | (esProv, None) \<Rightarrow> (case resolve (pv_Type esProv) of
                       Inl err \<Rightarrow> Some (ResolverError ''Binding'' bindingName err)
                     | Inr esImpl \<Rightarrow>
                         (let supported = (case im_SchemaFormats esImpl of None \<Rightarrow> [''json''] | Some f \<Rightarrow> f esProv)
                          in if schemaCarrying \<and> format \<notin> set supported
                             then Some (Unsupported ''Binding'' bindingName format supported)
                             else if parquetSink \<and> ''avro'' \<notin> set supported
                             then Some (Unsupported ''Binding'' bindingName ''parquet'' supported)
                             else None)))))"

definition checkDeadLetterQueue :: "manifestIndex \<Rightarrow> string \<Rightarrow> Envelope \<Rightarrow> Binding \<Rightarrow> compat_error option" where
  "checkDeadLetterQueue idx bindingName e b =
     (case bi_DeadLetter b of
        None \<Rightarrow> None
      | Some dl \<Rightarrow> (case resolve_ref idx e (NameRef (dl_Stream dl) []) [''EventStream''] of
          Ambiguous \<Rightarrow> Some (RefAmbiguous ''Binding'' bindingName ''options.deadLetter.stream'')
        | NotFound \<Rightarrow> Some (RefUnresolved ''Binding'' bindingName ''options.deadLetter.stream'')
        | Found dlqEnv \<Rightarrow> (if env_Kind dlqEnv \<noteq> ''EventStream''
            then Some (RefUnresolved ''Binding'' bindingName ''options.deadLetter.stream'') else None)))"

text \<open>A list of supported values against one demanded value.\<close>

definition demand :: "string list option \<Rightarrow> string \<Rightarrow> string \<Rightarrow> string \<Rightarrow> compat_error option" where
  "demand supported value bindingName capability =
     (case supported of
        None \<Rightarrow> Some (NoCapability ''Binding'' bindingName capability)
      | Some vs \<Rightarrow> if value \<notin> set vs then Some (Unsupported ''Binding'' bindingName value vs) else None)"

text \<open>The capability the matched pairing demands; on success the format of a Dataset sink.\<close>

definition binding_capability ::
  "('w, 'r) Impl \<Rightarrow> Binding \<Rightarrow> string \<Rightarrow> Envelope \<Rightarrow> Envelope \<Rightarrow> compat_error + string" where
  "binding_capability impl b bindingName srcEnv tgtEnv =
     (if bi_Mode b = ''cdc'' then
        (case Source_FromEnvelope srcEnv of
           (_, Some err) \<Rightarrow> Inl (KindError err)
         | (src, None) \<Rightarrow> (case demand (im_SourceEngines impl) (so_Engine src) bindingName ''cdc'' of
             Some err \<Rightarrow> Inl err | None \<Rightarrow> Inr []))
      else if bi_Mode b = ''sink'' \<and> env_Kind tgtEnv = ''Dataset'' then
        (case Dataset_FromEnvelope tgtEnv of
           (_, Some err) \<Rightarrow> Inl (KindError err)
         | (ds, None) \<Rightarrow> (case demand (im_SinkFormats impl) (da_Format ds) bindingName ''sink'' of
             Some err \<Rightarrow> Inl err | None \<Rightarrow> Inr (da_Format ds)))
      else if bi_Mode b = ''sink'' \<and> env_Kind tgtEnv = ''Source'' then
        (case Source_FromEnvelope tgtEnv of
           (_, Some err) \<Rightarrow> Inl (KindError err)
         | (src, None) \<Rightarrow> (case demand (im_SinkEngines impl) (so_Engine src) bindingName ''database-sink'' of
             Some err \<Rightarrow> Inl err | None \<Rightarrow> Inr []))
      else if bi_Mode b = ''ingest'' then
        (case Dataset_FromEnvelope srcEnv of
           (_, Some err) \<Rightarrow> Inl (KindError err)
         | (ds, None) \<Rightarrow> (case demand (im_IngestFormats impl) (da_Format ds) bindingName ''ingest'' of
             Some err \<Rightarrow> Inl err | None \<Rightarrow> Inr []))
      else Inr [])"

definition endpoint_ref :: "manifestIndex \<Rightarrow> Envelope \<Rightarrow> string \<Rightarrow> compat_error + Envelope" where
  "endpoint_ref idx e field =
     (case resolve_ref idx e (RefFromSpec (env_Spec e) field) [] of
        Ambiguous \<Rightarrow> Inl (RefAmbiguous ''Binding'' (env_name e) field)
      | NotFound \<Rightarrow> Inl (RefUnresolved ''Binding'' (env_name e) field)
      | Found env \<Rightarrow> Inr env)"

text \<open>The checks of a Binding whose endpoints and provider are known.\<close>

definition check_capable ::
  "manifestIndex \<Rightarrow> ('w, 'r) resolver \<Rightarrow> Envelope \<Rightarrow> Binding \<Rightarrow> Envelope \<Rightarrow> Envelope \<Rightarrow> ('w, 'r) Impl
    \<Rightarrow> compat_error option" where
  "check_capable idx resolve e b srcEnv tgtEnv impl =
     (case binding_capability impl b (env_name e) srcEnv tgtEnv of
        Inl err \<Rightarrow> Some err
      | Inr fmt \<Rightarrow> (case checkSchemaFormat idx resolve (env_name e) srcEnv tgtEnv b fmt of
          Some err \<Rightarrow> Some err
        | None \<Rightarrow> (case checkDeadLetterQueue idx (env_name e) e b of
            Some err \<Rightarrow> Some err
          | None \<Rightarrow> (case im_ValidateBindingOptions impl of
              None \<Rightarrow> None
            | Some bv \<Rightarrow> map_option (ProviderRejects (env_name e)) (bv (bi_Mode b) (bi_Options b))))))"

definition check_Binding :: "manifestIndex \<Rightarrow> ('w, 'r) resolver \<Rightarrow> Envelope \<Rightarrow> compat_error option" where
  "check_Binding idx resolve e =
     (if env_Kind e \<noteq> ''Binding'' then None
      else case Binding_FromEnvelope e of
        (_, Some err) \<Rightarrow> Some (KindError err)
      | (b, None) \<Rightarrow>
          (case map_of AllowedKindPairs (bi_Mode b) of
             None \<Rightarrow> Some (NoPairing (env_name e) (bi_Mode b))
           | Some pairs \<Rightarrow> (case endpoint_ref idx e ''sourceRef'' of
               Inl err \<Rightarrow> Some err
             | Inr srcEnv \<Rightarrow> (case endpoint_ref idx e ''targetRef'' of
                 Inl err \<Rightarrow> Some err
               | Inr tgtEnv \<Rightarrow>
                   (if (env_Kind srcEnv, env_Kind tgtEnv) \<notin> set pairs
                    then Some (BadPairing (env_name e) (bi_Mode b) (env_Kind srcEnv) (env_Kind tgtEnv))
                    else case resolveProviderImpl idx resolve e ''Binding'' (env_name e)
                        (RefFromSpec (env_Spec e) ''providerRef'') of
                      Inl err \<Rightarrow> Some err
                    | Inr (impl, p) \<Rightarrow> check_capable idx resolve e b srcEnv tgtEnv impl)))))"

definition Check ::
  "Envelope list \<Rightarrow> ('w, 'r) resolver \<Rightarrow> int claims \<Rightarrow> compat_error option \<times> int claims" where
  "Check envelopes resolve claims =
     (let idx = newIndex envelopes in
      case first_error validateNameRefs envelopes of
        Some err \<Rightarrow> (Some err, claims)
      | None \<Rightarrow> (case first_error (check_domain idx) envelopes of
          Some err \<Rightarrow> (Some err, claims)
        | None \<Rightarrow> (case checkResourceCapabilities idx envelopes resolve envelopes claims of
            (Some err, claims') \<Rightarrow> (Some err, claims')
          | (None, claims') \<Rightarrow> (first_error (check_Binding idx resolve) envelopes, claims'))))"

section \<open>Properties of the index\<close>

definition names_env :: "string \<Rightarrow> Envelope \<Rightarrow> bool" where
  "names_env n e \<longleftrightarrow> indexKey (key_Namespace (env_Key e)) (key_Name (env_Key e)) = n"

lemma ix_named_add: "ix_named (add_index e idx) n = ix_named idx n @ (if names_env n e then [e] else [])"
  by (simp add: ix_named_def add_index_def Let_def names_env_def)

lemma ix_named_fold: "ix_named (fold add_index envs idx) n = ix_named idx n @ filter (names_env n) envs"
  by (induction envs arbitrary: idx) (simp_all add: ix_named_add)

lemma ix_named_newIndex: "ix_named (newIndex envs) n = filter (names_env n) envs"
  by (simp add: newIndex_def ix_named_fold) (simp add: ix_named_def)

lemma ix_byKey_fold:
  "map_of (ix_byKey (fold add_index envs idx)) =
     map_of (ix_byKey idx) ++ map_of (rev (map (\<lambda>e. (env_Key e, e)) envs))"
proof (induction envs arbitrary: idx)
  case (Cons e envs)
  have "map_of (ix_byKey (add_index e idx)) = (map_of (ix_byKey idx))(env_Key e \<mapsto> e)"
    by (simp add: add_index_def Let_def)
  with Cons show ?case by (auto simp: fun_eq_iff map_add_def split: option.splits)
qed simp

lemma ix_byKey_newIndex: "map_of (ix_byKey (newIndex envs)) = map_of (rev (map (\<lambda>e. (env_Key e, e)) envs))"
  by (simp add: newIndex_def ix_byKey_fold)

lemma resolveKind_member:
  assumes "resolveKind (newIndex envs) from ref kind = Some t"
  shows "t \<in> set envs" "env_Key t = ref_Key ref (md_Namespace (env_Metadata from)) kind" "env_Kind t = kind"
proof -
  from assms have "(ref_Key ref (md_Namespace (env_Metadata from)) kind, t) \<in> set (map (\<lambda>e. (env_Key e, e)) envs)"
    using map_of_SomeD by (fastforce simp: resolveKind_def ix_byKey_newIndex)
  then show t: "t \<in> set envs" "env_Key t = ref_Key ref (md_Namespace (env_Metadata from)) kind" by auto
  from t(2) show "env_Kind t = kind" by (simp add: env_Key_def ref_Key_def)
qed

lemma resolveKind_iff:
  assumes "distinct (map env_Key envs)"
  shows "resolveKind (newIndex envs) from ref kind = Some t \<longleftrightarrow>
    t \<in> set envs \<and> env_Key t = ref_Key ref (md_Namespace (env_Metadata from)) kind"
proof -
  have "distinct (map fst (rev (map (\<lambda>e. (env_Key e, e)) envs)))"
    using assms by (simp add: comp_def rev_map [symmetric])
  from map_of_eq_Some_iff [OF this] show ?thesis
    by (force simp: resolveKind_def ix_byKey_newIndex)
qed

lemma resolve_ref_Found:
  "resolve_ref (newIndex envs) from ref kinds = Found t \<longleftrightarrow>
    filter (\<lambda>e. names_env (indexKey (NamespaceOr ref (md_Namespace (env_Metadata from))) (ref_Name ref)) e \<and>
      (kinds = [] \<or> env_Kind e \<in> set kinds)) envs = [t]"
  by (auto simp: resolve_ref_def ix_named_newIndex conj_commute split: list.splits)

section \<open>Accepted sets\<close>

lemma checkResourceCapabilities_None:
  "checkResourceCapabilities idx envelopes resolve es claims = (None, claims') \<Longrightarrow> e \<in> set es \<Longrightarrow>
     \<exists>c c'. check_resource idx envelopes resolve e c = (None, c')"
  by (induction es arbitrary: claims) (auto split: prod.splits option.splits)

lemma Check_None:
  assumes "Check envs resolve claims = (None, claims')" "e \<in> set envs"
  shows "validateNameRefs e = None" "check_domain (newIndex envs) e = None"
    "check_Binding (newIndex envs) resolve e = None"
    "\<exists>c c'. check_resource (newIndex envs) envs resolve e c = (None, c')"
proof -
  from assms(1) obtain c where c:
    "first_error validateNameRefs envs = None" "first_error (check_domain (newIndex envs)) envs = None"
    "checkResourceCapabilities (newIndex envs) envs resolve envs claims = (None, c)"
    "first_error (check_Binding (newIndex envs) resolve) envs = None"
    by (auto simp: Check_def Let_def split: option.splits prod.splits)
  with assms(2) show "validateNameRefs e = None" "check_domain (newIndex envs) e = None"
    "check_Binding (newIndex envs) resolve e = None"
    by (auto simp: first_error_None_iff)
  from checkResourceCapabilities_None [OF c(3) assms(2)]
  show "\<exists>c c'. check_resource (newIndex envs) envs resolve e c = (None, c')" .
qed

lemma resolveProviderImpl_Inr:
  "resolveProviderImpl (newIndex envs) resolve env kind name ref = Inr (impl, p) \<Longrightarrow>
     \<exists>provEnv\<in>set envs. env_Key provEnv = ref_Key ref (md_Namespace (env_Metadata env)) ''Provider'' \<and>
       Provider_FromEnvelope provEnv = (p, None) \<and> resolve (pv_Type p) = Inr impl"
  by (auto simp: resolveProviderImpl_def split: option.splits prod.splits if_splits sum.splits
      dest: resolveKind_member(1,2))

lemma endpoint_ref_Inr: "endpoint_ref idx e field = Inr t \<longleftrightarrow>
    resolve_ref idx e (RefFromSpec (env_Spec e) field) [] = Found t"
  by (simp add: endpoint_ref_def split: resolved.splits)

lemma demand_None: "demand supported v n c = None \<longleftrightarrow> (\<exists>vs. supported = Some vs \<and> v \<in> set vs)"
  by (auto simp: demand_def split: option.splits)

text \<open>What an accepted Binding may rely on: the capability of its provider for its pairing.\<close>

definition serves :: "('w, 'r) Impl \<Rightarrow> string \<Rightarrow> Envelope \<Rightarrow> Envelope \<Rightarrow> bool" where
  "serves impl mode src tgt \<longleftrightarrow>
     (if mode = ''cdc'' then \<exists>vs. im_SourceEngines impl = Some vs \<and> so_Engine (fst (Source_FromEnvelope src)) \<in> set vs
      else if mode = ''ingest'' then \<exists>vs. im_IngestFormats impl = Some vs \<and> da_Format (fst (Dataset_FromEnvelope src)) \<in> set vs
      else if env_Kind tgt = ''Dataset'' then \<exists>vs. im_SinkFormats impl = Some vs \<and> da_Format (fst (Dataset_FromEnvelope tgt)) \<in> set vs
      else \<exists>vs. im_SinkEngines impl = Some vs \<and> so_Engine (fst (Source_FromEnvelope tgt)) \<in> set vs)"

lemma AllowedKindPairs_cases:
  assumes "map_of AllowedKindPairs mode = Some pairs" "(sk, tk) \<in> set pairs"
  obtains "mode = ''cdc''" "sk = ''Source''" "tk = ''EventStream''"
  | "mode = ''sink''" "sk = ''EventStream''" "tk = ''Dataset''"
  | "mode = ''sink''" "sk = ''EventStream''" "tk = ''Source''"
  | "mode = ''ingest''" "sk = ''Dataset''" "tk = ''EventStream''"
  using assms by (auto simp: AllowedKindPairs_def split: if_splits)

lemma binding_capability_serves:
  assumes "binding_capability impl b n src tgt = Inr fmt" "map_of AllowedKindPairs (bi_Mode b) = Some pairs"
    "(env_Kind src, env_Kind tgt) \<in> set pairs"
  shows "serves impl (bi_Mode b) src tgt"
  using assms(2,3)
  by (rule AllowedKindPairs_cases)
    (use assms(1) in \<open>auto simp: binding_capability_def serves_def demand_None
       split: prod.splits option.splits\<close>)

text \<open>
  C22: a Binding of an accepted manifest set is realisable. Its source and target references each
  denote exactly one resource of the set, the kinds of the two form a pairing its mode allows, its
  provider reference denotes a decodable Provider of a registered type, and that provider serves
  the pairing: it supports the source engine (cdc), the dataset format (sink, ingest) or the
  target engine (sink into a database) the endpoints declare.
\<close>

theorem Check_bindings_realisable:
  assumes "Check envs resolve claims = (None, claims')" "e \<in> set envs" "env_Kind e = ''Binding''"
  shows "\<exists>src tgt provEnv p impl pairs.
    filter (names_env (indexKey (NamespaceOr (RefFromSpec (env_Spec e) ''sourceRef'') (md_Namespace (env_Metadata e)))
      (RefName (env_Spec e) ''sourceRef''))) envs = [src] \<and>
    filter (names_env (indexKey (NamespaceOr (RefFromSpec (env_Spec e) ''targetRef'') (md_Namespace (env_Metadata e)))
      (RefName (env_Spec e) ''targetRef''))) envs = [tgt] \<and>
    map_of AllowedKindPairs (bi_Mode (fst (Binding_FromEnvelope e))) = Some pairs \<and>
    (env_Kind src, env_Kind tgt) \<in> set pairs \<and>
    provEnv \<in> set envs \<and>
    env_Key provEnv = ref_Key (RefFromSpec (env_Spec e) ''providerRef'') (md_Namespace (env_Metadata e)) ''Provider'' \<and>
    Provider_FromEnvelope provEnv = (p, None) \<and> resolve (pv_Type p) = Inr impl \<and>
    serves impl (bi_Mode (fst (Binding_FromEnvelope e))) src tgt"
proof -
  obtain b err where b: "Binding_FromEnvelope e = (b, err)" by fastforce
  from Check_None(3) [OF assms(1,2)] assms(3) b obtain pairs src tgt impl p where
    *: "map_of AllowedKindPairs (bi_Mode b) = Some pairs"
      "endpoint_ref (newIndex envs) e ''sourceRef'' = Inr src" "endpoint_ref (newIndex envs) e ''targetRef'' = Inr tgt"
      "(env_Kind src, env_Kind tgt) \<in> set pairs"
      "resolveProviderImpl (newIndex envs) resolve e ''Binding'' (env_name e) (RefFromSpec (env_Spec e) ''providerRef'') = Inr (impl, p)"
      "check_capable (newIndex envs) resolve e b src tgt impl = None"
    by (auto simp: check_Binding_def split: option.splits sum.splits prod.splits if_splits)
  from *(6) obtain fmt where "binding_capability impl b (env_name e) src tgt = Inr fmt"
    by (auto simp: check_capable_def split: sum.splits)
  from binding_capability_serves [OF this *(1,4)] have "serves impl (bi_Mode b) src tgt" .
  moreover from resolveProviderImpl_Inr [OF *(5)] obtain provEnv where "provEnv \<in> set envs"
    "env_Key provEnv = ref_Key (RefFromSpec (env_Spec e) ''providerRef'') (md_Namespace (env_Metadata e)) ''Provider''"
    "Provider_FromEnvelope provEnv = (p, None)" "resolve (pv_Type p) = Inr impl" by blast
  ultimately show ?thesis
    using *(1-4) b by (simp add: endpoint_ref_Inr resolve_ref_Found RefName_def) blast
qed

text \<open>
  The domains of an accepted set are coherent: a resource that declares a domain and names a
  provider declares the domain of that provider, and an external resource with a provider is only
  accepted when the provider can configure external systems.
\<close>

theorem Check_domains_coherent:
  assumes "Check envs resolve claims = (None, claims')" "distinct (map env_Key envs)"
    "e \<in> set envs" "prov \<in> set envs" "env_Kind e \<noteq> ''Provider''" "RefName (env_Spec e) ''providerRef'' \<noteq> []"
    "env_Key prov = ref_Key (RefFromSpec (env_Spec e) ''providerRef'') (md_Namespace (env_Metadata e)) ''Provider''"
  shows "(md_Domain (env_Metadata e) \<noteq> [] \<longrightarrow>
      NormalizeDomain (md_Domain (env_Metadata e)) = NormalizeDomain (md_Domain (env_Metadata prov))) \<and>
    (LifecycleOf e False = External \<longrightarrow>
      (\<exists>impl. resolve (pv_Type (fst (Provider_FromEnvelope prov))) = Inr impl \<and> im_ConfigureExternal impl \<noteq> None))"
proof -
  have r: "resolveKind (newIndex envs) e (RefFromSpec (env_Spec e) ''providerRef'') ''Provider'' = Some prov"
    using assms(4,7) by (simp add: resolveKind_iff [OF assms(2)])
  from Check_None(4) [OF assms(1,3)] have "check_external (newIndex envs) resolve e = None"
    by (auto simp: check_resource_def split: option.splits)
  moreover have "LifecycleOf e False = External \<longleftrightarrow> bool_of (index_any (env_Spec e) ''external'')"
    by (cases "index_any (env_Spec e) ''external''") (auto simp: LifecycleOf_def bool_of_def)
  ultimately show ?thesis
    using Check_None(2) [OF assms(1,3)] r assms(5,6)
    by (auto simp: check_domain_def check_external_def resolveProviderImpl_def RefName_def Let_def
        split: option.splits sum.splits prod.splits if_splits)
qed

section \<open>The inferred bootstrap address\<close>

definition kafka_addresses :: "Envelope list \<Rightarrow> ('w, 'r) resolver \<Rightarrow> Envelope \<Rightarrow> string set" where
  "kafka_addresses envs resolve worker =
     {a. \<exists>e\<in>set envs. \<exists>t. kafka_match (newIndex envs) resolve (env_Key worker) e = Some (a, t)}"

lemma add_match_keys:
  "distinct (map fst addrs) \<Longrightarrow> distinct (map fst (fold (add_match idx resolve w) envs addrs)) \<and>
     fst ` set (fold (add_match idx resolve w) envs addrs) =
       fst ` set addrs \<union> {a. \<exists>e\<in>set envs. \<exists>t. kafka_match idx resolve w e = Some (a, t)}"
proof (induction envs arbitrary: addrs)
  case (Cons e envs)
  have "distinct (map fst (add_match idx resolve w e addrs))"
    "fst ` set (add_match idx resolve w e addrs) =
       fst ` set addrs \<union> {a. \<exists>t. kafka_match idx resolve w e = Some (a, t)}"
    using Cons.prems
    by (auto simp: add_match_def Let_def distinct_update dom_update split: option.splits)
  with Cons.IH show ?case by auto
qed simp

lemma kafka_match_nonempty: "kafka_match idx resolve w e = Some (a, t) \<Longrightarrow> a \<noteq> []"
  by (auto simp: kafka_match_def Let_def split: if_splits option.splits prod.splits sum.splits)

lemma singleton_keys:
  "distinct (map fst m) \<Longrightarrow> fst ` set m = {a} \<longleftrightarrow> (\<exists>v. m = [(a, v)])"
  by (cases m; cases "tl m") force+

lemma Kafka_address_iff:
  assumes "a \<noteq> []"
  shows "ResolveKafkaBootstrapAddress w envs resolve = a \<longleftrightarrow> kafka_addresses envs resolve w = {a}"
proof -
  let ?m = "fold (add_match (newIndex envs) resolve (env_Key w)) envs []"
  from add_match_keys [of "[]" "newIndex envs" resolve "env_Key w" envs]
  have *: "distinct (map fst ?m)" "fst ` set ?m = kafka_addresses envs resolve w"
    by (simp_all add: kafka_addresses_def)
  have "ResolveKafkaBootstrapAddress w envs resolve = a \<longleftrightarrow> (\<exists>v. ?m = [(a, v)])"
    using assms by (auto simp: ResolveKafkaBootstrapAddress_def resolveKafkaBootstrapTarget_def split: list.splits)
  with * singleton_keys [OF *(1)] show ?thesis by simp
qed

lemma kafka_match_cong:
  assumes "resolveKind idx = resolveKind idx'"
  shows "kafka_match idx resolve w e = kafka_match idx' resolve w e"
  unfolding kafka_match_def stream_of_def assms by (rule refl)

text \<open>
  The bootstrap address of a Connect worker is inferred from the manifests exactly when the
  Bindings it realises agree on one: it is \<open>a\<close> if and only if \<open>a\<close> is the only address
  that a Binding of the worker contributes, and empty when none or several contribute. The result
  does not depend on the order of the manifests, which the engine takes from a Go map.
\<close>

theorem Kafka_address_inferred:
  assumes "distinct (map env_Key envs)" "mset envs' = mset envs"
  shows "ResolveKafkaBootstrapAddress w envs' resolve = ResolveKafkaBootstrapAddress w envs resolve \<and>
    (a \<noteq> [] \<longrightarrow> (ResolveKafkaBootstrapAddress w envs resolve = a \<longleftrightarrow> kafka_addresses envs resolve w = {a}))"
proof -
  have d: "distinct (map env_Key envs')" and s: "set envs' = set envs"
    using assms by (metis mset_eq_imp_distinct_iff mset_map) (metis assms(2) mset_eq_setD)
  have "resolveKind (newIndex envs') f r k = resolveKind (newIndex envs) f r k" for f r k
    using resolveKind_iff [OF d, of f r k] resolveKind_iff [OF assms(1), of f r k] s
    by (metis option.exhaust)
  then have "resolveKind (newIndex envs') = resolveKind (newIndex envs)" by (intro ext)
  then have "kafka_match (newIndex envs') resolve (env_Key w) e = kafka_match (newIndex envs) resolve (env_Key w) e" for e
    by (rule kafka_match_cong)
  with s have addr: "kafka_addresses envs' resolve w = kafka_addresses envs resolve w"
    by (simp add: kafka_addresses_def)
  have "ResolveKafkaBootstrapAddress w envs' resolve = ResolveKafkaBootstrapAddress w envs resolve"
    using Kafka_address_iff [of _ w envs' resolve] Kafka_address_iff [of _ w envs resolve] addr by metis
  with Kafka_address_iff show ?thesis by blast
qed

section \<open>A concrete manifest set\<close>

definition sample_provider :: "string \<Rightarrow> string \<Rightarrow> Envelope" where
  "sample_provider name ty = (sample_env ''Provider'' name)\<lparr>env_Metadata :=
     zero_Metadata\<lparr>md_Name := name, md_Domain := ''prod''\<rparr>, env_Spec :=
     [(''type'', AStr ty), (''runtime'', AMap [(''type'', AStr ''docker'')])]\<rparr>"

definition sample_ref :: "string \<Rightarrow> any" where
  "sample_ref name = AMap [(''name'', AStr name)]"

definition sample_stream :: Envelope where
  "sample_stream = (sample_env ''EventStream'' ''events'')\<lparr>env_Metadata :=
     zero_Metadata\<lparr>md_Name := ''events'', md_Domain := ''prod''\<rparr>, env_Spec := [(''providerRef'', sample_ref ''rp'')]\<rparr>"

definition sample_cdc :: Envelope where
  "sample_cdc = (sample_env ''Binding'' ''orders-cdc'')\<lparr>env_Spec :=
     [(''mode'', AStr ''cdc''), (''sourceRef'', sample_ref ''orders''), (''targetRef'', sample_ref ''events''),
      (''providerRef'', sample_ref ''dbz'')]\<rparr>"

definition sample_manifests :: "Envelope list" where
  "sample_manifests = [sample_provider ''pg'' ''postgres'', sample_provider ''rp'' ''redpanda'',
     sample_provider ''dbz'' ''debezium'', sample_source, sample_stream, sample_cdc]"

definition sample_impl :: "string \<Rightarrow> (unit, unit) Impl" where
  "sample_impl ty = (plain_Impl ty (\<lambda>_ w. (Inl [], w)) (\<lambda>_ w. (None, w)) (\<lambda>_ w. (Inl [], w)))
     \<lparr>im_SourceEngines := Some [''postgres'', ''mysql''],
      im_KafkaBootstrapAddress := (if ty = ''redpanda'' then Some (\<lambda>name _. name @ '':9092'') else None)\<rparr>"

definition sample_resolver :: "(unit, unit) resolver" where
  "sample_resolver ty = Inr (sample_impl ty)"

lemma sample_Check: "Check sample_manifests sample_resolver [] = (None, [])" by code_simp

theorem Check_bindings_realisable_witness:
  "\<exists>src tgt pairs impl :: (unit, unit) Impl.
     map_of AllowedKindPairs (bi_Mode (fst (Binding_FromEnvelope sample_cdc))) = Some pairs \<and>
     (env_Kind src, env_Kind tgt) \<in> set pairs \<and> serves impl (bi_Mode (fst (Binding_FromEnvelope sample_cdc))) src tgt"
proof -
  have "sample_cdc \<in> set sample_manifests" by (simp add: sample_manifests_def)
  moreover have "env_Kind sample_cdc = ''Binding''" by code_simp
  ultimately show ?thesis using Check_bindings_realisable [OF sample_Check] by blast
qed

theorem Check_domains_coherent_witness:
  "NormalizeDomain (md_Domain (env_Metadata sample_stream)) =
   NormalizeDomain (md_Domain (env_Metadata (sample_provider ''rp'' ''redpanda'')))"
proof -
  have "md_Domain (env_Metadata sample_stream) \<noteq> []" by code_simp
  moreover have "distinct (map env_Key sample_manifests)" by code_simp
  moreover have "sample_stream \<in> set sample_manifests" "sample_provider ''rp'' ''redpanda'' \<in> set sample_manifests"
    by (simp_all add: sample_manifests_def)
  moreover have "env_Kind sample_stream \<noteq> ''Provider''" "RefName (env_Spec sample_stream) ''providerRef'' \<noteq> []"
    "env_Key (sample_provider ''rp'' ''redpanda'') =
      ref_Key (RefFromSpec (env_Spec sample_stream) ''providerRef'') (md_Namespace (env_Metadata sample_stream)) ''Provider''"
    by code_simp+
  ultimately show ?thesis using Check_domains_coherent [OF sample_Check] by blast
qed

theorem Kafka_address_inferred_witness:
  "kafka_addresses sample_manifests sample_resolver (sample_provider ''dbz'' ''debezium'') = {''rp:9092''}"
proof -
  have "distinct (map env_Key sample_manifests)" by code_simp
  moreover have "ResolveKafkaBootstrapAddress (sample_provider ''dbz'' ''debezium'') sample_manifests sample_resolver = ''rp:9092''"
    by code_simp
  ultimately show ?thesis
    using Kafka_address_inferred [of sample_manifests sample_manifests "sample_provider ''dbz'' ''debezium''" sample_resolver "''rp:9092''"]
    by simp
qed

end
