(* ===== verification/Requests.thy ===== *)
theory Requests
  imports Compatibility Planner
begin

text \<open>
  How the engine assembles the request of a provider call
  (\<open>internal/application/engine/engine.go\<close>, \<open>resolveRequest\<close> and the functions it uses,
  and \<open>mediation_transport.go\<close>): the provider and its runtime, the secrets it declares, the
  facts other resources published in state, and the addresses derived from them. The engine is a
  record of its ports and settings. Ports are functions on the world \<open>'w\<close>; the rendering of
  an error as text (\<open>en_Error\<close>) and the digest (\<open>en_Digest\<close>) are fields too, and
  so is the domain-scoped decoration of a runtime handle (\<open>newDomainRuntime\<close>).
\<close>

section \<open>The engine\<close>

datatype engine_error =
    PortError string
  | StoreError string
  | DecodeError kind_error
  | RegistryError registry_error
  | GateError gate_error
  | GateRefused Key gate_error
  | NoProviderRef Key
  | ProviderUnresolved Key NameRef
  | NoSecretStore string
  | SecretRefUnresolved string string
  | NotExternalConfigurer Key string
  | ObserverUnresolved string
  | ObserverNoEndpoint string
  | ConnectionRefUnresolved NameRef
  | ExternalNotReady Key string
  | Cancelled
  | RefusedBy plan_reason
  | OrphanUndeletable Key
  | NoManifest Key Action
  | ExternalProtected Key
  | ImportedProtected Key
  | MediationFailed Key Key string
  | FabricFailed engine_error
  | NotDeclared Key
  | ImportName string string
  | NotImportable Key string

record 'w SecretStore =
  ss_Resolve :: "SecretReference \<Rightarrow> 'w \<Rightarrow> (string + (string \<times> string) list) \<times> 'w"
  ss_Preflight :: "SecretReference \<Rightarrow> 'w \<Rightarrow> string option \<times> 'w"

record ('w, 'r) FabricProvisioner =
  fb_EnsureFabric :: "'r \<Rightarrow> Key \<Rightarrow> 'w \<Rightarrow> (string \<times> string option) \<times> 'w"
  fb_DestroyFabric :: "'r \<Rightarrow> Key \<Rightarrow> 'w \<Rightarrow> string option \<times> 'w"

record ('w, 'r) Engine =
  en_Registry :: "(('w, 'r) Impl, 'r) Registry"
  en_SecretStore :: "'w SecretStore option"
  en_Load :: "'w \<Rightarrow> string + State"
  en_Save :: "State \<Rightarrow> 'w \<Rightarrow> string option \<times> 'w"
  en_Now :: "'w \<Rightarrow> int"
  en_HaltOnError :: bool
  en_HealDrift :: bool
  en_AllowDestructive :: bool
  en_AllowImportedDeletes :: bool
  en_Mediation :: "(Key \<Rightarrow> Key \<Rightarrow> 'w \<Rightarrow> (string + string) \<times> 'w) option"
  en_Fabric :: "('w, 'r) FabricProvisioner option"
  en_DomainRuntime :: "'r \<Rightarrow> Provider \<Rightarrow> Envelope \<Rightarrow> Envelope \<Rightarrow> (Key \<times> Envelope) list \<Rightarrow> bool \<Rightarrow> bool \<Rightarrow> string + 'r"
  en_EnsureReachable :: "'r \<Rightarrow> string \<Rightarrow> int \<Rightarrow> 'w \<Rightarrow> (string + string) \<times> 'w"
  en_ProbeReachable :: "'r \<Rightarrow> string \<Rightarrow> string \<Rightarrow> 'w \<Rightarrow> string option \<times> 'w"
  en_ProbeTCP :: "string \<Rightarrow> 'w \<Rightarrow> string option \<times> 'w"
  en_Sleep :: "'w \<Rightarrow> 'w"
  en_Time :: "'w \<Rightarrow> int"
  en_Done :: "'w \<Rightarrow> bool"
  en_ScaledWait :: "int \<Rightarrow> int"
  en_Digest :: "any \<Rightarrow> string"
  en_Error :: "engine_error \<Rightarrow> string"

text \<open>
  What a call threads: the world, the host-port claims that decoding a Connection records, and the
  state under the engine's lock.
\<close>

record 'w ctx =
  cx_World :: 'w
  cx_Claims :: "int claims"
  cx_State :: State

definition set_world :: "'w \<Rightarrow> 'w ctx \<Rightarrow> 'w ctx" where
  "set_world w c = c\<lparr>cx_World := w\<rparr>"

definition decode_connection :: "Envelope \<Rightarrow> 'w ctx \<Rightarrow> (Connection \<times> kind_error option) \<times> 'w ctx" where
  "decode_connection e c =
     (let (r, claims) = Connection_FromEnvelope e (cx_Claims c) in (r, c\<lparr>cx_Claims := claims\<rparr>))"

section \<open>Facts\<close>

definition factsSnapshot :: "State option \<Rightarrow> StaticFacts option" where
  "factsSnapshot st =
     map_option (\<lambda>s. concat (map (\<lambda>(key, rs).
       let eps = FromState (index_any (rs_Provider rs) ''endpoints'')
       in if eps = [] then [] else [(key, eps)]) (st_Resources s))) st"

definition env_ns :: "Envelope \<Rightarrow> string" where
  "env_ns e = md_Namespace (env_Metadata e)"

text \<open>The search for the one provider of a kind in a namespace; a second candidate ends it.\<close>

fun sole :: "(Envelope \<Rightarrow> bool) \<Rightarrow> Envelope option \<Rightarrow> Envelope list \<Rightarrow> Envelope option" where
  "sole P found [] = found"
| "sole P found (cand # cs) =
     (if \<not> P cand then sole P found cs
      else case found of Some _ \<Rightarrow> None | None \<Rightarrow> sole P (Some cand) cs)"

definition typed_provider :: "string \<Rightarrow> string list \<Rightarrow> Envelope \<Rightarrow> bool" where
  "typed_provider ns types cand \<longleftrightarrow> env_Kind cand = ''Provider'' \<and> NormalizeNamespace (env_ns cand) = ns \<and>
     str_of (index_any (env_Spec cand) ''type'') \<in> set types"

text \<open>An explicit reference wins; otherwise the sole candidate of the namespace.\<close>

definition infer_provider ::
  "Envelope \<Rightarrow> NameRef \<Rightarrow> string list \<Rightarrow> (Key \<times> Envelope) list \<Rightarrow> Envelope option" where
  "infer_provider env ref types byKey =
     (if ref_Name ref \<noteq> [] then map_of byKey (ref_Key ref (env_ns env) ''Provider'')
      else sole (typed_provider (NormalizeNamespace (env_ns env)) types) None (map snd byKey))"

definition resolvePrometheusURL ::
  "Envelope \<Rightarrow> Provider \<Rightarrow> (Key \<times> Envelope) list \<Rightarrow> StaticFacts option \<Rightarrow> string" where
  "resolvePrometheusURL env p byKey facts =
     (case facts of
        None \<Rightarrow> []
      | Some f \<Rightarrow>
          (if env_Kind env \<noteq> ''Provider'' then []
           else case infer_provider env (RefFromSpec (pv_Configuration p) ''prometheusRef'') [''prometheus''] byKey of
             None \<Rightarrow> []
           | Some promEnv \<Rightarrow> (case facts_Endpoint f (env_Key promEnv) ''prometheus'' of
               None \<Rightarrow> []
             | Some ep \<Rightarrow> ep_Internal ep)))"

definition resolveProviderS3Fact :: "Envelope \<Rightarrow> StaticFacts \<Rightarrow> (string \<times> string) option" where
  "resolveProviderS3Fact s3Env f =
     (case facts_Endpoint f (env_Key s3Env) ''s3'' of
        None \<Rightarrow> None
      | Some ep \<Rightarrow> Some (ep_Internal ep,
          (case Provider_FromEnvelope s3Env of
             (_, Some err) \<Rightarrow> []
           | (s3p, None) \<Rightarrow>
               (let root = str_of (index_any (pv_Configuration s3p) ''rootSecretRef'')
                in if root = [] \<and> pv_SecretRefs s3p \<noteq> [] then hd (pv_SecretRefs s3p) else root))))"

definition resolveDatasetS3Facts ::
  "Dataset \<Rightarrow> Envelope \<Rightarrow> (Key \<times> Envelope) list \<Rightarrow> StaticFacts \<Rightarrow> (string \<times> string) option" where
  "resolveDatasetS3Facts ds dsEnv byKey f =
     (if da_ProviderRef ds = [] then None
      else case map_of byKey (Key (NormalizeNamespace (env_ns dsEnv)) ''Provider'' (da_ProviderRef ds)) of
        None \<Rightarrow> None
      | Some s3Env \<Rightarrow> resolveProviderS3Fact s3Env f)"

text \<open>A \<open>warehouseRef\<close> followed to a decodable Dataset.\<close>

definition warehouse_dataset :: "Envelope \<Rightarrow> (Key \<times> Envelope) list \<Rightarrow> (Dataset \<times> Envelope) option" where
  "warehouse_dataset env byKey =
     (let whRef = RefFromSpec (env_Spec env) ''warehouseRef'' in
      if ref_Name whRef = [] then None
      else case map_of byKey (ref_Key whRef (env_ns env) ''Dataset'') of
        None \<Rightarrow> None
      | Some dsEnv \<Rightarrow> (case Dataset_FromEnvelope dsEnv of
          (_, Some err) \<Rightarrow> None
        | (ds, None) \<Rightarrow> Some (ds, dsEnv)))"

definition catalog_s3 ::
  "Envelope \<Rightarrow> Provider \<Rightarrow> Envelope \<Rightarrow> (Key \<times> Envelope) list \<Rightarrow> StaticFacts \<Rightarrow> (string \<times> string) option" where
  "catalog_s3 env p catEnv byKey f =
     (case (case warehouse_dataset catEnv byKey of
              None \<Rightarrow> None
            | Some (ds, dsEnv) \<Rightarrow> resolveDatasetS3Facts ds dsEnv byKey f) of
        Some r \<Rightarrow> Some r
      | None \<Rightarrow> (case infer_provider env (RefFromSpec (pv_Configuration p) ''warehouseProviderRef'') [''s3'', ''minio''] byKey of
          None \<Rightarrow> None
        | Some s3Env \<Rightarrow> resolveProviderS3Fact s3Env f))"

definition resolveCatalogFacts ::
  "Envelope \<Rightarrow> Provider \<Rightarrow> (Key \<times> Envelope) list \<Rightarrow> StaticFacts option \<Rightarrow> CatalogFacts option" where
  "resolveCatalogFacts env p byKey facts =
     (case facts of
        None \<Rightarrow> None
      | Some f \<Rightarrow>
          (let catalogRef = RefFromSpec (pv_Configuration p) ''catalogRef'' in
           if env_Kind env \<noteq> ''Provider'' \<or> ref_Name catalogRef = [] then None
           else case map_of byKey (ref_Key catalogRef (env_ns env) ''Catalog'') of
             None \<Rightarrow> None
           | Some catEnv \<Rightarrow> (case facts_Endpoint f (env_Key catEnv) ''iceberg-rest'' of
               None \<Rightarrow> None
             | Some restEp \<Rightarrow> map_option (\<lambda>(s3Internal, s3SecretRef).
                 \<lparr>cf_RestInternal = ep_Internal restEp, cf_S3Internal = s3Internal, cf_S3SecretRef = s3SecretRef\<rparr>)
                 (catalog_s3 env p catEnv byKey f))))"

definition resolveWarehouseFacts ::
  "Envelope \<Rightarrow> (Key \<times> Envelope) list \<Rightarrow> StaticFacts option \<Rightarrow> WarehouseFacts option" where
  "resolveWarehouseFacts env byKey facts =
     (case facts of
        None \<Rightarrow> None
      | Some f \<Rightarrow>
          (if env_Kind env \<noteq> ''Catalog'' then None
           else case warehouse_dataset env byKey of
             None \<Rightarrow> None
           | Some (ds, dsEnv) \<Rightarrow> map_option (\<lambda>(s3Internal, s3SecretRef).
               \<lparr>wf_Bucket = da_Bucket ds, wf_Prefix = da_Prefix ds, wf_S3Internal = s3Internal,
                wf_S3SecretRef = s3SecretRef\<rparr>)
               (resolveDatasetS3Facts ds dsEnv byKey f)))"

definition resolveMetricsTargets :: "Envelope \<Rightarrow> StaticFacts option \<Rightarrow> MetricsTarget list" where
  "resolveMetricsTargets env facts =
     (case facts of
        None \<Rightarrow> []
      | Some f \<Rightarrow>
          (if env_Kind env \<noteq> ''Provider'' then []
           else map (\<lambda>pf. \<lparr>mt_JobName = key_Name (pf_Owner pf), mt_Endpoint = pf_Endpoint pf\<rparr>)
             (filter (\<lambda>pf. key_Kind (pf_Owner pf) = ''Provider'' \<and>
                key_Namespace (pf_Owner pf) = NormalizeNamespace (env_ns env)) (facts_ByName f ''metrics''))))"

section \<open>Mediated transport\<close>

definition transportDirect :: "Envelope \<Rightarrow> bool" where
  "transportDirect env \<longleftrightarrow> str_of (index_any (env_Spec env) ''transport'') = ''direct''"

definition mediatedKafkaTransportDirect :: "Key list \<Rightarrow> (Key \<times> Envelope) list \<Rightarrow> bool" where
  "mediatedKafkaTransportDirect bindingKeys byKey =
     (if bindingKeys = [] then False
      else list_all (\<lambda>k. case map_of byKey k of None \<Rightarrow> False | Some env \<Rightarrow> transportDirect env) bindingKeys)"

text \<open>\<open>Inr None\<close>: not substituted, the caller keeps the address it has.\<close>

definition mediatedAddress ::
  "('w, 'r) Engine \<Rightarrow> Key \<Rightarrow> Key \<Rightarrow> bool \<Rightarrow> 'w \<Rightarrow> (engine_error + string option) \<times> 'w" where
  "mediatedAddress e from to direct w =
     (case en_Mediation e of
        None \<Rightarrow> (Inr None, w)
      | Some dial \<Rightarrow>
          (if direct \<or> \<not> GateEnabled (en_Registry e) ''MediatedTransport'' then (Inr None, w)
           else case dial from to w of
             (Inl err, w') \<Rightarrow> (Inl (MediationFailed from to err), w')
           | (Inr addr, w') \<Rightarrow> (Inr (Some addr), w')))"

text \<open>A resolved address, replaced by a mediated one where mediation applies.\<close>

definition mediate ::
  "('w, 'r) Engine \<Rightarrow> Key \<Rightarrow> Key \<Rightarrow> bool \<Rightarrow> string \<Rightarrow> 'w \<Rightarrow> (engine_error + string) \<times> 'w" where
  "mediate e from to direct addr w =
     (case mediatedAddress e from to direct w of
        (Inl err, w') \<Rightarrow> (Inl err, w')
      | (Inr None, w') \<Rightarrow> (Inr addr, w')
      | (Inr (Some mediated), w') \<Rightarrow> (Inr mediated, w'))"

definition needs_registry :: "Envelope \<Rightarrow> Binding \<Rightarrow> (Key \<times> Envelope) list \<Rightarrow> bool" where
  "needs_registry env b byKey \<longleftrightarrow>
     str_of (index_any (bi_Options b) ''format'') \<in> set [''avro'', ''protobuf''] \<or>
     bi_Mode b = ''sink'' \<and>
       (case map_of byKey (ref_Key (RefFromSpec (env_Spec env) ''targetRef'') (env_ns env) ''Dataset'') of
          None \<Rightarrow> False
        | Some dsEnv \<Rightarrow> (case Dataset_FromEnvelope dsEnv of
            (_, Some err) \<Rightarrow> False
          | (ds, None) \<Rightarrow> da_Format ds = ''parquet''))"

definition binding_stream :: "Envelope \<Rightarrow> (Key \<times> Envelope) list \<Rightarrow> Envelope option" where
  "binding_stream env byKey =
     (case map_of byKey (ref_Key (RefFromSpec (env_Spec env) ''sourceRef'') (env_ns env) ''EventStream'') of
        Some es \<Rightarrow> Some es
      | None \<Rightarrow> map_of byKey (ref_Key (RefFromSpec (env_Spec env) ''targetRef'') (env_ns env) ''EventStream''))"

definition resolveSchemaRegistryURL ::
  "('w, 'r) Engine \<Rightarrow> Envelope \<Rightarrow> (Key \<times> Envelope) list \<Rightarrow> StaticFacts option \<Rightarrow> 'w
    \<Rightarrow> (engine_error + string) \<times> 'w" where
  "resolveSchemaRegistryURL e env byKey facts w =
     (case facts of
        None \<Rightarrow> (Inr [], w)
      | Some f \<Rightarrow>
          (if env_Kind env \<noteq> ''Binding'' then (Inr [], w)
           else case Binding_FromEnvelope env of
             (_, Some err) \<Rightarrow> (Inr [], w)
           | (b, None) \<Rightarrow>
               (if \<not> needs_registry env b byKey then (Inr [], w)
                else case binding_stream env byKey of
                  None \<Rightarrow> (Inr [], w)
                | Some esEnv \<Rightarrow>
                    (case map_of byKey (ref_Key (RefFromSpec (env_Spec esEnv) ''providerRef'') (env_ns esEnv) ''Provider'') of
                       None \<Rightarrow> (Inr [], w)
                     | Some esProvEnv \<Rightarrow> (case facts_Endpoint f (env_Key esProvEnv) ''schema-registry'' of
                         None \<Rightarrow> (Inr [], w)
                       | Some ep \<Rightarrow>
                           mediate e (env_Key env) (env_Key esProvEnv) (transportDirect env) (ep_Internal ep) w)))))"

definition resolveKafkaBootstrapServers ::
  "('w, 'r) Engine \<Rightarrow> Envelope \<Rightarrow> Provider \<Rightarrow> (Key \<times> Envelope) list \<Rightarrow> 'w \<Rightarrow> (engine_error + string) \<times> 'w" where
  "resolveKafkaBootstrapServers e provEnv p byKey w =
     (if map_of (pv_Configuration p) ''bootstrapServers'' \<noteq> None then (Inr [], w)
      else case resolveKafkaBootstrapTarget provEnv (map snd byKey) (registry_Provider (en_Registry e)) of
        None \<Rightarrow> (Inr [], w)
      | Some (targetKey, addr, bindings) \<Rightarrow>
          mediate e (env_Key provEnv) targetKey (mediatedKafkaTransportDirect bindings byKey) addr w)"

section \<open>Secrets and the request\<close>

definition secretRefFrom :: "Envelope \<Rightarrow> SecretReference" where
  "secretRefFrom env =
     (let k8s = map_or_nil (index_any (env_Spec env) ''kubernetes'')
      in \<lparr>sr_Name = env_name env, sr_Namespace = NormalizeNamespace (env_ns env),
          sr_Backend = str_of (index_any (env_Spec env) ''backend''),
          sr_Keys = (case is_list (index_any (env_Spec env) ''keys'') of None \<Rightarrow> [] | Some ks \<Rightarrow> string_items ks),
          sr_KubernetesName = str_of (index_any k8s ''name''),
          sr_KubernetesNamespace = str_of (index_any k8s ''namespace'')\<rparr>)"

fun resolve_secrets ::
  "'w SecretStore \<Rightarrow> Envelope \<Rightarrow> (Key \<times> Envelope) list \<Rightarrow> string list
    \<Rightarrow> (string \<times> (string \<times> string) list) list \<Rightarrow> 'w
    \<Rightarrow> (engine_error + (string \<times> (string \<times> string) list) list) \<times> 'w" where
  "resolve_secrets ss provEnv byKey [] secrets w = (Inr secrets, w)"
| "resolve_secrets ss provEnv byKey (name # names) secrets w =
     (case map_of byKey (Key (key_Namespace (env_Key provEnv)) ''SecretReference'' name) of
        None \<Rightarrow> (Inl (SecretRefUnresolved (env_name provEnv) name), w)
      | Some refEnv \<Rightarrow>
          (case ss_Resolve ss (secretRefFrom refEnv) w of
             (Inl err, w') \<Rightarrow> (Inl (PortError err), w')
           | (Inr values, w') \<Rightarrow> resolve_secrets ss provEnv byKey names (AList.update name values secrets) w'))"

definition request_secrets ::
  "('w, 'r) Engine \<Rightarrow> Provider \<Rightarrow> Envelope \<Rightarrow> (Key \<times> Envelope) list \<Rightarrow> 'w
    \<Rightarrow> (engine_error + (string \<times> (string \<times> string) list) list) \<times> 'w" where
  "request_secrets e p provEnv byKey w =
     (if pv_SecretRefs p = [] then (Inr [], w)
      else case en_SecretStore e of
        None \<Rightarrow> (Inl (NoSecretStore (env_name provEnv)), w)
      | Some ss \<Rightarrow> resolve_secrets ss provEnv byKey (pv_SecretRefs p) [] w)"

definition provider_of ::
  "Envelope \<Rightarrow> (Key \<times> Envelope) list \<Rightarrow> engine_error + Envelope" where
  "provider_of env byKey =
     (if env_Kind env = ''Provider'' then Inr env
      else let ref = RefFromSpec (env_Spec env) ''providerRef'' in
        if ref_Name ref = [] then Inl (NoProviderRef (env_Key env))
        else case map_of byKey (ref_Key ref (env_ns env) ''Provider'') of
          None \<Rightarrow> Inl (ProviderUnresolved (env_Key env) ref)
        | Some pe \<Rightarrow> Inr pe)"

definition tls_gate :: "('w, 'r) Engine \<Rightarrow> Envelope \<Rightarrow> 'w ctx \<Rightarrow> engine_error option \<times> 'w ctx" where
  "tls_gate e env c =
     (if env_Kind env \<noteq> ''Connection'' then (None, c)
      else case decode_connection env c of
        ((_, Some err), c') \<Rightarrow> (None, c')
      | ((conn, None), c') \<Rightarrow>
          (if co_TLS conn = None then (None, c')
           else (map_option (GateRefused (env_Key env)) (RequireGate (en_Registry e) ''TLSTermination''), c')))"

definition request_runtime ::
  "('w, 'r) Engine \<Rightarrow> Envelope \<Rightarrow> Envelope \<Rightarrow> Provider \<Rightarrow> (Key \<times> Envelope) list \<Rightarrow> engine_error + 'r" where
  "request_runtime e env provEnv p byKey =
     (case registry_Runtime (en_Registry e) (pv_RuntimeType p) (pv_RuntimeConfig p) of
        Inl err \<Rightarrow> Inl (RegistryError err)
      | Inr rt \<Rightarrow>
          (case en_DomainRuntime e rt p provEnv env byKey (GateEnabled (en_Registry e) ''GraphScopedAccess'')
              (GateEnabled (en_Registry e) ''LabelScopedAccess'') of
             Inl err \<Rightarrow> Inl (PortError err)
           | Inr rt' \<Rightarrow> Inr rt'))"

text \<open>The two addresses that mediation may replace, in the order the code resolves them.\<close>

definition request_addresses ::
  "('w, 'r) Engine \<Rightarrow> Envelope \<Rightarrow> Envelope \<Rightarrow> Provider \<Rightarrow> (Key \<times> Envelope) list \<Rightarrow> StaticFacts option \<Rightarrow> 'w
    \<Rightarrow> (engine_error + string \<times> string) \<times> 'w" where
  "request_addresses e env provEnv p byKey facts w =
     (case resolveSchemaRegistryURL e env byKey facts w of
        (Inl err, w') \<Rightarrow> (Inl err, w')
      | (Inr schemaURL, w') \<Rightarrow>
          (case resolveKafkaBootstrapServers e provEnv p byKey w' of
             (Inl err, w'') \<Rightarrow> (Inl err, w'')
           | (Inr bootstrap, w'') \<Rightarrow> (Inr (schemaURL, bootstrap), w'')))"

definition resolveRequest ::
  "('w, 'r) Engine \<Rightarrow> Envelope \<Rightarrow> (Key \<times> Envelope) list \<Rightarrow> State option \<Rightarrow> 'w ctx
    \<Rightarrow> (engine_error + ('w, 'r) Impl \<times> 'r Request) \<times> 'w ctx" where
  "resolveRequest e env byKey st c0 =
     (case provider_of env byKey of
        Inl err \<Rightarrow> (Inl err, c0)
      | Inr provEnv \<Rightarrow> (case tls_gate e env c0 of
          (Some err, c) \<Rightarrow> (Inl err, c)
        | (None, c) \<Rightarrow> (case Provider_FromEnvelope provEnv of
            (_, Some err) \<Rightarrow> (Inl (DecodeError err), c)
          | (p, None) \<Rightarrow> (case registry_Provider (en_Registry e) (pv_Type p) of
              Inl err \<Rightarrow> (Inl (RegistryError err), c)
            | Inr prov \<Rightarrow> (case request_secrets e p provEnv byKey (cx_World c) of
                (Inl err, w) \<Rightarrow> (Inl err, set_world w c)
              | (Inr secrets, w) \<Rightarrow> (case request_runtime e env provEnv p byKey of
                  Inl err \<Rightarrow> (Inl err, set_world w c)
                | Inr rt \<Rightarrow>
                    (let facts = factsSnapshot st in
                     case request_addresses e env provEnv p byKey facts w of
                       (Inl err, w') \<Rightarrow> (Inl err, set_world w' c)
                     | (Inr (schemaURL, bootstrap), w') \<Rightarrow>
                         (Inr (prov, \<lparr>rq_Resource = env, rq_Runtime = rt, rq_Provider = provEnv,
                            rq_Secrets = secrets, rq_Resources = byKey, rq_Facts = facts,
                            rq_SchemaRegistryURL = schemaURL, rq_KafkaBootstrapServers = bootstrap,
                            rq_MetricsTargets = resolveMetricsTargets env facts,
                            rq_CatalogFacts = resolveCatalogFacts env p byKey facts,
                            rq_PrometheusURL = resolvePrometheusURL env p byKey facts,
                            rq_WarehouseFacts = resolveWarehouseFacts env byKey facts\<rparr>),
                          set_world w' c))))))))"

section \<open>What a request holds\<close>

lemma set_world_sel [simp]:
  "cx_World (set_world w c) = w" "cx_Claims (set_world w c) = cx_Claims c" "cx_State (set_world w c) = cx_State c"
  by (simp_all add: set_world_def)

lemma decode_connection_State [simp]: "decode_connection e c = (r, c') \<Longrightarrow> cx_State c' = cx_State c"
  by (auto simp: decode_connection_def split: prod.splits)

lemma tls_gate_State: "tls_gate e env c = (r, c') \<Longrightarrow> cx_State c' = cx_State c"
  by (auto simp: tls_gate_def split: if_splits prod.splits option.splits)

lemma resolveRequest_State: "resolveRequest e env byKey st c = (r, c') \<Longrightarrow> cx_State c' = cx_State c"
  by (auto simp: resolveRequest_def Let_def dest: tls_gate_State
      split: sum.splits prod.splits option.splits)

text \<open>The parts of a successful resolution.\<close>

lemma resolveRequest_Inr:
  assumes "resolveRequest e env byKey st c = (Inr (prov, req), c')"
  obtains p w w1 w2 schemaURL bootstrap rt where
    "provider_of env byKey = Inr (rq_Provider req)"
    "Provider_FromEnvelope (rq_Provider req) = (p, None)"
    "registry_Provider (en_Registry e) (pv_Type p) = Inr prov"
    "request_secrets e p (rq_Provider req) byKey w = (Inr (rq_Secrets req), w1)"
    "request_runtime e env (rq_Provider req) p byKey = Inr (rq_Runtime req)"
    "request_addresses e env (rq_Provider req) p byKey (factsSnapshot st) w1 =
       (Inr (rq_SchemaRegistryURL req, rq_KafkaBootstrapServers req), w2)"
    "rq_Resource req = env" "rq_Resources req = byKey" "rq_Facts req = factsSnapshot st"
    "rq_MetricsTargets req = resolveMetricsTargets env (factsSnapshot st)"
    "rq_CatalogFacts req = resolveCatalogFacts env p byKey (factsSnapshot st)"
    "rq_PrometheusURL req = resolvePrometheusURL env p byKey (factsSnapshot st)"
    "rq_WarehouseFacts req = resolveWarehouseFacts env byKey (factsSnapshot st)"
proof -
  from assms obtain provEnv c1 p w1 secrets rt w2 schemaURL bootstrap where
    "provider_of env byKey = Inr provEnv" "tls_gate e env c = (None, c1)"
    "Provider_FromEnvelope provEnv = (p, None)" "registry_Provider (en_Registry e) (pv_Type p) = Inr prov"
    "request_secrets e p provEnv byKey (cx_World c1) = (Inr secrets, w1)"
    "request_runtime e env provEnv p byKey = Inr rt"
    "request_addresses e env provEnv p byKey (factsSnapshot st) w1 = (Inr (schemaURL, bootstrap), w2)"
    "req = \<lparr>rq_Resource = env, rq_Runtime = rt, rq_Provider = provEnv,
        rq_Secrets = secrets, rq_Resources = byKey, rq_Facts = factsSnapshot st,
        rq_SchemaRegistryURL = schemaURL, rq_KafkaBootstrapServers = bootstrap,
        rq_MetricsTargets = resolveMetricsTargets env (factsSnapshot st),
        rq_CatalogFacts = resolveCatalogFacts env p byKey (factsSnapshot st),
        rq_PrometheusURL = resolvePrometheusURL env p byKey (factsSnapshot st),
        rq_WarehouseFacts = resolveWarehouseFacts env byKey (factsSnapshot st)\<rparr>"
    unfolding resolveRequest_def Let_def
    by (auto split: sum.splits prod.splits option.splits)
  then show thesis by (intro that [of p "cx_World c1" w1 w2]) simp_all
qed

subsection \<open>Secrets\<close>

text \<open>A secret value that the store returned for the reference of this name.\<close>

definition secret_from :: "'w SecretStore \<Rightarrow> Envelope \<Rightarrow> (Key \<times> Envelope) list \<Rightarrow> string \<times> (string \<times> string) list \<Rightarrow> bool" where
  "secret_from ss provEnv byKey nv \<longleftrightarrow>
     (\<exists>refEnv w w'. map_of byKey (Key (key_Namespace (env_Key provEnv)) ''SecretReference'' (fst nv)) = Some refEnv \<and>
        ss_Resolve ss (secretRefFrom refEnv) w = (Inr (snd nv), w'))"

lemma set_alist_update: "set (AList.update k v al) \<subseteq> insert (k, v) (set al)"
  by (induction al) auto

lemma resolve_secrets_Inr:
  assumes "resolve_secrets ss provEnv byKey names secrets w = (Inr out, w')"
    "\<forall>nv\<in>set secrets. secret_from ss provEnv byKey nv"
  shows "fst ` set out = fst ` set secrets \<union> set names \<and> (\<forall>nv\<in>set out. secret_from ss provEnv byKey nv)"
  using assms
proof (induction names arbitrary: secrets w)
  case (Cons name names)
  from Cons.prems(1) obtain refEnv vals w1 where
    *: "map_of byKey (Key (key_Namespace (env_Key provEnv)) ''SecretReference'' name) = Some refEnv"
      "ss_Resolve ss (secretRefFrom refEnv) w = (Inr vals, w1)"
      "resolve_secrets ss provEnv byKey names (AList.update name vals secrets) w1 = (Inr out, w')"
    by (auto split: option.splits prod.splits sum.splits)
  then have "secret_from ss provEnv byKey (name, vals)" by (auto simp: secret_from_def)
  with Cons.prems(2) set_alist_update [of name vals secrets]
  have "\<forall>nv\<in>set (AList.update name vals secrets). secret_from ss provEnv byKey nv" by blast
  from Cons.IH [OF *(3) this] show ?case by (auto simp: dom_update)
qed simp

text \<open>
  C21: a provider call gets the secrets its own Provider declares, and no others. When a request
  resolves, the names in \<open>Request.Secrets\<close> are exactly the \<open>secretRefs\<close> of the
  realising Provider, every value was returned by the secret store for the SecretReference of that
  name in the Provider's own namespace, the implementation handed out is the one registered for
  the Provider's type (so its feature gate is on), and the recorded state is untouched.
\<close>

theorem request_least_privilege:
  assumes "resolveRequest e env byKey st c = (Inr (prov, req), c')"
  shows "\<exists>p. Provider_FromEnvelope (rq_Provider req) = (p, None) \<and>
    registry_Provider (en_Registry e) (pv_Type p) = Inr prov \<and>
    fst ` set (rq_Secrets req) = set (pv_SecretRefs p) \<and>
    (\<forall>nv\<in>set (rq_Secrets req). \<exists>ss. en_SecretStore e = Some ss \<and> secret_from ss (rq_Provider req) byKey nv) \<and>
    rq_Resource req = env \<and> provider_of env byKey = Inr (rq_Provider req) \<and> cx_State c' = cx_State c"
proof -
  from assms obtain p w w1 where
    *: "provider_of env byKey = Inr (rq_Provider req)" "Provider_FromEnvelope (rq_Provider req) = (p, None)"
      "registry_Provider (en_Registry e) (pv_Type p) = Inr prov"
      "request_secrets e p (rq_Provider req) byKey w = (Inr (rq_Secrets req), w1)" "rq_Resource req = env"
    by (rule resolveRequest_Inr) (rule that)
  have "fst ` set (rq_Secrets req) = set (pv_SecretRefs p) \<and>
    (\<forall>nv\<in>set (rq_Secrets req). \<exists>ss. en_SecretStore e = Some ss \<and> secret_from ss (rq_Provider req) byKey nv)"
  proof (cases "pv_SecretRefs p = []")
    case False
    with *(4) obtain ss where ss: "en_SecretStore e = Some ss"
      "resolve_secrets ss (rq_Provider req) byKey (pv_SecretRefs p) [] w = (Inr (rq_Secrets req), w1)"
      by (auto simp: request_secrets_def split: option.splits)
    from resolve_secrets_Inr [OF ss(2)] ss(1) show ?thesis by simp
  qed (use *(4) in \<open>simp add: request_secrets_def\<close>)
  with * resolveRequest_State [OF assms] show ?thesis by blast
qed

subsection \<open>Published facts\<close>

text \<open>An internal address that some recorded resource published.\<close>

definition published :: "State \<Rightarrow> string \<Rightarrow> bool" where
  "published s a \<longleftrightarrow> (\<exists>(k, rs)\<in>set (st_Resources s).
     \<exists>ep\<in>set (FromState (index_any (rs_Provider rs) ''endpoints'')). ep_Internal ep = a)"

lemma snapshot_published:
  assumes "factsSnapshot st = Some f" "(k, eps) \<in> set f" "ep \<in> set eps"
  shows "\<exists>s. st = Some s \<and> published s (ep_Internal ep)"
  using assms by (fastforce simp: factsSnapshot_def published_def Let_def split: if_splits)

lemma facts_Endpoint_snapshot:
  assumes "factsSnapshot st = Some f" "facts_Endpoint f k n = Some ep"
  shows "\<exists>s. st = Some s \<and> published s (ep_Internal ep)"
  using facts_Endpoint_published [OF assms(2)] snapshot_published [OF assms(1)] map_of_SomeD by metis

lemma provider_s3_published:
  "factsSnapshot st = Some f \<Longrightarrow> resolveProviderS3Fact s3Env f = Some (a, r) \<Longrightarrow> \<exists>s. st = Some s \<and> published s a"
  by (auto simp: resolveProviderS3Fact_def dest: facts_Endpoint_snapshot split: option.splits)

lemma dataset_s3_published:
  "factsSnapshot st = Some f \<Longrightarrow> resolveDatasetS3Facts ds dsEnv byKey f = Some (a, r) \<Longrightarrow>
     \<exists>s. st = Some s \<and> published s a"
  by (auto simp: resolveDatasetS3Facts_def dest: provider_s3_published split: if_splits option.splits)

lemma catalog_s3_published:
  "factsSnapshot st = Some f \<Longrightarrow> catalog_s3 env p catEnv byKey f = Some (a, r) \<Longrightarrow> \<exists>s. st = Some s \<and> published s a"
  by (auto simp: catalog_s3_def dest: provider_s3_published dataset_s3_published split: option.splits)

lemma schema_url_published:
  assumes "resolveSchemaRegistryURL e env byKey (factsSnapshot st) w = (Inr a, w')" "a \<noteq> []"
    "en_Mediation e = None \<or> \<not> GateEnabled (en_Registry e) ''MediatedTransport''"
  shows "\<exists>s. st = Some s \<and> published s a"
  using assms
  by (auto simp: resolveSchemaRegistryURL_def mediate_def mediatedAddress_def
      dest: facts_Endpoint_snapshot split: option.splits if_splits prod.splits)

text \<open>
  The engine never makes up an address. Every endpoint a request carries, the Prometheus URL,
  the catalogue's REST and object-store addresses, the warehouse's object store, the scrape
  targets and (while mediation is off) the schema registry, is the internal address of an endpoint
  that a resource recorded in state has published; without a state nothing is filled in.
\<close>

theorem request_addresses_published:
  assumes "resolveRequest e env byKey st c = (Inr (prov, req), c')"
    "a \<noteq> []"
    "a = rq_PrometheusURL req \<or>
     (\<exists>cf. rq_CatalogFacts req = Some cf \<and> (a = cf_RestInternal cf \<or> a = cf_S3Internal cf)) \<or>
     (\<exists>wf. rq_WarehouseFacts req = Some wf \<and> a = wf_S3Internal wf) \<or>
     (\<exists>t\<in>set (rq_MetricsTargets req). a = ep_Internal (mt_Endpoint t)) \<or>
     a = rq_SchemaRegistryURL req \<and> (en_Mediation e = None \<or> \<not> GateEnabled (en_Registry e) ''MediatedTransport'')"
  shows "\<exists>s. st = Some s \<and> published s a"
proof -
  from assms(1) obtain p w w2 where
    *: "request_addresses e env (rq_Provider req) p byKey (factsSnapshot st) w =
         (Inr (rq_SchemaRegistryURL req, rq_KafkaBootstrapServers req), w2)"
      "rq_MetricsTargets req = resolveMetricsTargets env (factsSnapshot st)"
      "rq_CatalogFacts req = resolveCatalogFacts env p byKey (factsSnapshot st)"
      "rq_PrometheusURL req = resolvePrometheusURL env p byKey (factsSnapshot st)"
      "rq_WarehouseFacts req = resolveWarehouseFacts env byKey (factsSnapshot st)"
    by (rule resolveRequest_Inr) (rule that)
  from *(1) obtain w1 where sr: "resolveSchemaRegistryURL e env byKey (factsSnapshot st) w = (Inr (rq_SchemaRegistryURL req), w1)"
    by (auto simp: request_addresses_def split: prod.splits sum.splits)
  from assms(3) consider "a = rq_PrometheusURL req"
    | cf where "rq_CatalogFacts req = Some cf" "a = cf_RestInternal cf \<or> a = cf_S3Internal cf"
    | wf where "rq_WarehouseFacts req = Some wf" "a = wf_S3Internal wf"
    | t where "t \<in> set (rq_MetricsTargets req)" "a = ep_Internal (mt_Endpoint t)"
    | "a = rq_SchemaRegistryURL req" "en_Mediation e = None \<or> \<not> GateEnabled (en_Registry e) ''MediatedTransport''"
    by blast
  then show ?thesis
  proof cases
    case 1
    with assms(2) *(4) show ?thesis
      by (auto simp: resolvePrometheusURL_def dest: facts_Endpoint_snapshot split: option.splits if_splits)
  next
    case 2
    from 2(1) *(3) have "resolveCatalogFacts env p byKey (factsSnapshot st) = Some cf" by simp
    with 2(2) show ?thesis
      by (auto simp: resolveCatalogFacts_def Let_def dest: facts_Endpoint_snapshot catalog_s3_published
          split: option.splits if_splits)
  next
    case 3
    from 3(1) *(5) have "resolveWarehouseFacts env byKey (factsSnapshot st) = Some wf" by simp
    with 3(2) show ?thesis
      by (auto simp: resolveWarehouseFacts_def dest: dataset_s3_published split: option.splits if_splits)
  next
    case 4
    with *(2) show ?thesis
      by (auto simp: resolveMetricsTargets_def set_facts_ByName dest: snapshot_published split: option.splits if_splits)
  next
    case 5
    with schema_url_published [OF sr] assms(2) show ?thesis by blast
  qed
qed

subsection \<open>Map iteration order\<close>

lemma sole_Some: "sole P (Some x) cs = (if filter P cs = [] then Some x else None)"
  by (induction cs) auto

lemma sole_filter: "sole P None cs = (case filter P cs of [x] \<Rightarrow> Some x | _ \<Rightarrow> None)"
  by (induction cs) (auto simp: sole_Some split: list.splits)

lemma sole_perm: "mset cs = mset cs' \<Longrightarrow> sole P None cs = sole P None cs'"
proof -
  assume "mset cs = mset cs'"
  then have m: "mset (filter P cs) = mset (filter P cs')" by (metis mset_filter)
  then have "length (filter P cs) = length (filter P cs')" by (metis size_mset)
  with m show ?thesis unfolding sole_filter
    by (cases "filter P cs"; cases "filter P cs'") (auto split: list.splits simp flip: mset_filter)
qed

lemma infer_provider_perm:
  assumes "mset byKey = mset byKey'" "distinct (map fst byKey)"
  shows "infer_provider env ref types byKey = infer_provider env ref types byKey'"
proof -
  from assms have "map_of byKey = map_of byKey'"
    by (metis map_of_inject_set mset_eq_imp_distinct_iff mset_eq_setD mset_map)
  moreover have "mset (map snd byKey) = mset (map snd byKey')" by (simp add: assms(1))
  ultimately show ?thesis by (simp add: infer_provider_def sole_perm)
qed

text \<open>
  What is inferred does not depend on Go's map iteration order. For two enumerations of the
  same manifests and the same facts, the Prometheus URL, the catalogue facts and the warehouse
  facts are equal, because an inference succeeds only when its candidate is unique.
\<close>

theorem request_facts_deterministic:
  assumes "mset byKey = mset byKey'" "distinct (map fst byKey)" "mset f = mset f'" "distinct (map fst f)"
  shows "resolvePrometheusURL env p byKey (Some f) = resolvePrometheusURL env p byKey' (Some f') \<and>
    resolveCatalogFacts env p byKey (Some f) = resolveCatalogFacts env p byKey' (Some f') \<and>
    resolveWarehouseFacts env byKey (Some f) = resolveWarehouseFacts env byKey' (Some f')"
proof -
  from assms have m: "map_of byKey = map_of byKey'" "map_of f = map_of f'"
    by (metis map_of_inject_set mset_eq_imp_distinct_iff mset_eq_setD mset_map)+
  have f: "facts_Endpoint f = facts_Endpoint f'" by (intro ext) (simp add: facts_Endpoint_def m)
  have w: "warehouse_dataset x byKey = warehouse_dataset x byKey'" for x
    unfolding warehouse_dataset_def m by (rule refl)
  have s: "resolveProviderS3Fact x f = resolveProviderS3Fact x f'" for x
    unfolding resolveProviderS3Fact_def f by (rule refl)
  have d: "resolveDatasetS3Facts ds x byKey f = resolveDatasetS3Facts ds x byKey' f'" for ds x
    unfolding resolveDatasetS3Facts_def m s by (rule refl)
  have c: "catalog_s3 env p x byKey f = catalog_s3 env p x byKey' f'" for x
    unfolding catalog_s3_def w d s infer_provider_perm [OF assms(1,2)] by (rule refl)
  show ?thesis
    unfolding resolvePrometheusURL_def resolveCatalogFacts_def resolveWarehouseFacts_def option.case
      infer_provider_perm [OF assms(1,2)] m f w d c by (intro conjI refl)
qed

section \<open>A concrete engine\<close>

text \<open>
  An engine whose world is the local state file, whose secret store knows one value per key and
  whose providers always succeed; it shows that the hypotheses of the theorems can hold.
\<close>

definition sample_ready :: Status where
  "sample_ready = SetCondition (mk_cond Ready TrueS ''ReconcileComplete'' []) 0 zero_Status"

definition sample_prov :: "string \<Rightarrow> (file_system, unit) Impl" where
  "sample_prov ty = plain_Impl ty (\<lambda>_ w. (Inr sample_ready, w)) (\<lambda>_ w. (None, w)) (\<lambda>_ w. (Inr sample_ready, w))"

definition sample_reg :: "((file_system, unit) Impl, unit) Registry" where
  "sample_reg = RegisterProvider ''postgres'' (sample_prov ''postgres'') []
     (RegisterProvider ''prometheus'' (sample_prov ''prometheus'') []
       (RegisterRuntime ''docker'' (\<lambda>_. Inr ()) (New_Registry [])))"

definition sample_secrets :: "file_system SecretStore" where
  "sample_secrets = \<lparr>ss_Resolve = (\<lambda>ref w. (Inr (map (\<lambda>k. (k, ''s3cret'')) (sr_Keys ref)), w)),
     ss_Preflight = (\<lambda>ref w. (None, w))\<rparr>"

definition sample_engine :: "(file_system, unit) Engine" where
  "sample_engine = \<lparr>en_Registry = sample_reg, en_SecretStore = Some sample_secrets,
     en_Load = (\<lambda>fs. case Load (\<lambda>_. False) fs of Inl _ \<Rightarrow> Inl [] | Inr s \<Rightarrow> Inr s),
     en_Save = (\<lambda>s fs. case Save (\<lambda>_. False) s fs of (r, fs') \<Rightarrow> (map_option (\<lambda>_. []) r, fs')),
     en_Now = (\<lambda>_. 0), en_HaltOnError = False, en_HealDrift = False, en_AllowDestructive = False,
     en_AllowImportedDeletes = False, en_Mediation = None, en_Fabric = None,
     en_DomainRuntime = (\<lambda>rt _ _ _ _ _ _. Inr rt), en_EnsureReachable = (\<lambda>_ _ _ w. (Inl [], w)),
     en_ProbeReachable = (\<lambda>_ _ _ w. (None, w)), en_ProbeTCP = (\<lambda>_ w. (None, w)),
     en_Sleep = id, en_Time = (\<lambda>_. 0), en_Done = (\<lambda>_. False), en_ScaledWait = id, en_Digest = render, en_Error = (\<lambda>_. [])\<rparr>"

definition sample_pg :: Envelope where
  "sample_pg = (sample_env ''Provider'' ''pg'')\<lparr>env_Spec := [(''type'', AStr ''postgres''),
     (''runtime'', AMap [(''type'', AStr ''docker'')]), (''secretRefs'', AList [AStr ''pg-admin''])]\<rparr>"

definition sample_secret :: Envelope where
  "sample_secret = (sample_env ''SecretReference'' ''pg-admin'')\<lparr>env_Spec :=
     [(''backend'', AStr ''env''), (''keys'', AList [AStr ''password''])]\<rparr>"

definition sample_prom :: Envelope where
  "sample_prom = sample_provider ''prom'' ''prometheus''"

definition sample_by_key :: "(Key \<times> Envelope) list" where
  "sample_by_key = by_key [sample_pg, sample_secret, sample_prom]"

definition sample_published :: State where
  "sample_published = zero_State\<lparr>st_Resources := [(env_Key sample_prom, zero_ResourceState\<lparr>rs_Provider :=
     [(''endpoints'', AList [AMap [(''name'', AStr ''prometheus''), (''internal'', AStr ''http://prom:9090'')]])]\<rparr>)]\<rparr>"

definition sample_ctx :: "file_system ctx" where
  "sample_ctx = \<lparr>cx_World = empty_fs, cx_Claims = [], cx_State = zero_State\<rparr>"

definition sample_request :: "unit Request" where
  "sample_request = (case fst (resolveRequest sample_engine sample_pg sample_by_key (Some sample_published) sample_ctx) of
     Inr (_, req) \<Rightarrow> req)"

lemma sample_resolves:
  "\<exists>prov c'. resolveRequest sample_engine sample_pg sample_by_key (Some sample_published) sample_ctx =
     (Inr (prov, sample_request), c')"
proof -
  obtain r c' where r: "resolveRequest sample_engine sample_pg sample_by_key (Some sample_published) sample_ctx = (r, c')"
    by fastforce
  have "\<not> isl (fst (resolveRequest sample_engine sample_pg sample_by_key (Some sample_published) sample_ctx))"
    by code_simp
  with r show ?thesis by (cases r) (auto simp: sample_request_def)
qed

theorem request_least_privilege_witness: "fst ` set (rq_Secrets sample_request) = {''pg-admin''}"
proof -
  from sample_resolves obtain prov c' where
    "resolveRequest sample_engine sample_pg sample_by_key (Some sample_published) sample_ctx =
       (Inr (prov, sample_request), c')" by blast
  from request_least_privilege [OF this] obtain p where
    p: "Provider_FromEnvelope (rq_Provider sample_request) = (p, None)"
      "fst ` set (rq_Secrets sample_request) = set (pv_SecretRefs p)"
      "provider_of sample_pg sample_by_key = Inr (rq_Provider sample_request)" by blast
  have "env_Kind sample_pg = ''Provider''" by code_simp
  with p(3) have "rq_Provider sample_request = sample_pg" by (simp add: provider_of_def)
  with p(1,2) have "fst ` set (rq_Secrets sample_request) = set (pv_SecretRefs (fst (Provider_FromEnvelope sample_pg)))"
    by simp
  also have "\<dots> = {''pg-admin''}" by code_simp
  finally show ?thesis .
qed

theorem request_addresses_published_witness: "published sample_published ''http://prom:9090''"
proof -
  from sample_resolves obtain prov c' where r:
    "resolveRequest sample_engine sample_pg sample_by_key (Some sample_published) sample_ctx =
       (Inr (prov, sample_request), c')" by blast
  have "rq_PrometheusURL sample_request = ''http://prom:9090''" by code_simp
  with request_addresses_published [OF r, of "''http://prom:9090''"] show ?thesis by simp
qed

theorem request_facts_deterministic_witness:
  "resolvePrometheusURL sample_pg (fst (Provider_FromEnvelope sample_pg)) sample_by_key (factsSnapshot (Some sample_published)) =
   resolvePrometheusURL sample_pg (fst (Provider_FromEnvelope sample_pg)) (rev sample_by_key) (factsSnapshot (Some sample_published))"
proof -
  obtain f where f: "factsSnapshot (Some sample_published) = Some f" by (simp add: factsSnapshot_def)
  then have "map fst f = [env_Key sample_prom]" by (auto simp: factsSnapshot_def sample_published_def Let_def
        FromState_def index_any_def zero_ResourceState_def split: if_splits)
  then have "distinct (map fst f)" by simp
  moreover have "distinct (map fst sample_by_key)" by code_simp
  ultimately show ?thesis using request_facts_deterministic [of sample_by_key "rev sample_by_key" f f] f by simp
qed

end
