(* ===== verification/Engine_Steps.thy ===== *)
theory Engine_Steps
  imports Requests
begin

text \<open>
  One resource at a time: the executor's handling of a single plan entry
  (\<open>internal/application/engine/engine.go\<close> and \<open>kind_handler.go\<close>). Each function
  threads the context (world, host-port claims, state); a result is an \<open>engine_error option\<close>
  (Go's \<open>error\<close>) or a status. Everything that changes the recorded state ends in
  \<open>persist\<close>, which is \<open>StateStore.Save\<close> of the state in memory.
\<close>

section \<open>State updates\<close>

record DependencyGraph =
  dg_Dependents :: "Key \<Rightarrow> Key list"
  dg_Dependencies :: "Key \<Rightarrow> Key list"

definition graph_deps :: "Graph \<Rightarrow> DependencyGraph" where
  "graph_deps g = \<lparr>dg_Dependents = Dependents g, dg_Dependencies = Dependencies g\<rparr>"

definition map_state :: "(State \<Rightarrow> State) \<Rightarrow> 'w ctx \<Rightarrow> 'w ctx" where
  "map_state f c = c\<lparr>cx_State := f (cx_State c)\<rparr>"

definition stored :: "State \<Rightarrow> Key \<Rightarrow> ResourceState" where
  "stored s k = get_or zero_ResourceState (st_Resources s) k"

definition put_resource :: "Key \<Rightarrow> ResourceState \<Rightarrow> State \<Rightarrow> State" where
  "put_resource k rs s = s\<lparr>st_Resources := AList.update k rs (st_Resources s)\<rparr>"

definition delete_resource :: "Key \<Rightarrow> State \<Rightarrow> State" where
  "delete_resource k s = s\<lparr>st_Resources := AList.delete k (st_Resources s)\<rparr>"

definition persist :: "('w, 'r) Engine \<Rightarrow> 'w ctx \<Rightarrow> engine_error option \<times> 'w ctx" where
  "persist e c = (case en_Save e (cx_State c) (cx_World c) of
     (r, w) \<Rightarrow> (map_option StoreError r, set_world w c))"

definition dependencyKeys :: "DependencyGraph option \<Rightarrow> Key \<Rightarrow> Key list" where
  "dependencyKeys deps key =
     (case deps of None \<Rightarrow> [] | Some d \<Rightarrow> sort_by key_String (dg_Dependencies d key))"

definition resourceState ::
  "Envelope \<Rightarrow> string \<Rightarrow> Status \<Rightarrow> Lifecycle \<Rightarrow> bool \<Rightarrow> DependencyGraph option \<Rightarrow> ResourceState" where
  "resourceState env specHash st lifecycle imported deps =
     (let env' = env\<lparr>env_Metadata := (env_Metadata env)\<lparr>md_Namespace := NormalizeNamespace (env_ns env)\<rparr>\<rparr>
      in \<lparr>rs_SpecHash = specHash, rs_SecretHash = [], rs_Status = st, rs_Lifecycle = lifecycle_String lifecycle,
          rs_Imported = imported, rs_Provider = ProviderState st, rs_LastApplied = Some env',
          rs_Dependencies = dependencyKeys deps (env_Key env'), rs_DependencyHashes = []\<rparr>)"

definition dependency_hashes :: "State \<Rightarrow> Key list \<Rightarrow> (string \<times> string) list" where
  "dependency_hashes s deps = fold (\<lambda>dep hashes.
     let h = rs_SecretHash (stored s dep)
     in if h = [] then hashes else AList.update (KeyString dep) h hashes) deps []"

definition recordDependencyHashes :: "Key \<Rightarrow> DependencyGraph option \<Rightarrow> State \<Rightarrow> State" where
  "recordDependencyHashes key deps s =
     (if deps = None then s
      else put_resource key ((stored s key)\<lparr>rs_DependencyHashes := dependency_hashes s (dependencyKeys deps key)\<rparr>) s)"

text \<open>The common end of the four reconcile paths.\<close>

definition record_resource ::
  "('w, 'r) Engine \<Rightarrow> Key \<Rightarrow> ResourceState \<Rightarrow> DependencyGraph option \<Rightarrow> 'w ctx \<Rightarrow> engine_error option \<times> 'w ctx" where
  "record_resource e key rs deps c =
     persist e (map_state (recordDependencyHashes key deps \<circ> put_resource key rs) c)"

section \<open>The dispatch table\<close>

definition isExternal :: "Envelope \<Rightarrow> bool" where
  "isExternal env \<longleftrightarrow> bool_of (index_any (env_Spec env) ''external'')"

definition isExternalNoProvider :: "Envelope \<Rightarrow> bool" where
  "isExternalNoProvider env =
     (if \<not> isExternal env then False
      else if RefName (env_Spec env) ''providerRef'' \<noteq> [] then False
      else True)"

datatype handler = SecretReferenceHandler | ExternalNoProviderHandler | ExternalWithProviderHandler

record kindHandler =
  kh_name :: handler
  kh_match :: "Envelope \<Rightarrow> bool"
  kh_probes :: bool
  kh_deletes :: bool

definition kindHandlers :: "kindHandler list" where
  "kindHandlers =
     [\<lparr>kh_name = SecretReferenceHandler, kh_match = (\<lambda>env. env_Kind env = ''SecretReference''),
       kh_probes = True, kh_deletes = True\<rparr>,
      \<lparr>kh_name = ExternalNoProviderHandler, kh_match = isExternalNoProvider, kh_probes = True, kh_deletes = True\<rparr>,
      \<lparr>kh_name = ExternalWithProviderHandler, kh_match = (\<lambda>env. isExternal env \<and> \<not> isExternalNoProvider env),
       kh_probes = False, kh_deletes = False\<rparr>]"

definition lookupKindHandler :: "Envelope \<Rightarrow> kindHandler option" where
  "lookupKindHandler env = find (\<lambda>h. kh_match h env) kindHandlers"

text \<open>The hooks a caller finds: none when the table has no row or the row leaves the hook nil.\<close>

definition reconcile_hook :: "Envelope \<Rightarrow> handler option" where
  "reconcile_hook env = map_option kh_name (lookupKindHandler env)"

definition probe_hook :: "Envelope \<Rightarrow> handler option" where
  "probe_hook env = (case lookupKindHandler env of
     None \<Rightarrow> None | Some h \<Rightarrow> if kh_probes h then Some (kh_name h) else None)"

definition has_delete_hook :: "Envelope \<Rightarrow> bool" where
  "has_delete_hook env = (case lookupKindHandler env of None \<Rightarrow> False | Some h \<Rightarrow> kh_deletes h)"

definition deleteStateOnly :: "('w, 'r) Engine \<Rightarrow> Key \<Rightarrow> 'w ctx \<Rightarrow> engine_error option \<times> 'w ctx" where
  "deleteStateOnly e key c = persist e (map_state (delete_resource key) c)"

section \<open>Secret references\<close>

definition SecretFingerprint :: "('w, 'r) Engine \<Rightarrow> SecretReference \<Rightarrow> (string \<times> string) list \<Rightarrow> string" where
  "SecretFingerprint e ref values = en_Digest e (canonical (AMap
     [(''name'', AStr (sr_Name ref)), (''backend'', AStr (sr_Backend ref)),
      (''keys'', AList (map AStr (sort_by id (sr_Keys ref)))),
      (''values'', AMap (map (\<lambda>(k, v). (k, AStr v)) values))]))"

text \<open>Validate, then resolve through the configured store.\<close>

definition resolve_reference ::
  "('w, 'r) Engine \<Rightarrow> Envelope \<Rightarrow> 'w \<Rightarrow> (engine_error + (string \<times> string) list) \<times> 'w" where
  "resolve_reference e env w =
     (let ref = secretRefFrom env in
      case SecretReference_Validate ref of
        Some err \<Rightarrow> (Inl (DecodeError err), w)
      | None \<Rightarrow> (case en_SecretStore e of
          None \<Rightarrow> (Inl (NoSecretStore (env_name env)), w)
        | Some ss \<Rightarrow> (case ss_Resolve ss ref w of
            (Inl err, w') \<Rightarrow> (Inl (PortError err), w')
          | (Inr values, w') \<Rightarrow> (Inr values, w'))))"

fun preflight_loop :: "'w SecretStore \<Rightarrow> Envelope list \<Rightarrow> engine_error list \<Rightarrow> 'w \<Rightarrow> engine_error list \<times> 'w" where
  "preflight_loop ss [] problems w = (problems, w)"
| "preflight_loop ss (env # envs) problems w =
     (if env_Kind env \<noteq> ''SecretReference'' then preflight_loop ss envs problems w
      else case SecretReference_Validate (secretRefFrom env) of
        Some err \<Rightarrow> preflight_loop ss envs (problems @ [DecodeError err]) w
      | None \<Rightarrow> (case ss_Preflight ss (secretRefFrom env) w of
          (None, w') \<Rightarrow> preflight_loop ss envs problems w'
        | (Some err, w') \<Rightarrow> preflight_loop ss envs (problems @ [PortError err]) w'))"

definition PreflightSecrets :: "('w, 'r) Engine \<Rightarrow> Envelope list \<Rightarrow> 'w \<Rightarrow> engine_error list \<times> 'w" where
  "PreflightSecrets e envelopes w =
     (case en_SecretStore e of None \<Rightarrow> ([], w) | Some ss \<Rightarrow> preflight_loop ss envelopes [] w)"

fun secret_hashes_loop ::
  "('w, 'r) Engine \<Rightarrow> Envelope list \<Rightarrow> (Key \<times> string) list \<Rightarrow> 'w
    \<Rightarrow> (engine_error + (Key \<times> string) list) \<times> 'w" where
  "secret_hashes_loop e [] out w = (Inr out, w)"
| "secret_hashes_loop e (env # envs) out w =
     (if env_Kind env \<noteq> ''SecretReference'' then secret_hashes_loop e envs out w
      else case resolve_reference e env w of
        (Inl err, w') \<Rightarrow> (Inl err, w')
      | (Inr values, w') \<Rightarrow>
          secret_hashes_loop e envs
            (AList.update (env_Key env) (SecretFingerprint e (secretRefFrom env) values) out) w')"

definition SecretHashes :: "('w, 'r) Engine \<Rightarrow> Envelope list \<Rightarrow> 'w \<Rightarrow> (engine_error + (Key \<times> string) list) \<times> 'w" where
  "SecretHashes e envelopes w = secret_hashes_loop e envelopes [] w"

text \<open>The pair of conditions most probes end with.\<close>

definition two_conditions :: "Condition \<Rightarrow> Condition \<Rightarrow> int \<Rightarrow> Status" where
  "two_conditions a b now = SetCondition b now (SetCondition a now zero_Status)"

definition secretReferenceStatus ::
  "('w, 'r) Engine \<Rightarrow> Envelope \<Rightarrow> string \<Rightarrow> 'w ctx \<Rightarrow> Status \<times> 'w ctx" where
  "secretReferenceStatus e env priorHash c =
     (let now = en_Now e (cx_World c) in
      case resolve_reference e env (cx_World c) of
        (Inl err, w) \<Rightarrow>
          (two_conditions (mk_cond Ready FalseS ''SecretUnresolvable'' (en_Error e err))
             (mk_cond DriftDetected TrueS ''SecretUnresolvable'' []) now, set_world w c)
      | (Inr values, w) \<Rightarrow>
          (let currentHash = SecretFingerprint e (secretRefFrom env) values;
               ready = mk_cond Ready TrueS ''SecretResolvable'' []
           in (if priorHash \<noteq> [] \<and> currentHash \<noteq> [] \<and> priorHash \<noteq> currentHash
               then two_conditions ready (mk_cond DriftDetected TrueS ''SecretChanged''
                 ''resolved secret material differs from the last applied fingerprint'') now
               else two_conditions ready (mk_cond DriftDetected FalseS ''NoDrift'' []) now, set_world w c)))"

definition reconcileSecretReference ::
  "('w, 'r) Engine \<Rightarrow> Entry \<Rightarrow> Envelope \<Rightarrow> DependencyGraph option \<Rightarrow> 'w ctx \<Rightarrow> engine_error option \<times> 'w ctx" where
  "reconcileSecretReference e entry env deps c =
     (case resolve_reference e env (cx_World c) of
        (Inl err, w) \<Rightarrow> (Some err, set_world w c)
      | (Inr values, w) \<Rightarrow>
          (let c1 = set_world w c;
               secretHash = (if pe_SecretHash entry = [] then SecretFingerprint e (secretRefFrom env) values
                 else pe_SecretHash entry);
               newStatus = two_conditions (mk_cond Ready TrueS ''SecretResolvable'' [])
                 (mk_cond Progressing FalseS ''ReconcileComplete'' []) (en_Now e w);
               imported = rs_Imported (stored (cx_State c1) (env_Key env));
               rs = resourceState env (pe_SpecHash entry) newStatus (LifecycleOf env imported) imported deps
           in record_resource e (env_Key env) (rs\<lparr>rs_SecretHash := secretHash\<rparr>) deps c1))"

section \<open>External resources\<close>

text \<open>
  A bounded retry: sleep two seconds and check again until the check is satisfied, the deadline has
  passed or the call is cancelled (\<open>None\<close>). Time is in seconds; a fuel of the seconds left is
  enough because every round sleeps (\<open>poll_fuel\<close> below).
\<close>

fun poll ::
  "('w, 'r) Engine \<Rightarrow> int \<Rightarrow> ('w ctx \<Rightarrow> 'a \<times> 'w ctx) \<Rightarrow> ('a \<Rightarrow> bool) \<Rightarrow> nat \<Rightarrow> 'a \<Rightarrow> 'w ctx \<Rightarrow> 'a option \<times> 'w ctx" where
  "poll e deadline check ok 0 a c = (Some a, c)"
| "poll e deadline check ok (Suc n) a c =
     (if ok a \<or> \<not> en_Time e (cx_World c) < deadline then (Some a, c)
      else let c1 = set_world (en_Sleep e (cx_World c)) c in
        if en_Done e (cx_World c1) then (None, c1)
        else case check c1 of (a', c2) \<Rightarrow> poll e deadline check ok n a' c2)"

definition resolveConnectionRef ::
  "('w, 'r) Engine \<Rightarrow> NameRef \<Rightarrow> string \<Rightarrow> (Key \<times> Envelope) list \<Rightarrow> 'w ctx \<Rightarrow> engine_error option \<times> 'w ctx" where
  "resolveConnectionRef e connRef ns byKey c =
     (let resolve_env = (\<lambda>refEnv c. case en_SecretStore e of
            None \<Rightarrow> (Some (NoSecretStore []), c)
          | Some ss \<Rightarrow> (case ss_Resolve ss (secretRefFrom refEnv) (cx_World c) of
              (Inl err, w) \<Rightarrow> (Some (PortError err), set_world w c)
            | (Inr _, w) \<Rightarrow> (None, set_world w c)))
      in case map_of byKey (ref_Key connRef ns ''Connection'') of
           Some connEnv \<Rightarrow>
             (case decode_connection connEnv c of
                ((_, Some err), c1) \<Rightarrow> (Some (DecodeError err), c1)
              | ((conn, None), c1) \<Rightarrow> (case co_SecretRef conn of
                  None \<Rightarrow> (None, c1)
                | Some name \<Rightarrow>
                    (case map_of byKey (Key (key_Namespace (env_Key connEnv)) ''SecretReference'' name) of
                       None \<Rightarrow> (Some (SecretRefUnresolved (ref_Name connRef) name), c1)
                     | Some refEnv \<Rightarrow> resolve_env refEnv c1)))
         | None \<Rightarrow> (case map_of byKey (ref_Key connRef ns ''SecretReference'') of
             Some refEnv \<Rightarrow> resolve_env refEnv c
           | None \<Rightarrow> (Some (ConnectionRefUnresolved connRef), c)))"

text \<open>The forwarder's runtime name and port: the first fact that names both, else the defaults.\<close>

definition forwarder_of :: "Envelope \<Rightarrow> Connection \<Rightarrow> string \<times> int" where
  "forwarder_of connEnv conn =
     (case find (\<lambda>ep. ep_RuntimeName ep \<noteq> [] \<and> ep_ContainerPort ep \<noteq> 0)
         (FromState (index_any (ProviderState (env_Status connEnv)) ''endpoints'')) of
        None \<Rightarrow> (RuntimeObjectName connEnv, co_Port conn)
      | Some ep \<Rightarrow> (ep_RuntimeName ep, ep_ContainerPort ep))"

definition connectionDialAddress ::
  "('w, 'r) Engine \<Rightarrow> Envelope \<Rightarrow> Connection \<Rightarrow> (Key \<times> Envelope) list \<Rightarrow> 'w ctx \<Rightarrow> string \<times> 'w ctx" where
  "connectionDialAddress e connEnv conn byKey c =
     (if co_External conn then (case ExternalAddress conn of None \<Rightarrow> ([], c) | Some addr \<Rightarrow> (addr, c))
      else case resolveRequest e connEnv byKey None c of
        (Inl err, c1) \<Rightarrow> ([], c1)
      | (Inr (_, req), c1) \<Rightarrow>
          (let (runtimeName, containerPort) = forwarder_of connEnv conn in
           case en_EnsureReachable e (rq_Runtime req) runtimeName containerPort (cx_World c1) of
             (Inl err, w) \<Rightarrow> ([], set_world w c1)
           | (Inr addr, w) \<Rightarrow> (addr, set_world w c1)))"

definition networkToken :: "anymap \<Rightarrow> string \<times> bool" where
  "networkToken runtimeConfig =
     (let n = str_of (index_any runtimeConfig ''network'') in if n \<noteq> [] then (n, True) else (''datascape'', False))"

record inNetworkConsumer =
  ic_runtimeType :: string
  ic_runtimeConfig :: anymap
  ic_network :: string

definition consumer_of :: "Envelope \<Rightarrow> (Key \<times> Envelope) list \<Rightarrow> Envelope \<Rightarrow> inNetworkConsumer option" where
  "consumer_of env byKey cand =
     (let ns = env_ns cand;
          names = (\<lambda>field. let ref = RefFromSpec (env_Spec cand) field
            in ref_Name ref \<noteq> [] \<and> ref_Key ref ns (env_Kind env) = env_Key env)
      in if env_Kind cand \<noteq> ''Binding'' \<or> \<not> (names ''sourceRef'' \<or> names ''targetRef'') then None
         else case map_of byKey (ref_Key (RefFromSpec (env_Spec cand) ''providerRef'') ns ''Provider'') of
           None \<Rightarrow> None
         | Some provEnv \<Rightarrow> (case Provider_FromEnvelope provEnv of
             (_, Some err) \<Rightarrow> None
           | (p, None) \<Rightarrow>
               (let (token, pinned) = networkToken (pv_RuntimeConfig p)
                in Some \<lparr>ic_runtimeType = pv_RuntimeType p, ic_runtimeConfig = pv_RuntimeConfig p,
                     ic_network = (if pinned then token else NetworkName token (md_Domain (env_Metadata provEnv)))\<rparr>)))"

fun inNetworkConsumers ::
  "Envelope \<Rightarrow> (Key \<times> Envelope) list \<Rightarrow> Envelope list \<Rightarrow> string list \<Rightarrow> inNetworkConsumer list" where
  "inNetworkConsumers env byKey [] seen = []"
| "inNetworkConsumers env byKey (cand # cands) seen =
     (case consumer_of env byKey cand of
        None \<Rightarrow> inNetworkConsumers env byKey cands seen
      | Some ic \<Rightarrow>
          (let key = ic_runtimeType ic @ ''|'' @ ic_network ic in
           if key \<in> set seen then inNetworkConsumers env byKey cands seen
           else ic # inNetworkConsumers env byKey cands (key # seen)))"

fun probe_consumers ::
  "('w, 'r) Engine \<Rightarrow> string \<Rightarrow> inNetworkConsumer list \<Rightarrow> 'w ctx \<Rightarrow> engine_error option \<times> 'w ctx" where
  "probe_consumers e addr [] c = (None, c)"
| "probe_consumers e addr (ic # ics) c =
     (case registry_Runtime (en_Registry e) (ic_runtimeType ic) (ic_runtimeConfig ic) of
        Inl err \<Rightarrow> probe_consumers e addr ics c
      | Inr rt \<Rightarrow> (case en_ProbeReachable e rt (ic_network ic) addr (cx_World c) of
          (Some err, w) \<Rightarrow> (Some (PortError err), set_world w c)
        | (None, w) \<Rightarrow> probe_consumers e addr ics (set_world w c)))"

definition probeInNetworkUnreachable ::
  "('w, 'r) Engine \<Rightarrow> Envelope \<Rightarrow> string \<Rightarrow> (Key \<times> Envelope) list \<Rightarrow> 'w ctx \<Rightarrow> engine_error option \<times> 'w ctx" where
  "probeInNetworkUnreachable e env addr byKey c =
     probe_consumers e addr (inNetworkConsumers env byKey (map snd byKey) []) c"

text \<open>The dial with its retry window: the first attempt, then the bounded loop.\<close>

definition dial_once :: "('w, 'r) Engine \<Rightarrow> string \<Rightarrow> 'w ctx \<Rightarrow> engine_error option \<times> 'w ctx" where
  "dial_once e addr c = (case en_ProbeTCP e addr (cx_World c) of
     (r, w) \<Rightarrow> (map_option PortError r, set_world w c))"

definition dial :: "('w, 'r) Engine \<Rightarrow> string \<Rightarrow> 'w ctx \<Rightarrow> engine_error option \<times> 'w ctx" where
  "dial e addr c =
     (case dial_once e addr c of
        (None, c1) \<Rightarrow> (None, c1)
      | (Some err, c1) \<Rightarrow>
          (let window = en_ScaledWait e 15; deadline = en_Time e (cx_World c1) + window in
           case poll e deadline (dial_once e addr) (\<lambda>r. r = None) (nat window) (Some err) c1 of
             (None, c2) \<Rightarrow> (Some Cancelled, c2)
           | (Some r, c2) \<Rightarrow> (r, c2)))"

definition unhealthy :: "('w, 'r) Engine \<Rightarrow> string \<Rightarrow> engine_error \<Rightarrow> int \<Rightarrow> Status" where
  "unhealthy e reason err now =
     two_conditions (mk_cond Ready FalseS reason (en_Error e err)) (mk_cond DriftDetected TrueS reason []) now"

definition healthy :: "string \<Rightarrow> int \<Rightarrow> Status" where
  "healthy reason now =
     two_conditions (mk_cond Ready TrueS reason []) (mk_cond DriftDetected FalseS ''NoDrift'' []) now"

definition externalConnectionStatus ::
  "('w, 'r) Engine \<Rightarrow> Envelope \<Rightarrow> (Key \<times> Envelope) list \<Rightarrow> 'w ctx \<Rightarrow> Status \<times> 'w ctx" where
  "externalConnectionStatus e env byKey c =
     (let now = en_Now e (cx_World c);
          connRef = RefFromSpec (env_Spec env) ''connectionRef'';
          resolvable = (\<lambda>c. (healthy ''ExternalConnectionResolvable'' now, c))
      in case (if ref_Name connRef \<noteq> [] then resolveConnectionRef e connRef (env_ns env) byKey c else (None, c)) of
           (Some err, c1) \<Rightarrow> (unhealthy e ''ExternalConnectionUnresolvable'' err now, c1)
         | (None, c1) \<Rightarrow> (case map_of byKey (ref_Key connRef (env_ns env) ''Connection'') of
             None \<Rightarrow> resolvable c1
           | Some connEnv \<Rightarrow> (case decode_connection connEnv c1 of
               ((_, Some err), c2) \<Rightarrow> resolvable c2
             | ((conn, None), c2) \<Rightarrow> (case connectionDialAddress e connEnv conn byKey c2 of
                 (addr, c3) \<Rightarrow>
                   (if addr = [] then resolvable c3
                    else case dial e addr c3 of
                      (Some err, c4) \<Rightarrow> (unhealthy e ''ExternalEndpointUnreachable'' err now, c4)
                    | (None, c4) \<Rightarrow>
                        (case (if co_External conn then probeInNetworkUnreachable e env addr byKey c4 else (None, c4)) of
                           (Some err, c5) \<Rightarrow> (unhealthy e ''ExternalEndpointUnreachableInNetwork'' err now, c5)
                         | (None, c5) \<Rightarrow> (healthy ''ExternalEndpointReachable'' now, c5)))))))"

definition externalDatabaseTLSGate :: "('w, 'r) Engine \<Rightarrow> Envelope \<Rightarrow> 'w ctx \<Rightarrow> gate_error option \<times> 'w ctx" where
  "externalDatabaseTLSGate e env c =
     (if env_Kind env \<noteq> ''Connection'' then (None, c)
      else case decode_connection env c of
        ((conn, err), c1) \<Rightarrow>
          (if err \<noteq> None \<or> \<not> co_External conn \<or> co_TLS conn = None then (None, c1)
           else (RequireGate (en_Registry e) ''ExternalDatabaseTLS'', c1)))"

definition reconcileExternal ::
  "('w, 'r) Engine \<Rightarrow> Entry \<Rightarrow> Envelope \<Rightarrow> (Key \<times> Envelope) list \<Rightarrow> DependencyGraph option \<Rightarrow> 'w ctx
    \<Rightarrow> engine_error option \<times> 'w ctx" where
  "reconcileExternal e entry env byKey deps c =
     (case externalDatabaseTLSGate e env c of
        (Some g, c1) \<Rightarrow> (Some (GateRefused (env_Key env) g), c1)
      | (None, c1) \<Rightarrow>
          (let deadline = en_Time e (cx_World c1) + 30 in
           case externalConnectionStatus e env byKey c1 of
             (probed0, c2) \<Rightarrow>
               (case poll e deadline (externalConnectionStatus e env byKey) IsReady 30 probed0 c2 of
                  (None, c3) \<Rightarrow> (Some Cancelled, c3)
                | (Some probed, c3) \<Rightarrow>
                    (let imported = rs_Imported (stored (cx_State c3) (env_Key env));
                         commit = record_resource e (env_Key env)
                           (resourceState env (pe_SpecHash entry) probed External imported deps) deps c3
                     in if IsReady probed then commit
                        else case find_Condition probed Ready of
                          Some cond \<Rightarrow> (Some (ExternalNotReady (env_Key env) (cond_Message cond)), c3)
                        | None \<Rightarrow> commit))))"

definition reconcileExternalWithProvider ::
  "('w, 'r) Engine \<Rightarrow> Entry \<Rightarrow> Envelope \<Rightarrow> (Key \<times> Envelope) list \<Rightarrow> DependencyGraph option \<Rightarrow> 'w ctx
    \<Rightarrow> engine_error option \<times> 'w ctx" where
  "reconcileExternalWithProvider e entry env byKey deps c =
     (case resolveRequest e env byKey (Some (cx_State c)) c of
        (Inl err, c1) \<Rightarrow> (Some err, c1)
      | (Inr (prov, req), c1) \<Rightarrow> (case im_ConfigureExternal prov of
          None \<Rightarrow> (Some (NotExternalConfigurer (env_Key env) (im_Type prov)), c1)
        | Some configure \<Rightarrow> (case configure req (cx_World c1) of
            (Inl err, w) \<Rightarrow> (Some (PortError err), set_world w c1)
          | (Inr newStatus, w) \<Rightarrow>
              (let c2 = set_world w c1; imported = rs_Imported (stored (cx_State c2) (env_Key env))
               in record_resource e (env_Key env)
                    (resourceState env (pe_SpecHash entry) newStatus External imported deps) deps c2))))"

section \<open>Managed resources\<close>

definition resolveLineageEndpoint ::
  "ObserverRef \<Rightarrow> string \<Rightarrow> (Key \<times> Envelope) list \<Rightarrow> State \<Rightarrow> engine_error + LineageEndpoint" where
  "resolveLineageEndpoint obs ns byKey st =
     (let ref = NameRef (obs_Name obs) (obs_Namespace obs);
          mk = (\<lambda>url. \<lparr>le_URL = url, le_Namespace = ''datascape'', le_AuthRef = None\<rparr>)
      in case map_of byKey (ref_Key ref ns ''Provider'') of
           None \<Rightarrow> Inl (ObserverUnresolved (obs_Name obs))
         | Some provEnv \<Rightarrow> (case Provider_FromEnvelope provEnv of
             (_, Some err) \<Rightarrow> Inl (DecodeError err)
           | (p, None) \<Rightarrow>
               (let url = str_of (index_any (pv_Configuration p) ''url'');
                    url' = str_of (index_any (rs_Provider (stored st (env_Key provEnv))) ''url'')
                in if url \<noteq> [] then Inr (mk url)
                   else if url' \<noteq> [] then Inr (mk url')
                   else Inl (ObserverNoEndpoint (obs_Name obs)))))"

fun forward_lineage ::
  "('r Request \<Rightarrow> LineageEndpoint \<Rightarrow> 'w \<Rightarrow> string option \<times> 'w) \<Rightarrow> 'r Request \<Rightarrow> string
    \<Rightarrow> (Key \<times> Envelope) list \<Rightarrow> ObserverRef list \<Rightarrow> 'w ctx \<Rightarrow> engine_error option \<times> 'w ctx" where
  "forward_lineage configure req ns byKey [] c = (None, c)"
| "forward_lineage configure req ns byKey (obs # rest) c =
     (case resolveLineageEndpoint obs ns byKey (cx_State c) of
        Inl err \<Rightarrow> (Some err, c)
      | Inr endpoint \<Rightarrow> (case configure req endpoint (cx_World c) of
          (Some err, w) \<Rightarrow> (Some (PortError err), set_world w c)
        | (None, w) \<Rightarrow> forward_lineage configure req ns byKey rest (set_world w c)))"

text \<open>The lineage step of a reconcile: an error, or the status to record.\<close>

definition lineage_step ::
  "('w, 'r) Engine \<Rightarrow> ('w, 'r) Impl \<Rightarrow> 'r Request \<Rightarrow> Envelope \<Rightarrow> (Key \<times> Envelope) list \<Rightarrow> Status \<Rightarrow> 'w ctx
    \<Rightarrow> (engine_error + Status) \<times> 'w ctx" where
  "lineage_step e prov req env byKey newStatus c =
     (if md_Observers (env_Metadata env) = [] then (Inr newStatus, c)
      else case im_ConfigureLineage prov of
        Some configure \<Rightarrow> (case forward_lineage configure req (env_ns env) byKey (md_Observers (env_Metadata env)) c of
          (Some err, c1) \<Rightarrow> (Inl err, c1)
        | (None, c1) \<Rightarrow> (Inr newStatus, c1))
      | None \<Rightarrow> (Inr (SetCondition (mk_cond Ready TrueS ''LineageEndpointDeclaredNotConsumed''
          (''Provider type '' @ [CHR 0x22] @ im_Type prov @ [CHR 0x22] @ '' does not implement LineageAware; observers were not forwarded.''))
          (en_Now e (cx_World c)) newStatus), c))"

definition reconcileManaged ::
  "('w, 'r) Engine \<Rightarrow> Entry \<Rightarrow> Envelope \<Rightarrow> (Key \<times> Envelope) list \<Rightarrow> DependencyGraph option \<Rightarrow> 'w ctx
    \<Rightarrow> engine_error option \<times> 'w ctx" where
  "reconcileManaged e entry env byKey deps c =
     (case resolveRequest e env byKey (Some (cx_State c)) c of
        (Inl err, c1) \<Rightarrow> (Some err, c1)
      | (Inr (prov, req), c1) \<Rightarrow> (case im_Reconcile prov req (cx_World c1) of
          (Inl err, w) \<Rightarrow> (Some (PortError err), set_world w c1)
        | (Inr newStatus, w) \<Rightarrow> (case lineage_step e prov req env byKey newStatus (set_world w c1) of
            (Inl err, c2) \<Rightarrow> (Some err, c2)
          | (Inr newStatus', c2) \<Rightarrow>
              (let imported = rs_Imported (stored (cx_State c2) (env_Key env))
               in record_resource e (env_Key env)
                    (resourceState env (pe_SpecHash entry) newStatus' (LifecycleOf env imported) imported deps) deps c2))))"

definition reconcileOne ::
  "('w, 'r) Engine \<Rightarrow> Entry \<Rightarrow> Envelope \<Rightarrow> (Key \<times> Envelope) list \<Rightarrow> DependencyGraph option \<Rightarrow> 'w ctx
    \<Rightarrow> engine_error option \<times> 'w ctx" where
  "reconcileOne e entry env byKey deps c =
     (case reconcile_hook env of
        Some SecretReferenceHandler \<Rightarrow> reconcileSecretReference e entry env deps c
      | Some ExternalNoProviderHandler \<Rightarrow> reconcileExternal e entry env byKey deps c
      | Some ExternalWithProviderHandler \<Rightarrow> reconcileExternalWithProvider e entry env byKey deps c
      | None \<Rightarrow> reconcileManaged e entry env byKey deps c)"

section \<open>Probing and deleting\<close>

definition HasDrift :: "Status \<Rightarrow> bool" where
  "HasDrift s = (case find_Condition s DriftDetected of None \<Rightarrow> False | Some c \<Rightarrow> cond_Status c = TrueS)"

definition probe_failed :: "string \<Rightarrow> int \<Rightarrow> Status" where
  "probe_failed msg now = two_conditions (mk_cond Ready FalseS ''ProbeFailed'' msg)
     (mk_cond DriftDetected TrueS ''ProbeFailed'' msg) now"

definition probeOneAgainstState ::
  "('w, 'r) Engine \<Rightarrow> Envelope \<Rightarrow> (Key \<times> Envelope) list \<Rightarrow> ResourceState \<Rightarrow> State option \<Rightarrow> 'w ctx \<Rightarrow> Status \<times> 'w ctx" where
  "probeOneAgainstState e env byKey rs fullState c =
     (let now = en_Now e (cx_World c) in
      case probe_hook env of
        Some SecretReferenceHandler \<Rightarrow> secretReferenceStatus e env (rs_SecretHash rs) c
      | Some ExternalNoProviderHandler \<Rightarrow>
          (case externalDatabaseTLSGate e env c of
             (Some g, c1) \<Rightarrow> (probe_failed (en_Error e (GateError g)) (en_Now e (cx_World c1)), c1)
           | (None, c1) \<Rightarrow> externalConnectionStatus e env byKey c1)
      | _ \<Rightarrow>
          (case resolveRequest e env byKey fullState c of
             (Inl err, c1) \<Rightarrow> (probe_failed (en_Error e err) now, c1)
           | (Inr (prov, req), c1) \<Rightarrow> (case im_Probe prov req (cx_World c1) of
               (Inl err, w) \<Rightarrow> (probe_failed (en_Error e (PortError err)) now, set_world w c1)
             | (Inr probed, w) \<Rightarrow> (probed, set_world w c1))))"

definition probeOne ::
  "('w, 'r) Engine \<Rightarrow> Envelope \<Rightarrow> (Key \<times> Envelope) list \<Rightarrow> State option \<Rightarrow> 'w ctx \<Rightarrow> Status \<times> 'w ctx" where
  "probeOne e env byKey fullState c = probeOneAgainstState e env byKey zero_ResourceState fullState c"

text \<open>The provider's own teardown, then the removal from state.\<close>

definition destroyManaged ::
  "('w, 'r) Engine \<Rightarrow> Key \<Rightarrow> Envelope \<Rightarrow> (Key \<times> Envelope) list \<Rightarrow> 'w ctx \<Rightarrow> engine_error option \<times> 'w ctx" where
  "destroyManaged e key env byKey c =
     (case resolveRequest e env byKey (Some (cx_State c)) c of
        (Inl err, c1) \<Rightarrow> (Some err, c1)
      | (Inr (prov, req), c1) \<Rightarrow> (case im_Destroy prov req (cx_World c1) of
          (Some err, w) \<Rightarrow> (Some (PortError err), set_world w c1)
        | (None, w) \<Rightarrow> deleteStateOnly e key (set_world w c1)))"

definition applyDeleteOne ::
  "('w, 'r) Engine \<Rightarrow> Entry \<Rightarrow> Envelope \<Rightarrow> (Key \<times> Envelope) list \<Rightarrow> 'w ctx \<Rightarrow> engine_error option \<times> 'w ctx" where
  "applyDeleteOne e entry env byKey c =
     (let lifecycle = LifecycleOf env (rs_Imported (stored (cx_State c) (pe_Key entry))) in
      if lifecycle = External \<and> \<not> en_AllowDestructive e then (Some (ExternalProtected (pe_Key entry)), c)
      else if lifecycle = External \<and> has_delete_hook env then deleteStateOnly e (pe_Key entry) c
      else if lifecycle = Imported \<and> \<not> en_AllowImportedDeletes e then (Some (ImportedProtected (pe_Key entry)), c)
      else if has_delete_hook env then deleteStateOnly e (pe_Key entry) c
      else destroyManaged e (pe_Key entry) env byKey c)"

section \<open>The dispatch table is unambiguous\<close>

lemma isExternal_Lifecycle: "isExternal env \<longleftrightarrow> LifecycleOf env imported = External"
  by (cases "index_any (env_Spec env) ''external''") (auto simp: isExternal_def bool_of_def LifecycleOf_def)

lemma hooks:
  "reconcile_hook env = (if env_Kind env = ''SecretReference'' then Some SecretReferenceHandler
     else if isExternalNoProvider env then Some ExternalNoProviderHandler
     else if isExternal env then Some ExternalWithProviderHandler else None)"
  "probe_hook env = (if env_Kind env = ''SecretReference'' then Some SecretReferenceHandler
     else if isExternalNoProvider env then Some ExternalNoProviderHandler else None)"
  "has_delete_hook env \<longleftrightarrow> env_Kind env = ''SecretReference'' \<or> isExternalNoProvider env"
  by (auto simp: reconcile_hook_def probe_hook_def has_delete_hook_def lookupKindHandler_def kindHandlers_def)

text \<open>
  The dispatch table has no overlapping rows for validated resources: an envelope that is not
  an external SecretReference (its schema has no such field) matches at most one row, so the order
  of the table does not matter; and it matches none exactly when it is a managed resource of
  another kind, the only ones that reach a provider's \<open>Reconcile\<close>.
\<close>

theorem kindHandlers_exclusive:
  assumes "env_Kind env = ''SecretReference'' \<longrightarrow> \<not> isExternal env"
  shows "length (filter (\<lambda>h. kh_match h env) kindHandlers) \<le> 1 \<and>
    (\<forall>hs. set hs = set kindHandlers \<longrightarrow> find (\<lambda>h. kh_match h env) hs = lookupKindHandler env) \<and>
    (reconcile_hook env = None \<longleftrightarrow> env_Kind env \<noteq> ''SecretReference'' \<and> LifecycleOf env False = Managed)"
proof (intro conjI allI impI)
  show le: "length (filter (\<lambda>h. kh_match h env) kindHandlers) \<le> 1"
    using assms by (auto simp: kindHandlers_def isExternalNoProvider_def)
  fix hs assume "set hs = set kindHandlers"
  moreover have "h = h'" if "h \<in> set kindHandlers" "h' \<in> set kindHandlers" "kh_match h env" "kh_match h' env" for h h'
    using that assms by (auto simp: kindHandlers_def isExternalNoProvider_def)
  ultimately show "find (\<lambda>h. kh_match h env) hs = lookupKindHandler env"
    unfolding lookupKindHandler_def by (rule find_unique)
next
  show "reconcile_hook env = None \<longleftrightarrow> env_Kind env \<noteq> ''SecretReference'' \<and> LifecycleOf env False = Managed"
    using isExternal_Lifecycle [of env False]
    by (auto simp: hooks isExternalNoProvider_def LifecycleOf_def split: if_splits)
qed

theorem kindHandlers_exclusive_witness:
  "length (filter (\<lambda>h. kh_match h sample_secret) kindHandlers) \<le> 1 \<and> reconcile_hook sample_pg = None"
proof -
  have "\<not> isExternal sample_secret" "\<not> isExternal sample_pg" "env_Kind sample_pg \<noteq> ''SecretReference''"
    "LifecycleOf sample_pg False = Managed" by code_simp+
  with kindHandlers_exclusive [of sample_secret] kindHandlers_exclusive [of sample_pg] show ?thesis by blast
qed

section \<open>The bounded retry\<close>

definition clock_advances :: "('w, 'r) Engine \<Rightarrow> ('w ctx \<Rightarrow> 'a \<times> 'w ctx) \<Rightarrow> bool" where
  "clock_advances e check \<longleftrightarrow>
     (\<forall>w. en_Time e w + 2 \<le> en_Time e (en_Sleep e w)) \<and>
     (\<forall>c. en_Time e (cx_World c) \<le> en_Time e (cx_World (snd (check c))))"

lemma clock_step:
  assumes "clock_advances e check" "check (set_world (en_Sleep e (cx_World c)) c) = (a, c2)"
  shows "en_Time e (cx_World c) + 2 \<le> en_Time e (cx_World c2)"
proof -
  let ?c1 = "set_world (en_Sleep e (cx_World c)) c"
  from assms(1) have "en_Time e (cx_World c) + 2 \<le> en_Time e (cx_World ?c1)"
    by (simp add: clock_advances_def)
  moreover from assms(1) have "en_Time e (cx_World ?c1) \<le> en_Time e (cx_World (snd (check ?c1)))"
    unfolding clock_advances_def by blast
  ultimately show ?thesis using assms(2) by simp
qed

lemma poll_stable:
  assumes "clock_advances e check" "deadline - en_Time e (cx_World c) \<le> int n" "n \<le> m"
  shows "poll e deadline check ok m a c = poll e deadline check ok n a c"
  using assms(2,3)
proof (induction n arbitrary: m a c)
  case 0
  then show ?case by (cases m) auto
next
  case (Suc n)
  then obtain m' where m: "m = Suc m'" "n \<le> m'" by (cases m) auto
  show ?case
  proof (cases "ok a \<or> \<not> en_Time e (cx_World c) < deadline")
    case False
    let ?c1 = "set_world (en_Sleep e (cx_World c)) c"
    obtain a' c2 where c2: "check ?c1 = (a', c2)" by fastforce
    note clock_step [OF assms(1) c2]
    with Suc.prems(1) have "deadline - en_Time e (cx_World c2) \<le> int n" by simp
    from Suc.IH [OF this m(2)] False m(1) c2 show ?thesis by (simp add: Let_def)
  qed (use m in auto)
qed

text \<open>What the loop returns: the last check was satisfied, the deadline has passed, or it was cancelled.\<close>

lemma poll_outcome:
  assumes "clock_advances e check" "poll e deadline check ok n a c = (Some a', c')"
    "deadline - en_Time e (cx_World c) \<le> int n"
  shows "ok a' \<or> deadline \<le> en_Time e (cx_World c')"
  using assms(2,3)
proof (induction n arbitrary: a c)
  case (Suc n)
  show ?case
  proof (cases "ok a \<or> \<not> en_Time e (cx_World c) < deadline")
    case False
    let ?c1 = "set_world (en_Sleep e (cx_World c)) c"
    obtain b c2 where c2: "check ?c1 = (b, c2)" by fastforce
    note clock_step [OF assms(1) c2]
    with Suc.prems(2) have le: "deadline - en_Time e (cx_World c2) \<le> int n" by simp
    from Suc.prems(1) False c2 have "poll e deadline check ok n b c2 = (Some a', c')" by (auto simp: Let_def split: if_splits)
    from Suc.IH [OF this le] show ?thesis .
  next
    case True
    then have "poll e deadline check ok (Suc n) a c = (Some a, c)" by (simp only: poll.simps if_True)
    with Suc.prems(1) have "a' = a" "c' = c" by simp_all
    with True show ?thesis by (simp only: not_less)
  qed
qed simp

lemma poll_State:
  assumes "poll e deadline check ok n a c = (r, c')"
    "\<And>c x c'. check c = (x, c') \<Longrightarrow> cx_State c' = cx_State c"
  shows "cx_State c' = cx_State c"
  using assms(1)
  by (induction n arbitrary: a c) (auto simp: Let_def dest: assms(2) split: if_splits prod.splits)

text \<open>
  The bounded retries terminate. On a clock that advances by at least the two seconds a round
  sleeps, the thirty-second wait of \<open>reconcileExternal\<close> takes at most thirty rounds: more
  fuel changes nothing, and when it is not cancelled the loop ends with a ready status or after the
  deadline, never because the fuel ran out. The same holds for any window of \<open>n\<close> seconds.
\<close>

theorem retry_terminates:
  assumes "clock_advances e check" "deadline \<le> en_Time e (cx_World c) + int n"
  shows "(\<forall>m\<ge>n. poll e deadline check ok m a c = poll e deadline check ok n a c) \<and>
    (\<forall>a' c'. poll e deadline check ok n a c = (Some a', c') \<longrightarrow> ok a' \<or> deadline \<le> en_Time e (cx_World c'))"
  using poll_stable [OF assms(1)] poll_outcome [OF assms(1)] assms(2) by (metis add.commute diff_le_eq)

definition ticking_engine :: "(nat, unit) Engine" where
  "ticking_engine = \<lparr>en_Registry = New_Registry [], en_SecretStore = None, en_Load = (\<lambda>_. Inl []),
     en_Save = (\<lambda>_ w. (None, w)), en_Now = int, en_HaltOnError = False, en_HealDrift = False,
     en_AllowDestructive = False, en_AllowImportedDeletes = False, en_Mediation = None, en_Fabric = None,
     en_DomainRuntime = (\<lambda>rt _ _ _ _ _ _. Inr rt), en_EnsureReachable = (\<lambda>_ _ _ w. (Inl [], w)),
     en_ProbeReachable = (\<lambda>_ _ _ w. (None, w)), en_ProbeTCP = (\<lambda>_ w. (None, w)),
     en_Sleep = (\<lambda>w. w + 2), en_Time = int, en_Done = (\<lambda>_. False), en_ScaledWait = id,
     en_Digest = render, en_Error = (\<lambda>_. [])\<rparr>"

theorem retry_terminates_witness:
  "poll ticking_engine 30 (\<lambda>c. (cx_World c, c)) (\<lambda>n. 10 \<le> n) 99 0 \<lparr>cx_World = 0, cx_Claims = [], cx_State = zero_State\<rparr> =
   poll ticking_engine 30 (\<lambda>c. (cx_World c, c)) (\<lambda>n. 10 \<le> n) 30 0 \<lparr>cx_World = 0, cx_Claims = [], cx_State = zero_State\<rparr>"
proof -
  have "clock_advances ticking_engine (\<lambda>c. (cx_World c, c))"
    by (simp add: clock_advances_def ticking_engine_def)
  moreover have "30 \<le> en_Time ticking_engine (cx_World \<lparr>cx_World = 0, cx_Claims = [], cx_State = zero_State\<rparr>) + int 30"
    by (simp add: ticking_engine_def)
  moreover have "(30 :: nat) \<le> 99" by simp
  ultimately show ?thesis by (blast dest: retry_terminates)
qed

section \<open>What a step does to the state\<close>

lemma map_state_sel [simp]:
  "cx_State (map_state f c) = f (cx_State c)" "cx_World (map_state f c) = cx_World c"
  "cx_Claims (map_state f c) = cx_Claims c"
  by (simp_all add: map_state_def)

lemma stored_put [simp]: "stored (put_resource k rs s) k' = (if k' = k then rs else stored s k')"
  by (simp add: stored_def put_resource_def get_or_def)

lemma st_Resources_put [simp]: "st_Resources (put_resource k rs s) = AList.update k rs (st_Resources s)"
  by (simp add: put_resource_def)

lemma st_Resources_delete [simp]: "st_Resources (delete_resource k s) = AList.delete k (st_Resources s)"
  by (simp add: delete_resource_def)

text \<open>The world is the outcome of a successful save of the state in memory.\<close>

definition saved :: "('w, 'r) Engine \<Rightarrow> 'w ctx \<Rightarrow> bool" where
  "saved e c \<longleftrightarrow> (\<exists>w. en_Save e (cx_State c) w = (None, cx_World c))"

lemma persist_State: "persist e c = (r, c') \<Longrightarrow> cx_State c' = cx_State c"
  by (auto simp: persist_def split: prod.splits)

lemma persist_None: "persist e c = (None, c') \<Longrightarrow> saved e c'"
  by (auto simp: persist_def saved_def split: prod.splits)

lemma persist_Some: "persist e c = (Some err, c') \<Longrightarrow> \<exists>m. err = StoreError m"
  by (auto simp: persist_def split: prod.splits)

lemma dial_once_State: "dial_once e addr c = (r, c') \<Longrightarrow> cx_State c' = cx_State c"
  by (auto simp: dial_once_def split: prod.splits)

lemma poll_dial_State: "poll e d (dial_once e' addr) ok n a c = (r, c') \<Longrightarrow> cx_State c' = cx_State c"
  by (rule poll_State) (auto dest: dial_once_State)

lemma dial_State: "dial e addr c = (r, c') \<Longrightarrow> cx_State c' = cx_State c"
  by (auto simp: dial_def Let_def dest!: dial_once_State poll_dial_State
      split: prod.splits option.splits)

lemma resolveConnectionRef_State: "resolveConnectionRef e ref ns byKey c = (r, c') \<Longrightarrow> cx_State c' = cx_State c"
  by (auto simp: resolveConnectionRef_def Let_def dest!: decode_connection_State
      split: prod.splits option.splits sum.splits)

lemma connectionDialAddress_State: "connectionDialAddress e env conn byKey c = (r, c') \<Longrightarrow> cx_State c' = cx_State c"
  by (auto simp: connectionDialAddress_def Let_def dest!: resolveRequest_State
      split: if_splits prod.splits option.splits sum.splits)

lemma probe_consumers_State: "probe_consumers e addr ics c = (r, c') \<Longrightarrow> cx_State c' = cx_State c"
  by (induction ics arbitrary: c) (auto split: sum.splits prod.splits option.splits)

lemmas external_frame = dial_State resolveConnectionRef_State connectionDialAddress_State
  probe_consumers_State decode_connection_State

lemma externalConnectionStatus_State: "externalConnectionStatus e env byKey c = (r, c') \<Longrightarrow> cx_State c' = cx_State c"
  unfolding externalConnectionStatus_def Let_def probeInNetworkUnreachable_def
  by (auto dest!: external_frame split: prod.splits option.splits if_splits)

lemma poll_external_State:
  "poll e d (externalConnectionStatus e' env byKey) ok n a c = (r, c') \<Longrightarrow> cx_State c' = cx_State c"
  by (rule poll_State) (auto dest: externalConnectionStatus_State)

lemma externalDatabaseTLSGate_State: "externalDatabaseTLSGate e env c = (r, c') \<Longrightarrow> cx_State c' = cx_State c"
  by (auto simp: externalDatabaseTLSGate_def dest!: decode_connection_State split: if_splits prod.splits)

lemma forward_lineage_State: "forward_lineage f req ns byKey obs c = (r, c') \<Longrightarrow> cx_State c' = cx_State c"
  by (induction obs arbitrary: c) (auto split: sum.splits prod.splits option.splits)

lemma lineage_step_State: "lineage_step e prov req env byKey st c = (r, c') \<Longrightarrow> cx_State c' = cx_State c"
  by (auto simp: lineage_step_def dest!: forward_lineage_State split: if_splits option.splits prod.splits)

lemma probe_State: "probeOneAgainstState e env byKey rs st c = (r, c') \<Longrightarrow> cx_State c' = cx_State c"
  unfolding probeOneAgainstState_def Let_def secretReferenceStatus_def
  by (auto dest!: externalConnectionStatus_State externalDatabaseTLSGate_State resolveRequest_State
      split: option.splits handler.splits prod.splits sum.splits)

text \<open>
  The state after a reconcile has recorded its resource: only its own entry is new, and that entry
  carries the planned hash, the manifest and the dependencies.
\<close>

definition reconciled ::
  "Entry \<Rightarrow> Envelope \<Rightarrow> DependencyGraph option \<Rightarrow> State \<Rightarrow> State \<Rightarrow> bool" where
  "reconciled entry env deps s s' \<longleftrightarrow> (\<exists>rs. let k = env_Key env in
     s' = recordDependencyHashes k deps (put_resource k rs s) \<and>
     rs_SpecHash rs = pe_SpecHash entry \<and> rs_Imported rs = rs_Imported (stored s k) \<and>
     (env_Kind env = ''SecretReference'' \<and> pe_SecretHash entry \<noteq> [] \<longrightarrow> rs_SecretHash rs = pe_SecretHash entry) \<and>
     rs_Dependencies rs = dependencyKeys deps k \<and>
     rs_LastApplied rs = Some (env\<lparr>env_Metadata := (env_Metadata env)\<lparr>md_Namespace := NormalizeNamespace (env_ns env)\<rparr>\<rparr>))"

lemma env_Key_norm [simp]:
  "env_Key (env\<lparr>env_Metadata := (env_Metadata env)\<lparr>md_Namespace := NormalizeNamespace (env_ns env)\<rparr>\<rparr>) = env_Key env"
  by (simp add: env_Key_def env_ns_def NormalizeNamespace_def)

lemma resourceState_sel [simp]:
  "rs_SpecHash (resourceState env h st l i deps) = h"
  "rs_Imported (resourceState env h st l i deps) = i"
  "rs_Dependencies (resourceState env h st l i deps) = dependencyKeys deps (env_Key env)"
  "rs_SecretHash (resourceState env h st l i deps) = []"
  "rs_LastApplied (resourceState env h st l i deps) =
     Some (env\<lparr>env_Metadata := (env_Metadata env)\<lparr>md_Namespace := NormalizeNamespace (env_ns env)\<rparr>\<rparr>)"
  by (simp_all add: resourceState_def Let_def)

text \<open>A step either left the state alone or recorded the resource; success means recorded and saved.\<close>

definition step_ok ::
  "('w, 'r) Engine \<Rightarrow> (State \<Rightarrow> State \<Rightarrow> bool) \<Rightarrow> 'w ctx \<Rightarrow> engine_error option \<times> 'w ctx \<Rightarrow> bool" where
  "step_ok e done c res \<longleftrightarrow> (case res of
     (None, c') \<Rightarrow> done (cx_State c) (cx_State c') \<and> saved e c'
   | (Some err, c') \<Rightarrow> cx_State c' = cx_State c \<or>
       done (cx_State c) (cx_State c') \<and> (\<exists>m. err = StoreError m))"

lemma step_ok_fail: "cx_State c' = cx_State c \<Longrightarrow> step_ok e done c (Some err, c')"
  by (simp add: step_ok_def)

lemma step_ok_record:
  assumes "cx_State c1 = cx_State c" "rs_SpecHash rs = pe_SpecHash entry"
    "rs_Imported rs = rs_Imported (stored (cx_State c) (env_Key env))"
    "env_Kind env = ''SecretReference'' \<and> pe_SecretHash entry \<noteq> [] \<longrightarrow> rs_SecretHash rs = pe_SecretHash entry"
    "rs_Dependencies rs = dependencyKeys deps (env_Key env)"
    "rs_LastApplied rs = Some (env\<lparr>env_Metadata := (env_Metadata env)\<lparr>md_Namespace := NormalizeNamespace (env_ns env)\<rparr>\<rparr>)"
  shows "step_ok e (reconciled entry env deps) c (record_resource e (env_Key env) rs deps c1)"
proof -
  obtain r c' where r: "record_resource e (env_Key env) rs deps c1 = (r, c')" by fastforce
  then have "cx_State c' = recordDependencyHashes (env_Key env) deps (put_resource (env_Key env) rs (cx_State c))"
    using persist_State assms(1) by (fastforce simp: record_resource_def)
  with assms(2-) have "reconciled entry env deps (cx_State c) (cx_State c')"
    unfolding reconciled_def Let_def by blast
  with r show ?thesis
    by (auto simp: step_ok_def record_resource_def dest: persist_None persist_Some split: option.splits)
qed

lemma reconcileSecretReference_step: "step_ok e (reconciled entry env deps) c (reconcileSecretReference e entry env deps c)"
  by (auto simp: reconcileSecretReference_def Let_def intro: step_ok_fail step_ok_record split: prod.splits sum.splits)

lemma reconcileManaged_step:
  "env_Kind env \<noteq> ''SecretReference'' \<Longrightarrow> step_ok e (reconciled entry env deps) c (reconcileManaged e entry env byKey deps c)"
  by (auto simp: reconcileManaged_def Let_def intro!: step_ok_fail step_ok_record
      dest!: resolveRequest_State lineage_step_State split: prod.splits sum.splits)

lemma reconcileExternalWithProvider_step:
  "env_Kind env \<noteq> ''SecretReference'' \<Longrightarrow> step_ok e (reconciled entry env deps) c (reconcileExternalWithProvider e entry env byKey deps c)"
  by (auto simp: reconcileExternalWithProvider_def Let_def intro!: step_ok_fail step_ok_record
      dest!: resolveRequest_State split: prod.splits sum.splits option.splits)

lemma reconcileExternal_step:
  "env_Kind env \<noteq> ''SecretReference'' \<Longrightarrow> step_ok e (reconciled entry env deps) c (reconcileExternal e entry env byKey deps c)"
  unfolding reconcileExternal_def Let_def
  by (auto intro!: step_ok_fail step_ok_record
      dest!: externalDatabaseTLSGate_State externalConnectionStatus_State poll_external_State
      split: prod.splits option.splits)

lemma reconcileOne_step: "step_ok e (reconciled entry env deps) c (reconcileOne e entry env byKey deps c)"
  by (simp add: reconcileOne_def hooks reconcileSecretReference_step reconcileManaged_step
      reconcileExternalWithProvider_step reconcileExternal_step)

lemma deleteStateOnly_step:
  "cx_State c1 = cx_State c \<Longrightarrow> step_ok e (\<lambda>s s'. s' = delete_resource k s) c (deleteStateOnly e k c1)"
  by (auto simp: step_ok_def deleteStateOnly_def dest: persist_State persist_None persist_Some
      split: prod.splits option.splits)

lemma destroyManaged_step: "step_ok e (\<lambda>s s'. s' = delete_resource k s) c (destroyManaged e k env byKey c)"
  by (auto simp: destroyManaged_def intro!: step_ok_fail deleteStateOnly_step dest!: resolveRequest_State
      split: prod.splits sum.splits option.splits)

lemma applyDeleteOne_step:
  "step_ok e (\<lambda>s s'. s' = delete_resource (pe_Key entry) s) c (applyDeleteOne e entry env byKey c)"
  by (auto simp: applyDeleteOne_def Let_def intro: step_ok_fail deleteStateOnly_step destroyManaged_step)

end
