(* ===== verification/Engine_Runs.thy ===== *)
theory Engine_Runs
  imports Engine_Steps
begin

text \<open>
  The executor's entry points (\<open>engine.go\<close>: \<open>Apply\<close>, \<open>Destroy\<close>, \<open>Import\<close>,
  \<open>Probe\<close>) and the mediation fabric they maintain (\<open>mediation_fabric.go\<close>). \<open>Apply\<close>
  is modelled in its sequential mode (\<open>Parallelism\<close> at most 1). Progress reports and log
  lines are not part of the model.
\<close>

section \<open>The mediation fabric\<close>

definition mediationFabricKey :: Key where
  "mediationFabricKey = Key DefaultNamespace ''MediationFabric'' ''platform-fabric''"

definition anyMediatedEdgeDeclared :: "(Key \<times> Envelope) list \<Rightarrow> bool" where
  "anyMediatedEdgeDeclared byKey =
     list_ex (\<lambda>(k, env). (env_Kind env = ''Binding'' \<or> env_Kind env = ''Connection'') \<and> \<not> transportDirect env) byKey"

definition RuntimeTypeDocker :: string where "RuntimeTypeDocker = ''docker''"

definition fabricRuntimeSource :: "(Key \<times> Envelope) list \<Rightarrow> string \<times> anymap" where
  "fabricRuntimeSource byKey =
     (case sort_by key_String (map fst (filter (\<lambda>(k, env). env_Kind env = ''Provider'') byKey)) of
        [] \<Rightarrow> (RuntimeTypeDocker, [])
      | k # _ \<Rightarrow> (case Provider_FromEnvelope (get_or zero_Envelope byKey k) of
          (p, err) \<Rightarrow>
            if err \<noteq> None \<or> pv_RuntimeType p = [] then (RuntimeTypeDocker, [])
            else (pv_RuntimeType p, pv_RuntimeConfig p)))"

definition fabric_state :: "string \<Rightarrow> string \<Rightarrow> anymap \<Rightarrow> Status \<Rightarrow> MediationFabricState" where
  "fabric_state addr runtimeType runtimeConfig st =
     \<lparr>mf_Status = st, mf_Provider = [(''controlPlaneAddress'', AStr addr), (''runtimeType'', AStr runtimeType),
        (''runtimeConfig'', AMap runtimeConfig)]\<rparr>"

definition ensureMediationFabric ::
  "('w, 'r) Engine \<Rightarrow> (Key \<times> Envelope) list \<Rightarrow> 'w ctx \<Rightarrow> engine_error option \<times> 'w ctx" where
  "ensureMediationFabric e byKey c =
     (case en_Fabric e of
        None \<Rightarrow> (None, c)
      | Some fabric \<Rightarrow>
          (if \<not> GateEnabled (en_Registry e) ''MediatedTransport'' \<or> \<not> anyMediatedEdgeDeclared byKey then (None, c)
           else let (runtimeType, runtimeConfig) = fabricRuntimeSource byKey in
             case registry_Runtime (en_Registry e) runtimeType runtimeConfig of
               Inl err \<Rightarrow> (Some (FabricFailed (RegistryError err)), c)
             | Inr rt \<Rightarrow> (case fb_EnsureFabric fabric rt mediationFabricKey (cx_World c) of
                 (r, w) \<Rightarrow>
                   (let now = en_Now e w;
                        cst = (case snd r of
                            Some ferr \<Rightarrow> SetCondition (mk_cond Ready FalseS ''MediationPlaneUnhealthy'' ferr) now zero_Status
                          | None \<Rightarrow> two_conditions (mk_cond Ready TrueS ''MediationPlaneHealthy'' [])
                              (mk_cond Progressing FalseS ''ReconcileComplete'' []) now);
                        (saveErr, c') = persist e (map_state (\<lambda>s. s\<lparr>st_MediationFabric :=
                          Some (fabric_state (fst r) runtimeType runtimeConfig cst)\<rparr>) (set_world w c))
                    in (case snd r of Some ferr \<Rightarrow> (Some (FabricFailed (PortError ferr)), c') | None \<Rightarrow> (saveErr, c'))))))"

definition remaining_manifests :: "State \<Rightarrow> (Key \<times> Envelope) list" where
  "remaining_manifests s = concat (map (\<lambda>(k, rs). case rs_LastApplied rs of None \<Rightarrow> [] | Some env \<Rightarrow> [(k, env)])
     (st_Resources s))"

definition maybeDestroyMediationFabric ::
  "('w, 'r) Engine \<Rightarrow> 'w ctx \<Rightarrow> engine_error option \<times> 'w ctx" where
  "maybeDestroyMediationFabric e c =
     (case en_Fabric e of
        None \<Rightarrow> (None, c)
      | Some fabric \<Rightarrow>
          (if \<not> GateEnabled (en_Registry e) ''MediatedTransport'' then (None, c)
           else case st_MediationFabric (cx_State c) of
             None \<Rightarrow> (None, c)
           | Some mf \<Rightarrow>
               (if anyMediatedEdgeDeclared (remaining_manifests (cx_State c)) then (None, c)
                else let ty = str_of (index_any (mf_Provider mf) ''runtimeType'');
                         runtimeType = (if ty = [] then RuntimeTypeDocker else ty);
                         runtimeConfig = map_or_nil (index_any (mf_Provider mf) ''runtimeConfig'')
                  in case registry_Runtime (en_Registry e) runtimeType runtimeConfig of
                       Inl err \<Rightarrow> (Some (FabricFailed (RegistryError err)), c)
                     | Inr rt \<Rightarrow> (case fb_DestroyFabric fabric rt mediationFabricKey (cx_World c) of
                         (Some err, w) \<Rightarrow> (Some (FabricFailed (PortError err)), set_world w c)
                       | (None, w) \<Rightarrow>
                           persist e (map_state (\<lambda>s. s\<lparr>st_MediationFabric := None\<rparr>) (set_world w c))))))"

section \<open>Apply\<close>

record Result =
  res_Succeeded :: "Key list"
  res_Failed :: "(Key \<times> engine_error) list"
  res_Skipped :: "Key list"

definition empty_Result :: Result where
  "empty_Result = \<lparr>res_Succeeded = [], res_Failed = [], res_Skipped = []\<rparr>"

record 'w run =
  run_ctx :: "'w ctx"
  run_res :: Result
  run_blocked :: "Key list"

datatype run_error =
    RunError engine_error
  | Halted nat
  | SomeFailed nat "(int \<times> string list) list option"
  | PortConflict "(int \<times> string list) list"

definition succeed :: "Key \<Rightarrow> 'w ctx \<Rightarrow> 'w run \<Rightarrow> 'w run" where
  "succeed key c r = r\<lparr>run_ctx := c,
     run_res := (run_res r)\<lparr>res_Succeeded := res_Succeeded (run_res r) @ [key]\<rparr>\<rparr>"

definition skip :: "Key \<Rightarrow> 'w run \<Rightarrow> 'w run" where
  "skip key r = r\<lparr>run_res := (run_res r)\<lparr>res_Skipped := res_Skipped (run_res r) @ [key]\<rparr>\<rparr>"

text \<open>A failure, with the keys it blocks.\<close>

definition fail :: "Key \<Rightarrow> engine_error \<Rightarrow> Key list \<Rightarrow> 'w ctx \<Rightarrow> 'w run \<Rightarrow> 'w run" where
  "fail key err blocks c r = r\<lparr>run_ctx := c,
     run_res := (run_res r)\<lparr>res_Failed := AList.update key err (res_Failed (run_res r))\<rparr>,
     run_blocked := blocks @ run_blocked r\<rparr>"

definition run_step ::
  "('w, 'r) Engine \<Rightarrow> (Key \<times> Envelope) list \<Rightarrow> DependencyGraph \<Rightarrow> Key \<Rightarrow> Entry \<Rightarrow> Envelope \<Rightarrow> 'w run \<Rightarrow> 'w run" where
  "run_step e byKey depGraph key entry env r =
     (case (if pe_Action entry = ActionDelete then applyDeleteOne e entry env byKey (run_ctx r)
            else reconcileOne e entry env byKey (Some depGraph) (run_ctx r)) of
        (Some err, c) \<Rightarrow> fail key err (dg_Dependents depGraph key) c r
      | (None, c) \<Rightarrow> succeed key c r)"

definition processEntry ::
  "('w, 'r) Engine \<Rightarrow> (Key \<times> Envelope) list \<Rightarrow> DependencyGraph \<Rightarrow> Key \<Rightarrow> Entry \<Rightarrow> 'w run \<Rightarrow> 'w run" where
  "processEntry e byKey depGraph key entry r =
     (if key \<in> set (run_blocked r) then skip key r
      else if pe_Action entry = ActionOrphanUnknown then fail key (OrphanUndeletable key) [] (run_ctx r) r
      else if pe_Action entry = ActionRefused then fail key (RefusedBy (pe_Reason entry)) [] (run_ctx r) r
      else case map_of byKey key of
        None \<Rightarrow> fail key (NoManifest key (pe_Action entry)) [] (run_ctx r) r
      | Some env \<Rightarrow>
          (if pe_Action entry \<noteq> ActionNoop then run_step e byKey depGraph key entry env r
           else if \<not> en_HealDrift e then r
           else case map_of (st_Resources (cx_State (run_ctx r))) key of
             None \<Rightarrow> r
           | Some rs \<Rightarrow>
               (if LifecycleOf env (rs_Imported rs) \<noteq> Managed then r
                else case probeOne e env byKey (Some (cx_State (run_ctx r))) (run_ctx r) of
                  (probed, c) \<Rightarrow>
                    (if \<not> HasDrift probed then r\<lparr>run_ctx := c\<rparr>
                     else run_step e byKey depGraph key entry env (r\<lparr>run_ctx := c\<rparr>)))))"

definition entryByKey :: "Plan \<Rightarrow> (Key \<times> Entry) list" where
  "entryByKey p = fold (\<lambda>x m. AList.update (pe_Key x) x m) (Entries p) []"

text \<open>The manifests of the call, plus the last applied ones of planned entries that have none.\<close>

definition apply_by_key :: "Plan \<Rightarrow> Envelope list \<Rightarrow> State \<Rightarrow> (Key \<times> Envelope) list" where
  "apply_by_key p envelopes st = fold (\<lambda>x m.
     if map_of m (pe_Key x) \<noteq> None then m
     else case map_of (st_Resources st) (pe_Key x) of
       None \<Rightarrow> m
     | Some rs \<Rightarrow> (case rs_LastApplied rs of None \<Rightarrow> m | Some env \<Rightarrow> AList.update (pe_Key x) env m))
     (Entries p) (by_key envelopes)"

text \<open>The keys in order; with \<open>HaltOnError\<close> the first failure ends the loop (\<open>True\<close>).\<close>

fun apply_keys ::
  "('w, 'r) Engine \<Rightarrow> (Key \<times> Envelope) list \<Rightarrow> DependencyGraph \<Rightarrow> (Key \<times> Entry) list \<Rightarrow> Key list \<Rightarrow> 'w run
    \<Rightarrow> bool \<times> 'w run" where
  "apply_keys e byKey depGraph entries [] r = (False, r)"
| "apply_keys e byKey depGraph entries (key # keys) r =
     (let r' = (case map_of entries key of
            None \<Rightarrow> r
          | Some entry \<Rightarrow> processEntry e byKey depGraph key entry r)
      in if en_HaltOnError e \<and> res_Failed (run_res r') \<noteq> [] then (True, r')
         else apply_keys e byKey depGraph entries keys r')"

fun apply_levels ::
  "('w, 'r) Engine \<Rightarrow> (Key \<times> Envelope) list \<Rightarrow> DependencyGraph \<Rightarrow> (Key \<times> Entry) list \<Rightarrow> Key list list \<Rightarrow> 'w run
    \<Rightarrow> bool \<times> 'w run" where
  "apply_levels e byKey depGraph entries [] r = (False, r)"
| "apply_levels e byKey depGraph entries (lvl # lvls) r =
     (case apply_keys e byKey depGraph entries lvl r of
        (True, r') \<Rightarrow> (True, r')
      | (False, r') \<Rightarrow> apply_levels e byKey depGraph entries lvls r')"

definition finish_apply :: "bool \<Rightarrow> 'w run \<Rightarrow> run_error option" where
  "finish_apply halted r =
     (let n = length (res_Failed (run_res r)); ce = ConflictError (cx_Claims (run_ctx r)) in
      if halted then Some (Halted n)
      else if n > 0 then Some (SomeFailed n ce)
      else map_option PortConflict ce)"

definition Apply ::
  "('w, 'r) Engine \<Rightarrow> Plan \<Rightarrow> Envelope list \<Rightarrow> DependencyGraph \<Rightarrow> 'w \<Rightarrow> int claims
    \<Rightarrow> run_error option \<times> 'w run" where
  "Apply e p envelopes depGraph w claims =
     (let r0 = (\<lambda>c. \<lparr>run_ctx = c, run_res = empty_Result, run_blocked = []\<rparr>) in
      case en_Load e w of
        Inl err \<Rightarrow> (Some (RunError (StoreError err)), r0 \<lparr>cx_World = w, cx_Claims = claims, cx_State = zero_State\<rparr>)
      | Inr st \<Rightarrow>
          (let byKey = apply_by_key p envelopes st in
           case ensureMediationFabric e byKey \<lparr>cx_World = w, cx_Claims = claims, cx_State = st\<rparr> of
             (Some err, c) \<Rightarrow> (Some (RunError err), r0 c)
           | (None, c) \<Rightarrow>
               (case apply_levels e byKey depGraph (entryByKey p) (Levels p) (r0 c) of
                  (halted, r) \<Rightarrow> (finish_apply halted r, r))))"

section \<open>Destroy\<close>

definition blocks_of :: "DependencyGraph option \<Rightarrow> Key \<Rightarrow> Key list" where
  "blocks_of deps k = (case deps of None \<Rightarrow> [] | Some d \<Rightarrow> dg_Dependencies d k)"

text \<open>The removal from state; a failed save ends the whole run.\<close>

definition forget_resource ::
  "('w, 'r) Engine \<Rightarrow> Key \<Rightarrow> 'w run \<Rightarrow> engine_error option \<times> 'w run" where
  "forget_resource e key r =
     (case deleteStateOnly e key (run_ctx r) of
        (Some err, c) \<Rightarrow> (Some err, r\<lparr>run_ctx := c\<rparr>)
      | (None, c) \<Rightarrow> (None, succeed key c r))"

definition destroyEntry ::
  "('w, 'r) Engine \<Rightarrow> (Key \<times> Envelope) list \<Rightarrow> DependencyGraph option \<Rightarrow> Entry \<Rightarrow> 'w run
    \<Rightarrow> engine_error option \<times> 'w run" where
  "destroyEntry e byKey deps entry r =
     (let key = pe_Key entry in
      if pe_Action entry \<noteq> ActionDelete \<and> pe_Action entry \<noteq> ActionRefused then (None, r)
      else if pe_Action entry = ActionRefused
      then (None, fail key (RefusedBy (pe_Reason entry)) (blocks_of deps key) (run_ctx r) r)
      else case map_of byKey key of
        None \<Rightarrow> (None, r)
      | Some env \<Rightarrow>
          (if key \<in> set (run_blocked r) then (None, skip key r)
           else if LifecycleOf env (rs_Imported (stored (cx_State (run_ctx r)) key)) = External \<and> \<not> en_AllowDestructive e
           then (None, fail key (ExternalProtected key) (blocks_of deps key) (run_ctx r) r)
           else if has_delete_hook env then forget_resource e key r
           else case resolveRequest e env byKey (Some (cx_State (run_ctx r))) (run_ctx r) of
             (Inl err, c) \<Rightarrow> (None, fail key err (blocks_of deps key) c r)
           | (Inr (prov, req), c) \<Rightarrow> (case im_Destroy prov req (cx_World c) of
               (Some err, w) \<Rightarrow> (None, fail key (PortError err) (blocks_of deps key) (set_world w c) r)
             | (None, w) \<Rightarrow> forget_resource e key (r\<lparr>run_ctx := set_world w c\<rparr>))))"

fun destroy_entries ::
  "('w, 'r) Engine \<Rightarrow> (Key \<times> Envelope) list \<Rightarrow> DependencyGraph option \<Rightarrow> Entry list \<Rightarrow> 'w run
    \<Rightarrow> engine_error option \<times> 'w run" where
  "destroy_entries e byKey deps [] r = (None, r)"
| "destroy_entries e byKey deps (x # xs) r =
     (case destroyEntry e byKey deps x r of
        (Some err, r') \<Rightarrow> (Some err, r')
      | (None, r') \<Rightarrow> destroy_entries e byKey deps xs r')"

definition Destroy ::
  "('w, 'r) Engine \<Rightarrow> Plan \<Rightarrow> Envelope list \<Rightarrow> DependencyGraph option \<Rightarrow> 'w \<Rightarrow> int claims
    \<Rightarrow> run_error option \<times> 'w run" where
  "Destroy e p envelopes deps w claims =
     (let r0 = (\<lambda>c. \<lparr>run_ctx = c, run_res = empty_Result, run_blocked = []\<rparr>) in
      case en_Load e w of
        Inl err \<Rightarrow> (Some (RunError (StoreError err)), r0 \<lparr>cx_World = w, cx_Claims = claims, cx_State = zero_State\<rparr>)
      | Inr st \<Rightarrow>
          (case destroy_entries e (by_key envelopes) deps (Entries p) (r0 \<lparr>cx_World = w, cx_Claims = claims, cx_State = st\<rparr>) of
             (Some err, r) \<Rightarrow> (Some (RunError err), r)
           | (None, r) \<Rightarrow>
               (let n = length (res_Failed (run_res r)) in
                if n > 0 then (Some (SomeFailed n None), r)
                else case maybeDestroyMediationFabric e (run_ctx r) of
                  (err, c) \<Rightarrow> (map_option RunError err, r\<lparr>run_ctx := c\<rparr>))))"

section \<open>Import and Probe\<close>

definition Import ::
  "('w, 'r) Engine \<Rightarrow> Envelope list \<Rightarrow> Key \<Rightarrow> string \<Rightarrow> 'w \<Rightarrow> int claims \<Rightarrow> (Status \<times> engine_error option) \<times> 'w ctx" where
  "Import e envelopes key from w claims =
     (let byKey = by_key envelopes; c0 = \<lparr>cx_World = w, cx_Claims = claims, cx_State = zero_State\<rparr> in
      case map_of byKey key of
        None \<Rightarrow> ((zero_Status, Some (NotDeclared key)), c0)
      | Some env \<Rightarrow>
          (if from \<noteq> env_name env then ((zero_Status, Some (ImportName from (env_name env))), c0)
           else case probeOne e env byKey None c0 of
             (probed, c1) \<Rightarrow>
               (if \<not> IsReady probed
                then ((probed, Some (NotImportable key (case find_Condition probed Ready of
                    Some cond \<Rightarrow> if cond_Message cond \<noteq> [] then cond_Message cond else ''backing object not found or unhealthy''
                  | None \<Rightarrow> ''backing object not found or unhealthy''))), c1)
                else case en_Load e (cx_World c1) of
                  Inl err \<Rightarrow> ((probed, Some (StoreError err)), c1)
                | Inr st \<Rightarrow>
                    (let rs = zero_ResourceState\<lparr>rs_SpecHash := SpecHash (en_Digest e) env, rs_Status := probed,
                           rs_Lifecycle := lifecycle_String Imported, rs_Imported := True,
                           rs_Provider := ProviderState probed, rs_LastApplied := Some env\<rparr>
                     in case persist e (c1\<lparr>cx_State := put_resource key rs st\<rparr>) of
                          (err, c2) \<Rightarrow> ((probed, err), c2)))))"

definition merge_probed :: "int \<Rightarrow> Status \<Rightarrow> ResourceState \<Rightarrow> ResourceState" where
  "merge_probed now probed rs =
     rs\<lparr>rs_Status := fold (\<lambda>cond st. SetCondition cond now st) (Conditions probed) (rs_Status rs),
        rs_Provider := (if ProviderState probed = [] then rs_Provider rs
          else AList.update ''observed'' (AMap (ProviderState probed)) (rs_Provider rs))\<rparr>"

fun probe_loop ::
  "('w, 'r) Engine \<Rightarrow> (Key \<times> Envelope) list \<Rightarrow> Envelope list \<Rightarrow> 'w ctx \<Rightarrow> (Key \<times> Status) list \<times> 'w ctx" where
  "probe_loop e byKey [] c = ([], c)"
| "probe_loop e byKey (env # envs) c =
     (case map_of (st_Resources (cx_State c)) (env_Key env) of
        None \<Rightarrow> probe_loop e byKey envs c
      | Some rs \<Rightarrow>
          (case probeOneAgainstState e env byKey rs (Some (cx_State c)) c of
             (probed, c1) \<Rightarrow>
               (let rs' = merge_probed (en_Now e (cx_World c1)) probed rs;
                    (results, c2) = probe_loop e byKey envs (map_state (put_resource (env_Key env) rs') c1)
                in ((env_Key env, rs_Status rs') # results, c2))))"

definition Probe ::
  "('w, 'r) Engine \<Rightarrow> Envelope list \<Rightarrow> 'w \<Rightarrow> int claims \<Rightarrow> (engine_error option \<times> (Key \<times> Status) list) \<times> 'w ctx" where
  "Probe e envelopes w claims =
     (case en_Load e w of
        Inl err \<Rightarrow> ((Some (StoreError err), []), \<lparr>cx_World = w, cx_Claims = claims, cx_State = zero_State\<rparr>)
      | Inr st \<Rightarrow>
          (let (results, c) = probe_loop e (by_key envelopes) envelopes \<lparr>cx_World = w, cx_Claims = claims, cx_State = st\<rparr>;
               (err, c') = persist e c
           in ((err, results), c')))"

end
