(* ===== verification/Convergence.thy ===== *)
theory Convergence
  imports Engine_Runs
begin

text \<open>
  What a run of \<open>Apply\<close> does to the recorded state. The effect of handling one plan entry
  without a failure is the relation \<open>committed\<close>; a run is a sequence of such commits, and
  any sequence that meets dependencies first ends in a state that is in sync with the manifests.
  The order is the only thing the argument needs, so it covers the sequential executor and every
  interleaving of the levels.
\<close>

section \<open>Commits\<close>

definition committed ::
  "bool \<Rightarrow> (Key \<times> Envelope) list \<Rightarrow> DependencyGraph \<Rightarrow> Entry \<Rightarrow> State \<Rightarrow> State \<Rightarrow> bool" where
  "committed heal byKey deps entry s s' \<longleftrightarrow>
     (let reconcile = (\<exists>env. map_of byKey (pe_Key entry) = Some env \<and> reconciled entry env (Some deps) s s')
      in case pe_Action entry of
           ActionDelete \<Rightarrow> s' = delete_resource (pe_Key entry) s
         | ActionNoop \<Rightarrow> s' = s \<or> heal \<and> reconcile
         | ActionOrphanUnknown \<Rightarrow> False
         | ActionRefused \<Rightarrow> False
         | _ \<Rightarrow> reconcile)"

inductive commit_seq ::
  "bool \<Rightarrow> (Key \<times> Envelope) list \<Rightarrow> DependencyGraph \<Rightarrow> (Key \<times> Entry) list \<Rightarrow> Key list \<Rightarrow> State \<Rightarrow> State \<Rightarrow> bool"
  for heal byKey deps entries where
  commit_Nil: "commit_seq heal byKey deps entries [] s s"
| commit_Cons: "commit_seq heal byKey deps entries (k # ks) s s''"
  if "map_of entries k = Some entry" "committed heal byKey deps entry s s'"
    "commit_seq heal byKey deps entries ks s' s''"

inductive_cases commit_ConsE: "commit_seq heal byKey deps entries (k # ks) s s''"

lemma run_step_commit:
  assumes "run_step e byKey deps k entry env r = r'" "res_Failed (run_res r') = []"
  shows "res_Failed (run_res r) = []" "run_blocked r' = run_blocked r"
    "if pe_Action entry = ActionDelete then cx_State (run_ctx r') = delete_resource (pe_Key entry) (cx_State (run_ctx r))
     else reconciled entry env (Some deps) (cx_State (run_ctx r)) (cx_State (run_ctx r'))"
  using assms applyDeleteOne_step [of e entry "run_ctx r" env byKey]
    reconcileOne_step [of e entry env "Some deps" "run_ctx r" byKey]
  by (auto simp: run_step_def step_ok_def fail_def succeed_def split: option.splits if_splits prod.splits)

lemma processEntry_commit:
  assumes "processEntry e byKey deps k entry r = r'" "res_Failed (run_res r') = []" "run_blocked r = []"
    "pe_Key entry = k"
  shows "res_Failed (run_res r) = []" "run_blocked r' = []"
    "committed (en_HealDrift e) byKey deps entry (cx_State (run_ctx r)) (cx_State (run_ctx r'))"
proof -
  have "res_Failed (run_res r) = [] \<and> run_blocked r' = [] \<and>
    committed (en_HealDrift e) byKey deps entry (cx_State (run_ctx r)) (cx_State (run_ctx r'))"
  proof (cases "map_of byKey k")
    case None
    with assms show ?thesis by (auto simp: processEntry_def fail_def split: if_splits)
  next
    case (Some env)
    show ?thesis
    proof (cases "pe_Action entry = ActionNoop")
      case False
      with assms Some have "run_step e byKey deps k entry env r = r'" "pe_Action entry \<notin> {ActionOrphanUnknown, ActionRefused}"
        by (auto simp: processEntry_def fail_def split: if_splits)
      with run_step_commit [OF this(1) assms(2)] False Some assms(3,4) show ?thesis
        by (cases "pe_Action entry") (auto simp: committed_def Let_def)
    next
      case True
      obtain probed c where p: "probeOne e env byKey (Some (cx_State (run_ctx r))) (run_ctx r) = (probed, c)" by fastforce
      then have c: "cx_State c = cx_State (run_ctx r)" unfolding probeOne_def by (rule probe_State)
      have "r' = r \<or> en_HealDrift e \<and> (r' = r\<lparr>run_ctx := c\<rparr> \<or> run_step e byKey deps k entry env (r\<lparr>run_ctx := c\<rparr>) = r')"
        using assms(1,3) True Some p by (auto simp: processEntry_def split: if_splits option.splits)
      then show ?thesis
      proof (elim disjE conjE)
        assume "en_HealDrift e" "run_step e byKey deps k entry env (r\<lparr>run_ctx := c\<rparr>) = r'"
        with run_step_commit [OF this(2) assms(2)] True Some assms(3,4) c show ?thesis
          by (auto simp: committed_def Let_def)
      qed (use True assms(2,3) c in \<open>auto simp: committed_def\<close>)
    qed
  qed
  then show "res_Failed (run_res r) = []" "run_blocked r' = []"
    "committed (en_HealDrift e) byKey deps entry (cx_State (run_ctx r)) (cx_State (run_ctx r'))" by blast+
qed

lemma processEntry_Failed_mono:
  "res_Failed (run_res r) \<noteq> [] \<Longrightarrow> res_Failed (run_res (processEntry e byKey deps k entry r)) \<noteq> []"
  by (auto simp: processEntry_def run_step_def fail_def succeed_def skip_def AList.update_nonempty
      split: option.splits prod.splits)

lemma apply_keys_append:
  "apply_keys e byKey deps entries (xs @ ys) r =
     (case apply_keys e byKey deps entries xs r of
        (True, r') \<Rightarrow> (True, r') | (False, r') \<Rightarrow> apply_keys e byKey deps entries ys r')"
  by (induction xs arbitrary: r) (simp_all add: Let_def)

lemma apply_levels_concat: "apply_levels e byKey deps entries ls r = apply_keys e byKey deps entries (concat ls) r"
  by (induction ls arbitrary: r) (simp_all add: apply_keys_append split: prod.splits bool.splits)

lemma apply_keys_commits:
  assumes "apply_keys e byKey deps entries ks r = (halted, r')" "res_Failed (run_res r') = []" "run_blocked r = []"
    "\<And>k. k \<in> set ks \<Longrightarrow> \<exists>entry. map_of entries k = Some entry \<and> pe_Key entry = k"
  shows "commit_seq (en_HealDrift e) byKey deps entries ks (cx_State (run_ctx r)) (cx_State (run_ctx r')) \<and>
    res_Failed (run_res r) = []"
  using assms
proof (induction ks arbitrary: r)
  case (Cons k ks)
  obtain entry where entry: "map_of entries k = Some entry" "pe_Key entry = k" using Cons.prems(4) by auto
  define r1 where "r1 = processEntry e byKey deps k entry r"
  have failed: "res_Failed (run_res (snd (apply_keys e byKey deps entries ks r1))) \<noteq> []"
    if "res_Failed (run_res r1) \<noteq> []" for r1
    using that by (induction ks arbitrary: r1) (auto simp: Let_def processEntry_Failed_mono split: option.splits)
  have r1: "res_Failed (run_res r1) = []"
    using failed [of r1] Cons.prems(1,2) entry by (auto simp: Let_def r1_def split: if_splits)
  with Cons.prems(1) entry have rest: "apply_keys e byKey deps entries ks r1 = (halted, r')"
    by (simp add: Let_def r1_def)
  note step = processEntry_commit [OF r1_def [symmetric] r1 Cons.prems(3) entry(2)]
  from Cons.IH [OF rest Cons.prems(2) step(2)] Cons.prems(4) step entry(1) show ?case
    by (auto intro: commit_Cons)
qed (simp add: commit_Nil)

section \<open>Commits in dependency order converge\<close>

lemma reconciled_lookup:
  assumes "reconciled entry env (Some deps) s s'" "env_Key env \<notin> set (dg_Dependencies deps (env_Key env))"
  obtains rs where "\<And>k. map_of (st_Resources s') k = (if k = env_Key env then Some rs else map_of (st_Resources s) k)"
    "rs_SpecHash rs = pe_SpecHash entry" "rs_Imported rs = rs_Imported (stored s (env_Key env))"
    "env_Kind env = ''SecretReference'' \<Longrightarrow> pe_SecretHash entry \<noteq> [] \<Longrightarrow> rs_SecretHash rs = pe_SecretHash entry"
    "rs_DependencyHashes rs = dependency_hashes s (dependencyKeys (Some deps) (env_Key env))"
proof -
  let ?k = "env_Key env"
  from assms(1) obtain rs where rs: "s' = recordDependencyHashes ?k (Some deps) (put_resource ?k rs s)"
    "rs_SpecHash rs = pe_SpecHash entry" "rs_Imported rs = rs_Imported (stored s ?k)"
    "env_Kind env = ''SecretReference'' \<and> pe_SecretHash entry \<noteq> [] \<longrightarrow> rs_SecretHash rs = pe_SecretHash entry"
    unfolding reconciled_def Let_def by blast
  let ?ds = "dependencyKeys (Some deps) ?k"
  have "?k \<notin> set ?ds" using assms(2) by (simp add: dependencyKeys_def)
  then have "dependency_hashes (put_resource ?k rs s) ?ds = dependency_hashes s ?ds"
    unfolding dependency_hashes_def by (intro fold_cong) (auto simp: Let_def)
  with rs show thesis
    by (intro that [of "rs\<lparr>rs_DependencyHashes := dependency_hashes s ?ds\<rparr>"])
      (auto simp: recordDependencyHashes_def)
qed

lemma dependency_hashes_lookup:
  assumes "inj_on KeyString (insert d (set ds))"
  shows "get_or [] (dependency_hashes s ds) (KeyString d) = (if d \<in> set ds then rs_SecretHash (stored s d) else [])"
proof -
  have "map_of (fold (\<lambda>dep hashes. if rs_SecretHash (stored s dep) = [] then hashes
       else AList.update (KeyString dep) (rs_SecretHash (stored s dep)) hashes) ds acc) (KeyString d) =
     (if d \<in> set ds \<and> rs_SecretHash (stored s d) \<noteq> [] then Some (rs_SecretHash (stored s d)) else map_of acc (KeyString d))"
    for acc
    using assms
  proof (induction ds arbitrary: acc)
    case (Cons x ds)
    have "inj_on KeyString (insert d (set ds))" by (rule inj_on_subset [OF Cons.prems]) auto
    note IH = Cons.IH [OF this]
    have "KeyString x = KeyString d \<longleftrightarrow> x = d" using inj_on_eq_iff [OF Cons.prems, of x d] by simp
    then show ?case by (auto simp: IH)
  qed simp
  from this [of "[]"] show ?thesis by (simp add: dependency_hashes_def get_or_def Let_def)
qed

text \<open>What the plan expects of a desired resource once it has been handled.\<close>

definition settled ::
  "(any \<Rightarrow> string) \<Rightarrow> Envelope list \<Rightarrow> Graph \<Rightarrow> (Key \<times> string) list \<Rightarrow> State \<Rightarrow> Envelope \<Rightarrow> bool" where
  "settled H envs g sh s e \<longleftrightarrow> recorded H s sh e \<and> (lifecycle_in s e = Managed \<longrightarrow>
     (\<forall>d\<in>set (succs g (env_Key e)). \<not> dependencySecretChanged d (by_key envs) s (prior_of s (env_Key e)) sh))"

lemma settled_frame:
  assumes "\<And>k. k \<in> insert (env_Key e) (set (succs g (env_Key e))) \<Longrightarrow>
      map_of (st_Resources s') k = map_of (st_Resources s) k"
    "settled H envs g sh s e"
  shows "settled H envs g sh s' e"
proof -
  have k: "map_of (st_Resources s') (env_Key e) = map_of (st_Resources s) (env_Key e)" using assms(1) by simp
  then have p: "prior_of s' (env_Key e) = prior_of s (env_Key e)" by (simp add: prior_of_def get_or_def)
  have "dependencySecretChanged d (by_key envs) s' (prior_of s' (env_Key e)) sh =
      dependencySecretChanged d (by_key envs) s (prior_of s (env_Key e)) sh"
    if "d \<in> set (succs g (env_Key e))" for d
  proof -
    have "get_or zero_ResourceState (st_Resources s') d = get_or zero_ResourceState (st_Resources s) d"
      using assms(1) [of d] that by (simp add: get_or_def)
    then show ?thesis unfolding p dependencySecretChanged_def by (simp only:)
  qed
  with assms(2) k show ?thesis
    by (simp add: settled_def recorded_def lifecycle_in_def prior_of_def get_or_def)
qed

lemma dependencySecretChanged_iff:
  assumes "map_of (by_key envs) d = Some env" "recorded H s sh env" "env_Key env = d"
  shows "dependencySecretChanged d (by_key envs) s prior sh \<longleftrightarrow> env_Kind env = ''SecretReference'' \<and>
    rs_SecretHash (prior_of s d) \<noteq> [] \<and> get_or [] (rs_DependencyHashes prior) (KeyString d) \<noteq> rs_SecretHash (prior_of s d)"
  using assms by (auto simp: dependencySecretChanged_def recorded_def prior_of_def get_or_def Let_def split: option.splits)

lemma Build_by_key: "Build envs = Inr g \<Longrightarrow> e \<in> set envs \<Longrightarrow> map_of (by_key envs) (env_Key e) = Some e"
  using by_key_Some Build_Nodes by blast

lemma Build_succs: "Build envs = Inr g \<Longrightarrow> d \<in> set (succs g k) \<Longrightarrow> \<exists>e\<in>set envs. env_Key e = d"
  using closed_succs [of g k] Build_wf [of envs g] Build_node_keys [of envs g] by (auto simp: wf_Graph_def)

lemma Build_Dependencies:
  assumes "Build envs = Inr g" "d \<in> set (Dependencies g k)"
  shows "d \<in> env_Key ` set envs"
proof -
  from assms(2) have "(k, d) \<in> (edge_rel (succs g))\<^sup>+" by (simp add: dg.dependencies_trancl [OF Build_wf [OF assms(1)]])
  then obtain y where "d \<in> set (succs g y)" by (auto simp: edge_rel_def elim: tranclE)
  with Build_succs [OF assms(1)] show ?thesis by blast
qed

lemma env_Key_Namespace: "key_Namespace (env_Key e) \<noteq> []"
  by (simp add: env_Key_def)

lemma inj_on_env_Key_String: "S \<subseteq> env_Key ` set envs \<Longrightarrow> inj_on KeyString S"
  by (rule inj_on_KeyString) (use env_Key_Namespace in fastforce)

text \<open>A reconcile of a resource whose dependencies are settled settles it.\<close>

lemma reconciled_settled:
  assumes "Build envs = Inr g" "e \<in> set envs" "reconciled entry e (Some (graph_deps g)) s s'"
    "pe_SpecHash entry = SpecHash H e"
    "pe_SecretHash entry = (if env_Kind e = ''SecretReference'' then get_or [] sh (env_Key e) else [])"
    "\<And>env. env \<in> set envs \<Longrightarrow> env_Key env \<in> set (succs g (env_Key e)) \<Longrightarrow> recorded H s sh env"
  shows "settled H envs g sh s' e" "\<And>k. k \<noteq> env_Key e \<Longrightarrow> map_of (st_Resources s') k = map_of (st_Resources s) k"
    "env_Kind e = ''SecretReference'' \<Longrightarrow> get_or [] sh (env_Key e) \<noteq> [] \<Longrightarrow>
      rs_SecretHash (prior_of s' (env_Key e)) = get_or [] sh (env_Key e)"
proof -
  let ?k = "env_Key e" and ?ds = "dependencyKeys (Some (graph_deps g)) (env_Key e)"
  have wf: "wf_Graph g" by (rule Build_wf [OF assms(1)])
  have deps: "set ?ds = set (Dependencies g ?k)" by (simp add: dependencyKeys_def graph_deps_def)
  have self: "?k \<notin> set (dg_Dependencies (graph_deps g) ?k)"
    using dg.not_own_dependency [OF wf] by (simp add: graph_deps_def)
  obtain rs where rs: "\<And>k. map_of (st_Resources s') k = (if k = ?k then Some rs else map_of (st_Resources s) k)"
    "rs_SpecHash rs = pe_SpecHash entry" "env_Kind e = ''SecretReference'' \<Longrightarrow> pe_SecretHash entry \<noteq> [] \<Longrightarrow> rs_SecretHash rs = pe_SecretHash entry"
    "rs_DependencyHashes rs = dependency_hashes s ?ds"
    by (rule reconciled_lookup [OF assms(3) self]) (rule that)
  show frame: "\<And>k. k \<noteq> ?k \<Longrightarrow> map_of (st_Resources s') k = map_of (st_Resources s) k" using rs(1) by simp
  have prior: "prior_of s' ?k = rs" by (simp add: prior_of_def get_or_def rs(1))
  then show "env_Kind e = ''SecretReference'' \<Longrightarrow> get_or [] sh ?k \<noteq> [] \<Longrightarrow>
      rs_SecretHash (prior_of s' ?k) = get_or [] sh ?k" using rs(3) assms(5) by simp
  have "recorded H s' sh e" using rs(1-3) assms(4,5) by (simp add: recorded_def)
  moreover have "\<not> dependencySecretChanged d (by_key envs) s' rs sh" if d: "d \<in> set (succs g ?k)" for d
  proof -
    obtain env where env: "env \<in> set envs" "env_Key env = d" using Build_succs [OF assms(1) d] by blast
    have dep: "d \<in> set ?ds" using dg.direct_dependency [OF wf] d deps by blast
    then have "d \<noteq> ?k" using deps dg.not_own_dependency [OF wf] by blast
    then have same: "map_of (st_Resources s') d = map_of (st_Resources s) d" by (rule frame)
    then have "recorded H s' sh env" using assms(6) [of env] env d by (simp add: recorded_def)
    note iff = dependencySecretChanged_iff [OF Build_by_key [OF assms(1) env(1), unfolded env(2)] this env(2), of rs]
    have "set ?ds \<subseteq> env_Key ` set envs"
      unfolding deps using Build_Dependencies [OF assms(1)] by blast
    then have "inj_on KeyString (insert d (set ?ds))" using dep inj_on_env_Key_String [of _ envs] by (metis insert_absorb)
    from dependency_hashes_lookup [OF this] have "get_or [] (rs_DependencyHashes rs) (KeyString d) = rs_SecretHash (stored s d)"
      using dep rs(4) by simp
    also have "\<dots> = rs_SecretHash (prior_of s' d)" using same by (simp add: stored_def prior_of_def get_or_def)
    finally show ?thesis using iff by simp
  qed
  ultimately show "settled H envs g sh s' e" by (simp add: settled_def prior)
qed

text \<open>
  How far a run has come: the keys of \<open>xs\<close> are handled (desired ones settled, others removed),
  the rest of the state is as it was, and no secret of a no-op entry has moved.
\<close>

definition progress ::
  "(any \<Rightarrow> string) \<Rightarrow> Envelope list \<Rightarrow> Graph \<Rightarrow> (Key \<times> string) list \<Rightarrow> State \<Rightarrow> Key list \<Rightarrow> State \<Rightarrow> bool" where
  "progress H envs g sh st xs s \<longleftrightarrow>
     (\<forall>k. k \<notin> set xs \<longrightarrow> map_of (st_Resources s) k = map_of (st_Resources st) k) \<and>
     (\<forall>k\<in>set xs - env_Key ` set envs. map_of (st_Resources s) k = None) \<and>
     (\<forall>e\<in>set envs. env_Key e \<in> set xs \<longrightarrow> settled H envs g sh s e \<and>
        (env_Kind e = ''SecretReference'' \<and>
           planned_action (ComputeWithSecretHashes H envs st g sh) (env_Key e) = Some ActionNoop \<longrightarrow>
         rs_SecretHash (prior_of s (env_Key e)) = rs_SecretHash (prior_of st (env_Key e))))"

definition entry_for ::
  "(any \<Rightarrow> string) \<Rightarrow> Envelope list \<Rightarrow> Graph \<Rightarrow> (Key \<times> string) list \<Rightarrow> State \<Rightarrow> Envelope \<Rightarrow> Entry \<Rightarrow> bool" where
  "entry_for H envs g sh st e entry \<longleftrightarrow> pe_Key entry = env_Key e \<and> pe_SpecHash entry = SpecHash H e \<and>
     pe_SecretHash entry = (if env_Kind e = ''SecretReference'' then get_or [] sh (env_Key e) else []) \<and>
     planned_action (ComputeWithSecretHashes H envs st g sh) (env_Key e) = Some (pe_Action entry) \<and>
     pe_Action entry \<in> {ActionCreate, ActionUpdate, ActionConfigure, ActionNoop}"

lemma progress_frame:
  assumes "progress H envs g sh st xs s" "k \<notin> set xs"
    "\<And>k'. k' \<noteq> k \<Longrightarrow> map_of (st_Resources s') k' = map_of (st_Resources s) k'"
    "\<And>e. e \<in> set envs \<Longrightarrow> env_Key e \<in> set xs \<Longrightarrow> set (succs g (env_Key e)) \<subseteq> set xs"
    "k \<notin> env_Key ` set envs \<Longrightarrow> map_of (st_Resources s') k = None"
    "\<And>e. e \<in> set envs \<Longrightarrow> env_Key e = k \<Longrightarrow> settled H envs g sh s' e \<and>
        (env_Kind e = ''SecretReference'' \<and>
           planned_action (ComputeWithSecretHashes H envs st g sh) k = Some ActionNoop \<longrightarrow>
         rs_SecretHash (prior_of s' k) = rs_SecretHash (prior_of st k))"
  shows "progress H envs g sh st (xs @ [k]) s'"
proof -
  have "settled H envs g sh s' e \<and> rs_SecretHash (prior_of s' (env_Key e)) = rs_SecretHash (prior_of s (env_Key e))"
    if e: "e \<in> set envs" "env_Key e \<in> set xs" for e
  proof -
    have sub: "insert (env_Key e) (set (succs g (env_Key e))) \<subseteq> set xs" using assms(4) e by blast
    have same: "map_of (st_Resources s') k' = map_of (st_Resources s) k'"
      if "k' \<in> insert (env_Key e) (set (succs g (env_Key e)))" for k'
    proof -
      have "k' \<noteq> k" using sub that assms(2) by blast
      then show ?thesis by (rule assms(3))
    qed
    have "settled H envs g sh s e" using assms(1) e by (simp add: progress_def)
    with same have "settled H envs g sh s' e" by (rule settled_frame)
    then show ?thesis using same [of "env_Key e"] by (simp add: prior_of_def get_or_def)
  qed
  then have old: "settled H envs g sh s' e"
      "rs_SecretHash (prior_of s' (env_Key e)) = rs_SecretHash (prior_of s (env_Key e))"
    if "e \<in> set envs" "env_Key e \<in> set xs" for e
    using that by blast+
  show ?thesis
    unfolding progress_def
  proof (intro conjI allI impI ballI)
    fix k' assume "k' \<notin> set (xs @ [k])"
    then show "map_of (st_Resources s') k' = map_of (st_Resources st) k'"
      using assms(1,3) by (simp add: progress_def)
  next
    fix k' assume "k' \<in> set (xs @ [k]) - env_Key ` set envs"
    then show "map_of (st_Resources s') k' = None"
      using assms(1,3,5) by (cases "k' = k") (simp_all add: progress_def)
  next
    fix e assume e: "e \<in> set envs" "env_Key e \<in> set (xs @ [k])"
    then show "settled H envs g sh s' e" using old(1) assms(6) by (cases "env_Key e = k") simp_all
    assume "env_Kind e = ''SecretReference'' \<and>
      planned_action (ComputeWithSecretHashes H envs st g sh) (env_Key e) = Some ActionNoop"
    then show "rs_SecretHash (prior_of s' (env_Key e)) = rs_SecretHash (prior_of st (env_Key e))"
      using old(2) assms(1,6) e by (cases "env_Key e = k") (simp_all add: progress_def)
  qed
qed

lemma noop_settled:
  assumes "Build envs = Inr g" "progress H envs g sh st xs s" "e \<in> set envs" "env_Key e \<notin> set xs"
    "set (succs g (env_Key e)) \<subseteq> set xs"
    "planned_action (ComputeWithSecretHashes H envs st g sh) (env_Key e) = Some ActionNoop"
  shows "settled H envs g sh s e"
proof -
  let ?p = "ComputeWithSecretHashes H envs st g sh" and ?k = "env_Key e"
  note noop = Compute_entry_noop [OF assms(1,3), THEN iffD1, OF assms(6)]
  have same: "map_of (st_Resources s) ?k = map_of (st_Resources st) ?k" using assms(2,4) by (simp add: progress_def)
  then have prior: "prior_of s ?k = prior_of st ?k" by (simp add: prior_of_def get_or_def)
  have life: "lifecycle_in s e = lifecycle_in st e" using same prior by (simp add: lifecycle_in_def)
  have "\<not> dependencySecretChanged d (by_key envs) s (prior_of s ?k) sh"
    if ls: "lifecycle_in s e = Managed" and ds: "d \<in> set (succs g ?k)" for d
  proof -
    obtain env where env: "env \<in> set envs" "env_Key env = d" using Build_succs [OF assms(1) ds] by blast
    have d: "planned_action ?p d = Some ActionNoop" "\<not> dependencySecretChanged d (by_key envs) st (prior_of st ?k) sh"
      using noop ls ds life by simp_all
    have "recorded H st sh env" using Compute_entry_noop [OF assms(1) env(1)] env(2) d(1) by blast
    note st = dependencySecretChanged_iff [OF Build_by_key [OF assms(1) env(1), unfolded env(2)] this env(2)]
    have P: "settled H envs g sh s env" "env_Kind env = ''SecretReference'' \<Longrightarrow>
        rs_SecretHash (prior_of s d) = rs_SecretHash (prior_of st d)"
      using assms(2,5) env d(1) ds unfolding progress_def by blast+
    from P(1) have "recorded H s sh env" by (simp add: settled_def)
    note s = dependencySecretChanged_iff [OF Build_by_key [OF assms(1) env(1), unfolded env(2)] this env(2)]
    show ?thesis using s st d(2) P(2) prior by auto
  qed
  moreover have "recorded H s sh e" using noop same by (simp add: recorded_def)
  ultimately show ?thesis by (simp add: settled_def)
qed

lemma progress_step:
  assumes "Build envs = Inr g" and P: "progress H envs g sh st xs s" and k: "k \<notin> set xs" "pe_Key entry = k"
    and C: "committed heal byKey (graph_deps g) entry s s'"
    and D: "\<And>e. e \<in> set envs \<Longrightarrow> env_Key e = k \<Longrightarrow>
      map_of byKey k = Some e \<and> entry_for H envs g sh st e entry \<and> set (succs g k) \<subseteq> set xs"
    and orphan: "k \<notin> env_Key ` set envs \<Longrightarrow> pe_Action entry \<in> {ActionDelete, ActionOrphanUnknown, ActionRefused}"
    and closed: "\<And>e. e \<in> set envs \<Longrightarrow> env_Key e \<in> set xs \<Longrightarrow> set (succs g (env_Key e)) \<subseteq> set xs"
    and heal: "\<And>e. heal \<Longrightarrow> e \<in> set envs \<Longrightarrow> env_Kind e = ''SecretReference'' \<Longrightarrow> get_or [] sh (env_Key e) \<noteq> []"
  shows "progress H envs g sh st (xs @ [k]) s'"
proof (cases "k \<in> env_Key ` set envs")
  case False
  with C orphan k(2) have "s' = delete_resource k s" by (auto simp: committed_def Let_def)
  then have s': "map_of (st_Resources s') k' = (if k' = k then None else map_of (st_Resources s) k')" for k'
    by (simp add: delete_conv')
  show ?thesis by (rule progress_frame [OF P k(1) _ closed]) (use s' False in auto)
next
  case True
  then obtain e where e: "e \<in> set envs" "env_Key e = k" by blast
  from D [OF e] have d: "map_of byKey k = Some e" "entry_for H envs g sh st e entry" "set (succs g k) \<subseteq> set xs" by blast+
  have uniq: "e' = e" if "e' \<in> set envs" "env_Key e' = k" for e'
    using D [OF that] d(1) by simp
  note E = d(2) [unfolded entry_for_def e(2)]
  from C E d(1) consider (rec) "reconciled entry e (Some (graph_deps g)) s s'" "pe_Action entry = ActionNoop \<Longrightarrow> heal"
    | (noop) "s' = s" "pe_Action entry = ActionNoop"
    by (auto simp: committed_def Let_def)
  then show ?thesis
  proof cases
    case rec
    have "recorded H s sh env" if "env \<in> set envs" "env_Key env \<in> set (succs g (env_Key e))" for env
      using P that d(3) e(2) by (auto simp: progress_def settled_def)
    note R = reconciled_settled [OF assms(1) e(1) rec(1), of H sh, unfolded e(2), OF _ _ this [unfolded e(2)]]
    have R1: "settled H envs g sh s' e" "\<And>k'. k' \<noteq> k \<Longrightarrow> map_of (st_Resources s') k' = map_of (st_Resources s) k'"
      using R(1,2) E e(2) by blast+
    have "rs_SecretHash (prior_of s' k) = rs_SecretHash (prior_of st k)"
      if "env_Kind e = ''SecretReference''" "planned_action (ComputeWithSecretHashes H envs st g sh) k = Some ActionNoop"
    proof -
      have h: "get_or [] sh k \<noteq> []" using heal [OF rec(2) e(1) that(1)] that(2) E e(2) by simp
      have "recorded H st sh e" using Compute_entry_noop [OF assms(1) e(1)] that(2) e(2) by blast
      then have "rs_SecretHash (prior_of st k) = get_or [] sh k"
        using that(1) h e(2) by (auto simp: recorded_def prior_of_def get_or_def split: option.splits)
      moreover have "rs_SecretHash (prior_of s' k) = get_or [] sh k" using R(3) E that(1) h e(2) by blast
      ultimately show ?thesis by simp
    qed
    with R1 True uniq show ?thesis by (intro progress_frame [OF P k(1) _ closed]) blast+
  next
    case noop
    have "settled H envs g sh s e" by (rule noop_settled [OF assms(1) P e(1)]) (use k d(3) E e(2) noop(2) in simp_all)
    moreover have "prior_of s k = prior_of st k" using P k(1) by (simp add: progress_def prior_of_def get_or_def)
    ultimately show ?thesis
      using noop(1) True uniq by (intro progress_frame [OF P k(1) _ closed]) auto
  qed
qed

lemma progress_run:
  assumes "commit_seq heal byKey (graph_deps g) entries ks s s'" "Build envs = Inr g"
    "progress H envs g sh st xs s" "distinct (xs @ ks)"
    and ord: "\<And>ys k zs. xs @ ks = ys @ k # zs \<Longrightarrow> k \<in> env_Key ` set envs \<Longrightarrow> set (succs g k) \<subseteq> set ys"
    and entry: "\<And>k entry. k \<in> set ks \<Longrightarrow> map_of entries k = Some entry \<Longrightarrow> pe_Key entry = k \<and>
      (\<forall>e\<in>set envs. env_Key e = k \<longrightarrow> map_of byKey k = Some e \<and> entry_for H envs g sh st e entry) \<and>
      (k \<notin> env_Key ` set envs \<longrightarrow> pe_Action entry \<in> {ActionDelete, ActionOrphanUnknown, ActionRefused})"
    and heal: "\<And>e. heal \<Longrightarrow> e \<in> set envs \<Longrightarrow> env_Kind e = ''SecretReference'' \<Longrightarrow> get_or [] sh (env_Key e) \<noteq> []"
  shows "progress H envs g sh st (xs @ ks) s'"
  using assms(1,3-6)
proof (induction ks arbitrary: xs s)
  case (Cons k ks)
  from Cons.prems(1) obtain x s1 where x: "map_of entries k = Some x" "committed heal byKey (graph_deps g) x s s1"
    "commit_seq heal byKey (graph_deps g) entries ks s1 s'" by (rule commit_ConsE)
  have E: "pe_Key x = k" "\<And>e. e \<in> set envs \<Longrightarrow> env_Key e = k \<Longrightarrow> map_of byKey k = Some e \<and> entry_for H envs g sh st e x"
    "k \<notin> env_Key ` set envs \<Longrightarrow> pe_Action x \<in> {ActionDelete, ActionOrphanUnknown, ActionRefused}"
    using Cons.prems(5) [OF _ x(1)] by auto
  have "progress H envs g sh st (xs @ [k]) s1"
  proof (rule progress_step [OF assms(2) Cons.prems(2) _ E(1) x(2) _ E(3) _ heal])
    show "k \<notin> set xs" using Cons.prems(3) by simp
    show "map_of byKey k = Some e \<and> entry_for H envs g sh st e x \<and> set (succs g k) \<subseteq> set xs"
      if "e \<in> set envs" "env_Key e = k" for e
      using E(2) [OF that] Cons.prems(4) [of xs k ks] that by blast
    show "set (succs g (env_Key e)) \<subseteq> set xs" if e: "e \<in> set envs" "env_Key e \<in> set xs" for e
    proof -
      obtain us vs where "xs = us @ env_Key e # vs" using e(2) by (meson split_list)
      with Cons.prems(4) [of us "env_Key e" "vs @ k # ks"] e(1) show ?thesis by auto
    qed
  qed
  then have "progress H envs g sh st ((xs @ [k]) @ ks) s'"
  proof (rule Cons.IH [OF x(3)])
    show "distinct ((xs @ [k]) @ ks)" using Cons.prems(3) by simp
    show "set (succs g k') \<subseteq> set ys" if "(xs @ [k]) @ ks = ys @ k' # zs" "k' \<in> env_Key ` set envs" for ys k' zs
      using Cons.prems(4) [of ys k' zs] that by simp
  qed (rule Cons.prems(5); simp)
  then show ?case by simp
qed (use commit_seq.cases in fastforce)

section \<open>The plan's entries\<close>

lemma map_of_find: "map_of (map (\<lambda>x. (f x, x)) xs) k = find (\<lambda>x. f x = k) xs"
  by (induction xs) auto

lemma entryByKey_find:
  assumes "distinct (map pe_Key (Entries p))"
  shows "map_of (entryByKey p) k = find (\<lambda>x. pe_Key x = k) (Entries p)"
proof -
  have "entryByKey p = rekey (\<lambda>k. k) (map (\<lambda>x. (pe_Key x, x)) (Entries p))"
    by (simp add: entryByKey_def rekey_def fold_map comp_def)
  then have "map_of (entryByKey p) k = map_of (map (\<lambda>x. (pe_Key x, x)) (Entries p)) k"
    using rekey_lookup [of "\<lambda>k. k" k "map (\<lambda>x. (pe_Key x, x)) (Entries p)"] assms by (simp add: comp_def)
  also have "\<dots> = find (\<lambda>x. pe_Key x = k) (Entries p)"
    by (rule map_of_find)
  finally show ?thesis .
qed

lemma own_action_cases: "fst (own_action e x h sh) \<in> {ActionCreate, ActionUpdate, ActionConfigure, ActionNoop}"
  by (simp add: own_action_def Let_def)

lemma plan_entry_fields:
  "pe_SpecHash (plan_entry H m st g sh ch k) = SpecHash H (get_or zero_Envelope m k)"
  "pe_SecretHash (plan_entry H m st g sh ch k) =
     (if env_Kind (get_or zero_Envelope m k) = ''SecretReference'' then get_or [] sh k else [])"
  "pe_Action (plan_entry H m st g sh ch k) \<in> {ActionCreate, ActionUpdate, ActionConfigure, ActionNoop}"
proof -
  let ?e = "get_or zero_Envelope m k"
  let ?oa = "own_action ?e (map_of (st_Resources st) k) (SpecHash H ?e)
    (if env_Kind ?e = ''SecretReference'' then get_or [] sh k else [])"
  obtain a r where oa: "?oa = (a, r)" by fastforce
  then have "a \<in> {ActionCreate, ActionUpdate, ActionConfigure, ActionNoop}" by (metis fst_conv own_action_cases)
  with oa show "pe_Action (plan_entry H m st g sh ch k) \<in> {ActionCreate, ActionUpdate, ActionConfigure, ActionNoop}"
    unfolding plan_entry_def Let_def oa prod.case by (simp split: option.splits)
  show "pe_SpecHash (plan_entry H m st g sh ch k) = SpecHash H ?e"
    "pe_SecretHash (plan_entry H m st g sh ch k) = (if env_Kind ?e = ''SecretReference'' then get_or [] sh k else [])"
    unfolding plan_entry_def Let_def oa prod.case by (simp_all split: option.splits)
qed

lemma planned_entry:
  assumes "Build envs = Inr g" "e \<in> set envs" "p = ComputeWithSecretHashes H envs st g sh"
    "find (\<lambda>x. pe_Key x = env_Key e) (Entries p) = Some x"
  shows "entry_for H envs g sh st e x"
proof -
  let ?mk = "plan_entry H (by_key envs) st g sh" and ?L = "concat (TopologicalLevels g)" and ?k = "env_Key e"
  have wf: "wf_Graph g" by (rule Build_wf [OF assms(1)])
  have "?k \<in> set ?L" using dg.levels_nodes [OF wf] Build_node_keys [OF assms(1)] assms(2) by simp
  then obtain xs ys where L: "?L = xs @ ?k # ys" by (meson split_list)
  have dist: "distinct (xs @ ?k # ys)" using dg.levels_distinct [OF wf] L by simp
  have "?k \<in> set (map pe_Key (plan_loop ?mk ?L []))" using \<open>?k \<in> set ?L\<close> by (simp add: plan_loop_keys)
  then have "find (\<lambda>x. pe_Key x = ?k) (Entries p) = find (\<lambda>x. pe_Key x = ?k) (plan_loop ?mk ?L [])"
    by (simp add: assms(3) ComputeWithSecretHashes_def Let_def find_key_append split: prod.splits)
  also have "\<dots> = Some (?mk (changed_after ?mk xs []) ?k)"
    unfolding L by (rule loop_entry [OF _ dist]) simp
  finally have x: "x = ?mk (changed_after ?mk xs []) ?k" using assms(4) by simp
  have "get_or zero_Envelope (by_key envs) ?k = e" using Build_by_key [OF assms(1,2)] by (simp add: get_or_def)
  moreover have "planned_action p ?k = Some (pe_Action x)" using assms(4) by (simp add: planned_action_def)
  ultimately show ?thesis
    unfolding entry_for_def assms(3) [symmetric] using plan_entry_fields [of H "by_key envs" st g sh "changed_after ?mk xs []" ?k] x
    by simp
qed

lemma planned_orphan:
  assumes "Build envs = Inr g" "k \<notin> env_Key ` set envs" "p = ComputeWithSecretHashes H envs st g sh"
    "find (\<lambda>x. pe_Key x = k) (Entries p) = Some x"
  shows "pe_Action x \<in> {ActionDelete, ActionOrphanUnknown, ActionRefused}"
proof -
  let ?loop = "plan_loop (plan_entry H (by_key envs) st g sh) (concat (TopologicalLevels g)) []"
  obtain levels es where d: "computeApplyDeletes (by_key envs) st = (levels, es)" by fastforce
  have "k \<notin> set (map pe_Key ?loop)"
    using assms(2) dg.levels_nodes [OF Build_wf [OF assms(1)]] Build_node_keys [OF assms(1)]
    by (simp add: plan_loop_keys)
  then have "x \<in> set es"
    using d assms(3,4) by (auto simp: ComputeWithSecretHashes_def Let_def find_map_key find_Some_iff)
  then show ?thesis
    using d by (auto simp: computeApplyDeletes_eq Let_def delete_entry_Action split: option.splits if_splits)
qed

lemma apply_by_key_keeps:
  assumes "map_of (by_key envs) k = Some e"
  shows "map_of (apply_by_key p envs st) k = Some e"
proof -
  have "map_of (fold (\<lambda>x m. if map_of m (pe_Key x) \<noteq> None then m
     else case map_of (st_Resources st) (pe_Key x) of None \<Rightarrow> m
       | Some rs \<Rightarrow> (case rs_LastApplied rs of None \<Rightarrow> m | Some env \<Rightarrow> AList.update (pe_Key x) env m)) xs m) k = Some e"
    if "map_of m k = Some e" for xs :: "Entry list" and m
    by (rule fold_invariant [where P = "\<lambda>m. map_of m k = Some e" and Q = "\<lambda>_. True"])
      (use that in \<open>auto split: option.splits\<close>)
  from this [OF assms] show ?thesis unfolding apply_by_key_def .
qed

section \<open>Apply converges\<close>

text \<open>The fabric step writes only its own field of the state.\<close>

lemma ensureMediationFabric_State:
  "ensureMediationFabric e byKey c = (r, c') \<Longrightarrow> st_Resources (cx_State c') = st_Resources (cx_State c)"
  by (auto simp: ensureMediationFabric_def Let_def dest!: persist_State
      split: option.splits if_splits prod.splits sum.splits)

text \<open>Any run of commits over all planned keys that meets dependencies first ends in sync.\<close>

lemma commits_converge:
  assumes "Build envs = Inr g" "del_invar (absent_resources (by_key envs) st)"
    and p: "p = ComputeWithSecretHashes H envs st g sh"
    and run: "commit_seq heal (apply_by_key p envs st) (graph_deps g) (entryByKey p) ks s s'"
    and start: "st_Resources s = st_Resources st"
    and ks: "distinct ks" "set ks = env_Key ` set envs \<union> fst ` set (st_Resources st)"
    and ord: "\<And>ys k zs. ks = ys @ k # zs \<Longrightarrow> k \<in> env_Key ` set envs \<Longrightarrow> set (succs g k) \<subseteq> set ys"
    and heal: "\<And>e. heal \<Longrightarrow> e \<in> set envs \<Longrightarrow> env_Kind e = ''SecretReference'' \<Longrightarrow> get_or [] sh (env_Key e) \<noteq> []"
  shows "\<not> HasChanges (ComputeWithSecretHashes H envs s' g sh)"
proof -
  have "distinct (map pe_Key (Entries p))" using Compute_keys [OF assms(1,2)] p by blast
  note find = entryByKey_find [OF this]
  have "progress H envs g sh st ([] @ ks) s'"
  proof (rule progress_run [OF run assms(1) _ _ _ _ heal])
    show "progress H envs g sh st [] s" using start by (simp add: progress_def)
    show "distinct ([] @ ks)" using ks(1) by simp
    show "set (succs g k) \<subseteq> set ys" if "[] @ ks = ys @ k # zs" "k \<in> env_Key ` set envs" for ys k zs
      using ord [of ys k zs] that by simp
  next
    fix k x assume x: "k \<in> set ks" "map_of (entryByKey p) k = Some x"
    then have fx: "find (\<lambda>x. pe_Key x = k) (Entries p) = Some x" by (simp add: find)
    then have "pe_Key x = k" by (simp add: find_Some_iff) metis
    moreover have "map_of (apply_by_key p envs st) k = Some e \<and> entry_for H envs g sh st e x"
      if "e \<in> set envs" "env_Key e = k" for e
      using planned_entry [OF assms(1) that(1) p] fx that Build_by_key [OF assms(1) that(1)]
      by (simp add: apply_by_key_keeps)
    moreover have "pe_Action x \<in> {ActionDelete, ActionOrphanUnknown, ActionRefused}" if "k \<notin> env_Key ` set envs"
      by (rule planned_orphan [OF assms(1) that p fx])
    ultimately show "pe_Key x = k \<and>
      (\<forall>e\<in>set envs. env_Key e = k \<longrightarrow> map_of (apply_by_key p envs st) k = Some e \<and> entry_for H envs g sh st e x) \<and>
      (k \<notin> env_Key ` set envs \<longrightarrow> pe_Action x \<in> {ActionDelete, ActionOrphanUnknown, ActionRefused})"
      by blast
  qed
  then have P: "progress H envs g sh st ks s'" by simp
  have none: "k \<in> env_Key ` set envs" if k: "k \<in> fst ` set (st_Resources s')" for k
  proof (rule ccontr)
    assume n: "k \<notin> env_Key ` set envs"
    have some: "map_of (st_Resources s') k \<noteq> None" using k by (simp add: map_of_eq_None_iff)
    with P n have "k \<notin> set ks" by (auto simp: progress_def)
    with P some have "map_of (st_Resources st) k \<noteq> None" by (simp add: progress_def)
    then show False using ks(2) \<open>k \<notin> set ks\<close> by (auto simp: map_of_eq_None_iff)
  qed
  have "absent_resources (by_key envs) s' = []"
    using none by (force simp: absent_resources_def filter_empty_conv by_key_dom)
  then have inv: "del_invar (absent_resources (by_key envs) s')"
    by (simp add: del_invar_def absent_deps_def edge_rel_def acyclic_def)
  have "settled H envs g sh s' e" if "e \<in> set envs" for e
    using P ks(2) that by (simp add: progress_def)
  then have "in_sync H envs s' g sh"
    unfolding in_sync_def settled_def using none by blast
  then show ?thesis by (simp add: no_changes_in_sync [OF assms(1) inv])
qed

lemma planned_dependencies_before:
  assumes "Build envs = Inr g" "del_invar (absent_resources (by_key envs) st)"
    "p = ComputeWithSecretHashes H envs st g sh" "concat (Levels p) = ys @ k # zs" "k \<in> env_Key ` set envs"
    "d \<in> set (Dependencies g k)"
  shows "d \<in> set ys"
proof -
  have wf: "wf_Graph g" by (rule Build_wf [OF assms(1)])
  obtain dl de where "computeApplyDeletes (by_key envs) st = (dl, de)" by fastforce
  then have L: "concat (Levels p) = concat (TopologicalLevels g) @ concat dl"
    by (simp add: assms(3) ComputeWithSecretHashes_def Let_def)
  have "k \<in> set (concat (TopologicalLevels g))"
    using dg.levels_nodes [OF wf] Build_node_keys [OF assms(1)] assms(5) by simp
  then obtain us vs where uv: "concat (TopologicalLevels g) = us @ k # vs" by (meson split_list)
  have dist: "distinct (concat (Levels p))" using Compute_keys [OF assms(1,2), of H sh] assms(3) by metis
  have "us @ k # (vs @ concat dl) = ys @ k # zs" using L uv assms(4) by simp
  moreover have "k \<notin> set us" "k \<notin> set (vs @ concat dl)" using dist L uv by auto
  ultimately have "us = ys" using append_Cons_eq_iff [of k us "vs @ concat dl" ys zs] by blast
  with dg.dependencies_first [OF wf assms(6) uv] show ?thesis by simp
qed

lemma planned_dependencies_first:
  assumes "Build envs = Inr g" "del_invar (absent_resources (by_key envs) st)"
    "p = ComputeWithSecretHashes H envs st g sh" "concat (Levels p) = ys @ k # zs" "k \<in> env_Key ` set envs"
  shows "set (succs g k) \<subseteq> set ys"
  using planned_dependencies_before [OF assms] dg.direct_dependency [OF Build_wf [OF assms(1)]] by blast

lemma Apply_None:
  assumes "Apply e p envs deps w claims = (None, r)" "en_Load e w = Inr st"
  obtains r0 where "apply_keys e (apply_by_key p envs st) deps (entryByKey p) (concat (Levels p)) r0 = (False, r)"
    "res_Failed (run_res r) = []" "run_blocked r0 = []" "st_Resources (cx_State (run_ctx r0)) = st_Resources st"
proof -
  obtain err c where f: "ensureMediationFabric e (apply_by_key p envs st)
      \<lparr>cx_World = w, cx_Claims = claims, cx_State = st\<rparr> = (err, c)" by fastforce
  note fs = ensureMediationFabric_State [OF f]
  let ?r0 = "\<lparr>run_ctx = c, run_res = empty_Result, run_blocked = []\<rparr>"
  obtain h r1 where k: "apply_keys e (apply_by_key p envs st) deps (entryByKey p) (concat (Levels p)) ?r0 = (h, r1)" by fastforce
  from assms f k have "err = None" "finish_apply h r1 = None" "r1 = r"
    by (auto simp: Apply_def Let_def apply_levels_concat split: option.splits)
  with k fs show thesis
    by (intro that [of ?r0]) (auto simp: finish_apply_def Let_def split: if_splits)
qed

text \<open>
  C1: convergence. When \<open>Apply\<close> returns without an error on the plan computed from the state
  it loads, planning again from the state it leaves finds nothing to do: every desired resource is
  recorded with its specification, secret and dependency fingerprints, and every recorded resource
  that is no longer desired is gone. With drift healing this needs a fingerprint for every
  SecretReference, which \<open>SecretHashes\<close> provides.
\<close>

theorem Apply_converges:
  assumes "Build envs = Inr g" "en_Load e w = Inr st" "del_invar (absent_resources (by_key envs) st)"
    and "p = ComputeWithSecretHashes H envs st g sh"
    and "en_HealDrift e \<longrightarrow> (\<forall>env\<in>set envs. env_Kind env = ''SecretReference'' \<longrightarrow> get_or [] sh (env_Key env) \<noteq> [])"
    and "Apply e p envs (graph_deps g) w claims = (None, r)"
  shows "\<not> HasChanges (ComputeWithSecretHashes H envs (cx_State (run_ctx r)) g sh)"
proof -
  obtain r0 where r0: "apply_keys e (apply_by_key p envs st) (graph_deps g) (entryByKey p) (concat (Levels p)) r0 = (False, r)"
    "res_Failed (run_res r) = []" "run_blocked r0 = []" "st_Resources (cx_State (run_ctx r0)) = st_Resources st"
    by (rule Apply_None [OF assms(6,2)]) (rule that)
  note keys = Compute_keys [OF assms(1,3), of H sh, folded assms(4)]
  have levels: "distinct (concat (Levels p))" "set (concat (Levels p)) = env_Key ` set envs \<union> fst ` set (st_Resources st)"
    "map pe_Key (Entries p) = concat (Levels p)"
    using keys by metis+
  have "\<exists>x. map_of (entryByKey p) k = Some x \<and> pe_Key x = k" if "k \<in> set (concat (Levels p))" for k
  proof -
    have d: "distinct (map pe_Key (Entries p))" using levels(1,3) by simp
    from that obtain x where x: "x \<in> set (Entries p)" "pe_Key x = k"
      unfolding levels(3) [symmetric] by auto
    with find_key_unique [OF d x(1)] show ?thesis by (auto simp: entryByKey_find [OF d])
  qed
  from apply_keys_commits [OF r0(1-3) this] have
    run: "commit_seq (en_HealDrift e) (apply_by_key p envs st) (graph_deps g) (entryByKey p) (concat (Levels p))
      (cx_State (run_ctx r0)) (cx_State (run_ctx r))" by blast
  show ?thesis
  proof (rule commits_converge [OF assms(1,3,4) run r0(4) levels(1,2)])
    show "get_or [] sh (env_Key env) \<noteq> []" if "en_HealDrift e" "env \<in> set envs" "env_Kind env = ''SecretReference''" for env
      using assms(5) that by blast
    show "set (succs g k) \<subseteq> set ys" if "concat (Levels p) = ys @ k # zs" "k \<in> env_Key ` set envs" for ys k zs
      by (rule planned_dependencies_first [OF assms(1,3,4) that])
  qed
qed

definition sample_platform :: "Envelope list" where
  "sample_platform = [sample_secret]"

definition sample_old :: Envelope where
  "sample_old = sample_env ''SecretReference'' ''old''"

definition sample_loaded :: State where
  "sample_loaded = zero_State\<lparr>st_Resources := [(env_Key sample_old, zero_ResourceState\<lparr>rs_LastApplied := Some sample_old\<rparr>)]\<rparr>"

definition memory_engine :: "(file_system, unit) Engine" where
  "memory_engine = sample_engine\<lparr>en_Load := (\<lambda>_. Inr sample_loaded), en_Save := (\<lambda>_ fs. (None, fs)), en_Digest := (\<lambda>_. ''h'')\<rparr>"

definition platform_graph :: Graph where
  "platform_graph = (case Build sample_platform of Inr g \<Rightarrow> g)"

definition platform_plan :: Plan where
  "platform_plan = ComputeWithSecretHashes (\<lambda>_. ''h'') sample_platform sample_loaded platform_graph []"

definition platform_run :: "run_error option \<times> file_system run" where
  "platform_run = Apply memory_engine platform_plan sample_platform (graph_deps platform_graph) empty_fs []"

lemma platform_run_ok: "fst platform_run = None"
  by code_simp

lemma platform_Build: "Build sample_platform = Inr platform_graph"
proof -
  have "\<not> isl (Build sample_platform)" by code_simp
  then show ?thesis by (cases "Build sample_platform") (simp_all add: platform_graph_def)
qed

lemma sample_loaded_invar: "del_invar (absent_resources (by_key sample_platform) sample_loaded)"
proof -
  let ?a = "absent_resources (by_key sample_platform) sample_loaded"
  have "absent_deps ?a k = []" for k
    by (simp add: sample_loaded_def absent_resources_def absent_deps_def zero_ResourceState_def get_or_def)
  moreover have "distinct (map fst ?a)" by (simp add: sample_loaded_def absent_resources_def)
  ultimately show ?thesis by (simp add: del_invar_def edge_rel_def acyclic_def)
qed

theorem Apply_converges_witness:
  "\<not> HasChanges (ComputeWithSecretHashes (\<lambda>_. ''h'') sample_platform (cx_State (run_ctx (snd platform_run))) platform_graph []) \<and>
   res_Succeeded (run_res (snd platform_run)) = [env_Key sample_secret, env_Key sample_old]"
proof
  have "Apply memory_engine platform_plan sample_platform (graph_deps platform_graph) empty_fs [] = (None, snd platform_run)"
    using platform_run_ok by (metis prod.collapse platform_run_def)
  then show "\<not> HasChanges (ComputeWithSecretHashes (\<lambda>_. ''h'') sample_platform (cx_State (run_ctx (snd platform_run))) platform_graph [])"
    by (intro Apply_converges [OF platform_Build _ sample_loaded_invar platform_plan_def])
      (simp_all add: memory_engine_def sample_engine_def)
  show "res_Succeeded (run_res (snd platform_run)) = [env_Key sample_secret, env_Key sample_old]"
    by code_simp
qed

end
