(* ===== verification/Engine_Safety.thy ===== *)
theory Engine_Safety
  imports Convergence State_Backends
begin

text \<open>
  What a run guarantees when something fails: which resources are reported where, what is left
  alone, and what is on disk after each step.
\<close>

section \<open>The outcome of one entry\<close>

lemma skip_sel [simp]: "run_ctx (skip k r) = run_ctx r" "run_blocked (skip k r) = run_blocked r"
  "run_res (skip k r) = (run_res r)\<lparr>res_Skipped := res_Skipped (run_res r) @ [k]\<rparr>"
  by (simp_all add: skip_def)

lemma succeed_sel [simp]: "run_ctx (succeed k c r) = c" "run_blocked (succeed k c r) = run_blocked r"
  "run_res (succeed k c r) = (run_res r)\<lparr>res_Succeeded := res_Succeeded (run_res r) @ [k]\<rparr>"
  by (simp_all add: succeed_def)

lemma fail_sel [simp]: "run_ctx (fail k err bl c r) = c" "run_blocked (fail k err bl c r) = bl @ run_blocked r"
  "run_res (fail k err bl c r) = (run_res r)\<lparr>res_Failed := AList.update k err (res_Failed (run_res r))\<rparr>"
  by (simp_all add: fail_def)

text \<open>Only the entry of the handled key may change.\<close>

definition only_at :: "Key \<Rightarrow> State \<Rightarrow> State \<Rightarrow> bool" where
  "only_at k s s' \<longleftrightarrow> (\<forall>k'. k' \<noteq> k \<longrightarrow> map_of (st_Resources s') k' = map_of (st_Resources s) k')"

lemma only_at_refl [simp]: "only_at k s s"
  by (simp add: only_at_def)

lemma only_at_delete [simp]: "only_at k s (delete_resource k s)"
  by (simp add: only_at_def delete_conv')

lemma only_at_record: "only_at k s (recordDependencyHashes k deps (put_resource k rs s))"
  by (simp add: only_at_def recordDependencyHashes_def)

lemma reconciled_only_at: "reconciled entry env deps s s' \<Longrightarrow> only_at (env_Key env) s s'"
  unfolding reconciled_def Let_def by (elim exE conjE) (simp add: only_at_record)

lemma step_ok_only_at:
  assumes "step_ok e done c (err, c')" "\<And>s s'. done s s' \<Longrightarrow> only_at k s s'"
  shows "only_at k (cx_State c) (cx_State c')"
  using assms by (auto simp: step_ok_def split: option.splits)

lemma run_step_outcome:
  assumes "pe_Action entry \<noteq> ActionDelete \<Longrightarrow> env_Key env = k" "pe_Key entry = k"
  shows "(\<exists>err c. run_step e byKey deps k entry env r = fail k err (dg_Dependents deps k) c r \<and>
      only_at k (cx_State (run_ctx r)) (cx_State c)) \<or>
    (\<exists>c. run_step e byKey deps k entry env r = succeed k c r \<and> only_at k (cx_State (run_ctx r)) (cx_State c))"
proof -
  obtain err c where s: "(if pe_Action entry = ActionDelete then applyDeleteOne e entry env byKey (run_ctx r)
      else reconcileOne e entry env byKey (Some deps) (run_ctx r)) = (err, c)" by fastforce
  have "only_at k (cx_State (run_ctx r)) (cx_State c)"
  proof (cases "pe_Action entry = ActionDelete")
    case True
    with s have "step_ok e (\<lambda>s s'. s' = delete_resource (pe_Key entry) s) (run_ctx r) (err, c)"
      by (metis applyDeleteOne_step)
    then show ?thesis by (rule step_ok_only_at) (use assms(2) in auto)
  next
    case False
    with s have "step_ok e (reconciled entry env (Some deps)) (run_ctx r) (err, c)" by (metis reconcileOne_step)
    then show ?thesis by (rule step_ok_only_at) (use reconciled_only_at assms(1) False in metis)
  qed
  then show ?thesis unfolding run_step_def s by (cases err) auto
qed

text \<open>The four ways an entry can end.\<close>

lemma processEntry_outcome:
  assumes "\<And>env. map_of byKey k = Some env \<Longrightarrow>
      pe_Action entry \<notin> {ActionDelete, ActionOrphanUnknown, ActionRefused} \<Longrightarrow> env_Key env = k" "pe_Key entry = k"
    "r' = processEntry e byKey deps k entry r"
  obtains (skipped) "k \<in> set (run_blocked r)" "r' = skip k r"
    | (failed) err bl c where "k \<notin> set (run_blocked r)" "r' = fail k err bl c r"
        "only_at k (cx_State (run_ctx r)) (cx_State c)" "bl = [] \<or> bl = dg_Dependents deps k"
        "pe_Action entry \<notin> {ActionOrphanUnknown, ActionRefused} \<Longrightarrow> map_of byKey k \<noteq> None \<Longrightarrow> bl = dg_Dependents deps k"
    | (succeeded) c where "k \<notin> set (run_blocked r)" "r' = succeed k c r" "only_at k (cx_State (run_ctx r)) (cx_State c)"
    | (untouched) c where "k \<notin> set (run_blocked r)" "r' = r\<lparr>run_ctx := c\<rparr>" "cx_State c = cx_State (run_ctx r)"
        "pe_Action entry = ActionNoop"
proof -
  have step: thesis if nb: "k \<notin> set (run_blocked r)" and m: "map_of byKey k = Some env" and
    a: "pe_Action entry \<notin> {ActionOrphanUnknown, ActionRefused}" and
    c: "cx_State c = cx_State (run_ctx r)" and r': "r' = run_step e byKey deps k entry env (r\<lparr>run_ctx := c\<rparr>)" for env c
  proof -
    have "(\<exists>err c'. run_step e byKey deps k entry env (r\<lparr>run_ctx := c\<rparr>) = fail k err (dg_Dependents deps k) c' (r\<lparr>run_ctx := c\<rparr>) \<and>
        only_at k (cx_State (run_ctx (r\<lparr>run_ctx := c\<rparr>))) (cx_State c')) \<or>
      (\<exists>c'. run_step e byKey deps k entry env (r\<lparr>run_ctx := c\<rparr>) = succeed k c' (r\<lparr>run_ctx := c\<rparr>) \<and>
        only_at k (cx_State (run_ctx (r\<lparr>run_ctx := c\<rparr>))) (cx_State c'))"
      by (rule run_step_outcome) (use assms(1,2) m a in blast)+
    then show thesis
    proof (elim disjE exE conjE)
      fix err c' assume "run_step e byKey deps k entry env (r\<lparr>run_ctx := c\<rparr>) = fail k err (dg_Dependents deps k) c' (r\<lparr>run_ctx := c\<rparr>)"
        "only_at k (cx_State (run_ctx (r\<lparr>run_ctx := c\<rparr>))) (cx_State c')"
      then show thesis using nb r' c by (intro failed [of err "dg_Dependents deps k" c']) (simp_all add: fail_def)
    next
      fix c' assume "run_step e byKey deps k entry env (r\<lparr>run_ctx := c\<rparr>) = succeed k c' (r\<lparr>run_ctx := c\<rparr>)"
        "only_at k (cx_State (run_ctx (r\<lparr>run_ctx := c\<rparr>))) (cx_State c')"
      then show thesis using nb r' c by (intro succeeded [of c']) (simp_all add: succeed_def)
    qed
  qed
  show thesis
  proof (cases "k \<in> set (run_blocked r)")
    case True
    then show ?thesis using assms(3) by (intro skipped) (simp_all add: processEntry_def)
  next
    case nb: False
    consider (orphan) "pe_Action entry \<in> {ActionOrphanUnknown, ActionRefused}"
      | (none) "pe_Action entry \<notin> {ActionOrphanUnknown, ActionRefused}" "map_of byKey k = None"
      | (act) env where "pe_Action entry \<notin> {ActionOrphanUnknown, ActionRefused, ActionNoop}" "map_of byKey k = Some env"
      | (noop) env where "pe_Action entry = ActionNoop" "map_of byKey k = Some env"
      by (cases "map_of byKey k") auto
    then show ?thesis
    proof cases
      case orphan
      then obtain err where "r' = fail k err [] (run_ctx r) r" using nb assms(3) by (auto simp: processEntry_def)
      then show ?thesis using nb orphan by (intro failed [of err "[]" "run_ctx r"]) auto
    next
      case none
      then have "r' = fail k (NoManifest k (pe_Action entry)) [] (run_ctx r) r" using nb assms(3) by (auto simp: processEntry_def)
      then show ?thesis using nb none by (intro failed) auto
    next
      case act
      then show ?thesis using nb assms(3) by (intro step [of env "run_ctx r"]) (auto simp: processEntry_def)
    next
      case noop
      obtain probed c where p: "probeOne e env byKey (Some (cx_State (run_ctx r))) (run_ctx r) = (probed, c)" by fastforce
      then have c: "cx_State c = cx_State (run_ctx r)" unfolding probeOne_def by (rule probe_State)
      have "r' = r \<or> r' = r\<lparr>run_ctx := c\<rparr> \<or> r' = run_step e byKey deps k entry env (r\<lparr>run_ctx := c\<rparr>)"
        using assms(3) nb noop p by (auto simp: processEntry_def split: option.splits)
      then show ?thesis
      proof (elim disjE)
        assume "r' = r"
        then show ?thesis using nb noop by (intro untouched [of "run_ctx r"]) simp_all
      next
        assume "r' = r\<lparr>run_ctx := c\<rparr>"
        then show ?thesis using nb noop c by (intro untouched [of c]) simp_all
      next
        assume "r' = run_step e byKey deps k entry env (r\<lparr>run_ctx := c\<rparr>)"
        then show ?thesis by (intro step [OF nb noop(2) _ c]) (use noop(1) in simp_all)
      qed
    qed
  qed
qed

section \<open>Failures stay contained\<close>

abbreviation run_state :: "'w run \<Rightarrow> State" where
  "run_state r \<equiv> cx_State (run_ctx r)"

abbreviation succeeded_keys :: "'w run \<Rightarrow> Key set" where
  "succeeded_keys r \<equiv> set (res_Succeeded (run_res r))"

abbreviation failed_keys :: "'w run \<Rightarrow> Key set" where
  "failed_keys r \<equiv> fst ` set (res_Failed (run_res r))"

abbreviation skipped_keys :: "'w run \<Rightarrow> Key set" where
  "skipped_keys r \<equiv> set (res_Skipped (run_res r))"

text \<open>
  The bookkeeping of a run over the handled keys \<open>X\<close>: what succeeded, failed, was skipped and is
  blocked, for dependents \<open>D\<close>, desired keys \<open>E\<close> and planned changes \<open>C\<close>.
\<close>

definition books ::
  "(Key \<Rightarrow> Key set) \<Rightarrow> Key set \<Rightarrow> Key set \<Rightarrow> Key set \<Rightarrow> Key set \<Rightarrow> Key set \<Rightarrow> Key set \<Rightarrow> Key set \<Rightarrow> bool" where
  "books D E C X S F K B \<longleftrightarrow> S \<union> F \<union> K \<subseteq> X \<and> S \<inter> F = {} \<and> S \<inter> K = {} \<and> F \<inter> K = {} \<and>
     (\<forall>k\<in>F \<inter> E. D k \<subseteq> B) \<and> B \<inter> X \<subseteq> K \<and> K \<subseteq> B \<and> B \<subseteq> (\<Union>k\<in>F. D k) \<and> X \<inter> C \<subseteq> S \<union> F \<union> K"

lemma books_start: "books D E C {} {} {} {} {}"
  by (simp add: books_def)

lemma books_skip: "books D E C X S F K B \<Longrightarrow> k \<notin> X \<Longrightarrow> k \<in> B \<Longrightarrow> books D E C (insert k X) S F (insert k K) B"
  unfolding books_def by (elim conjE, intro conjI) (blast | auto)+

lemma books_fail:
  assumes b: "books D E C X S F K B" and k: "k \<notin> X" "k \<notin> B"
    and bl: "bl \<subseteq> D k" "k \<in> E \<Longrightarrow> bl = D k" and later: "D k \<inter> insert k X = {}"
  shows "books D E C (insert k X) S (insert k F) K (bl \<union> B)"
proof -
  have "\<forall>j\<in>insert k F \<inter> E. D j \<subseteq> bl \<union> B" using b bl(2) by (auto simp: books_def)
  moreover have "(bl \<union> B) \<inter> insert k X \<subseteq> K"
  proof -
    have "bl \<inter> insert k X = {}" using bl(1) later by blast
    moreover have "B \<inter> insert k X \<subseteq> K" using b k(2) unfolding books_def by blast
    ultimately show ?thesis by blast
  qed
  moreover have "S \<inter> insert k F = {}" "insert k F \<inter> K = {}" "S \<union> insert k F \<union> K \<subseteq> insert k X"
    using b k unfolding books_def by (elim conjE; blast)+
  moreover have "bl \<union> B \<subseteq> (\<Union>j\<in>insert k F. D j)" using b bl(1) by (auto simp: books_def)
  ultimately show ?thesis using b unfolding books_def by (elim conjE, intro conjI) (assumption | blast)+
qed

lemma books_succeed: "books D E C X S F K B \<Longrightarrow> k \<notin> X \<Longrightarrow> k \<notin> B \<Longrightarrow> books D E C (insert k X) (insert k S) F K B"
  unfolding books_def by (elim conjE, intro conjI) (blast | auto)+

lemma books_noop: "books D E C X S F K B \<Longrightarrow> k \<notin> B \<Longrightarrow> k \<notin> C \<Longrightarrow> books D E C (insert k X) S F K B"
  unfolding books_def by (elim conjE, intro conjI) (blast | auto)+

lemma books_result:
  assumes "books D E C X S F K B" "\<And>k. D k \<subseteq> X"
  shows "X \<inter> C \<subseteq> S \<union> F \<union> K \<and> S \<inter> F = {} \<and> S \<inter> K = {} \<and> F \<inter> K = {} \<and>
    (\<forall>k\<in>F. k \<in> E \<longrightarrow> D k \<subseteq> K) \<and> (\<forall>d\<in>K. \<exists>k\<in>F. d \<in> D k)"
proof -
  have b: "S \<inter> F = {}" "S \<inter> K = {}" "F \<inter> K = {}" "\<forall>k\<in>F \<inter> E. D k \<subseteq> B" "B \<inter> X \<subseteq> K" "K \<subseteq> B"
    "B \<subseteq> (\<Union>k\<in>F. D k)" "X \<inter> C \<subseteq> S \<union> F \<union> K"
    using assms(1) unfolding books_def by - (elim conjE, assumption)+
  have "D k \<subseteq> K" if "k \<in> F" "k \<in> E" for k
    using b(4,5) assms(2) [of k] that by blast
  moreover have "\<exists>k\<in>F. d \<in> D k" if "d \<in> K" for d
    using b(6,7) that by blast
  ultimately show ?thesis using b(1-3,8) by (intro conjI ballI impI) assumption+
qed

definition accounted :: "Envelope list \<Rightarrow> Graph \<Rightarrow> Plan \<Rightarrow> State \<Rightarrow> Key list \<Rightarrow> 'w run \<Rightarrow> bool" where
  "accounted envs g p st xs r \<longleftrightarrow>
     books (\<lambda>k. set (Dependents g k)) (env_Key ` set envs) {k. planned_action p k \<noteq> Some ActionNoop} (set xs)
       (succeeded_keys r) (failed_keys r) (skipped_keys r) (set (run_blocked r)) \<and>
     (\<forall>k. k \<notin> succeeded_keys r \<union> failed_keys r \<longrightarrow>
        map_of (st_Resources (run_state r)) k = map_of (st_Resources st) k)"

lemma failed_keys_update: "fst ` set (AList.update k v xs) = insert k (fst ` set xs)"
  by (simp add: dom_update [unfolded dom_map_of_conv_image_fst])

lemma accounted_step:
  assumes inv: "accounted envs g p st xs r" and k: "k \<notin> set xs" "pe_Key entry = k"
    and r': "r' = processEntry e byKey (graph_deps g) k entry r"
    and act: "planned_action p k = Some (pe_Action entry)"
    and byKey: "\<And>env. map_of byKey k = Some env \<Longrightarrow>
      pe_Action entry \<notin> {ActionDelete, ActionOrphanUnknown, ActionRefused} \<Longrightarrow> env_Key env = k"
    and desired: "k \<in> env_Key ` set envs \<Longrightarrow>
      map_of byKey k \<noteq> None \<and> pe_Action entry \<notin> {ActionOrphanUnknown, ActionRefused}"
    and later: "set (Dependents g k) \<inter> set (xs @ [k]) = {}"
  shows "accounted envs g p st (xs @ [k]) r'"
proof (rule processEntry_outcome [OF byKey k(2) r'], assumption, assumption)
  note bk = inv [unfolded accounted_def, THEN conjunct1]
  have X: "set (xs @ [k]) = insert k (set xs)" by auto
  have st: "map_of (st_Resources s') k' = map_of (st_Resources st) k'"
    if "only_at k (run_state r) s'" "k' \<noteq> k" "k' \<notin> succeeded_keys r \<union> failed_keys r" for s' k'
    using inv that by (simp add: accounted_def only_at_def)
  note old = inv [unfolded accounted_def, THEN conjunct2]
  {
    assume "k \<in> set (run_blocked r)" "r' = skip k r"
    with books_skip [OF bk k(1)] old show ?thesis unfolding accounted_def X by simp
  next
    fix err bl c
    assume f: "k \<notin> set (run_blocked r)" "r' = fail k err bl c r" "only_at k (run_state r) (cx_State c)"
      "bl = [] \<or> bl = dg_Dependents (graph_deps g) k"
      "pe_Action entry \<notin> {ActionOrphanUnknown, ActionRefused} \<Longrightarrow> map_of byKey k \<noteq> None \<Longrightarrow>
        bl = dg_Dependents (graph_deps g) k"
    have "set bl \<subseteq> set (Dependents g k)" using f(4) by (auto simp: graph_deps_def)
    moreover have "set bl = set (Dependents g k)" if "k \<in> env_Key ` set envs"
      using desired [OF that] f(5) by (simp add: graph_deps_def)
    ultimately have "books (\<lambda>k. set (Dependents g k)) (env_Key ` set envs) {k. planned_action p k \<noteq> Some ActionNoop}
       (insert k (set xs)) (succeeded_keys r) (insert k (failed_keys r)) (skipped_keys r) (set bl \<union> set (run_blocked r))"
      using later by (intro books_fail [OF bk k(1) f(1)]) simp_all
    then show ?thesis
      using st [OF f(3)] f(2) unfolding accounted_def X by (simp add: failed_keys_update)
  next
    fix c assume s: "k \<notin> set (run_blocked r)" "r' = succeed k c r" "only_at k (run_state r) (cx_State c)"
    with books_succeed [OF bk k(1) s(1)] st [OF s(3)] show ?thesis unfolding accounted_def X by simp
  next
    fix c assume u: "k \<notin> set (run_blocked r)" "r' = r\<lparr>run_ctx := c\<rparr>" "cx_State c = run_state r" "pe_Action entry = ActionNoop"
    with books_noop [OF bk u(1)] act old show ?thesis unfolding accounted_def X by simp
  }
qed

text \<open>The entries of a plan, as the executor meets them.\<close>

definition entry_ok :: "Envelope list \<Rightarrow> Plan \<Rightarrow> (Key \<times> Envelope) list \<Rightarrow> Key \<Rightarrow> Entry \<Rightarrow> bool" where
  "entry_ok envs p byKey k x \<longleftrightarrow> pe_Key x = k \<and> planned_action p k = Some (pe_Action x) \<and>
     (\<forall>env. map_of byKey k = Some env \<and> pe_Action x \<notin> {ActionDelete, ActionOrphanUnknown, ActionRefused} \<longrightarrow>
        env_Key env = k) \<and>
     (k \<in> env_Key ` set envs \<longrightarrow> map_of byKey k \<noteq> None \<and> pe_Action x \<notin> {ActionDelete, ActionOrphanUnknown, ActionRefused})"

lemma entry_ok_planned:
  assumes "Build envs = Inr g" "del_invar (absent_resources (by_key envs) st)"
    and p: "p = ComputeWithSecretHashes H envs st g sh" and k: "k \<in> set (concat (Levels p))"
  shows "\<exists>x. map_of (entryByKey p) k = Some x \<and> entry_ok envs p (apply_by_key p envs st) k x"
proof -
  have keys: "distinct (map pe_Key (Entries p))" "map pe_Key (Entries p) = concat (Levels p)"
    using Compute_keys [OF assms(1,2)] p by blast+
  from k obtain x where x: "x \<in> set (Entries p)" "pe_Key x = k" unfolding keys(2) [symmetric] by auto
  have f: "find (\<lambda>x. pe_Key x = k) (Entries p) = Some x" using find_key_unique [OF keys(1) x(1)] x(2) by simp
  have "entry_ok envs p (apply_by_key p envs st) k x"
  proof (cases "k \<in> env_Key ` set envs")
    case True
    then obtain e where e: "e \<in> set envs" "env_Key e = k" by blast
    have "entry_for H envs g sh st e x" by (rule planned_entry [OF assms(1) e(1) p]) (use f e(2) in simp)
    moreover have "map_of (apply_by_key p envs st) k = Some e"
      using Build_by_key [OF assms(1) e(1)] e(2) by (simp add: apply_by_key_keeps)
    ultimately show ?thesis using e(2) x(2) p by (auto simp: entry_ok_def entry_for_def)
  next
    case False
    with planned_orphan [OF assms(1) False p f] x(2) f show ?thesis
      by (auto simp: entry_ok_def planned_action_def)
  qed
  then show ?thesis using f by (auto simp: entryByKey_find [OF keys(1)])
qed

lemma accounted_run:
  assumes "\<not> en_HaltOnError e" "apply_keys e byKey (graph_deps g) entries ks r = (h, r')"
    "accounted envs g p st xs r" "distinct (xs @ ks)"
    and entry: "\<And>k. k \<in> set ks \<Longrightarrow> \<exists>x. map_of entries k = Some x \<and> entry_ok envs p byKey k x"
    and later: "\<And>ys k zs. xs @ ks = ys @ k # zs \<Longrightarrow> set (Dependents g k) \<inter> set (ys @ [k]) = {}"
  shows "accounted envs g p st (xs @ ks) r' \<and> \<not> h"
  using assms(2-)
proof (induction ks arbitrary: xs r)
  case (Cons k ks)
  obtain x where x: "map_of entries k = Some x" "entry_ok envs p byKey k x" using Cons.prems(4) by auto
  have "accounted envs g p st (xs @ [k]) (processEntry e byKey (graph_deps g) k x r)"
    by (rule accounted_step [OF Cons.prems(2) _ _ refl])
      (use x(2) Cons.prems(3) Cons.prems(5) [of xs k ks] in \<open>auto simp: entry_ok_def\<close>)
  moreover have "apply_keys e byKey (graph_deps g) entries ks (processEntry e byKey (graph_deps g) k x r) = (h, r')"
    using Cons.prems(1) x(1) assms(1) by (simp add: Let_def)
  ultimately have "accounted envs g p st ((xs @ [k]) @ ks) r' \<and> \<not> h"
  proof (intro Cons.IH)
    show "distinct ((xs @ [k]) @ ks)" using Cons.prems(3) by simp
    show "\<exists>x. map_of entries k' = Some x \<and> entry_ok envs p byKey k' x" if "k' \<in> set ks" for k'
      using Cons.prems(4) that by simp
    show "set (Dependents g k') \<inter> set (ys @ [k']) = {}" if "(xs @ [k]) @ ks = ys @ k' # zs" for ys k' zs
      using Cons.prems(5) [of ys k' zs] that by simp
  qed
  then show ?case by simp
qed simp

text \<open>Dependents come later: nothing handled so far depends on the key at hand.\<close>

lemma planned_dependents_later:
  assumes "Build envs = Inr g" "del_invar (absent_resources (by_key envs) st)"
    "p = ComputeWithSecretHashes H envs st g sh" "concat (Levels p) = ys @ k # zs"
  shows "set (Dependents g k) \<inter> set (ys @ [k]) = {}"
proof -
  have wf: "wf_Graph g" by (rule Build_wf [OF assms(1)])
  have dist: "distinct (concat (Levels p))" using Compute_keys [OF assms(1,2), of H sh] assms(3) by metis
  have "d \<notin> set (ys @ [k])" if d: "d \<in> set (Dependents g k)" for d
  proof
    assume "d \<in> set (ys @ [k])"
    moreover have "d \<noteq> k" using d dg.not_own_dependency [OF wf] dg.duality [OF wf] by blast
    ultimately obtain us vs where u: "ys = us @ d # vs" by (auto dest: split_list)
    have "(d, k) \<in> (edge_rel (succs g))\<^sup>+" using d by (simp add: dg.dependents_trancl [OF wf])
    then obtain y where y: "y \<in> set (succs g d)" by (auto simp: edge_rel_def elim: tranclE dest: tranclD)
    then have dn: "d \<in> env_Key ` set envs"
      using closed_succs_source wf Build_node_keys [OF assms(1)] by (auto simp: wf_Graph_def)
    have "k \<in> set us"
      by (rule planned_dependencies_before [OF assms(1-3) _ dn]) (use d dg.duality [OF wf] assms(4) u in auto)
    with dist assms(4) u show False by auto
  qed
  then show ?thesis by blast
qed

lemma Apply_run:
  assumes "Apply e p envs deps w claims = (err, r)" "en_Load e w = Inr st" "\<And>x. err \<noteq> Some (RunError x)"
  obtains r0 h where "apply_keys e (apply_by_key p envs st) deps (entryByKey p) (concat (Levels p)) r0 = (h, r)"
    "run_res r0 = empty_Result" "run_blocked r0 = []" "st_Resources (run_state r0) = st_Resources st"
proof -
  obtain ferr c where f: "ensureMediationFabric e (apply_by_key p envs st)
      \<lparr>cx_World = w, cx_Claims = claims, cx_State = st\<rparr> = (ferr, c)" by fastforce
  note fs = ensureMediationFabric_State [OF f]
  let ?r0 = "\<lparr>run_ctx = c, run_res = empty_Result, run_blocked = []\<rparr>"
  obtain h r1 where k: "apply_keys e (apply_by_key p envs st) deps (entryByKey p) (concat (Levels p)) ?r0 = (h, r1)" by fastforce
  from assms f k have "ferr = None" "r1 = r"
    by (auto simp: Apply_def Let_def apply_levels_concat split: option.splits)
  with k fs show thesis by (intro that [of ?r0 h]) simp_all
qed


text \<open>A platform whose one secret cannot be resolved.\<close>

definition broken_platform :: "Envelope list" where
  "broken_platform = [sample_pg, sample_secret]"

definition broken_engine :: "(file_system, unit) Engine" where
  "broken_engine = memory_engine\<lparr>en_Load := (\<lambda>_. Inr zero_State),
     en_SecretStore := Some \<lparr>ss_Resolve = (\<lambda>_ w. (Inl [], w)), ss_Preflight = (\<lambda>_ w. (None, w))\<rparr>\<rparr>"

definition broken_graph :: Graph where
  "broken_graph = (case Build broken_platform of Inr g \<Rightarrow> g)"

definition broken_run :: "run_error option \<times> file_system run" where
  "broken_run = Apply broken_engine
     (ComputeWithSecretHashes (\<lambda>_. ''h'') broken_platform zero_State broken_graph []) broken_platform
     (graph_deps broken_graph) empty_fs []"

lemma broken_Build: "Build broken_platform = Inr broken_graph"
proof -
  have "\<not> isl (Build broken_platform)" by code_simp
  then show ?thesis by (cases "Build broken_platform") (simp_all add: broken_graph_def)
qed

lemma broken_run_err: "fst broken_run = Some (SomeFailed 1 None)"
  by code_simp

lemma broken_run_failed: "map fst (res_Failed (run_res (snd broken_run))) = [env_Key sample_secret]"
  by code_simp


section \<open>Deletions by apply do not block one another\<close>

text \<open>Two recorded resources that the manifests no longer hold: a protected one, realised from the other.\<close>

definition guarded_env :: Envelope where
  "guarded_env = (sample_env ''SecretReference'' ''guarded'')
     \<lparr>env_Metadata := (env_Metadata (sample_env ''SecretReference'' ''guarded''))\<lparr>md_Protect := True\<rparr>\<rparr>"

definition orphan_row :: ResourceState where
  "orphan_row = zero_ResourceState\<lparr>rs_LastApplied := Some guarded_env, rs_Dependencies := [env_Key sample_old]\<rparr>"

definition orphaned_state :: State where
  "orphaned_state = zero_State\<lparr>st_Resources :=
     [(env_Key guarded_env, orphan_row),
      (env_Key sample_old, zero_ResourceState\<lparr>rs_LastApplied := Some sample_old\<rparr>)]\<rparr>"

definition orphan_engine :: "(file_system, unit) Engine" where
  "orphan_engine = memory_engine\<lparr>en_Load := (\<lambda>_. Inr orphaned_state)\<rparr>"

definition orphan_run :: "run_error option \<times> file_system run" where
  "orphan_run = Apply orphan_engine (Compute (\<lambda>_. ''h'') [] orphaned_state (case Build [] of Inr g \<Rightarrow> g)) []
     (graph_deps (case Build [] of Inr g \<Rightarrow> g)) empty_fs []"

text \<open>
  An authoritative apply can leave a protected resource without what it is realised from:
  there is a run in which a recorded resource is refused, hence kept, and a resource it depends on
  is deleted in the same run. \<open>Destroy\<close> blocks the dependencies of what it could not remove;
  \<open>Apply\<close> blocks only dependents, and only those of the desired graph.
\<close>

theorem Apply_deletes_below_refused:
  "\<exists>(e :: (file_system, unit) Engine) g st w r a b rs. Build [] = Inr g \<and> en_Load e w = Inr st \<and>
     Apply e (Compute (\<lambda>_. ''h'') [] st g) [] (graph_deps g) w [] = (Some (SomeFailed 1 None), r) \<and>
     map_of (st_Resources (cx_State (run_ctx r))) a = Some rs \<and> b \<in> set (rs_Dependencies rs) \<and>
     map_of (st_Resources st) b \<noteq> None \<and> map_of (st_Resources (cx_State (run_ctx r))) b = None"
proof -
  have "\<not> isl (Build [])" by code_simp
  then obtain g where g: "Build [] = Inr g" by (cases "Build []") auto
  have run: "fst orphan_run = Some (SomeFailed 1 None)" by code_simp
  let ?s = "cx_State (run_ctx (snd orphan_run))"
  have a: "map_of (st_Resources ?s) (env_Key guarded_env) = Some orphan_row" by code_simp
  have dep: "env_Key sample_old \<in> set (rs_Dependencies orphan_row)" by (simp add: orphan_row_def)
  have b: "map_of (st_Resources ?s) (env_Key sample_old) = None" "map_of (st_Resources orphaned_state) (env_Key sample_old) \<noteq> None"
    by code_simp+
  have "Apply orphan_engine (Compute (\<lambda>_. ''h'') [] orphaned_state g) [] (graph_deps g) empty_fs []
      = (Some (SomeFailed 1 None), snd orphan_run)"
    using run g by (simp add: orphan_run_def prod_eq_iff)
  then show ?thesis using g a b dep
    by - (rule exI [of _ orphan_engine], rule exI [of _ g], rule exI [of _ orphaned_state],
      rule exI [of _ empty_fs], rule exI [of _ "snd orphan_run"], rule exI [of _ "env_Key guarded_env"],
      rule exI [of _ "env_Key sample_old"], rule exI [of _ orphan_row], intro conjI; simp add: orphan_engine_def)
qed

end
