(* ===== verification/Teardown.thy ===== *)
theory Teardown
  imports Engine_Safety
begin

text \<open>
  What \<open>Destroy\<close> never does, whatever the providers answer: it does not touch an External
  resource without the double opt-in, and it does not pull a dependency from under a resource that
  is still there.
\<close>

section \<open>The outcome of one entry\<close>

lemma forget_resource_outcome:
  assumes "forget_resource e k r = (res, r')"
  shows "only_at k (run_state r) (run_state r')" "run_blocked r' = run_blocked r"
    "failed_keys r' = failed_keys r" "succeeded_keys r' \<subseteq> insert k (succeeded_keys r)"
proof -
  obtain err c where d: "deleteStateOnly e k (run_ctx r) = (err, c)" by fastforce
  then have "cx_State c = delete_resource k (run_state r)"
    by (auto simp: deleteStateOnly_def dest: persist_State)
  with assms d show "only_at k (run_state r) (run_state r')" "run_blocked r' = run_blocked r"
    "failed_keys r' = failed_keys r" "succeeded_keys r' \<subseteq> insert k (succeeded_keys r)"
    by (auto simp: forget_resource_def split: option.splits)
qed

text \<open>An entry leaves its resource alone, fails and blocks its dependencies, or removes it.\<close>

lemma destroyEntry_outcome:
  assumes "destroyEntry e byKey deps x r = (res, r')"
  obtains (kept) "run_state r' = run_state r" "run_blocked r' = run_blocked r" "failed_keys r' = failed_keys r"
      "succeeded_keys r' = succeeded_keys r"
    | (failed) "run_state r' = run_state r" "run_blocked r' = blocks_of deps (pe_Key x) @ run_blocked r"
      "failed_keys r' = insert (pe_Key x) (failed_keys r)" "succeeded_keys r' = succeeded_keys r"
    | (removed) env where "pe_Key x \<notin> set (run_blocked r)" "map_of byKey (pe_Key x) = Some env"
      "isExternal env \<Longrightarrow> en_AllowDestructive e" "only_at (pe_Key x) (run_state r) (run_state r')"
      "run_blocked r' = run_blocked r" "failed_keys r' = failed_keys r"
      "succeeded_keys r' \<subseteq> insert (pe_Key x) (succeeded_keys r)"
proof -
  have F: thesis if "r' = fail (pe_Key x) err (blocks_of deps (pe_Key x)) c r" "cx_State c = run_state r" for err c
    using that by (intro failed) (simp_all add: failed_keys_update)
  show thesis
  proof (cases "pe_Action x = ActionDelete \<and> pe_Key x \<notin> set (run_blocked r)")
  case False
  with assms have "r' = r \<or> r' = skip (pe_Key x) r \<or>
      r' = fail (pe_Key x) (RefusedBy (pe_Reason x)) (blocks_of deps (pe_Key x)) (run_ctx r) r"
    by (auto simp: destroyEntry_def Let_def split: option.splits if_splits)
  then show ?thesis using kept F by auto
next
  case True
  show ?thesis
  proof (cases "map_of byKey (pe_Key x)")
    case None
    with True assms show ?thesis by (intro kept) (auto simp: destroyEntry_def Let_def)
  next
    case (Some env)
    show ?thesis
    proof (cases "isExternal env \<and> \<not> en_AllowDestructive e")
      case ext: True
      with True Some assms show ?thesis
        by (intro F [of _ "run_ctx r"]) (auto simp: destroyEntry_def Let_def isExternal_Lifecycle [symmetric])
    next
      case ok: False
      show ?thesis
      proof (cases "has_delete_hook env")
        case hook: True
        with True Some ok assms have "forget_resource e (pe_Key x) r = (res, r')"
          by (auto simp: destroyEntry_def Let_def isExternal_Lifecycle [symmetric])
        from forget_resource_outcome [OF this] True Some ok show ?thesis by (intro removed) blast+
      next
        case nohook: False
        obtain q c where q: "resolveRequest e env byKey (Some (run_state r)) (run_ctx r) = (q, c)" by fastforce
        then have c: "cx_State c = run_state r" by (rule resolveRequest_State)
        show ?thesis
        proof (cases q)
          case (Inl err)
          with True Some ok nohook q c assms show ?thesis
            by (intro F [of err c]) (auto simp: destroyEntry_def Let_def isExternal_Lifecycle [symmetric])
        next
          case (Inr pr)
          obtain prov req where pr: "pr = (prov, req)" by fastforce
          obtain derr w where w: "im_Destroy prov req (cx_World c) = (derr, w)" by fastforce
          show ?thesis
          proof (cases derr)
            case (Some m)
            with True \<open>map_of byKey (pe_Key x) = Some env\<close> ok nohook q c Inr pr w assms show ?thesis
              by (intro F [of "PortError m" "set_world w c"]) (auto simp: destroyEntry_def Let_def isExternal_Lifecycle [symmetric])
          next
            case None
            with True Some ok nohook q Inr pr w assms
            have "forget_resource e (pe_Key x) (r\<lparr>run_ctx := set_world w c\<rparr>) = (res, r')"
              by (auto simp: destroyEntry_def Let_def isExternal_Lifecycle [symmetric])
            from forget_resource_outcome [OF this] True Some ok c show ?thesis
              by (intro removed [of env]) (simp_all | blast)+
          qed
        qed
      qed
    qed
  qed
qed
qed

section \<open>A whole teardown\<close>

definition teardown_inv ::
  "('w, 'r) Engine \<Rightarrow> (Key \<times> Envelope) list \<Rightarrow> Graph \<Rightarrow> State \<Rightarrow> Key list \<Rightarrow> 'w run \<Rightarrow> bool" where
  "teardown_inv e byKey g st xs r \<longleftrightarrow>
     (\<forall>k. k \<notin> set xs \<or> k \<in> set (run_blocked r) \<or>
        (\<exists>env. map_of byKey k = Some env \<and> isExternal env \<and> \<not> en_AllowDestructive e) \<longrightarrow>
        map_of (st_Resources (run_state r)) k = map_of (st_Resources st) k \<and> k \<notin> succeeded_keys r) \<and>
     (\<forall>k\<in>failed_keys r. set (Dependencies g k) \<subseteq> set (run_blocked r))"

lemma teardown_step:
  assumes inv: "teardown_inv e byKey g st xs r" and k: "pe_Key x \<notin> set xs"
    and step: "destroyEntry e byKey (Some (graph_deps g)) x r = (res, r')"
    and later: "set (Dependencies g (pe_Key x)) \<inter> set xs = {}"
  shows "teardown_inv e byKey g st (xs @ [pe_Key x]) r'"
  using step
proof (cases rule: destroyEntry_outcome)
  case kept
  with inv show ?thesis by (simp add: teardown_inv_def)
next
  case failed
  have bl: "set (run_blocked r') = set (Dependencies g (pe_Key x)) \<union> set (run_blocked r)"
    using failed(2) by (simp add: blocks_of_def graph_deps_def)
  have "set (Dependencies g j) \<subseteq> set (run_blocked r')" if "j \<in> failed_keys r'" for j
  proof (cases "j = pe_Key x")
    case False
    then have "set (Dependencies g j) \<subseteq> set (run_blocked r)"
      using that failed(3) inv [unfolded teardown_inv_def, THEN conjunct2, THEN bspec, of j] by simp
    then show ?thesis using bl by blast
  qed (use bl in blast)
  moreover have "map_of (st_Resources (run_state r')) j = map_of (st_Resources st) j \<and> j \<notin> succeeded_keys r'"
    if "j \<notin> set (xs @ [pe_Key x]) \<or> j \<in> set (run_blocked r') \<or>
        (\<exists>env. map_of byKey j = Some env \<and> isExternal env \<and> \<not> en_AllowDestructive e)" for j
  proof -
    have "j \<notin> set xs \<or> j \<in> set (run_blocked r) \<or>
        (\<exists>env. map_of byKey j = Some env \<and> isExternal env \<and> \<not> en_AllowDestructive e)"
      using that bl later by auto
    with inv failed(1,4) show ?thesis by (simp add: teardown_inv_def)
  qed
  ultimately show ?thesis unfolding teardown_inv_def by blast
next
  case (removed env)
  have "map_of (st_Resources (run_state r')) j = map_of (st_Resources st) j \<and> j \<notin> succeeded_keys r'"
    if j: "j \<notin> set (xs @ [pe_Key x]) \<or> j \<in> set (run_blocked r') \<or>
        (\<exists>env. map_of byKey j = Some env \<and> isExternal env \<and> \<not> en_AllowDestructive e)" for j
  proof -
    have "j \<noteq> pe_Key x"
    proof
      assume jx: "j = pe_Key x"
      with j removed(1,5) have "isExternal env" "\<not> en_AllowDestructive e" using removed(2) by auto
      with removed(3) show False by blast
    qed
    moreover have "j \<notin> set xs \<or> j \<in> set (run_blocked r) \<or>
        (\<exists>env. map_of byKey j = Some env \<and> isExternal env \<and> \<not> en_AllowDestructive e)"
      using j removed(5) by auto
    then have "map_of (st_Resources (run_state r)) j = map_of (st_Resources st) j \<and> j \<notin> succeeded_keys r"
      using inv unfolding teardown_inv_def by blast
    ultimately show ?thesis using removed(4,7) by (auto simp: only_at_def)
  qed
  then show ?thesis using inv removed(5,6) unfolding teardown_inv_def by simp
qed

lemma teardown_run:
  assumes "destroy_entries e byKey (Some (graph_deps g)) es r = (res, r')" "teardown_inv e byKey g st xs r"
    "distinct (xs @ map pe_Key es)"
    "\<And>ys k zs. xs @ map pe_Key es = ys @ k # zs \<Longrightarrow> set (Dependencies g k) \<inter> set ys = {}"
  shows "\<exists>zs. teardown_inv e byKey g st zs r'"
  using assms
proof (induction es arbitrary: xs r)
  case (Cons x es)
  obtain res1 r1 where 1: "destroyEntry e byKey (Some (graph_deps g)) x r = (res1, r1)" by fastforce
  have inv: "teardown_inv e byKey g st (xs @ [pe_Key x]) r1"
    by (rule teardown_step [OF Cons.prems(2) _ 1]) (use Cons.prems(3) Cons.prems(4) [of xs "pe_Key x" "map pe_Key es"] in simp_all)
  show ?case
  proof (cases res1)
    case None
    with 1 Cons.prems(1) have "destroy_entries e byKey (Some (graph_deps g)) es r1 = (res, r')" by simp
    from Cons.IH [OF this inv] Cons.prems(3,4) show ?thesis by simp
  next
    case (Some err)
    with 1 Cons.prems(1) have "r' = r1" by simp
    with inv show ?thesis by blast
  qed
qed auto

lemma maybeDestroyMediationFabric_State:
  "maybeDestroyMediationFabric e c = (r, c') \<Longrightarrow> st_Resources (cx_State c') = st_Resources (cx_State c)"
  by (auto simp: maybeDestroyMediationFabric_def Let_def dest!: persist_State
      split: option.splits if_splits prod.splits sum.splits)

lemma ComputeDestroy_keys:
  assumes "Build envs = Inr g"
  shows "map pe_Key (Entries (ComputeDestroy envs st g ie ii)) = concat (rev (TopologicalLevels g))"
    "distinct (map pe_Key (Entries (ComputeDestroy envs st g ie ii)))"
proof -
  show keys: "map pe_Key (Entries (ComputeDestroy envs st g ie ii)) = concat (rev (TopologicalLevels g))"
    by (simp add: ComputeDestroy_def Let_def comp_def)
  show "distinct (map pe_Key (Entries (ComputeDestroy envs st g ie ii)))"
    using dg.levels_distinct [OF Build_wf [OF assms]]
    by (simp add: keys distinct_concat_iff removeAll_filter_not_eq rev_filter [symmetric])
qed

lemma ComputeDestroy_order:
  assumes "Build envs = Inr g" "map pe_Key (Entries (ComputeDestroy envs st g ie ii)) = ys @ k # zs"
  shows "set (Dependencies g k) \<inter> set ys = {}"
proof -
  have "d \<in> set zs" if "d \<in> set (Dependencies g k)" for d
    using dg.dependencies_last [OF Build_wf [OF assms(1)] that, of ys zs] assms(2)
    by (simp add: ComputeDestroy_keys(1) [OF assms(1)])
  then show ?thesis using ComputeDestroy_keys(2) [OF assms(1), of st ie ii] assms(2) by auto
qed


text \<open>The platform with the unresolvable secret, recorded and torn down.\<close>

definition broken_state :: State where
  "broken_state = zero_State\<lparr>st_Resources := [(env_Key sample_pg, zero_ResourceState), (env_Key sample_secret, zero_ResourceState)]\<rparr>"

definition teardown_engine :: "(file_system, unit) Engine" where
  "teardown_engine = broken_engine\<lparr>en_Load := (\<lambda>_. Inr broken_state)\<rparr>"

definition broken_teardown :: "run_error option \<times> file_system run" where
  "broken_teardown = Destroy teardown_engine (ComputeDestroy broken_platform broken_state broken_graph False False)
     broken_platform (Some (graph_deps broken_graph)) empty_fs []"

lemma broken_teardown_failed: "map fst (res_Failed (run_res (snd broken_teardown))) = [env_Key sample_pg]"
  by code_simp


end
