(* ===== verification/Engine_Parallel.thy ===== *)
theory Engine_Parallel
  imports Convergence
begin

text \<open>
  The concurrent executor (\<open>Apply\<close> with \<open>Parallelism\<close> above 1): a level at a time, at
  most \<open>n\<close> goroutines in flight, each ending in one critical section under \<open>stateMu\<close> and one
  under \<open>mu\<close>. Providers run unlocked in between and in any order; a transition is the end of
  one goroutine, so the runs of the system are all interleavings.
\<close>

section \<open>The transition system\<close>

type_synonym books = "State \<times> Result \<times> Key list"

text \<open>How \<open>processEntry\<close> can end for a key, on the shared state, result and blocked set.\<close>

inductive par_finish ::
  "bool \<Rightarrow> (Key \<times> Envelope) list \<Rightarrow> DependencyGraph \<Rightarrow> Key \<Rightarrow> Entry \<Rightarrow> books \<Rightarrow> books \<Rightarrow> bool"
  for heal byKey deps k x where
  finish_skip: "par_finish heal byKey deps k x (s, res, b) (s, res\<lparr>res_Skipped := res_Skipped res @ [k]\<rparr>, b)"
  if "k \<in> set b"
| finish_pass: "par_finish heal byKey deps k x (s, res, b) (s, res, b)"
  if "k \<notin> set b" "pe_Action x = ActionNoop"
| finish_commit: "par_finish heal byKey deps k x (s, res, b) (s', res\<lparr>res_Succeeded := res_Succeeded res @ [k]\<rparr>, b)"
  if "k \<notin> set b" "committed heal byKey deps x s s'"
| finish_fail: "par_finish heal byKey deps k x (s, res, b)
    (s', res\<lparr>res_Failed := AList.update k err (res_Failed res)\<rparr>, bl @ b)"
  if "k \<notin> set b" "s' = s \<or> committed heal byKey deps x s s'" "bl = [] \<or> bl = dg_Dependents deps k"

record pool =
  po_levels :: "Key list list"
  po_pending :: "Key list"
  po_running :: "Key list"
  po_books :: books

inductive par_step ::
  "nat \<Rightarrow> bool \<Rightarrow> bool \<Rightarrow> (Key \<times> Envelope) list \<Rightarrow> DependencyGraph \<Rightarrow> (Key \<times> Entry) list \<Rightarrow> pool \<Rightarrow> pool \<Rightarrow> bool"
  for n halt heal byKey deps entries where
  par_level: "par_step n halt heal byKey deps entries p
    (p\<lparr>po_levels := ls, po_pending := filter (\<lambda>k. map_of entries k \<noteq> None) l\<rparr>)"
  if "po_levels p = l # ls" "po_pending p = []" "po_running p = []"
    "\<not> (halt \<and> res_Failed (fst (snd (po_books p))) \<noteq> [])"
| par_start: "par_step n halt heal byKey deps entries p (p\<lparr>po_pending := ks, po_running := k # po_running p\<rparr>)"
  if "po_pending p = k # ks" "length (po_running p) < n"
| par_end: "par_step n halt heal byKey deps entries p (p\<lparr>po_running := us @ vs, po_books := b\<rparr>)"
  if "po_running p = us @ k # vs" "map_of entries k = Some x" "par_finish heal byKey deps k x (po_books p) b"

inductive par_reach ::
  "nat \<Rightarrow> bool \<Rightarrow> bool \<Rightarrow> (Key \<times> Envelope) list \<Rightarrow> DependencyGraph \<Rightarrow> (Key \<times> Entry) list \<Rightarrow> pool \<Rightarrow> pool \<Rightarrow> bool"
  for n halt heal byKey deps entries p where
  par_refl: "par_reach n halt heal byKey deps entries p p"
| par_trans: "par_reach n halt heal byKey deps entries p r"
  if "par_reach n halt heal byKey deps entries p q" "par_step n halt heal byKey deps entries q r"

definition par_init :: "Key list list \<Rightarrow> State \<Rightarrow> pool" where
  "par_init levels s = \<lparr>po_levels = levels, po_pending = [], po_running = [], po_books = (s, empty_Result, [])\<rparr>"

definition par_done :: "pool \<Rightarrow> bool" where
  "par_done p \<longleftrightarrow> po_levels p = [] \<and> po_pending p = [] \<and> po_running p = []"

section \<open>The engine's own steps are transitions\<close>

abbreviation books_of :: "'w run \<Rightarrow> books" where
  "books_of r \<equiv> (cx_State (run_ctx r), run_res r, run_blocked r)"

lemma run_step_finish:
  assumes "map_of byKey (pe_Key x) = Some env" "pe_Action x \<notin> {ActionOrphanUnknown, ActionRefused}"
    "pe_Action x = ActionNoop \<Longrightarrow> en_HealDrift e" "pe_Key x \<notin> set (run_blocked r)"
  shows "par_finish (en_HealDrift e) byKey deps (pe_Key x) x (books_of r)
    (books_of (run_step e byKey deps (pe_Key x) x env r))"
proof -
  let ?s = "cx_State (run_ctx r)"
  obtain err c where s: "(if pe_Action x = ActionDelete then applyDeleteOne e x env byKey (run_ctx r)
      else reconcileOne e x env byKey (Some deps) (run_ctx r)) = (err, c)" by fastforce
  have "step_ok e (committed (en_HealDrift e) byKey deps x) (run_ctx r) (err, c)"
  proof (cases "pe_Action x = ActionDelete")
    case True
    with s have "step_ok e (\<lambda>s s'. s' = delete_resource (pe_Key x) s) (run_ctx r) (err, c)"
      by (metis applyDeleteOne_step)
    with True show ?thesis by (auto simp: step_ok_def committed_def split: option.splits)
  next
    case False
    with s have "step_ok e (reconciled x env (Some deps)) (run_ctx r) (err, c)" by (metis reconcileOne_step)
    moreover have "committed (en_HealDrift e) byKey deps x s1 s2" if "reconciled x env (Some deps) s1 s2" for s1 s2
      using that assms(1-3) False by (cases "pe_Action x") (auto simp: committed_def Let_def)
    ultimately show ?thesis by (auto simp: step_ok_def split: option.splits)
  qed
  then show ?thesis
    using assms(4) finish_commit [of "pe_Key x" "run_blocked r" "en_HealDrift e" byKey deps x ?s "cx_State c" "run_res r"]
      finish_fail [of "pe_Key x" "run_blocked r" "cx_State c" ?s "en_HealDrift e" byKey deps x "dg_Dependents deps (pe_Key x)"]
    unfolding run_step_def s by (auto simp: step_ok_def fail_def succeed_def split: option.splits)
qed

lemma processEntry_finish:
  assumes "pe_Key x = k"
  shows "par_finish (en_HealDrift e) byKey deps k x (books_of r) (books_of (processEntry e byKey deps k x r))"
proof (cases "k \<in> set (run_blocked r)")
  case True
  then show ?thesis by (simp add: processEntry_def skip_def finish_skip)
next
  case nb: False
  note fail0 = finish_fail [OF nb, of "cx_State (run_ctx r)" "cx_State (run_ctx r)" _ byKey deps x "[]"]
  show ?thesis
  proof (cases "pe_Action x \<in> {ActionOrphanUnknown, ActionRefused} \<or> map_of byKey k = None")
    case True
    with nb fail0 show ?thesis by (auto simp: processEntry_def fail_def)
  next
    case ok: False
    then obtain env where env: "map_of byKey k = Some env" by blast
    show ?thesis
    proof (cases "pe_Action x = ActionNoop")
      case False
      with ok env nb assms run_step_finish [of byKey x env e r deps] show ?thesis by (simp add: processEntry_def)
    next
      case True
      obtain probed c where p: "probeOne e env byKey (Some (cx_State (run_ctx r))) (run_ctx r) = (probed, c)" by fastforce
      then have c: "cx_State c = cx_State (run_ctx r)" unfolding probeOne_def by (rule probe_State)
      note pass = finish_pass [OF nb True, of _ byKey deps "cx_State (run_ctx r)" "run_res r"]
      have "processEntry e byKey deps k x r \<in> {r, r\<lparr>run_ctx := c\<rparr>} \<or> en_HealDrift e \<and>
          processEntry e byKey deps k x r = run_step e byKey deps k x env (r\<lparr>run_ctx := c\<rparr>)"
        using nb True env p by (auto simp: processEntry_def split: option.splits)
      with pass run_step_finish [of byKey x env e "r\<lparr>run_ctx := c\<rparr>" deps] env nb assms True c show ?thesis by auto
    qed
  qed
qed

section \<open>Every interleaving meets dependencies first\<close>

lemma commit_seq_snoc:
  assumes "commit_seq heal byKey deps entries ks s s1" "map_of entries k = Some x" "committed heal byKey deps x s1 s2"
  shows "commit_seq heal byKey deps entries (ks @ [k]) s s2"
  using assms(1,3)
  by (induction rule: commit_seq.induct) (auto intro: commit_Cons commit_Nil assms(2))

text \<open>
  After \<open>i\<close> levels have been begun: the finished keys, in the order they finished, hold all
  of the earlier levels, and without a failure they are a sequence of commits.
\<close>

definition par_inv ::
  "bool \<Rightarrow> (Key \<times> Envelope) list \<Rightarrow> DependencyGraph \<Rightarrow> (Key \<times> Entry) list \<Rightarrow> (Key \<Rightarrow> Key set) \<Rightarrow> Key list list
    \<Rightarrow> State \<Rightarrow> pool \<Rightarrow> nat \<Rightarrow> Key list \<Rightarrow> bool" where
  "par_inv heal byKey deps entries below levels s0 p i finished \<longleftrightarrow>
     i \<le> length levels \<and> po_levels p = drop i levels \<and>
     distinct (finished @ po_running p @ po_pending p) \<and>
     set (finished @ po_running p @ po_pending p) = set (concat (take i levels)) \<and>
     set (concat (take (i - 1) levels)) \<subseteq> set finished \<and>
     (\<forall>ys k zs. finished = ys @ k # zs \<longrightarrow> below k \<subseteq> set ys) \<and>
     (case po_books p of (s, res, b) \<Rightarrow>
        res_Failed res = [] \<longrightarrow> b = [] \<and> commit_seq heal byKey deps entries finished s0 s)"

lemma par_inv_init: "par_inv heal byKey deps entries below levels s (par_init levels s) 0 []"
  by (simp add: par_inv_def par_init_def empty_Result_def commit_Nil)

lemma snoc_split: "xs @ [x] = ys @ k # zs \<longleftrightarrow> (zs = [] \<and> k = x \<and> ys = xs) \<or> (\<exists>ws. zs = ws @ [x] \<and> xs = ys @ k # ws)"
  by (cases zs rule: rev_cases) auto

lemma par_finish_books:
  assumes "par_finish heal byKey deps k x (s, res, b) (s', res', b')" "res_Failed res' = []" "b = []"
  shows "res_Failed res = []" "b' = []" "committed heal byKey deps x s s'"
  using assms by (auto elim!: par_finish.cases simp: AList.update_nonempty committed_def)

lemma par_inv_step:
  assumes step: "par_step n halt heal byKey deps entries p q"
    and inv: "par_inv heal byKey deps entries below levels s0 p i finished"
    and dist: "distinct (concat levels)" and ents: "\<forall>k\<in>set (concat levels). map_of entries k \<noteq> None"
    and low: "\<forall>j<length levels. \<forall>k\<in>set (levels ! j). below k \<subseteq> set (concat (take j levels))"
  shows "\<exists>i finished. par_inv heal byKey deps entries below levels s0 q i finished"
  using step
proof cases
  case (par_level l ls)
  from inv par_level(2) have drop: "drop i levels = l # ls" by (simp add: par_inv_def)
  then have "i < length levels" by (metis drop_all leI list.distinct(1))
  with drop have i: "i < length levels" "l = levels ! i" "ls = drop (Suc i) levels"
    by (simp_all add: Cons_nth_drop_Suc [symmetric])
  have "set l \<subseteq> set (concat levels)" using nth_mem [OF i(1)] i(2) by auto
  then have "filter (\<lambda>k. map_of entries k \<noteq> None) l = l"
    using ents by (intro filter_True) blast
  moreover have "concat (take (Suc i) levels) = concat (take i levels) @ l"
    using i(1,2) by (simp add: take_Suc_conv_app_nth)
  moreover have "set finished = set (concat (take i levels))" "distinct finished"
    using inv par_level(3,4) by (auto simp: par_inv_def)
  moreover have "distinct (concat (take (Suc i) levels))"
    using dist by (metis append_take_drop_id concat_append distinct_append)
  ultimately have "par_inv heal byKey deps entries below levels s0 q (Suc i) finished"
    using inv i par_level by (auto simp: par_inv_def)
  then show ?thesis by blast
next
  case (par_start k ks)
  with inv have "par_inv heal byKey deps entries below levels s0 q i finished" by (auto simp: par_inv_def)
  then show ?thesis by blast
next
  case (par_end us k vs x b)
  obtain s res bl where pb: "po_books p = (s, res, bl)" by (cases "po_books p")
  obtain s' res' bl' where b: "b = (s', res', bl')" by (cases b)
  have k: "k \<notin> set finished" "k \<in> set (concat (take i levels))" using inv par_end(2) by (auto simp: par_inv_def)
  have "below k \<subseteq> set finished"
  proof -
    from k(2) obtain l where l: "l \<in> set (take i levels)" "k \<in> set l" by auto
    from l(1) obtain j where "j < length (take i levels)" "take i levels ! j = l" by (metis in_set_conv_nth)
    with l(2) have j: "j < i" "j < length levels" "k \<in> set (levels ! j)" by auto
    have "concat (take j levels) = concat (take j (take (i - 1) levels))" using j(1) by (simp add: min_absorb1)
    then have "set (concat (take j levels)) \<subseteq> set (concat (take (i - 1) levels))"
      using set_take_subset [of j "take (i - 1) levels"] by fastforce
    moreover have "set (concat (take (i - 1) levels)) \<subseteq> set finished" using inv by (simp add: par_inv_def)
    ultimately show ?thesis using low j(2,3) by (meson subset_trans)
  qed
  moreover have "bl' = [] \<and> commit_seq heal byKey deps entries (finished @ [k]) s0 s'" if f: "res_Failed res' = []"
  proof -
    have f0: "res_Failed res = []"
      using par_end(4) f unfolding pb b by (auto elim!: par_finish.cases simp: AList.update_nonempty)
    with inv pb have "bl = []" "commit_seq heal byKey deps entries finished s0 s" by (simp_all add: par_inv_def)
    with par_finish_books [OF par_end(4) [unfolded pb b] f] commit_seq_snoc [OF _ par_end(3)] show ?thesis by blast
  qed
  ultimately have "par_inv heal byKey deps entries below levels s0 q i (finished @ [k])"
    using inv par_end b by (auto simp: par_inv_def snoc_split)
  then show ?thesis by blast
qed

lemma par_reach_inv:
  assumes "par_reach n halt heal byKey deps entries (par_init levels s0) p"
    and "distinct (concat levels)" "\<forall>k\<in>set (concat levels). map_of entries k \<noteq> None"
    and "\<forall>j<length levels. \<forall>k\<in>set (levels ! j). below k \<subseteq> set (concat (take j levels))"
  shows "\<exists>i finished. par_inv heal byKey deps entries below levels s0 p i finished"
  using assms(1)
proof (induction rule: par_reach.induct)
  case par_refl
  show ?case by (intro exI) (rule par_inv_init)
next
  case (par_trans q r)
  then show ?case using par_inv_step [OF par_trans(2) _ assms(2-4)] by blast
qed

lemma par_done_commits:
  assumes "par_reach n halt heal byKey deps entries (par_init levels s0) p" "par_done p" "po_books p = (s, res, b)"
    "res_Failed res = []" "distinct (concat levels)" "\<forall>k\<in>set (concat levels). map_of entries k \<noteq> None"
    "\<forall>j<length levels. \<forall>k\<in>set (levels ! j). below k \<subseteq> set (concat (take j levels))"
  obtains finished where "distinct finished" "set finished = set (concat levels)"
    "\<And>ys k zs. finished = ys @ k # zs \<Longrightarrow> below k \<subseteq> set ys" "commit_seq heal byKey deps entries finished s0 s"
proof -
  obtain i finished where inv: "par_inv heal byKey deps entries below levels s0 p i finished"
    using par_reach_inv [OF assms(1,5-7)] by blast
  with assms(2) have "take i levels = levels" by (simp add: par_inv_def par_done_def)
  with inv assms(2-4) show thesis by (intro that [of finished]) (auto simp: par_inv_def par_done_def)
qed

lemma planned_entryByKey:
  assumes "Build envs = Inr g" "del_invar (absent_resources (by_key envs) st)"
    "p = ComputeWithSecretHashes H envs st g sh" "k \<in> set (concat (Levels p))"
  shows "map_of (entryByKey p) k \<noteq> None"
proof -
  note keys = Compute_keys [OF assms(1,2), of H sh, folded assms(3)]
  from assms(4) keys obtain x where x: "x \<in> set (Entries p)" "pe_Key x = k" by (metis (no_types) imageE list.set_map)
  have d: "distinct (map pe_Key (Entries p))" using keys by blast
  show ?thesis using find_key_unique [OF d x(1)] x(2) by (simp add: entryByKey_find [OF d])
qed

lemma concat_index_unique:
  assumes "distinct (concat ls)" "i < length ls" "j < length ls" "k \<in> set (ls ! i)" "k \<in> set (ls ! j)"
  shows "i = j"
  using assms
proof (induction ls arbitrary: i j)
  case (Cons l ls)
  have "k \<in> set (concat ls)" if "m < length ls" "k \<in> set (ls ! m)" for m using that nth_mem by fastforce
  with Cons show ?case by (cases i; cases j) auto
qed simp

lemma planned_levels_below:
  assumes "Build envs = Inr g" "del_invar (absent_resources (by_key envs) st)"
    "p = ComputeWithSecretHashes H envs st g sh" "j < length (Levels p)" "k \<in> set (Levels p ! j)" "k \<in> env_Key ` set envs"
  shows "set (succs g k) \<subseteq> set (concat (take j (Levels p)))"
proof
  fix d assume d: "d \<in> set (succs g k)"
  have wf: "wf_Graph g" by (rule Build_wf [OF assms(1)])
  obtain dl de where "computeApplyDeletes (by_key envs) st = (dl, de)" by fastforce
  then have L: "Levels p = TopologicalLevels g @ dl"
    by (simp add: assms(3) ComputeWithSecretHashes_def Let_def)
  have dist: "distinct (concat (Levels p))" using Compute_keys [OF assms(1,2), of H sh] assms(3) by metis
  have "k \<in> node_keys g" using Build_node_keys [OF assms(1)] assms(6) by simp
  from dg.node_level [OF wf this] obtain i where i: "i < length (TopologicalLevels g)" "k \<in> set (TopologicalLevels g ! i)" by blast
  have "i = j" using concat_index_unique [OF dist _ assms(4) _ assms(5), of i] i L by (simp add: nth_append)
  with dg.levels_below [OF wf i d] obtain m where m: "m < j" "d \<in> set (TopologicalLevels g ! m)" by blast
  with i \<open>i = j\<close> L have "take j (Levels p) ! m = TopologicalLevels g ! m" "m < length (take j (Levels p))" by (simp_all add: nth_append)
  with m(2) show "d \<in> set (concat (take j (Levels p)))" by (metis UN_I nth_mem set_concat)
qed

text \<open>
  C4: convergence of the concurrent executor. Whatever the interleaving of the goroutines, the
  pool size and the outcomes of the providers: when the run ends with every level done and no
  failure, planning again from the state it leaves finds nothing to do.
\<close>

theorem par_converges:
  assumes "Build envs = Inr g" "del_invar (absent_resources (by_key envs) st)"
    and "p = ComputeWithSecretHashes H envs st g sh"
    and "heal \<longrightarrow> (\<forall>env\<in>set envs. env_Kind env = ''SecretReference'' \<longrightarrow> get_or [] sh (env_Key env) \<noteq> [])"
    and "par_reach n halt heal (apply_by_key p envs st) (graph_deps g) (entryByKey p) (par_init (Levels p) s) q"
    and "st_Resources s = st_Resources st" and "par_done q" "po_books q = (s', res, b)" "res_Failed res = []"
  shows "\<not> HasChanges (ComputeWithSecretHashes H envs s' g sh)"
proof -
  let ?below = "\<lambda>k. if k \<in> env_Key ` set envs then set (succs g k) else {}"
  note keys = Compute_keys [OF assms(1,2), of H sh, folded assms(3)]
  obtain finished where f: "distinct finished" "set finished = set (concat (Levels p))"
    "\<And>ys k zs. finished = ys @ k # zs \<Longrightarrow> ?below k \<subseteq> set ys"
    "commit_seq heal (apply_by_key p envs st) (graph_deps g) (entryByKey p) finished s s'"
  proof (rule par_done_commits [OF assms(5,7-9), of ?below])
    show "distinct (concat (Levels p))" using keys by metis
    show "\<forall>k\<in>set (concat (Levels p)). map_of (entryByKey p) k \<noteq> None"
      using planned_entryByKey [OF assms(1-3)] by blast
    show "\<forall>j<length (Levels p). \<forall>k\<in>set (Levels p ! j). ?below k \<subseteq> set (concat (take j (Levels p)))"
      using planned_levels_below [OF assms(1-3)] by simp
  qed (rule that)
  show ?thesis
  proof (rule commits_converge [OF assms(1-3) f(4) assms(6) f(1)])
    show "set finished = env_Key ` set envs \<union> fst ` set (st_Resources st)" using f(2) keys by metis
    show "set (succs g k) \<subseteq> set ys" if "finished = ys @ k # zs" "k \<in> env_Key ` set envs" for ys k zs
      using f(3) [OF that(1)] that(2) by simp
  qed (use assms(4) in blast)
qed

text \<open>Progress: the pool neither runs for ever nor blocks.\<close>

definition par_measure :: "pool \<Rightarrow> nat" where
  "par_measure p = (\<Sum>l\<leftarrow>po_levels p. 2 * length l + 1) + 2 * length (po_pending p) + length (po_running p)"

lemma par_step_measure: "par_step n halt heal byKey deps entries p q \<Longrightarrow> par_measure q < par_measure p"
proof (induction rule: par_step.induct)
  case (par_level p l ls)
  have "length (filter (\<lambda>k. map_of entries k \<noteq> None) l) \<le> length l" by (rule length_filter_le)
  with par_level show ?case by (simp add: par_measure_def less_Suc_eq_le)
qed (simp_all add: par_measure_def)

definition par_ready :: "(Key \<times> Entry) list \<Rightarrow> pool \<Rightarrow> bool" where
  "par_ready entries p \<longleftrightarrow> (\<forall>k\<in>set (po_pending p) \<union> set (po_running p). map_of entries k \<noteq> None)"

lemma par_step_ready: "par_step n halt heal byKey deps entries p q \<Longrightarrow> par_ready entries p \<Longrightarrow> par_ready entries q"
  by (induction rule: par_step.induct) (auto simp: par_ready_def)

lemma par_finish_total: "\<exists>b'. par_finish heal byKey deps k x b b'"
proof -
  obtain s res bl where b: "b = (s, res, bl)" by (cases b)
  show ?thesis unfolding b
    by (cases "k \<in> set bl") (blast intro: finish_skip finish_fail [where bl = "[]"])+
qed

lemma par_stuck:
  assumes "par_ready entries p" "0 < n" "\<nexists>q. par_step n halt heal byKey deps entries p q"
  shows "par_done p \<or> halt \<and> res_Failed (fst (snd (po_books p))) \<noteq> []"
proof (cases "po_running p")
  case (Cons k vs)
  with assms(1) obtain x where "map_of entries k = Some x" by (auto simp: par_ready_def)
  with Cons par_finish_total [of heal byKey deps k x "po_books p"] assms(3) show ?thesis
    by (metis append_Nil par_step.par_end)
next
  case running: Nil
  show ?thesis
  proof (cases "po_pending p")
    case Nil
    with running assms(3) show ?thesis
      by (cases "po_levels p") (auto simp: par_done_def dest: par_step.par_level)
  next
    case (Cons k ks)
    with running assms(2,3) show ?thesis by (metis list.size(3) par_step.par_start)
  qed
qed



section \<open>The sequential run is one of the interleavings\<close>

lemma par_reach_trans:
  assumes "par_reach n halt heal byKey deps entries q r" "par_reach n halt heal byKey deps entries p q"
  shows "par_reach n halt heal byKey deps entries p r"
  using assms by (induction rule: par_reach.induct) (auto intro: par_reach.par_trans)

lemma par_step_reach: "par_step n halt heal byKey deps entries p q \<Longrightarrow> par_reach n halt heal byKey deps entries p q"
  by (blast intro: par_reach.intros)

abbreviation pool_of :: "Key list list \<Rightarrow> Key list \<Rightarrow> 'w run \<Rightarrow> pool" where
  "pool_of ls ks r \<equiv> \<lparr>po_levels = ls, po_pending = ks, po_running = [], po_books = books_of r\<rparr>"

lemma apply_keys_reach:
  assumes "apply_keys e byKey deps entries ks r = (False, r')" "0 < n" "\<And>k x. map_of entries k = Some x \<Longrightarrow> pe_Key x = k"
  shows "par_reach n halt (en_HealDrift e) byKey deps entries
    (pool_of ls (filter (\<lambda>k. map_of entries k \<noteq> None) ks) r) (pool_of ls [] r')"
  using assms(1)
proof (induction ks arbitrary: r)
  case Nil
  then show ?case by (simp add: par_refl)
next
  case (Cons k ks)
  show ?case
  proof (cases "map_of entries k")
    case None
    with Cons show ?thesis by (simp split: if_splits)
  next
    case (Some x)
    let ?ks = "filter (\<lambda>k. map_of entries k \<noteq> None) ks" and ?r1 = "processEntry e byKey deps k x r"
    from Cons.prems Some have run: "apply_keys e byKey deps entries ks ?r1 = (False, r')"
      by (simp add: Let_def split: if_splits)
    have "par_step n halt (en_HealDrift e) byKey deps entries (pool_of ls (k # ?ks) r)
        ((pool_of ls ?ks r)\<lparr>po_running := [k]\<rparr>)"
      using par_step.par_start [of "pool_of ls (k # ?ks) r" k ?ks n] assms(2) by simp
    moreover have "par_step n halt (en_HealDrift e) byKey deps entries ((pool_of ls ?ks r)\<lparr>po_running := [k]\<rparr>) (pool_of ls ?ks ?r1)"
      using par_step.par_end [of "(pool_of ls ?ks r)\<lparr>po_running := [k]\<rparr>" "[]" k "[]" entries x "en_HealDrift e" byKey deps "books_of ?r1"]
        processEntry_finish [OF assms(3) [OF Some], of e byKey deps r] Some by simp
    ultimately have "par_reach n halt (en_HealDrift e) byKey deps entries (pool_of ls (k # ?ks) r) (pool_of ls ?ks ?r1)"
      by (blast intro: par_reach.intros)
    with Cons.IH [OF run] Some show ?thesis by (auto intro: par_reach_trans)
  qed
qed

lemma apply_keys_no_halt:
  assumes "apply_keys e byKey deps entries ks r = (False, r')" "en_HaltOnError e \<Longrightarrow> res_Failed (run_res r) = []"
  shows "en_HaltOnError e \<Longrightarrow> res_Failed (run_res r') = []"
  using assms
proof (induction ks arbitrary: r)
  case (Cons k ks)
  let ?r1 = "case map_of entries k of None \<Rightarrow> r | Some x \<Rightarrow> processEntry e byKey deps k x r"
  from Cons.prems(1,2) have "res_Failed (run_res ?r1) = []" "apply_keys e byKey deps entries ks ?r1 = (False, r')"
    by (simp_all add: Let_def split: if_splits)
  then show ?case using Cons.IH [OF Cons.prems(1)] by blast
qed simp

lemma apply_levels_reach:
  assumes "apply_levels e byKey deps entries ls r = (False, r')" "0 < n"
    "\<And>k x. map_of entries k = Some x \<Longrightarrow> pe_Key x = k" "en_HaltOnError e \<Longrightarrow> res_Failed (run_res r) = []"
  shows "par_reach n (en_HaltOnError e) (en_HealDrift e) byKey deps entries (pool_of ls [] r) (pool_of [] [] r')"
  using assms(1,4)
proof (induction ls arbitrary: r)
  case Nil
  then show ?case by (simp add: par_refl)
next
  case (Cons l ls)
  let ?reach = "par_reach n (en_HaltOnError e) (en_HealDrift e) byKey deps entries"
  let ?ks = "filter (\<lambda>k. map_of entries k \<noteq> None) l"
  from Cons.prems(1) obtain r1 where r1: "apply_keys e byKey deps entries l r = (False, r1)"
    "apply_levels e byKey deps entries ls r1 = (False, r')" by (auto split: prod.splits bool.splits)
  have "?reach (pool_of (l # ls) [] r) (pool_of ls ?ks r)"
    using Cons.prems(2) par_step.par_level [of "pool_of (l # ls) [] r" l ls "en_HaltOnError e" n]
    by (auto intro: par_step_reach)
  moreover have "?reach (pool_of ls ?ks r) (pool_of ls [] r1)" by (rule apply_keys_reach [OF r1(1) assms(2,3)])
  moreover have "?reach (pool_of ls [] r1) (pool_of [] [] r')"
    using Cons.IH [OF r1(2)] apply_keys_no_halt [OF r1(1) Cons.prems(2)] by blast
  ultimately show ?case by (blast intro: par_reach_trans)
qed

lemma entryByKey_key:
  assumes "map_of (entryByKey p) k = Some x"
  shows "pe_Key x = k"
proof -
  have "map_of (fold (\<lambda>x m. AList.update (pe_Key x) x m) xs m) k = Some x \<Longrightarrow> \<forall>x. map_of m k = Some x \<longrightarrow> pe_Key x = k
      \<Longrightarrow> pe_Key x = k" for xs m
    by (induction xs arbitrary: m) (auto simp: update_conv' split: if_splits)
  from this [of "Entries p" "[]"] assms show ?thesis by (simp add: entryByKey_def)
qed

lemma Apply_reach:
  assumes "Apply e p envs deps w claims = (None, r)" "en_Load e w = Inr st" "0 < n"
  obtains s where "par_reach n (en_HaltOnError e) (en_HealDrift e) (apply_by_key p envs st) deps (entryByKey p)
      (par_init (Levels p) s) (pool_of [] [] r)" "st_Resources s = st_Resources st" "res_Failed (run_res r) = []"
proof -
  obtain err c where f: "ensureMediationFabric e (apply_by_key p envs st)
      \<lparr>cx_World = w, cx_Claims = claims, cx_State = st\<rparr> = (err, c)" by fastforce
  note fs = ensureMediationFabric_State [OF f]
  let ?r0 = "\<lparr>run_ctx = c, run_res = empty_Result, run_blocked = []\<rparr>"
  obtain h r1 where k: "apply_levels e (apply_by_key p envs st) deps (entryByKey p) (Levels p) ?r0 = (h, r1)" by fastforce
  from assms f k have "err = None" "finish_apply h r1 = None" "r1 = r"
    by (auto simp: Apply_def Let_def split: option.splits)
  then have h: "\<not> h" "res_Failed (run_res r) = []" by (auto simp: finish_apply_def Let_def split: if_splits)
  have "par_reach n (en_HaltOnError e) (en_HealDrift e) (apply_by_key p envs st) deps (entryByKey p)
      (pool_of (Levels p) [] ?r0) (pool_of [] [] r)"
    using k h \<open>r1 = r\<close> by (intro apply_levels_reach [OF _ assms(3)]) (auto simp: empty_Result_def dest: entryByKey_key)
  then show thesis using h fs by (intro that [of "cx_State c"]) (simp_all add: par_init_def)
qed

text \<open>
  The executor with \<open>Parallelism\<close> 1 is one scheduling of the concurrent one: a sequential
  \<open>Apply\<close> that returns without an error is, for every pool size, a run of the transition system to
  its end, with the same state, result and blocked set.
\<close>

theorem Apply_is_interleaving:
  assumes "Apply e p envs deps w claims = (None, r)" "en_Load e w = Inr st" "0 < n"
  shows "\<exists>s q. par_reach n (en_HaltOnError e) (en_HealDrift e) (apply_by_key p envs st) deps (entryByKey p)
      (par_init (Levels p) s) q \<and> st_Resources s = st_Resources st \<and> par_done q \<and>
      po_books q = (cx_State (run_ctx r), run_res r, run_blocked r)"
proof -
  obtain s where "par_reach n (en_HaltOnError e) (en_HealDrift e) (apply_by_key p envs st) deps (entryByKey p)
      (par_init (Levels p) s) (pool_of [] [] r)" "st_Resources s = st_Resources st"
    by (rule Apply_reach [OF assms])
  then show ?thesis by (intro exI [of _ s] exI [of _ "pool_of [] [] r"]) (simp add: par_done_def)
qed

lemma platform_run_None: "Apply memory_engine platform_plan sample_platform (graph_deps platform_graph) empty_fs [] = (None, snd platform_run)"
  using platform_run_ok by (metis prod.collapse platform_run_def)

lemma memory_engine_simps [simp]:
  "en_Load memory_engine w = Inr sample_loaded" "en_HealDrift memory_engine = False" "en_HaltOnError memory_engine = False"
  by (simp_all add: memory_engine_def sample_engine_def)

theorem Apply_is_interleaving_witness:
  "\<exists>s q. par_reach 8 False False (apply_by_key platform_plan sample_platform sample_loaded) (graph_deps platform_graph)
      (entryByKey platform_plan) (par_init (Levels platform_plan) s) q \<and>
      st_Resources s = st_Resources sample_loaded \<and> par_done q \<and>
      po_books q = (cx_State (run_ctx (snd platform_run)), run_res (snd platform_run), run_blocked (snd platform_run))"
  using Apply_is_interleaving [OF platform_run_None _, of sample_loaded 8] by simp

theorem par_converges_witness:
  "\<not> HasChanges (ComputeWithSecretHashes (\<lambda>_. ''h'') sample_platform (cx_State (run_ctx (snd platform_run))) platform_graph []) \<and>
   length (st_Resources (cx_State (run_ctx (snd platform_run)))) = 1"
proof
  obtain s where s: "par_reach 3 False False (apply_by_key platform_plan sample_platform sample_loaded)
      (graph_deps platform_graph) (entryByKey platform_plan) (par_init (Levels platform_plan) s) (pool_of [] [] (snd platform_run))"
    "st_Resources s = st_Resources sample_loaded" "res_Failed (run_res (snd platform_run)) = []"
    using Apply_reach [OF platform_run_None, of sample_loaded 3] by auto
  show "\<not> HasChanges (ComputeWithSecretHashes (\<lambda>_. ''h'') sample_platform (cx_State (run_ctx (snd platform_run))) platform_graph [])"
    by (rule par_converges [OF platform_Build sample_loaded_invar platform_plan_def _ s(1,2) _ _ s(3)])
      (simp_all add: par_done_def)
  show "length (st_Resources (cx_State (run_ctx (snd platform_run)))) = 1" by code_simp
qed


end
