(* ===== verification/Policy.thy ===== *)
theory Policy
  imports Facts Planner "HOL-Library.Product_Lexorder"
begin

text \<open>
  The policy vocabulary, \<open>internal/domain/policy/policy.go\<close>: selectors, assertions, the five
  rule shapes, the validation of a policy set, decisions with their order, and exemption
  annotations. Pointers of the source are options. The pieces of the Go library that are not
  written out are fields of the record \<open>golib\<close>: \<open>regexp.Compile\<close> with \<open>MatchString\<close>, the
  default rendering of a non-string value, and the rendering of a time.
\<close>

section \<open>Library functions\<close>

record golib =
  gl_Compile :: "string \<Rightarrow> (string \<Rightarrow> bool) option"
  gl_Sprint :: "any \<Rightarrow> string"
  gl_Time :: "int \<Rightarrow> string"

text \<open>\<open>reflect.DeepEqual\<close> on decoded JSON: maps are compared as maps.\<close>

function deep_equal :: "any \<Rightarrow> any \<Rightarrow> bool" where
  "deep_equal (AList xs) w = (case w of
     AList ys \<Rightarrow> length xs = length ys \<and> list_all (\<lambda>(x, y). deep_equal x y) (zip xs ys) | _ \<Rightarrow> False)"
| "deep_equal (AMap m) w = (case w of
     AMap n \<Rightarrow> length m = length n \<and>
       list_all (\<lambda>(k, v). case map_of n k of None \<Rightarrow> False | Some u \<Rightarrow> deep_equal v u) m | _ \<Rightarrow> False)"
| "deep_equal ANil w \<longleftrightarrow> w = ANil"
| "deep_equal (ABool b) w \<longleftrightarrow> w = ABool b"
| "deep_equal (AInt n) w \<longleftrightarrow> w = AInt n"
| "deep_equal (AFloat q) w \<longleftrightarrow> w = AFloat q"
| "deep_equal (AStr s) w \<longleftrightarrow> w = AStr s"
  by pat_completeness auto

lemma size_in_list: "v \<in> set xs \<Longrightarrow> size v < Suc (size_list size xs)"
  using size_list_estimation' [of v xs "size v" size] by simp

lemma size_in_map: "(k, v) \<in> set m \<Longrightarrow> size v < Suc (size_list (size_prod (\<lambda>_. 0) size) m)"
  using size_list_estimation' [of "(k, v)" m "size v" "size_prod (\<lambda>_. 0) size"] by simp

termination deep_equal
  by (relation "measure (\<lambda>(v, w). size v)") (auto dest: set_zip_leftD size_in_list size_in_map)

section \<open>Effects and selectors\<close>

type_synonym Effect = string
type_synonym SelectorOperator = string
type_synonym labels = "(string \<times> string) list"

definition APIVersion :: string where "APIVersion = ''policy.datascape.io/v1alpha1''"
definition KindName :: string where "KindName = ''Policy''"
definition Deny :: Effect where "Deny = ''deny''"
definition Warn :: Effect where "Warn = ''warn''"
definition SelectorIn :: SelectorOperator where "SelectorIn = ''In''"
definition SelectorNotIn :: SelectorOperator where "SelectorNotIn = ''NotIn''"
definition SelectorExists :: SelectorOperator where "SelectorExists = ''Exists''"
definition SelectorDoesNotExist :: SelectorOperator where "SelectorDoesNotExist = ''DoesNotExist''"

definition effect_Valid :: "Effect \<Rightarrow> bool" where
  "effect_Valid e \<longleftrightarrow> e = Deny \<or> e = Warn"

definition effectRank :: "Effect \<Rightarrow> int" where
  "effectRank e = (if e = Deny then 0 else 1)"

text \<open>\<open>StringList.UnmarshalJSON\<close>: one string or a list of strings; \<open>null\<close> is the empty string.\<close>

definition json_string :: "any \<Rightarrow> string option" where
  "json_string v = (case v of AStr s \<Rightarrow> Some s | ANil \<Rightarrow> Some [] | _ \<Rightarrow> None)"

fun opt_all :: "('a \<Rightarrow> 'b option) \<Rightarrow> 'a list \<Rightarrow> 'b list option" where
  "opt_all f [] = Some []"
| "opt_all f (x # xs) = (case f x of None \<Rightarrow> None | Some y \<Rightarrow> map_option ((#) y) (opt_all f xs))"

definition StringList_of :: "any \<Rightarrow> string list option" where
  "StringList_of v = (case json_string v of
     Some single \<Rightarrow> Some (if single \<noteq> [] then [single] else [])
   | None \<Rightarrow> (case v of AList l \<Rightarrow> opt_all json_string l | _ \<Rightarrow> None))"

definition operator_Valid :: "SelectorOperator \<Rightarrow> bool" where
  "operator_Valid o' \<longleftrightarrow> o' \<in> {SelectorIn, SelectorNotIn, SelectorExists, SelectorDoesNotExist}"

record SelectorRequirement =
  req_Key :: string
  req_Operator :: SelectorOperator
  req_Values :: "string list"

definition Satisfied_req :: "SelectorRequirement \<Rightarrow> labels \<Rightarrow> bool" where
  "Satisfied_req r ls =
     (let present = map_of ls (req_Key r) \<noteq> None; value = get_or [] ls (req_Key r) in
      if req_Operator r = SelectorIn then present \<and> value \<in> set (req_Values r)
      else if req_Operator r = SelectorNotIn then \<not> present \<or> value \<notin> set (req_Values r)
      else if req_Operator r = SelectorExists then present
      else if req_Operator r = SelectorDoesNotExist then \<not> present
      else False)"

datatype policy_error =
    KeyIsRequired
  | BadOperator string string
  | OperatorNeedsValue string string
  | OperatorTakesNoValue string string
  | SelectorRequired
  | SelectorEmpty
  | BadRegexp string
  | NoAssertOperator string
  | BadAPIVersion string string
  | BadKind string string
  | PolicyNameRequired
  | NoRules string
  | RuleWithoutID string
  | DuplicateRule string string string
  | BadEffect string string
  | AssertFieldRequired string
  | AssertOperatorCount string nat
  | InRule string policy_error
  | InSelector string string policy_error
  | FindingCodeRequired string
  | PlanActionRequired string
  | CrossDomainRequired string
  | EdgeSelectorRequired string
  | GrantNamespaceRequired string
  | BadRuleShape string

definition validate_req :: "SelectorRequirement \<Rightarrow> policy_error option" where
  "validate_req r =
     (if req_Key r = [] then Some KeyIsRequired
      else if \<not> operator_Valid (req_Operator r) then Some (BadOperator (req_Key r) (req_Operator r))
      else if req_Operator r \<in> {SelectorIn, SelectorNotIn} \<and> req_Values r = [] then
        Some (OperatorNeedsValue (req_Key r) (req_Operator r))
      else if req_Operator r \<in> {SelectorExists, SelectorDoesNotExist} \<and> req_Values r \<noteq> [] then
        Some (OperatorTakesNoValue (req_Key r) (req_Operator r))
      else None)"

record Selector =
  sel_MatchLabels :: labels
  sel_MatchExpressions :: "SelectorRequirement list"

definition equal_labels :: "labels \<Rightarrow> labels \<Rightarrow> bool" where
  "equal_labels want ls = list_all (\<lambda>(k, v). get_or [] ls k = v) want"

definition Selects_labels :: "Selector option \<Rightarrow> labels \<Rightarrow> bool" where
  "Selects_labels s ls = (case s of None \<Rightarrow> True | Some sel \<Rightarrow>
     equal_labels (sel_MatchLabels sel) ls \<and> list_all (\<lambda>r. Satisfied_req r ls) (sel_MatchExpressions sel))"

definition req_String :: "SelectorRequirement \<Rightarrow> string" where
  "req_String r = (if req_Values r \<noteq> []
     then req_Key r @ '' '' @ req_Operator r @ '' ['' @ Join (req_Values r) '','' @ '']''
     else req_Key r @ '' '' @ req_Operator r)"

definition selector_String :: "Selector option \<Rightarrow> string" where
  "selector_String s = (case s of None \<Rightarrow> ''{}'' | Some sel \<Rightarrow>
     (let pairs = map (\<lambda>k. k @ ''='' @ get_or [] (sel_MatchLabels sel) k) (sort (map fst (sel_MatchLabels sel)));
          parts = (if sel_MatchLabels sel \<noteq> [] then [''matchLabels{'' @ Join pairs '','' @ ''}''] else [])
      in Join (parts @ map req_String (sel_MatchExpressions sel)) '' AND ''))"

definition validate_selector :: "Selector option \<Rightarrow> policy_error option" where
  "validate_selector s = (case s of None \<Rightarrow> Some SelectorRequired | Some sel \<Rightarrow>
     (if sel_MatchLabels sel = [] \<and> sel_MatchExpressions sel = [] then Some SelectorEmpty
      else first_error validate_req (sel_MatchExpressions sel)))"

record Match =
  m_Kind :: "string list"
  m_Label :: labels
  m_Name :: string
  m_Selector :: "Selector option"

definition match_Selects :: "Match option \<Rightarrow> Envelope \<Rightarrow> bool" where
  "match_Selects m e = (case m of None \<Rightarrow> True | Some m \<Rightarrow>
     \<not> (m_Kind m \<noteq> [] \<and> env_Kind e \<notin> set (m_Kind m)) \<and>
     \<not> (m_Name m \<noteq> [] \<and> m_Name m \<noteq> md_Name (env_Metadata e)) \<and>
     equal_labels (m_Label m) (md_Labels (env_Metadata e)) \<and>
     \<not> (m_Selector m \<noteq> None \<and> \<not> Selects_labels (m_Selector m) (md_Labels (env_Metadata e))))"

section \<open>Assertions on fields\<close>

record Assert =
  a_Field :: string
  a_Equals :: any
  a_NotEquals :: any
  a_In :: "any list"
  a_Absent :: bool
  a_Matches :: string

definition operatorCount :: "Assert \<Rightarrow> nat" where
  "operatorCount a = of_bool (a_Absent a) + of_bool (a_Matches a \<noteq> []) + of_bool (a_In a \<noteq> []) +
     of_bool (a_Equals a \<noteq> ANil) + of_bool (a_NotEquals a \<noteq> ANil)"

definition stringify :: "golib \<Rightarrow> any \<Rightarrow> string" where
  "stringify lib v = (case v of ANil \<Rightarrow> [] | AStr s \<Rightarrow> s | _ \<Rightarrow> gl_Sprint lib v)"

definition valuesEqual :: "any \<Rightarrow> any \<Rightarrow> bool" where
  "valuesEqual a b = deep_equal a b"

definition Satisfied :: "golib \<Rightarrow> Assert \<Rightarrow> any \<Rightarrow> bool \<Rightarrow> policy_error + bool" where
  "Satisfied lib a val present =
     (if a_Absent a then Inr (\<not> present)
      else if a_Matches a \<noteq> [] then
        (case gl_Compile lib (a_Matches a) of
           None \<Rightarrow> Inl (BadRegexp (a_Matches a))
         | Some matches \<Rightarrow> Inr (matches (stringify lib val)))
      else if a_In a \<noteq> [] then Inr (list_ex (valuesEqual val) (a_In a))
      else if a_Equals a \<noteq> ANil then Inr (valuesEqual val (a_Equals a))
      else if a_NotEquals a \<noteq> ANil then Inr (\<not> valuesEqual val (a_NotEquals a))
      else Inl (NoAssertOperator (a_Field a)))"

text \<open>
  The envelope as \<open>encoding/json\<close> writes it and reads it back into \<open>map[string]any\<close>: fields
  tagged \<open>omitempty\<close> are absent when empty, numbers become floats.
\<close>

definition omitempty :: "string \<Rightarrow> bool \<Rightarrow> any \<Rightarrow> anymap" where
  "omitempty f zero v = (if zero then [] else [(f, v)])"

definition strings_json :: "labels \<Rightarrow> any" where
  "strings_json m = AMap (map (\<lambda>(k, v). (k, AStr v)) m)"

definition observer_json :: "ObserverRef \<Rightarrow> any" where
  "observer_json r = AMap ((''name'', AStr (obs_Name r)) #
     omitempty ''namespace'' (obs_Namespace r = []) (AStr (obs_Namespace r)))"

definition metadata_json :: "Metadata \<Rightarrow> any" where
  "metadata_json m = AMap ((''name'', AStr (md_Name m)) #
     omitempty ''namespace'' (md_Namespace m = []) (AStr (md_Namespace m)) @
     omitempty ''labels'' (md_Labels m = []) (strings_json (md_Labels m)) @
     omitempty ''annotations'' (md_Annotations m = []) (strings_json (md_Annotations m)) @
     omitempty ''observers'' (md_Observers m = []) (AList (map observer_json (md_Observers m))) @
     omitempty ''protect'' (\<not> md_Protect m) (ABool (md_Protect m)) @
     omitempty ''domain'' (md_Domain m = []) (AStr (md_Domain m)))"

definition condition_json :: "golib \<Rightarrow> Condition \<Rightarrow> any" where
  "condition_json lib c = AMap
     ([(''type'', AStr (case cond_Type c of Ready \<Rightarrow> ''Ready'' | Progressing \<Rightarrow> ''Progressing''
          | Degraded \<Rightarrow> ''Degraded'' | DriftDetected \<Rightarrow> ''DriftDetected'')),
       (''status'', AStr (case cond_Status c of TrueS \<Rightarrow> ''True'' | FalseS \<Rightarrow> ''False'' | UnknownS \<Rightarrow> ''Unknown''))] @
      omitempty ''reason'' (cond_Reason c = []) (AStr (cond_Reason c)) @
      omitempty ''message'' (cond_Message c = []) (AStr (cond_Message c)) @
      [(''lastTransitionTime'', AStr (gl_Time lib (cond_LastTransitionTime c)))])"

definition status_json :: "golib \<Rightarrow> Status \<Rightarrow> any" where
  "status_json lib s = AMap
     (omitempty ''conditions'' (Conditions s = []) (AList (map (condition_json lib) (Conditions s))) @
      [(''observedGeneration'', AFloat (of_int (ObservedGeneration s)))] @
      omitempty ''providerState'' (ProviderState s = []) (json_decoded (AMap (ProviderState s))))"

definition envelope_json :: "golib \<Rightarrow> Envelope \<Rightarrow> any" where
  "envelope_json lib e = AMap
     [(''apiVersion'', AStr (env_APIVersion e)), (''kind'', AStr (env_Kind e)),
      (''metadata'', metadata_json (env_Metadata e)), (''spec'', json_decoded (AMap (env_Spec e))),
      (''status'', status_json lib (env_Status e))]"

fun field_at :: "any \<Rightarrow> string list \<Rightarrow> any option" where
  "field_at cur [] = None"
| "field_at cur [seg] = (case is_map cur of None \<Rightarrow> None | Some m \<Rightarrow> map_of m seg)"
| "field_at cur (seg # segs) = (case is_map cur of None \<Rightarrow> None | Some m \<Rightarrow>
     (case map_of m seg of None \<Rightarrow> None | Some v \<Rightarrow> field_at v segs))"

text \<open>The value and whether the field is present; the encoding of a decoded manifest cannot fail.\<close>

definition FieldValue :: "golib \<Rightarrow> Envelope \<Rightarrow> string \<Rightarrow> any \<times> bool" where
  "FieldValue lib e path = (case field_at (envelope_json lib e) (Split (CHR ''.'') path) of
     None \<Rightarrow> (ANil, False) | Some v \<Rightarrow> (v, True))"

section \<open>Rules and policies\<close>

record FindingMatch =
  fm_Code :: string

record PlanMatch =
  pm_Action :: string
  pm_Kind :: string

record CrossDomainSelector =
  cd_From :: string
  cd_To :: string

record EdgeSelector =
  es_From :: "Selector option"
  es_To :: "Selector option"

record EdgeMatch =
  em_CrossDomain :: "CrossDomainSelector option"
  em_Selector :: "EdgeSelector option"

record GrantMatch =
  gm_Namespace :: string

record Rule =
  r_ID :: string
  r_Match :: "Match option"
  r_Assert :: "Assert option"
  r_MatchFinding :: "FindingMatch option"
  r_MatchPlan :: "PlanMatch option"
  r_MatchEdge :: "EdgeMatch option"
  r_MatchGrant :: "GrantMatch option"
  r_Effect :: Effect
  r_Exemptible :: bool
  r_Message :: string

datatype RuleKind = RuleKindInvalid | RuleKindFieldAssert | RuleKindFinding | RuleKindPlan | RuleKindEdge | RuleKindGrant

definition rule_Kind :: "Rule \<Rightarrow> RuleKind" where
  "rule_Kind r =
     (if r_Match r \<noteq> None \<and> r_Assert r \<noteq> None \<and> r_MatchFinding r = None \<and> r_MatchPlan r = None \<and>
         r_MatchEdge r = None \<and> r_MatchGrant r = None then RuleKindFieldAssert
      else if r_MatchFinding r \<noteq> None \<and> r_Match r = None \<and> r_Assert r = None \<and> r_MatchPlan r = None \<and>
         r_MatchEdge r = None \<and> r_MatchGrant r = None then RuleKindFinding
      else if r_MatchPlan r \<noteq> None \<and> r_Match r = None \<and> r_Assert r = None \<and> r_MatchFinding r = None \<and>
         r_MatchEdge r = None \<and> r_MatchGrant r = None then RuleKindPlan
      else if (case r_MatchEdge r of None \<Rightarrow> False
           | Some em \<Rightarrow> (em_CrossDomain em \<noteq> None) \<noteq> (em_Selector em \<noteq> None)) \<and>
         r_Match r = None \<and> r_Assert r = None \<and> r_MatchFinding r = None \<and> r_MatchPlan r = None \<and>
         r_MatchGrant r = None then RuleKindEdge
      else if r_MatchGrant r \<noteq> None \<and> r_Match r = None \<and> r_Assert r = None \<and> r_MatchFinding r = None \<and>
         r_MatchPlan r = None \<and> r_MatchEdge r = None then RuleKindGrant
      else RuleKindInvalid)"

record Policy =
  pol_APIVersion :: string
  pol_Kind :: string
  pol_Name :: string
  pol_Rules :: "Rule list"

text \<open>The checks of \<open>Decode\<close> on the document \<open>encoding/json\<close> has read.\<close>

definition Decode :: "Policy \<Rightarrow> policy_error + Policy" where
  "Decode p =
     (if pol_APIVersion p \<noteq> APIVersion then Inl (BadAPIVersion (pol_Name p) (pol_APIVersion p))
      else if pol_Kind p \<noteq> KindName then Inl (BadKind (pol_Name p) (pol_Kind p))
      else if pol_Name p = [] then Inl PolicyNameRequired
      else Inr p)"

definition validate_assert :: "golib \<Rightarrow> Rule \<Rightarrow> Match \<Rightarrow> Assert \<Rightarrow> policy_error option" where
  "validate_assert lib r m a =
     (if a_Field a = [] then Some (AssertFieldRequired (r_ID r))
      else if operatorCount a \<noteq> 1 then Some (AssertOperatorCount (r_ID r) (operatorCount a))
      else if a_Matches a \<noteq> [] \<and> gl_Compile lib (a_Matches a) = None then
        Some (InRule (r_ID r) (BadRegexp (a_Matches a)))
      else if m_Selector m \<noteq> None then
        map_option (InSelector (r_ID r) ''match.selector'') (validate_selector (m_Selector m))
      else None)"

definition validate_edge :: "Rule \<Rightarrow> EdgeMatch \<Rightarrow> policy_error option" where
  "validate_edge r em = (case em_CrossDomain em of
     Some cd \<Rightarrow> (if cd_From cd = [] \<or> cd_To cd = [] then Some (CrossDomainRequired (r_ID r)) else None)
   | None \<Rightarrow> (case em_Selector em of
       None \<Rightarrow> None
     | Some sel \<Rightarrow>
         (if es_From sel = None \<or> es_To sel = None then Some (EdgeSelectorRequired (r_ID r))
          else case validate_selector (es_From sel) of
            Some err \<Rightarrow> Some (InSelector (r_ID r) ''matchEdge.selector.from'' err)
          | None \<Rightarrow> map_option (InSelector (r_ID r) ''matchEdge.selector.to'') (validate_selector (es_To sel)))))"

definition validate_shape :: "golib \<Rightarrow> Rule \<Rightarrow> policy_error option" where
  "validate_shape lib r = (case rule_Kind r of
     RuleKindFieldAssert \<Rightarrow> validate_assert lib r (the (r_Match r)) (the (r_Assert r))
   | RuleKindFinding \<Rightarrow> (if fm_Code (the (r_MatchFinding r)) = [] then Some (FindingCodeRequired (r_ID r)) else None)
   | RuleKindPlan \<Rightarrow> (if pm_Action (the (r_MatchPlan r)) = [] then Some (PlanActionRequired (r_ID r)) else None)
   | RuleKindEdge \<Rightarrow> validate_edge r (the (r_MatchEdge r))
   | RuleKindGrant \<Rightarrow> (if gm_Namespace (the (r_MatchGrant r)) = [] then Some (GrantNamespaceRequired (r_ID r)) else None)
   | RuleKindInvalid \<Rightarrow> Some (BadRuleShape (r_ID r)))"

definition validate_rule :: "golib \<Rightarrow> string \<Rightarrow> Rule \<Rightarrow> (string \<times> string) list \<Rightarrow> policy_error + (string \<times> string) list" where
  "validate_rule lib name r seen =
     (if r_ID r = [] then Inl (RuleWithoutID name)
      else case map_of seen (r_ID r) of
        Some owner \<Rightarrow> Inl (DuplicateRule (r_ID r) owner name)
      | None \<Rightarrow>
          (if \<not> effect_Valid (r_Effect r) then Inl (BadEffect (r_ID r) (r_Effect r))
           else case validate_shape lib r of
             Some err \<Rightarrow> Inl err
           | None \<Rightarrow> Inr (AList.update (r_ID r) name seen)))"

definition validate_policy :: "golib \<Rightarrow> Policy \<Rightarrow> (string \<times> string) list \<Rightarrow> policy_error + (string \<times> string) list" where
  "validate_policy lib p seen =
     (if pol_Rules p = [] then Inl (NoRules (pol_Name p))
      else fold_err (validate_rule lib (pol_Name p)) (pol_Rules p) seen)"

definition Validate_policies :: "golib \<Rightarrow> Policy list \<Rightarrow> policy_error option" where
  "Validate_policies lib policies = (case fold_err (validate_policy lib) policies [] of Inl e \<Rightarrow> Some e | Inr _ \<Rightarrow> None)"

section \<open>Decisions\<close>

record 'm Decision =
  d_RuleID :: string
  d_Effect :: Effect
  d_Resource :: Key
  d_Message :: 'm
  d_Exempted :: bool
  d_ExemptReason :: string

definition decision_Less :: "'m Decision \<Rightarrow> 'm Decision \<Rightarrow> bool" where
  "decision_Less a b =
     (if effectRank (d_Effect a) \<noteq> effectRank (d_Effect b) then effectRank (d_Effect a) < effectRank (d_Effect b)
      else if d_RuleID a \<noteq> d_RuleID b then d_RuleID a < d_RuleID b
      else key_String (d_Resource a) < key_String (d_Resource b))"

text \<open>\<open>sort.SliceStable\<close> by \<open>Less\<close>, which compares this key lexicographically (\<open>decision_Less_key\<close>).\<close>

definition decision_key :: "'m Decision \<Rightarrow> int \<times> string \<times> string" where
  "decision_key d = (effectRank (d_Effect d), d_RuleID d, key_String (d_Resource d))"

definition SortDecisions :: "'m Decision list \<Rightarrow> 'm Decision list" where
  "SortDecisions ds = sort_key decision_key ds"

lemma decision_Less_key: "decision_Less a b \<longleftrightarrow> decision_key a < decision_key b"
  by (auto simp: decision_Less_def decision_key_def)

section \<open>Exemptions\<close>

definition ExemptAnnotation :: string where "ExemptAnnotation = ''policy.datascape.io/exempt''"

record Exemption =
  ex_RuleID :: string
  ex_Reason :: string

definition parse_exemption :: "string \<Rightarrow> Exemption option" where
  "parse_exemption line =
     (let entry = TrimSpace line in
      if entry = [] then None
      else case Cut (CHR '':'') entry of (i, reason, found) \<Rightarrow>
        (if \<not> found then None
         else if TrimSpace i = [] \<or> TrimSpace reason = [] then None
         else Some \<lparr>ex_RuleID = TrimSpace i, ex_Reason = TrimSpace reason\<rparr>))"

definition ParseExemptions :: "labels \<Rightarrow> Exemption list" where
  "ParseExemptions annotations =
     (let raw = get_or [] annotations ExemptAnnotation in
      if raw = [] then [] else List.map_filter parse_exemption (Split (CHR 0x0A) raw))"

end
