(* ===== verification/Graph_Access.thy ===== *)
theory Graph_Access
  imports Policy Graph_Queries
begin

text \<open>
  The access compiler, \<open>internal/application/graphaccess\<close>: the access requests a manifest graph
  declares, the containers that realise resources, wide grants with their selectors, and the
  peers a container may dial and be dialled by. A Go set (\<open>map[K]bool\<close>) is a list without
  duplicates; \<open>resources\<close> is the association list of a Go map, in any order. Whether a
  Provider can mediate is the predicate \<open>capable\<close> that the source takes as an argument.
\<close>

section \<open>Access requests\<close>

datatype Edge = Edge (e_From: Key) (e_To: Key)

definition add_new :: "'a \<Rightarrow> 'a list \<Rightarrow> 'a list" where
  "add_new x xs = (if x \<in> set xs then xs else xs @ [x])"

text \<open>
  The order of \<open>DeriveEdges\<close> and \<open>MediatedConsumerEdges\<close>: by the rendering of the source, then of
  the target. Rendered keys of validated manifests differ when the keys do.
\<close>

definition sort_edges :: "Edge list \<Rightarrow> Edge list" where
  "sort_edges es = sort_key (\<lambda>e. (key_String (e_From e), key_String (e_To e))) es"

definition DeriveEdges :: "Graph \<Rightarrow> Edge list" where
  "DeriveEdges g = sort_edges
     (fold (\<lambda>(from, tos). fold (\<lambda>to es. add_new (Edge from to) es) tos) (Edges g) [])"

type_synonym resources = "(Key \<times> Envelope) list"

definition resolveProviderRef :: "Envelope \<Rightarrow> resources \<Rightarrow> Envelope option" where
  "resolveProviderRef env resources =
     (let ref = RefFromSpec (env_Spec env) ''providerRef'' in
      if ref_Name ref = [] then None
      else map_of resources (ref_Key ref (md_Namespace (env_Metadata env)) ''Provider''))"

definition isMediatedConnection :: "Key \<Rightarrow> resources \<Rightarrow> (Envelope \<Rightarrow> bool) \<Rightarrow> bool" where
  "isMediatedConnection k resources capable = (case map_of resources k of None \<Rightarrow> False | Some env \<Rightarrow>
     (if env_Kind env \<noteq> ''Connection'' then False
      else if bool_of (index_any (env_Spec env) ''external'') then False
      else case resolveProviderRef env resources of None \<Rightarrow> False | Some provEnv \<Rightarrow> capable provEnv))"

definition MediatedSubset :: "Edge list \<Rightarrow> resources \<Rightarrow> (Envelope \<Rightarrow> bool) \<Rightarrow> Edge list" where
  "MediatedSubset edges resources capable = filter (\<lambda>e. isMediatedConnection (e_To e) resources capable) edges"

record MediatedConnection =
  mc_Connection :: Key
  mc_Consumers :: "Key list"
  mc_Targets :: "Key list"

definition CompileMediatedConnections :: "Graph \<Rightarrow> resources \<Rightarrow> (Envelope \<Rightarrow> bool) \<Rightarrow> MediatedConnection list" where
  "CompileMediatedConnections g resources capable =
     (let reverse = fold (\<lambda>(from, tos). fold (\<lambda>to r. add_edge to from r) tos) (Edges g) [];
          keys = sort_by key_String (map fst resources)
      in map (\<lambda>k. \<lparr>mc_Connection = k,
            mc_Consumers = sort_by key_String (edges_of reverse k),
            mc_Targets = sort_by key_String
              (filter (\<lambda>to. \<not> (key_Kind to = ''Provider'' \<or> key_Kind to = ''SecretReference'')) (edges_of (Edges g) k))\<rparr>)
          (filter (\<lambda>k. isMediatedConnection k resources capable) keys))"

section \<open>Containers\<close>

definition ContainerOf :: "Key \<Rightarrow> resources \<Rightarrow> Key" where
  "ContainerOf k resources = (case map_of resources k of None \<Rightarrow> k | Some env \<Rightarrow>
     (if env_Kind env = ''Provider'' \<or> env_Kind env = ''Connection'' then k
      else let ref = RefFromSpec (env_Spec env) ''providerRef'' in
        if ref_Name ref = [] then k else ref_Key ref (md_Namespace (env_Metadata env)) ''Provider''))"

definition ContainerDomain :: "Key \<Rightarrow> resources \<Rightarrow> string" where
  "ContainerDomain k resources = (case map_of resources k of None \<Rightarrow> DefaultDomain | Some env \<Rightarrow>
     (let ref = RefFromSpec (env_Spec env) ''providerRef'';
          own = NormalizeDomain (md_Domain (env_Metadata env))
      in if env_Kind env = ''Connection'' \<and> ref_Name ref \<noteq> [] then
           (case map_of resources (ref_Key ref (md_Namespace (env_Metadata env)) ''Provider'') of
              Some p \<Rightarrow> NormalizeDomain (md_Domain (env_Metadata p))
            | None \<Rightarrow> own)
         else own))"

definition mediated_dependents :: "Graph \<Rightarrow> resources \<Rightarrow> Key \<Rightarrow> Key \<Rightarrow> Edge list \<Rightarrow> Edge list" where
  "mediated_dependents g resources conn provKey out = fold (\<lambda>dep out.
     (let container = ContainerOf dep resources in
      if container = provKey then out
      else case map_of resources container of None \<Rightarrow> out | Some containerEnv \<Rightarrow>
        (if env_Kind containerEnv \<noteq> ''Provider'' then out else add_new (Edge container provKey) out)))
     (Dependents g conn) out"

definition MediatedConsumerEdges :: "Graph \<Rightarrow> resources \<Rightarrow> (Envelope \<Rightarrow> bool) \<Rightarrow> Edge list" where
  "MediatedConsumerEdges g resources capable = sort_edges (fold (\<lambda>mc out.
     case map_of resources (mc_Connection mc) of None \<Rightarrow> out | Some connEnv \<Rightarrow>
       (case resolveProviderRef connEnv resources of None \<Rightarrow> out | Some provEnv \<Rightarrow>
          mediated_dependents g resources (mc_Connection mc) (env_Key provEnv) out))
     (CompileMediatedConnections g resources capable) [])"

section \<open>Wide grants\<close>

record AccessGrant =
  ag_Namespace :: string
  ag_Selector :: "Selector option"

text \<open>
  \<open>encoding/json\<close> into a selector: a member that is absent or \<open>null\<close> is empty, one of another
  type is an error. A manifest that passed its schema has no other members.
\<close>

definition json_strings :: "any \<Rightarrow> string list option" where
  "json_strings v = (case v of ANil \<Rightarrow> Some [] | AList l \<Rightarrow> opt_all json_string l | _ \<Rightarrow> None)"

definition json_labels :: "any \<Rightarrow> labels option" where
  "json_labels v = (case v of ANil \<Rightarrow> Some []
     | AMap m \<Rightarrow> opt_all (\<lambda>(k, v). map_option (Pair k) (json_string v)) m | _ \<Rightarrow> None)"

definition json_requirement :: "any \<Rightarrow> SelectorRequirement option" where
  "json_requirement v = (case v of
     ANil \<Rightarrow> Some \<lparr>req_Key = [], req_Operator = [], req_Values = []\<rparr>
   | AMap m \<Rightarrow> (case json_string (index_any m ''key'') of None \<Rightarrow> None | Some k \<Rightarrow>
       (case json_string (index_any m ''operator'') of None \<Rightarrow> None | Some oper \<Rightarrow>
          map_option (\<lambda>vs. \<lparr>req_Key = k, req_Operator = oper, req_Values = vs\<rparr>) (json_strings (index_any m ''values''))))
   | _ \<Rightarrow> None)"

definition json_requirements :: "any \<Rightarrow> SelectorRequirement list option" where
  "json_requirements v = (case v of ANil \<Rightarrow> Some [] | AList l \<Rightarrow> opt_all json_requirement l | _ \<Rightarrow> None)"

definition decodeSelector :: "anymap \<Rightarrow> Selector option" where
  "decodeSelector raw = (case json_labels (index_any raw ''matchLabels'') of None \<Rightarrow> None | Some ls \<Rightarrow>
     map_option (\<lambda>es. \<lparr>sel_MatchLabels = ls, sel_MatchExpressions = es\<rparr>)
       (json_requirements (index_any raw ''matchExpressions'')))"

definition access_grant :: "any \<Rightarrow> AccessGrant option" where
  "access_grant item = (case is_map item of None \<Rightarrow> None | Some m \<Rightarrow>
     (let ns = str_of (index_any m ''namespace'') in
      if ns = [] then None
      else Some \<lparr>ag_Namespace = NormalizeNamespace ns,
        ag_Selector = (case is_map (index_any m ''selector'') of None \<Rightarrow> None | Some sel \<Rightarrow> decodeSelector sel)\<rparr>))"

definition AccessGrants :: "Envelope \<Rightarrow> AccessGrant list" where
  "AccessGrants env = (case is_list (index_any (env_Spec env) ''access'') of
     None \<Rightarrow> [] | Some raw \<Rightarrow> List.map_filter access_grant raw)"

definition grantAdmits :: "AccessGrant \<Rightarrow> Envelope \<Rightarrow> bool \<Rightarrow> bool" where
  "grantAdmits grant candidateEnv gate =
     (if ag_Selector grant = None then True
      else if \<not> gate then False
      else Selects_labels (ag_Selector grant) (md_Labels (env_Metadata candidateEnv)))"

section \<open>Peers\<close>

definition containerMembers :: "Key \<Rightarrow> resources \<Rightarrow> Key list" where
  "containerMembers self resources =
     fold (\<lambda>k out. if ContainerOf k resources = self then add_new k out else out) (map fst resources) [self]"

definition addGrantedContainers :: "Key list \<Rightarrow> AccessGrant \<Rightarrow> Key \<Rightarrow> resources \<Rightarrow> bool \<Rightarrow> Key list" where
  "addGrantedContainers out grant self resources gate = fold (\<lambda>candidate out.
     (let c = ContainerOf candidate resources in
      if c = self \<or> key_Namespace c \<noteq> ag_Namespace grant then out
      else case map_of resources c of None \<Rightarrow> out | Some containerEnv \<Rightarrow>
        (if \<not> grantAdmits grant containerEnv gate then out else add_new c out)))
     (map fst resources) out"

definition sortedKeys :: "Key list \<Rightarrow> Key list" where
  "sortedKeys m = sort_by key_String m"

definition EgressPeers :: "Edge list \<Rightarrow> Key \<Rightarrow> resources \<Rightarrow> bool \<Rightarrow> Key list" where
  "EgressPeers edges self resources gate =
     (let members = containerMembers self resources;
          out = fold (\<lambda>e out. if e_From e \<notin> set members then out
            else let other = ContainerOf (e_To e) resources in if other \<noteq> self then add_new other out else out) edges []
      in sortedKeys (fold (\<lambda>k out. case map_of resources k of None \<Rightarrow> out | Some env \<Rightarrow>
           fold (\<lambda>grant out. addGrantedContainers out grant self resources gate) (AccessGrants env) out) members out))"

definition IngressPeers :: "Edge list \<Rightarrow> Key \<Rightarrow> resources \<Rightarrow> bool \<Rightarrow> Key list" where
  "IngressPeers edges self resources gate =
     (let members = containerMembers self resources;
          out = fold (\<lambda>e out. if e_To e \<notin> set members then out
            else let other = ContainerOf (e_From e) resources in if other \<noteq> self then add_new other out else out) edges [];
          selfEnv = get_or zero_Envelope resources self
      in sortedKeys (fold (\<lambda>(k, env) out.
           (let c = ContainerOf k resources in
            if c = self then out
            else fold (\<lambda>grant out. if ag_Namespace grant \<noteq> key_Namespace self then out
              else if \<not> grantAdmits grant selfEnv gate then out else add_new c out) (AccessGrants env) out))
           resources out))"

definition MembershipEdges :: "Edge list \<Rightarrow> Key \<Rightarrow> resources \<Rightarrow> bool \<Rightarrow> Key list" where
  "MembershipEdges edges self resources gate = sortedKeys
     (fold add_new (EgressPeers edges self resources gate @ IngressPeers edges self resources gate) [])"

section \<open>What the compilers compute\<close>

lemma set_add_new [simp]: "set (add_new x xs) = insert x (set xs)"
  by (auto simp: add_new_def)

lemma distinct_add_new [simp]: "distinct (add_new x xs) \<longleftrightarrow> distinct xs"
  by (simp add: add_new_def)

text \<open>A loop that only adds to a set adds what each round adds.\<close>

lemma set_fold_collect:
  assumes "\<And>x out. x \<in> set xs \<Longrightarrow> set (f x out) = set out \<union> F x"
  shows "set (fold f xs out) = set out \<union> (\<Union>x\<in>set xs. F x)"
  using assms by (induction xs arbitrary: out) auto

lemma distinct_fold_collect:
  assumes "\<And>x out. x \<in> set xs \<Longrightarrow> distinct out \<Longrightarrow> distinct (f x out)" "distinct out"
  shows "distinct (fold f xs out)"
  using assms by (induction xs arbitrary: out) auto

lemma set_sort_edges [simp]: "set (sort_edges es) = set es"
  by (simp add: sort_edges_def)

lemma set_sortedKeys [simp]: "set (sortedKeys ks) = set ks"
  by (simp add: sortedKeys_def)

lemma members_iff: "k \<in> set (containerMembers self resources) \<longleftrightarrow>
    k = self \<or> k \<in> fst ` set resources \<and> ContainerOf k resources = self"
proof -
  have "set (containerMembers self resources) = set [self] \<union>
      (\<Union>k\<in>set (map fst resources). if ContainerOf k resources = self then {k} else {})"
    unfolding containerMembers_def by (rule set_fold_collect) auto
  then show ?thesis by (auto split: if_splits)
qed

lemma ContainerOf_outside:
  assumes "k \<notin> fst ` set resources"
  shows "ContainerOf k resources = k"
proof -
  have "map_of resources k = None" using assms by (simp add: map_of_eq_None_iff)
  then show ?thesis by (simp add: ContainerOf_def)
qed

text \<open>The members of a container are the keys it realises.\<close>

lemma members_container:
  assumes "ContainerOf self resources = self"
  shows "k \<in> set (containerMembers self resources) \<longleftrightarrow> ContainerOf k resources = self"
  using assms ContainerOf_outside [of k resources] unfolding members_iff by metis

lemma set_DeriveEdges: "set (DeriveEdges g) = {Edge u v | u v ds. (u, ds) \<in> set (Edges g) \<and> v \<in> set ds}"
proof -
  have inner: "set (fold (\<lambda>to es. add_new (Edge u to) es) tos out) = set out \<union> (\<Union>to\<in>set tos. {Edge u to})" for u tos out
    by (rule set_fold_collect) auto
  have "set (fold (\<lambda>(u, tos). fold (\<lambda>to es. add_new (Edge u to) es) tos) (Edges g) []) =
      set [] \<union> (\<Union>p\<in>set (Edges g). \<Union>to\<in>set (snd p). {Edge (fst p) to})"
    by (rule set_fold_collect) (auto simp: inner)
  then show ?thesis unfolding DeriveEdges_def by force
qed

text \<open>
  The access a set of manifests declares, at container granularity: a reference between
  realised resources, or a wide grant that admits the container.
\<close>

definition grants_access :: "resources \<Rightarrow> bool \<Rightarrow> Key \<Rightarrow> Key \<Rightarrow> bool" where
  "grants_access resources gate b a \<longleftrightarrow> (\<exists>k env grant. (k, env) \<in> set resources \<and> ContainerOf k resources = b \<and>
     grant \<in> set (AccessGrants env) \<and> ag_Namespace grant = key_Namespace a \<and>
     grantAdmits grant (get_or zero_Envelope resources a) gate)"

definition references :: "Edge list \<Rightarrow> resources \<Rightarrow> Key \<Rightarrow> Key \<Rightarrow> bool" where
  "references edges resources b a \<longleftrightarrow>
     (\<exists>e\<in>set edges. ContainerOf (e_From e) resources = b \<and> ContainerOf (e_To e) resources = a)"

definition realised :: "resources \<Rightarrow> Key \<Rightarrow> bool" where
  "realised resources a \<longleftrightarrow> a \<in> fst ` set resources \<and> (\<exists>k\<in>fst ` set resources. ContainerOf k resources = a)"

definition is_container :: "resources \<Rightarrow> Key \<Rightarrow> bool" where
  "is_container resources k \<longleftrightarrow> k \<in> fst ` set resources \<and> ContainerOf k resources = k"

lemma set_addGranted: "set (addGrantedContainers out grant self resources gate) = set out \<union>
    {c. c \<noteq> self \<and> ag_Namespace grant = key_Namespace c \<and> realised resources c \<and> grantAdmits grant (get_or zero_Envelope resources c) gate}"
proof -
  let ?F = "\<lambda>k. let c = ContainerOf k resources in
    if c \<noteq> self \<and> ag_Namespace grant = key_Namespace c \<and> c \<in> fst ` set resources \<and>
      grantAdmits grant (get_or zero_Envelope resources c) gate then {c} else {}"
  have dom: "map_of resources c = None \<longleftrightarrow> c \<notin> fst ` set resources" for c by (rule map_of_eq_None_iff)
  have "set (addGrantedContainers out grant self resources gate) = set out \<union> (\<Union>k\<in>set (map fst resources). ?F k)"
    unfolding addGrantedContainers_def
  proof (rule set_fold_collect)
    fix k out
    let ?c = "ContainerOf k resources"
    show "set (let c = ?c in if c = self \<or> key_Namespace c \<noteq> ag_Namespace grant then out
        else case map_of resources c of None \<Rightarrow> out | Some containerEnv \<Rightarrow>
          if \<not> grantAdmits grant containerEnv gate then out else add_new c out) = set out \<union> ?F k"
      using dom [of ?c] by (cases "map_of resources ?c") (auto simp: Let_def get_or_def)
  qed
  also have "(\<Union>k\<in>set (map fst resources). ?F k) = {c. c \<noteq> self \<and> ag_Namespace grant = key_Namespace c \<and>
      realised resources c \<and>
      grantAdmits grant (get_or zero_Envelope resources c) gate}"
    by (auto simp: Let_def realised_def split: if_splits)
  finally show ?thesis .
qed

lemma UN_option: "(\<Union>k\<in>K. case m k of None \<Rightarrow> {} | Some v \<Rightarrow> U v) = {a. \<exists>k v. k \<in> K \<and> m k = Some v \<and> a \<in> U v}"
  by (auto split: option.splits)

lemma set_EgressPeers_raw: "set (EgressPeers edges self resources gate) =
    {a. a \<noteq> self \<and> (\<exists>e\<in>set edges. e_From e \<in> set (containerMembers self resources) \<and> ContainerOf (e_To e) resources = a)} \<union>
    {a. a \<noteq> self \<and> realised resources a \<and>
      (\<exists>k env grant. k \<in> set (containerMembers self resources) \<and> map_of resources k = Some env \<and>
         grant \<in> set (AccessGrants env) \<and> ag_Namespace grant = key_Namespace a \<and>
         grantAdmits grant (get_or zero_Envelope resources a) gate)}"
proof -
  let ?ms = "containerMembers self resources"
  define refs where "refs = fold (\<lambda>e out. if e_From e \<notin> set ?ms then out
    else let other = ContainerOf (e_To e) resources in if other \<noteq> self then add_new other out else out) edges []"
  define G where "G = (\<lambda>grant. {c. c \<noteq> self \<and> ag_Namespace grant = key_Namespace c \<and> realised resources c \<and> grantAdmits grant (get_or zero_Envelope resources c) gate})"
  have r: "set refs = set [] \<union> (\<Union>e\<in>set edges. if e_From e \<in> set ?ms \<and> ContainerOf (e_To e) resources \<noteq> self
      then {ContainerOf (e_To e) resources} else {})"
    unfolding refs_def by (rule set_fold_collect) (auto simp: Let_def)
  have inner: "set (fold (\<lambda>grant out. addGrantedContainers out grant self resources gate) gs out) =
      set out \<union> (\<Union>grant\<in>set gs. G grant)" for gs out
    by (rule set_fold_collect) (simp add: set_addGranted G_def)
  have "set (EgressPeers edges self resources gate) = set refs \<union>
      (\<Union>k\<in>set ?ms. case map_of resources k of None \<Rightarrow> {} | Some env \<Rightarrow> (\<Union>grant\<in>set (AccessGrants env). G grant))"
    unfolding EgressPeers_def Let_def set_sortedKeys refs_def [unfolded Let_def, symmetric]
    by (rule set_fold_collect) (auto simp: inner split: option.splits)
  also have "set refs = {a. a \<noteq> self \<and> (\<exists>e\<in>set edges. e_From e \<in> set ?ms \<and> ContainerOf (e_To e) resources = a)}"
    unfolding r by (auto split: if_splits)
  also have "(\<Union>k\<in>set ?ms. case map_of resources k of None \<Rightarrow> {} | Some env \<Rightarrow> (\<Union>grant\<in>set (AccessGrants env). G grant)) =
      {a. a \<noteq> self \<and> realised resources a \<and>
      (\<exists>k env grant. k \<in> set ?ms \<and> map_of resources k = Some env \<and>
         grant \<in> set (AccessGrants env) \<and> ag_Namespace grant = key_Namespace a \<and>
         grantAdmits grant (get_or zero_Envelope resources a) gate)}"
    unfolding UN_option unfolding G_def UN_iff mem_Collect_eq by blast
  finally show ?thesis .
qed

lemma set_IngressPeers_raw: "set (IngressPeers edges self resources gate) =
    {b. b \<noteq> self \<and> (\<exists>e\<in>set edges. e_To e \<in> set (containerMembers self resources) \<and> ContainerOf (e_From e) resources = b)} \<union>
    {b. b \<noteq> self \<and> grants_access resources gate b self}"
proof -
  let ?ms = "containerMembers self resources" and ?self = "get_or zero_Envelope resources self"
  define refs where "refs = fold (\<lambda>e out. if e_To e \<notin> set ?ms then out
    else let other = ContainerOf (e_From e) resources in if other \<noteq> self then add_new other out else out) edges []"
  define P where "P = (\<lambda>grant. ag_Namespace grant = key_Namespace self \<and> grantAdmits grant ?self gate)"
  have r: "set refs = set [] \<union> (\<Union>e\<in>set edges. if e_To e \<in> set ?ms \<and> ContainerOf (e_From e) resources \<noteq> self
      then {ContainerOf (e_From e) resources} else {})"
    unfolding refs_def by (rule set_fold_collect) (auto simp: Let_def)
  have inner: "set (fold (\<lambda>grant out. if ag_Namespace grant \<noteq> key_Namespace self then out
      else if \<not> grantAdmits grant ?self gate then out else add_new c out) gs out) =
      set out \<union> {x. x = c \<and> (\<exists>grant\<in>set gs. P grant)}" for c gs out
    using set_fold_collect [of gs "\<lambda>grant out. if ag_Namespace grant \<noteq> key_Namespace self then out
      else if \<not> grantAdmits grant ?self gate then out else add_new c out" "\<lambda>grant. {x. x = c \<and> P grant}" out]
    by (auto simp: P_def)
  have "set (IngressPeers edges self resources gate) = set refs \<union>
      (\<Union>p\<in>set resources. {x. x \<noteq> self \<and> x = ContainerOf (fst p) resources \<and> (\<exists>grant\<in>set (AccessGrants (snd p)). P grant)})"
    unfolding IngressPeers_def Let_def set_sortedKeys refs_def [unfolded Let_def, symmetric]
  proof (rule set_fold_collect)
    fix p :: "Key \<times> Envelope" and out
    obtain k env where p: "p = (k, env)" by (cases p)
    show "set ((case p of (k, env) \<Rightarrow> \<lambda>out. if ContainerOf k resources = self then out
          else fold (\<lambda>grant out. if ag_Namespace grant \<noteq> key_Namespace self then out
            else if \<not> grantAdmits grant ?self gate then out else add_new (ContainerOf k resources) out) (AccessGrants env) out) out) =
        set out \<union> {x. x \<noteq> self \<and> x = ContainerOf (fst p) resources \<and> (\<exists>grant\<in>set (AccessGrants (snd p)). P grant)}"
      by (cases "ContainerOf k resources = self") (auto simp: p inner)
  qed
  also have "set refs = {b. b \<noteq> self \<and> (\<exists>e\<in>set edges. e_To e \<in> set ?ms \<and> ContainerOf (e_From e) resources = b)}"
    unfolding r by (auto split: if_splits)
  also have "(\<Union>p\<in>set resources. {x. x \<noteq> self \<and> x = ContainerOf (fst p) resources \<and> (\<exists>grant\<in>set (AccessGrants (snd p)). P grant)}) =
      {b. b \<noteq> self \<and> grants_access resources gate b self}"
    unfolding grants_access_def P_def by fastforce
  finally show ?thesis .
qed

lemma egress_exact:
  assumes "is_container resources b" "distinct (map fst resources)"
  shows "a \<in> set (EgressPeers edges b resources gate) \<longleftrightarrow>
    a \<noteq> b \<and> (references edges resources b a \<or>
      realised resources a \<and> grants_access resources gate b a)"
proof -
  have b: "k \<in> set (containerMembers b resources) \<longleftrightarrow> ContainerOf k resources = b" for k
    using assms by (simp add: is_container_def members_container)
  have "map_of resources k = Some env \<longleftrightarrow> (k, env) \<in> set resources" for k env
    using assms(2) by simp
  then show ?thesis unfolding set_EgressPeers_raw references_def grants_access_def b by blast
qed

lemma ingress_exact:
  assumes "is_container resources a"
  shows "b \<in> set (IngressPeers edges a resources gate) \<longleftrightarrow>
    b \<noteq> a \<and> (references edges resources b a \<or> grants_access resources gate b a)"
proof -
  have a: "k \<in> set (containerMembers a resources) \<longleftrightarrow> ContainerOf k resources = a" for k
    using assms by (simp add: is_container_def members_container)
  then show ?thesis unfolding set_IngressPeers_raw references_def a by blast
qed

text \<open>
  C14: the two directions of the access compiler agree. Between containers of a manifest set, one
  may dial the other exactly when the other admits it, and both hold exactly when a resource of
  the first declares a reference to a resource of the second or carries a wide grant that admits
  the second; otherwise neither end opens a path. Docker's membership relation is symmetric.
\<close>

theorem access_compiled_exactly:
  assumes "distinct (map fst resources)" "is_container resources a" "is_container resources b"
  shows "(a \<in> set (EgressPeers edges b resources gate) \<longleftrightarrow> b \<in> set (IngressPeers edges a resources gate)) \<and>
    (a \<in> set (EgressPeers edges b resources gate) \<longleftrightarrow>
       a \<noteq> b \<and> (references edges resources b a \<or> grants_access resources gate b a)) \<and>
    (a \<in> set (MembershipEdges edges b resources gate) \<longleftrightarrow> b \<in> set (MembershipEdges edges a resources gate))"
proof -
  have eg: "y \<in> set (EgressPeers edges x resources gate) \<longleftrightarrow>
      y \<noteq> x \<and> (references edges resources x y \<or> grants_access resources gate x y)"
    if "is_container resources x" "is_container resources y" for x y
    using egress_exact [OF that(1) assms(1), of y edges gate] that(2) by (auto simp: is_container_def realised_def)
  have m: "set (MembershipEdges edges x resources gate) =
      set (EgressPeers edges x resources gate) \<union> set (IngressPeers edges x resources gate)" for x
  proof -
    have "set (fold add_new xs out) = set out \<union> (\<Union>x\<in>set xs. {x})" for xs :: "Key list" and out
      by (rule set_fold_collect) auto
    then show ?thesis by (simp add: MembershipEdges_def)
  qed
  show ?thesis
    unfolding m Un_iff eg [OF assms(3,2)] eg [OF assms(2,3)] ingress_exact [OF assms(2)] ingress_exact [OF assms(3)]
    by blast
qed

section \<open>The LabelScopedAccess gate\<close>

definition bare_grant :: "resources \<Rightarrow> Key \<Rightarrow> Key \<Rightarrow> bool" where
  "bare_grant resources b a \<longleftrightarrow> (\<exists>k env grant. (k, env) \<in> set resources \<and> ContainerOf k resources = b \<and>
     grant \<in> set (AccessGrants env) \<and> ag_Namespace grant = key_Namespace a \<and> ag_Selector grant = None)"

lemma grants_access_off: "grants_access resources False b a \<longleftrightarrow> bare_grant resources b a"
  unfolding grants_access_def bare_grant_def grantAdmits_def by auto

lemma grantAdmits_mono: "grantAdmits grant env False \<Longrightarrow> grantAdmits grant env gate"
  by (simp add: grantAdmits_def split: if_splits)

lemma grants_access_mono: "grants_access resources False b a \<Longrightarrow> grants_access resources gate b a"
  unfolding grants_access_def using grantAdmits_mono by blast

text \<open>
  With the LabelScopedAccess gate off a selector-bearing grant admits nobody: it is never
  read as the namespace-wide grant it narrows. The paths open with the gate off are those of
  references and of grants without a selector, and turning the gate on closes none of them.
\<close>

theorem selector_grants_inert:
  assumes "distinct (map fst resources)" "is_container resources a" "is_container resources b"
  shows "(a \<in> set (EgressPeers edges b resources False) \<longleftrightarrow>
      a \<noteq> b \<and> (references edges resources b a \<or> bare_grant resources b a)) \<and>
    (a \<in> set (EgressPeers edges b resources False) \<longrightarrow> a \<in> set (EgressPeers edges b resources gate))"
proof -
  have a: "realised resources a" using assms(2) by (auto simp: is_container_def realised_def)
  show ?thesis
    unfolding egress_exact [OF assms(3,1)] grants_access_off [symmetric] using a grants_access_mono by blast
qed

section \<open>Mediated connections\<close>

lemma set_mediated_dependents: "set (mediated_dependents g resources conn provKey out) = set out \<union>
    {Edge c provKey | c. c \<noteq> provKey \<and> (\<exists>dep\<in>set (Dependents g conn). ContainerOf dep resources = c) \<and>
       (\<exists>env. map_of resources c = Some env \<and> env_Kind env = ''Provider'')}"
proof -
  let ?F = "\<lambda>dep. {Edge c provKey | c. c = ContainerOf dep resources \<and> c \<noteq> provKey \<and>
    (\<exists>env. map_of resources c = Some env \<and> env_Kind env = ''Provider'')}"
  have "set (mediated_dependents g resources conn provKey out) = set out \<union> (\<Union>dep\<in>set (Dependents g conn). ?F dep)"
    unfolding mediated_dependents_def
    by (rule set_fold_collect) (auto simp: Let_def split: option.splits)
  then show ?thesis by auto
qed

lemma CompileMediated_connection:
  assumes "isMediatedConnection k resources capable"
  shows "\<exists>mc\<in>set (CompileMediatedConnections g resources capable). mc_Connection mc = k"
proof -
  have "k \<in> set (map fst resources)"
    using assms by (auto simp: isMediatedConnection_def dest!: map_of_SomeD split: option.splits intro: rev_image_eqI)
  with assms show ?thesis
    unfolding CompileMediatedConnections_def Let_def by (auto simp: image_iff)
qed

lemma set_MediatedConsumerEdges: "set (MediatedConsumerEdges g resources capable) =
    {Edge c (env_Key prov) | c k conn prov. isMediatedConnection k resources capable \<and> map_of resources k = Some conn \<and>
       resolveProviderRef conn resources = Some prov \<and> c \<noteq> env_Key prov \<and>
       (\<exists>d\<in>set (Dependents g k). ContainerOf d resources = c) \<and>
       (\<exists>env. map_of resources c = Some env \<and> env_Kind env = ''Provider'')}"
proof -
  define f where "f = (\<lambda>(mc :: MediatedConnection) out. case map_of resources (mc_Connection mc) of None \<Rightarrow> out | Some connEnv \<Rightarrow>
       (case resolveProviderRef connEnv resources of None \<Rightarrow> out | Some provEnv \<Rightarrow>
          mediated_dependents g resources (mc_Connection mc) (env_Key provEnv) out))"
  define F where "F = (\<lambda>k. {Edge c (env_Key prov) | c conn prov. map_of resources k = Some conn \<and>
       resolveProviderRef conn resources = Some prov \<and> c \<noteq> env_Key prov \<and>
       (\<exists>d\<in>set (Dependents g k). ContainerOf d resources = c) \<and>
       (\<exists>env. map_of resources c = Some env \<and> env_Kind env = ''Provider'')})"
  have "set (f mc out) = set out \<union> F (mc_Connection mc)" for mc :: MediatedConnection and out
  proof (cases "map_of resources (mc_Connection mc)")
    case (Some conn)
    then show ?thesis
      by (cases "resolveProviderRef conn resources") (auto simp: f_def F_def set_mediated_dependents)
  qed (simp add: f_def F_def)
  then have "set (fold f mcs []) = (\<Union>mc\<in>set mcs. F (mc_Connection mc))" for mcs :: "MediatedConnection list"
    using set_fold_collect [of mcs f "\<lambda>mc. F (mc_Connection mc)" "[]"] by simp
  then have "set (MediatedConsumerEdges g resources capable) =
      (\<Union>mc\<in>set (CompileMediatedConnections g resources capable). F (mc_Connection mc))"
    unfolding MediatedConsumerEdges_def set_sort_edges f_def [symmetric] .
  also have "\<dots> = (\<Union>k\<in>{k. isMediatedConnection k resources capable}. F k)"
    using CompileMediated_connection [of _ resources capable g]
    by (force simp: CompileMediatedConnections_def Let_def)
  also have "\<dots> = {Edge c (env_Key prov) | c k conn prov. isMediatedConnection k resources capable \<and>
       map_of resources k = Some conn \<and> resolveProviderRef conn resources = Some prov \<and> c \<noteq> env_Key prov \<and>
       (\<exists>d\<in>set (Dependents g k). ContainerOf d resources = c) \<and>
       (\<exists>env. map_of resources c = Some env \<and> env_Kind env = ''Provider'')}"
    unfolding F_def by blast
  finally show ?thesis .
qed

section \<open>An example\<close>

definition access_env :: "string \<Rightarrow> string \<Rightarrow> anymap \<Rightarrow> Envelope" where
  "access_env kind name spec = zero_Envelope\<lparr>env_Kind := kind,
     env_Metadata := zero_Metadata\<lparr>md_Name := name, md_Namespace := ''default''\<rparr>, env_Spec := spec\<rparr>"

definition reader_env :: Envelope where "reader_env = access_env ''Provider'' ''reader'' []"

definition broker_env :: Envelope where "broker_env = access_env ''Provider'' ''broker'' []"

definition stream_env :: Envelope where
  "stream_env = access_env ''EventStream'' ''orders'' [(''providerRef'', AMap [(''name'', AStr ''broker'')])]"

definition sink_env :: Envelope where
  "sink_env = access_env ''Binding'' ''sink'' [(''providerRef'', AMap [(''name'', AStr ''reader'')])]"

definition access_set :: resources where
  "access_set = map (\<lambda>e. (env_Key e, e)) [reader_env, broker_env, stream_env, sink_env]"

lemma access_set_facts:
  "distinct (map fst access_set)" "is_container access_set (env_Key reader_env)" "is_container access_set (env_Key broker_env)"
  "ContainerOf (env_Key sink_env) access_set = env_Key reader_env" "ContainerOf (env_Key stream_env) access_set = env_Key broker_env"
  unfolding is_container_def by code_simp+

theorem access_compiled_exactly_witness:
  "env_Key broker_env \<in> set (EgressPeers [Edge (env_Key sink_env) (env_Key stream_env)] (env_Key reader_env) access_set False) \<and>
   env_Key reader_env \<in> set (IngressPeers [Edge (env_Key sink_env) (env_Key stream_env)] (env_Key broker_env) access_set False) \<and>
   env_Key reader_env \<notin> set (EgressPeers [Edge (env_Key sink_env) (env_Key stream_env)] (env_Key broker_env) access_set False)"
proof -
  let ?es = "[Edge (env_Key sink_env) (env_Key stream_env)]"
  have ne: "env_Key broker_env \<noteq> env_Key reader_env" by code_simp
  have "references ?es access_set (env_Key reader_env) (env_Key broker_env)"
    by (simp add: references_def access_set_facts(4,5))
  moreover have "\<not> references ?es access_set (env_Key broker_env) (env_Key reader_env)"
    using ne by (simp add: references_def access_set_facts(4,5))
  moreover have "\<not> grants_access access_set False (env_Key broker_env) (env_Key reader_env)"
    unfolding grants_access_off bare_grant_def
    by (auto simp: access_set_def AccessGrants_def index_any_def access_env_def reader_env_def broker_env_def
        stream_env_def sink_env_def)
  ultimately show ?thesis
    using access_compiled_exactly [OF access_set_facts(1,3,2), of ?es False]
      access_compiled_exactly [OF access_set_facts(1,2,3), of ?es False] ne
    by auto
qed

theorem selector_grants_inert_witness:
  "env_Key broker_env \<in> set (EgressPeers [Edge (env_Key sink_env) (env_Key stream_env)] (env_Key reader_env) access_set True)"
proof -
  let ?es = "[Edge (env_Key sink_env) (env_Key stream_env)]"
  have ne: "env_Key broker_env \<noteq> env_Key reader_env" by code_simp
  have "references ?es access_set (env_Key reader_env) (env_Key broker_env)"
    by (simp add: references_def access_set_facts(4,5))
  with ne selector_grants_inert [OF access_set_facts(1,3,2), of ?es True] show ?thesis by blast
qed

end
