(* ===== verification/Lints.thy ===== *)
theory Lints
  imports Graph_Access Compatibility
begin

text \<open>
  Design lints, \<open>internal/domain/lint\<close> and \<open>internal/application/lint\<close>: the finding with its
  order, waiver annotations, the built-in checks DL001 to DL022, the provider-contributed lints
  and \<open>Run\<close>. Messages are values, one constructor per \<open>fmt.Sprintf\<close> site. What an
  implementation lints on its own (\<open>DesignLinter\<close>) is the argument \<open>lint_of\<close>.
\<close>

section \<open>Findings\<close>

type_synonym Severity = string

definition Warning :: Severity where "Warning = ''warning''"
definition Info :: Severity where "Info = ''info''"

definition severityRank :: "Severity \<Rightarrow> int" where
  "severityRank s = (if s = Warning then 0 else if s = Info then 1 else 2)"

datatype sink_label = SinkDataset string string | SinkSource string string

datatype lint_message =
    DuplicateCapture string string "string list"
  | SinkCollision string sink_label "string list"
  | ObserverNotConsumed string string string string
  | PlaintextBoundary string string string string
  | OrphanedEventStream string
  | UnreferencedCatalog string
  | UnusedResource string string
  | DeadEndPipeline string string
  | SingleReplica string string
  | DeletionPolicyUnset string string
  | ProtectUnset string string
  | NamespaceWideGrant string string string
  | WaiverWithoutReason string
  | ReplicationBelowBrokers string int int string
  | PrefixHierarchyCollision string string string "string list"
  | ReplicationSlotPressure string nat string "string list"
  | OverlappingPatternCapture string "string list"

record Finding =
  f_Code :: string
  f_Severity :: Severity
  f_Resource :: Key
  f_Message :: lint_message
  f_Waived :: bool
  f_WaiverReason :: string

definition mk_finding :: "string \<Rightarrow> Severity \<Rightarrow> Key \<Rightarrow> lint_message \<Rightarrow> Finding" where
  "mk_finding code sev k msg = \<lparr>f_Code = code, f_Severity = sev, f_Resource = k, f_Message = msg,
     f_Waived = False, f_WaiverReason = []\<rparr>"

definition finding_Less :: "Finding \<Rightarrow> Finding \<Rightarrow> bool" where
  "finding_Less a b =
     (if severityRank (f_Severity a) \<noteq> severityRank (f_Severity b) then severityRank (f_Severity a) < severityRank (f_Severity b)
      else if f_Code a \<noteq> f_Code b then f_Code a < f_Code b
      else key_String (f_Resource a) < key_String (f_Resource b))"

definition finding_key :: "Finding \<Rightarrow> int \<times> string \<times> string" where
  "finding_key f = (severityRank (f_Severity f), f_Code f, key_String (f_Resource f))"

lemma finding_Less_key: "finding_Less a b \<longleftrightarrow> finding_key a < finding_key b"
  by (auto simp: finding_Less_def finding_key_def)

definition WaiveAnnotation :: string where "WaiveAnnotation = ''lint.datascape.io/waive''"

record Waiver =
  wv_Code :: string
  wv_Reason :: string

definition parse_waiver :: "string \<Rightarrow> Waiver option" where
  "parse_waiver line =
     (let entry = TrimSpace line in
      if entry = [] then None
      else case Cut (CHR '':'') entry of (code, reason, found) \<Rightarrow>
        (if \<not> found then Some \<lparr>wv_Code = TrimSpace entry, wv_Reason = []\<rparr>
         else Some \<lparr>wv_Code = TrimSpace code, wv_Reason = TrimSpace reason\<rparr>))"

definition ParseWaivers :: "labels \<Rightarrow> Waiver list" where
  "ParseWaivers annotations =
     (let raw = get_or [] annotations WaiveAnnotation in
      if raw = [] then [] else List.map_filter parse_waiver (Split (CHR 0x0A) raw))"

section \<open>Codes\<close>

definition CodeMalformedWaiver :: string where "CodeMalformedWaiver = ''DL000''"
definition CodeDuplicateCapture :: string where "CodeDuplicateCapture = ''DL001''"
definition CodeSinkCollision :: string where "CodeSinkCollision = ''DL002''"
definition CodeObserverNotConsumed :: string where "CodeObserverNotConsumed = ''DL003''"
definition CodePlaintextBoundary :: string where "CodePlaintextBoundary = ''DL004''"
definition CodeOrphanedEventStream :: string where "CodeOrphanedEventStream = ''DL010''"
definition CodeUnreferencedCatalog :: string where "CodeUnreferencedCatalog = ''DL011''"
definition CodeUnusedResource :: string where "CodeUnusedResource = ''DL012''"
definition CodeDeadEndPipeline :: string where "CodeDeadEndPipeline = ''DL013''"
definition CodeSingleReplicaWithHAGate :: string where "CodeSingleReplicaWithHAGate = ''DL014''"
definition CodeDeletionPolicyUnset :: string where "CodeDeletionPolicyUnset = ''DL020''"
definition CodeProtectUnset :: string where "CodeProtectUnset = ''DL021''"
definition CodeNamespaceWideGrant :: string where "CodeNamespaceWideGrant = ''DL022''"

definition BuiltinCodes :: "string list" where
  "BuiltinCodes = [CodeMalformedWaiver, CodeDuplicateCapture, CodeSinkCollision, CodeObserverNotConsumed,
     CodePlaintextBoundary, CodeOrphanedEventStream, CodeUnreferencedCatalog, CodeUnusedResource,
     CodeDeadEndPipeline, CodeSingleReplicaWithHAGate, CodeDeletionPolicyUnset, CodeProtectUnset, CodeNamespaceWideGrant]"

section \<open>Pipelines: DL001, DL002 and DL013\<close>

record capture =
  cap_env :: Envelope
  cap_tables :: "string list"
  cap_all :: bool

definition capturesOverlap :: "capture \<Rightarrow> capture \<Rightarrow> bool" where
  "capturesOverlap a b \<longleftrightarrow> cap_all a \<or> cap_all b \<or> list_ex (\<lambda>t. t \<in> set (cap_tables b)) (cap_tables a)"

text \<open>Appending to the group of a key, \<open>groups[key] = append(groups[key], x)\<close>.\<close>

definition add_group :: "'k \<Rightarrow> 'v \<Rightarrow> ('k \<times> 'v list) list \<Rightarrow> ('k \<times> 'v list) list" where
  "add_group k x groups = AList.update k (get_or [] groups k @ [x]) groups"

definition capture_of :: "Envelope \<Rightarrow> Binding \<Rightarrow> capture" where
  "capture_of e b = (case is_list (index_any (bi_Options b) ''tables'') of
     Some tables \<Rightarrow> (if tables \<noteq> []
       then \<lparr>cap_env = e, cap_tables = filter (\<lambda>s. s \<noteq> []) (List.map_filter is_string tables), cap_all = False\<rparr>
       else \<lparr>cap_env = e, cap_tables = [], cap_all = True\<rparr>)
   | None \<Rightarrow> \<lparr>cap_env = e, cap_tables = [], cap_all = True\<rparr>)"

text \<open>The Source a cdc Binding captures, with its capture; nothing for any other resource.\<close>

definition cdc_capture :: "manifestIndex \<Rightarrow> Envelope \<Rightarrow> (Key \<times> capture) option" where
  "cdc_capture idx e =
     (if env_Kind e \<noteq> ''Binding'' then None
      else case Binding_FromEnvelope e of (_, Some _) \<Rightarrow> None | (b, None) \<Rightarrow>
        (if bi_Mode b \<noteq> ''cdc'' then None
         else case resolve_ref idx e (RefFromSpec (env_Spec e) ''sourceRef'') [''Source''] of
           Found srcEnv \<Rightarrow> Some (env_Key srcEnv, capture_of e b)
         | _ \<Rightarrow> None))"

definition offending :: "capture list \<Rightarrow> nat list" where
  "offending grp = filter (\<lambda>i. list_ex (\<lambda>j. j \<noteq> i \<and> capturesOverlap (grp ! min i j) (grp ! max i j))
     [0..<length grp]) [0..<length grp]"

definition capture_findings :: "Key \<Rightarrow> capture list \<Rightarrow> Finding list" where
  "capture_findings srcKey members =
     (if length members < 2 then []
      else let grp = sort_by (\<lambda>c. key_String (env_Key (cap_env c))) members; off = offending grp in
        map (\<lambda>i. mk_finding CodeDuplicateCapture Warning (env_Key (cap_env (grp ! i)))
            (DuplicateCapture (md_Name (env_Metadata (cap_env (grp ! i)))) (key_Name srcKey)
              (map (\<lambda>j. md_Name (env_Metadata (cap_env (grp ! j)))) (filter (\<lambda>j. j \<noteq> i) off)))) off)"

definition lintDuplicateCapture :: "Envelope list \<Rightarrow> manifestIndex \<Rightarrow> Finding list" where
  "lintDuplicateCapture envelopes idx =
     (let groups = fold (\<lambda>e gs. case cdc_capture idx e of None \<Rightarrow> gs | Some (k, c) \<Rightarrow> add_group k c gs) envelopes []
      in concat (map (\<lambda>k. capture_findings k (get_or [] groups k)) (sort_by key_String (map fst groups))))"

record sinkTarget =
  st_env :: Envelope
  st_key :: string
  st_label :: sink_label

datatype sink_dest = ToDataset sinkTarget | ToSource sinkTarget

definition sink_target :: "manifestIndex \<Rightarrow> Envelope \<Rightarrow> sink_dest option" where
  "sink_target idx e =
     (if env_Kind e \<noteq> ''Binding'' then None
      else case Binding_FromEnvelope e of (_, Some _) \<Rightarrow> None | (b, None) \<Rightarrow>
        (if bi_Mode b \<noteq> ''sink'' then None
         else case resolve_ref idx e (RefFromSpec (env_Spec e) ''targetRef'') [''Dataset'', ''Source''] of
           Found tgt \<Rightarrow>
             (if env_Kind tgt = ''Dataset'' then
                (case Dataset_FromEnvelope tgt of (_, Some _) \<Rightarrow> None | (ds, None) \<Rightarrow>
                   Some (ToDataset \<lparr>st_env = e, st_key = da_Bucket ds @ [CHR 0x00] @ da_Prefix ds,
                     st_label = SinkDataset (da_Bucket ds) (da_Prefix ds)\<rparr>))
              else if env_Kind tgt = ''Source'' then
                (let t = str_of (index_any (bi_Options b) ''table''); table = (if t = [] then ''<default>'' else t)
                 in Some (ToSource \<lparr>st_env = e, st_key = key_String (env_Key tgt) @ [CHR 0x00] @ table,
                     st_label = SinkSource (md_Name (env_Metadata tgt)) table\<rparr>))
              else None)
         | _ \<Rightarrow> None))"

definition collision_findings :: "sinkTarget list \<Rightarrow> Finding list" where
  "collision_findings members =
     (if length members < 2 then []
      else let grp = sort_by (\<lambda>t. key_String (env_Key (st_env t))) members in
        map (\<lambda>i. mk_finding CodeSinkCollision Warning (env_Key (st_env (grp ! i)))
            (SinkCollision (md_Name (env_Metadata (st_env (grp ! i)))) (st_label (grp ! i))
              (map (\<lambda>j. md_Name (env_Metadata (st_env (grp ! j)))) (filter (\<lambda>j. j \<noteq> i) [0..<length grp]))))
          [0..<length grp])"

definition collideOnKey :: "sinkTarget list \<Rightarrow> Finding list" where
  "collideOnKey targets =
     (let groups = fold (\<lambda>t gs. add_group (st_key t) t gs) targets []
      in concat (map (\<lambda>k. collision_findings (get_or [] groups k)) (sort (map fst groups))))"

definition lintSinkCollision :: "Envelope list \<Rightarrow> manifestIndex \<Rightarrow> Finding list" where
  "lintSinkCollision envelopes idx =
     (let dests = List.map_filter (sink_target idx) envelopes
      in collideOnKey (List.map_filter (\<lambda>d. case d of ToDataset t \<Rightarrow> Some t | _ \<Rightarrow> None) dests) @
         collideOnKey (List.map_filter (\<lambda>d. case d of ToSource t \<Rightarrow> Some t | _ \<Rightarrow> None) dests))"

definition lintDeadEndPipeline :: "Envelope list \<Rightarrow> Graph \<Rightarrow> Finding list" where
  "lintDeadEndPipeline envelopes g = concat (map (\<lambda>e.
     (if env_Kind e \<noteq> ''Binding'' then []
      else case Binding_FromEnvelope e of (_, Some _) \<Rightarrow> [] | (b, None) \<Rightarrow>
        (if bi_Mode b \<noteq> ''cdc'' then []
         else concat (map (\<lambda>dep. case map_of (Nodes g) dep of None \<Rightarrow> [] | Some node \<Rightarrow>
           (if env_Kind node \<noteq> ''EventStream'' then []
            else if length (Dependents g dep) > 1 then []
            else [mk_finding CodeDeadEndPipeline Info (env_Key e)
              (DeadEndPipeline (md_Name (env_Metadata e)) (md_Name (env_Metadata node)))]))
           (edges_of (Edges g) (env_Key e)))))) envelopes)"

section \<open>Providers: DL003, DL004 and DL014\<close>

definition lintObserverNotConsumed :: "Envelope list \<Rightarrow> manifestIndex \<Rightarrow> ('w, 'r) resolver \<Rightarrow> Finding list" where
  "lintObserverNotConsumed envelopes idx resolve = concat (map (\<lambda>e.
     (if md_Observers (env_Metadata e) = [] then []
      else case resolveKind idx e (RefFromSpec (env_Spec e) ''providerRef'') ''Provider'' of None \<Rightarrow> [] | Some provEnv \<Rightarrow>
        (case Provider_FromEnvelope provEnv of (_, Some _) \<Rightarrow> [] | (p, None) \<Rightarrow>
          (case resolve (pv_Type p) of Inl _ \<Rightarrow> [] | Inr impl \<Rightarrow>
             (if im_ConfigureLineage impl \<noteq> None then []
              else [mk_finding CodeObserverNotConsumed Warning (env_Key e)
                (ObserverNotConsumed (env_Kind e) (md_Name (env_Metadata e)) (md_Name (env_Metadata provEnv)) (pv_Type p))])))))
     envelopes)"

text \<open>Decoding a managed Connection claims a host port; the claims are threaded through.\<close>

definition plaintext_finding :: "manifestIndex \<Rightarrow> ('w, 'r) resolver \<Rightarrow> Envelope \<Rightarrow> Connection \<Rightarrow> Finding list" where
  "plaintext_finding idx resolve e c =
     (if co_External c \<or> co_Scheme c = ''https'' then []
      else case resolveKind idx e (RefFromSpec (env_Spec e) ''providerRef'') ''Provider'' of None \<Rightarrow> [] | Some provEnv \<Rightarrow>
        (case Provider_FromEnvelope provEnv of (_, Some _) \<Rightarrow> [] | (p, None) \<Rightarrow>
          (case resolve (pv_Type p) of Inl _ \<Rightarrow> [] | Inr impl \<Rightarrow>
            (case im_ConnectionSchemes impl of None \<Rightarrow> [] | Some schemes \<Rightarrow>
               (if ''https'' \<notin> set schemes then []
                else [mk_finding CodePlaintextBoundary Warning (env_Key e)
                  (PlaintextBoundary (md_Name (env_Metadata e)) (co_Scheme c) (md_Name (env_Metadata provEnv)) (pv_Type p))])))))"

fun lintPlaintextBoundary ::
  "Envelope list \<Rightarrow> manifestIndex \<Rightarrow> ('w, 'r) resolver \<Rightarrow> int claims \<Rightarrow> Finding list \<times> int claims" where
  "lintPlaintextBoundary [] idx resolve claims = ([], claims)"
| "lintPlaintextBoundary (e # es) idx resolve claims =
     (if env_Kind e \<noteq> ''Connection'' then lintPlaintextBoundary es idx resolve claims
      else case Connection_FromEnvelope e claims of ((c, err), claims') \<Rightarrow>
        (case lintPlaintextBoundary es idx resolve claims' of (fs, claims'') \<Rightarrow>
           ((if err \<noteq> None then [] else plaintext_finding idx resolve e c) @ fs, claims'')))"

definition replicaFields :: "string list" where
  "replicaFields = [''brokers'', ''workers'', ''nodes'']"

record lint_options =
  op_HighAvailabilityEnabled :: bool
  op_State :: "State option"

definition lintSingleReplicaWithHAGate :: "Envelope list \<Rightarrow> lint_options \<Rightarrow> Finding list" where
  "lintSingleReplicaWithHAGate envelopes opts =
     (if \<not> op_HighAvailabilityEnabled opts then []
      else concat (map (\<lambda>e.
        (if env_Kind e \<noteq> ''Provider'' then []
         else let cfg = map_or_nil (index_any (env_Spec e) ''configuration'') in
           List.map_filter (\<lambda>field. case map_of cfg field of None \<Rightarrow> None | Some raw \<Rightarrow>
             (if int_of_any raw \<noteq> 1 then None
              else Some (mk_finding CodeSingleReplicaWithHAGate Info (env_Key e)
                (SingleReplica (md_Name (env_Metadata e)) field)))) replicaFields)) envelopes))"

section \<open>Unused resources and data safety: DL010 to DL012, DL020 to DL022\<close>

definition lintOrphanedEventStream :: "Envelope list \<Rightarrow> Graph \<Rightarrow> Finding list" where
  "lintOrphanedEventStream envelopes g = List.map_filter (\<lambda>e.
     (if env_Kind e \<noteq> ''EventStream'' then None
      else if length (Dependents g (env_Key e)) > 0 then None
      else Some (mk_finding CodeOrphanedEventStream Info (env_Key e) (OrphanedEventStream (md_Name (env_Metadata e))))))
     envelopes"

definition lintUnreferencedResources :: "Envelope list \<Rightarrow> Graph \<Rightarrow> Finding list" where
  "lintUnreferencedResources envelopes g = List.map_filter (\<lambda>e.
     (if env_Kind e = ''Catalog'' then
        (if length (Dependents g (env_Key e)) > 0 then None
         else Some (mk_finding CodeUnreferencedCatalog Info (env_Key e) (UnreferencedCatalog (md_Name (env_Metadata e)))))
      else if env_Kind e \<in> {''SecretReference'', ''Connection'', ''Provider''} then
        (if length (Dependents g (env_Key e)) > 0 then None
         else Some (mk_finding CodeUnusedResource Info (env_Key e) (UnusedResource (env_Kind e) (md_Name (env_Metadata e)))))
      else None)) envelopes"

definition lintDeletionPolicyUnset :: "Envelope list \<Rightarrow> Finding list" where
  "lintDeletionPolicyUnset envelopes = List.map_filter (\<lambda>e.
     (if env_Kind e \<noteq> ''Dataset'' \<and> env_Kind e \<noteq> ''Source'' then None
      else if bool_of (index_any (env_Spec e) ''external'') then None
      else if map_of (env_Spec e) ''deletionPolicy'' \<noteq> None then None
      else Some (mk_finding CodeDeletionPolicyUnset Warning (env_Key e)
        (DeletionPolicyUnset (env_Kind e) (md_Name (env_Metadata e)))))) envelopes"

definition lintProtectUnset :: "Envelope list \<Rightarrow> lint_options \<Rightarrow> Finding list" where
  "lintProtectUnset envelopes opts = (case op_State opts of None \<Rightarrow> [] | Some st \<Rightarrow>
     (if \<not> list_ex (\<lambda>(k, rs). k \<notin> set (map env_Key envelopes)) (st_Resources st) then []
      else List.map_filter (\<lambda>e.
        (if env_Kind e \<noteq> ''Dataset'' \<and> env_Kind e \<noteq> ''Source'' then None
         else if bool_of (index_any (env_Spec e) ''external'') then None
         else if md_Protect (env_Metadata e) then None
         else Some (mk_finding CodeProtectUnset Warning (env_Key e) (ProtectUnset (env_Kind e) (md_Name (env_Metadata e))))))
        envelopes))"

definition lintNamespaceWideGrant :: "Envelope list \<Rightarrow> Finding list" where
  "lintNamespaceWideGrant envelopes = concat (map (\<lambda>e. List.map_filter (\<lambda>grant.
     (if ag_Selector grant \<noteq> None then None
      else Some (mk_finding CodeNamespaceWideGrant Warning (env_Key e)
        (NamespaceWideGrant (env_Kind e) (md_Name (env_Metadata e)) (ag_Namespace grant))))) (AccessGrants e)) envelopes)"

section \<open>Provider lints, waivers and the run\<close>

definition provider_types :: "Envelope list \<Rightarrow> string list" where
  "provider_types envelopes = sort (fold (\<lambda>e types.
     (let t = str_of (index_any (env_Spec e) ''type'') in
      if env_Kind e \<noteq> ''Provider'' \<or> t = [] then types else add_new t types)) envelopes [])"

definition runProviderLints ::
  "Envelope list \<Rightarrow> Graph \<Rightarrow> ('w, 'r) resolver \<Rightarrow> (('w, 'r) Impl \<Rightarrow> (Envelope list \<Rightarrow> Graph \<Rightarrow> Finding list) option)
    \<Rightarrow> Finding list" where
  "runProviderLints envelopes g resolve lint_of = concat (map (\<lambda>t.
     case resolve t of Inl _ \<Rightarrow> [] | Inr impl \<Rightarrow>
       (case lint_of impl of None \<Rightarrow> [] | Some linter \<Rightarrow> linter envelopes g)) (provider_types envelopes))"

definition malformed_waivers :: "Envelope list \<Rightarrow> Finding list" where
  "malformed_waivers envelopes = concat (map (\<lambda>e. List.map_filter (\<lambda>w.
     (if wv_Reason w \<noteq> [] then None
      else Some (mk_finding CodeMalformedWaiver Warning (env_Key e) (WaiverWithoutReason (wv_Code w)))))
     (ParseWaivers (md_Annotations (env_Metadata e)))) envelopes)"

definition waive_finding :: "(Key \<times> Envelope) list \<Rightarrow> Finding \<Rightarrow> Finding" where
  "waive_finding byKey f = (case map_of byKey (f_Resource f) of None \<Rightarrow> f | Some env \<Rightarrow>
     (case find (\<lambda>w. wv_Code w = f_Code f \<and> wv_Reason w \<noteq> []) (ParseWaivers (md_Annotations (env_Metadata env))) of
        None \<Rightarrow> f | Some w \<Rightarrow> f\<lparr>f_Waived := True, f_WaiverReason := wv_Reason w\<rparr>))"

definition applyWaivers :: "Envelope list \<Rightarrow> Finding list \<Rightarrow> Finding list" where
  "applyWaivers envelopes findings = map (waive_finding (by_key envelopes)) findings @ malformed_waivers envelopes"

text \<open>The checks in the order of the source, with the claims the decoding of Connections leaves.\<close>

definition lint_checks ::
  "Envelope list \<Rightarrow> Graph \<Rightarrow> ('w, 'r) resolver \<Rightarrow> (('w, 'r) Impl \<Rightarrow> (Envelope list \<Rightarrow> Graph \<Rightarrow> Finding list) option)
    \<Rightarrow> lint_options \<Rightarrow> int claims \<Rightarrow> Finding list \<times> int claims" where
  "lint_checks envelopes g resolve lint_of opts claims =
     (let idx = newIndex envelopes; (plain, claims') = lintPlaintextBoundary envelopes idx resolve claims in
      (lintDuplicateCapture envelopes idx @ lintSinkCollision envelopes idx @
       lintObserverNotConsumed envelopes idx resolve @ plain @
       lintOrphanedEventStream envelopes g @ lintUnreferencedResources envelopes g @ lintDeadEndPipeline envelopes g @
       lintSingleReplicaWithHAGate envelopes opts @ lintDeletionPolicyUnset envelopes @ lintProtectUnset envelopes opts @
       lintNamespaceWideGrant envelopes @ runProviderLints envelopes g resolve lint_of, claims'))"

definition lint_Run ::
  "Envelope list \<Rightarrow> Graph \<Rightarrow> ('w, 'r) resolver \<Rightarrow> (('w, 'r) Impl \<Rightarrow> (Envelope list \<Rightarrow> Graph \<Rightarrow> Finding list) option)
    \<Rightarrow> lint_options \<Rightarrow> int claims \<Rightarrow> Finding list \<times> int claims" where
  "lint_Run envelopes g resolve lint_of opts claims =
     (case lint_checks envelopes g resolve lint_of opts claims of (findings, claims') \<Rightarrow>
        (sort_key finding_key (applyWaivers envelopes findings), claims'))"

section \<open>Grouping\<close>

lemma get_or_add_group: "get_or [] (add_group k x gs) k' = (if k' = k then get_or [] gs k @ [x] else get_or [] gs k')"
  by (auto simp: add_group_def get_or_def split: option.splits)

lemma keys_add_group: "fst ` set (add_group k x gs) = insert k (fst ` set gs)"
  by (simp add: add_group_def dom_update)

lemma distinct_add_group: "distinct (map fst gs) \<Longrightarrow> distinct (map fst (add_group k x gs))"
  by (simp add: add_group_def distinct_update)

text \<open>A grouping loop: the members of a group are the values computed for its key, in order.\<close>

definition group_loop :: "('a \<Rightarrow> ('k \<times> 'v) option) \<Rightarrow> 'a list \<Rightarrow> ('k \<times> 'v list) list \<Rightarrow> ('k \<times> 'v list) list" where
  "group_loop f xs gs = fold (\<lambda>x gs. case f x of None \<Rightarrow> gs | Some (k, v) \<Rightarrow> add_group k v gs) xs gs"

definition members_of :: "('a \<Rightarrow> ('k \<times> 'v) option) \<Rightarrow> 'a list \<Rightarrow> 'k \<Rightarrow> 'v list" where
  "members_of f xs k = map (\<lambda>x. snd (the (f x))) (filter (\<lambda>x. \<exists>v. f x = Some (k, v)) xs)"

lemma group_loop_members: "get_or [] (group_loop f xs gs) k = get_or [] gs k @ members_of f xs k"
  unfolding group_loop_def members_of_def
  by (induction xs arbitrary: gs) (auto simp: get_or_add_group split: option.splits)

lemma group_loop_keys: "fst ` set (group_loop f xs gs) = fst ` set gs \<union> {k. \<exists>x\<in>set xs. \<exists>v. f x = Some (k, v)}"
  unfolding group_loop_def
  by (induction xs arbitrary: gs) (auto simp: keys_add_group split: option.splits)

lemma set_members_of: "set (members_of f xs k) = {v. \<exists>x\<in>set xs. f x = Some (k, v)}"
  by (force simp: members_of_def)

lemma members_of_inj:
  assumes "distinct xs" "\<And>x y k v. f x = Some (k, v) \<Longrightarrow> f y = Some (k, v) \<Longrightarrow> x = y"
  shows "distinct (members_of f xs k)"
  unfolding members_of_def distinct_map using assms
  by (auto simp: inj_on_def)

section \<open>DL001 reports exactly the overlapping captures\<close>

lemma capturesOverlap_sym: "capturesOverlap a b \<longleftrightarrow> capturesOverlap b a"
  by (auto simp: capturesOverlap_def list_ex_iff)

lemma offending_iff: "i \<in> set (offending grp) \<longleftrightarrow>
    i < length grp \<and> (\<exists>j<length grp. j \<noteq> i \<and> capturesOverlap (grp ! i) (grp ! j))"
proof -
  have "capturesOverlap (grp ! min i j) (grp ! max i j) \<longleftrightarrow> capturesOverlap (grp ! i) (grp ! j)" for j
    using capturesOverlap_sym by (simp add: min_def max_def)
  then show ?thesis unfolding offending_def by (auto simp: list_ex_iff)
qed

lemma capture_findings_resource:
  assumes "distinct members"
  shows "(\<exists>f\<in>set (capture_findings src members). f_Resource f = k) \<longleftrightarrow>
    (\<exists>c\<in>set members. env_Key (cap_env c) = k \<and> (\<exists>c'\<in>set members. c' \<noteq> c \<and> capturesOverlap c c'))"
proof -
  define grp where "grp = sort_by (\<lambda>c. key_String (env_Key (cap_env c))) members"
  have grp: "set grp = set members" "distinct grp" "length grp = length members" using assms by (simp_all add: grp_def)
  have nth: "c \<in> set members \<longleftrightarrow> (\<exists>i<length grp. grp ! i = c)" for c
    using grp(1) by (metis in_set_conv_nth)
  have "(\<exists>f\<in>set (capture_findings src members). f_Resource f = k) \<longleftrightarrow>
      \<not> length members < 2 \<and> (\<exists>i\<in>set (offending grp). env_Key (cap_env (grp ! i)) = k)"
    by (auto simp: capture_findings_def Let_def mk_finding_def grp_def)
  also have "\<dots> \<longleftrightarrow> (\<exists>i\<in>set (offending grp). env_Key (cap_env (grp ! i)) = k)"
    using grp(3) by (auto simp: offending_iff)
  also have "\<dots> \<longleftrightarrow> (\<exists>i<length grp. env_Key (cap_env (grp ! i)) = k \<and>
      (\<exists>j<length grp. grp ! j \<noteq> grp ! i \<and> capturesOverlap (grp ! i) (grp ! j)))"
    unfolding Bex_def offending_iff using nth_eq_iff_index_eq [OF grp(2)] by blast
  also have "\<dots> \<longleftrightarrow> (\<exists>c\<in>set members. env_Key (cap_env c) = k \<and> (\<exists>c'\<in>set members. c' \<noteq> c \<and> capturesOverlap c c'))"
    unfolding Bex_def nth by blast
  finally show ?thesis .
qed

lemma cdc_capture_env: "cdc_capture idx e = Some (k, c) \<Longrightarrow> cap_env c = e"
  by (auto simp: cdc_capture_def capture_of_def split: if_splits prod.splits option.splits resolved.splits)

text \<open>
  C23: DL001 is exact. In a manifest set without duplicate keys a Binding is reported exactly when it
  is a cdc Binding whose Source another cdc Binding captures too, with overlapping tables (no
  table list means all tables).
\<close>

theorem duplicate_capture_exact:
  assumes "distinct (map env_Key envelopes)" "e \<in> set envelopes"
  shows "(\<exists>f\<in>set (lintDuplicateCapture envelopes idx). f_Resource f = env_Key e) \<longleftrightarrow>
    (\<exists>src c. cdc_capture idx e = Some (src, c) \<and>
       (\<exists>e'\<in>set envelopes. e' \<noteq> e \<and> (\<exists>c'. cdc_capture idx e' = Some (src, c') \<and> capturesOverlap c c')))"
proof -
  let ?f = "cdc_capture idx"
  let ?gs = "group_loop ?f envelopes []"
  have inj: "x = y" if "x \<in> set envelopes" "y \<in> set envelopes" "env_Key x = env_Key y" for x y
    using that assms(1) by (auto simp: distinct_map dest: inj_onD)
  have dist: "distinct (members_of ?f envelopes src)" for src
    using assms(1) by (intro members_of_inj) (auto simp: distinct_map dest!: cdc_capture_env)
  have "(\<exists>f\<in>set (lintDuplicateCapture envelopes idx). f_Resource f = env_Key e) \<longleftrightarrow>
      (\<exists>src\<in>fst ` set ?gs. \<exists>f\<in>set (capture_findings src (get_or [] ?gs src)). f_Resource f = env_Key e)"
    by (simp add: lintDuplicateCapture_def group_loop_def Let_def)
  also have "\<dots> \<longleftrightarrow> (\<exists>src\<in>fst ` set ?gs. \<exists>c\<in>set (members_of ?f envelopes src). env_Key (cap_env c) = env_Key e \<and>
      (\<exists>c'\<in>set (members_of ?f envelopes src). c' \<noteq> c \<and> capturesOverlap c c'))"
    by (simp add: group_loop_members capture_findings_resource [OF dist] get_or_def [of "[]" "[]"])
  also have "\<dots> \<longleftrightarrow> (\<exists>src c. ?f e = Some (src, c) \<and>
       (\<exists>e'\<in>set envelopes. e' \<noteq> e \<and> (\<exists>c'. ?f e' = Some (src, c') \<and> capturesOverlap c c')))"
    (is "?L \<longleftrightarrow> ?R")
  proof
    assume ?L
    then obtain src x c y c' where x: "x \<in> set envelopes" "?f x = Some (src, c)" "env_Key (cap_env c) = env_Key e"
      and y: "y \<in> set envelopes" "?f y = Some (src, c')" "c' \<noteq> c" "capturesOverlap c c'"
      unfolding set_members_of by blast
    from x inj [OF x(1) assms(2)] cdc_capture_env have "x = e" by blast
    moreover have "y \<noteq> x" using x(2) y(2,3) by auto
    ultimately show ?R using x(2) y by blast
  next
    assume ?R
    then obtain src c y c' where x: "?f e = Some (src, c)"
      and y: "y \<in> set envelopes" "y \<noteq> e" "?f y = Some (src, c')" "capturesOverlap c c'" by blast
    have "c' \<noteq> c" using x y(2,3) cdc_capture_env by blast
    moreover have "src \<in> fst ` set ?gs" using x assms(2) unfolding group_loop_keys by blast
    moreover have "env_Key (cap_env c) = env_Key e" using cdc_capture_env [OF x] by simp
    ultimately show ?L using x y assms(2) unfolding set_members_of by blast
  qed
  finally show ?thesis .
qed

section \<open>The report\<close>

definition unwaived :: "Finding \<Rightarrow> Finding" where
  "unwaived f = f\<lparr>f_Waived := False, f_WaiverReason := []\<rparr>"

definition waiver_for :: "Envelope list \<Rightarrow> Finding \<Rightarrow> string \<Rightarrow> bool" where
  "waiver_for envelopes f reason \<longleftrightarrow> (\<exists>env. map_of (by_key envelopes) (f_Resource f) = Some env \<and>
     \<lparr>wv_Code = f_Code f, wv_Reason = reason\<rparr> \<in> set (ParseWaivers (md_Annotations (env_Metadata env))))"

lemma waive_finding_cases:
  "waive_finding (by_key envelopes) f = f \<and> (\<forall>reason. reason \<noteq> [] \<longrightarrow> \<not> waiver_for envelopes f reason) \<or>
   (\<exists>reason. reason \<noteq> [] \<and> waiver_for envelopes f reason \<and>
     waive_finding (by_key envelopes) f = f\<lparr>f_Waived := True, f_WaiverReason := reason\<rparr>)"
proof (cases "map_of (by_key envelopes) (f_Resource f)")
  case None
  then show ?thesis by (simp add: waive_finding_def waiver_for_def)
next
  case (Some env)
  let ?P = "\<lambda>w :: Waiver. wv_Code w = f_Code f \<and> wv_Reason w \<noteq> []" and ?ws = "ParseWaivers (md_Annotations (env_Metadata env))"
  show ?thesis
  proof (cases "find ?P ?ws")
    case None
    then have "\<forall>w\<in>set ?ws. \<not> ?P w" by (simp add: find_None_iff)
    with Some None show ?thesis by (auto simp: waive_finding_def waiver_for_def)
  next
    case (Some w)
    then have w: "w \<in> set ?ws" "?P w" by (auto dest: find_in)
    have "\<lparr>wv_Code = f_Code f, wv_Reason = wv_Reason w\<rparr> = w" using w(2) by simp
    with w(1) have "\<lparr>wv_Code = f_Code f, wv_Reason = wv_Reason w\<rparr> \<in> set ?ws" by argo
    then have "waiver_for envelopes f (wv_Reason w)" using \<open>map_of _ _ = Some env\<close> unfolding waiver_for_def by blast
    moreover have "waive_finding (by_key envelopes) f = f\<lparr>f_Waived := True, f_WaiverReason := wv_Reason w\<rparr>"
      using Some \<open>map_of _ _ = Some env\<close> by (simp add: waive_finding_def)
    ultimately show ?thesis using w(2) by blast
  qed
qed

text \<open>
  The report loses nothing. \<open>Run\<close> returns, sorted by severity, code and resource, every
  finding of every check together with one DL000 per waiver without a reason; a waiver only marks.
  A finding of a check is marked exactly when its resource carries a waiver for its code with a
  reason, and the recorded reason is that of such a waiver.
\<close>

theorem lint_report:
  assumes "lint_checks envelopes g resolve lint_of opts claims = (checks, claims')" "\<forall>f\<in>set checks. \<not> f_Waived f"
    and "lint_Run envelopes g resolve lint_of opts claims = (report, claims'')"
  shows "claims'' = claims' \<and> sorted (map finding_key report) \<and>
    mset (map unwaived report) = mset (map unwaived (checks @ malformed_waivers envelopes)) \<and>
    (\<forall>f\<in>set report. f_Waived f \<longrightarrow> f_WaiverReason f \<noteq> [] \<and> waiver_for envelopes f (f_WaiverReason f)) \<and>
    (\<forall>f\<in>set checks. \<forall>reason. reason \<noteq> [] \<longrightarrow> waiver_for envelopes f reason \<longrightarrow>
       (\<exists>f'\<in>set report. unwaived f' = unwaived f \<and> f_Waived f'))"
proof -
  let ?w = "waive_finding (by_key envelopes)"
  have r: "report = sort_key finding_key (map ?w checks @ malformed_waivers envelopes)" "claims'' = claims'"
    using assms(1,3) by (simp_all add: lint_Run_def applyWaivers_def)
  have w: "unwaived (?w f) = unwaived f" for f
    using waive_finding_cases [of envelopes f] by (auto simp: unwaived_def)
  have m: "\<not> f_Waived f" if "f \<in> set (malformed_waivers envelopes)" for f
    using that by (auto simp: malformed_waivers_def mk_finding_def List.map_filter_def split: if_splits)
  have "mset (map unwaived report) = mset (map unwaived (checks @ malformed_waivers envelopes))"
    by (simp add: r(1) w o_def image_mset.compositionality)
  moreover have "f_WaiverReason f \<noteq> [] \<and> waiver_for envelopes f (f_WaiverReason f)"
    if "f \<in> set report" "f_Waived f" for f
  proof -
    from that m r(1) obtain f0 where f0: "f0 \<in> set checks" "f = ?w f0" by auto
    with assms(2) that(2) waive_finding_cases [of envelopes f0] show ?thesis
      by (auto simp: waiver_for_def)
  qed
  moreover have "\<exists>f'\<in>set report. unwaived f' = unwaived f \<and> f_Waived f'"
    if "f \<in> set checks" "reason \<noteq> []" "waiver_for envelopes f reason" for f reason
  proof -
    have "f_Waived (?w f)" using that(2,3) waive_finding_cases [of envelopes f] by auto
    with that(1) w r(1) show ?thesis by auto
  qed
  ultimately show ?thesis using r by auto
qed

section \<open>Resources nothing references\<close>

lemma no_dependents_iff:
  assumes "wf_Graph g"
  shows "length (Dependents g k) > 0 \<longleftrightarrow> (\<exists>u. k \<in> set (succs g u))"
proof -
  have "set (Dependents g k) = {} \<longleftrightarrow> (\<forall>u. (u, k) \<notin> (edge_rel (succs g))\<^sup>+)"
    by (auto simp: dg.dependents_trancl [OF assms])
  also have "\<dots> \<longleftrightarrow> (\<forall>u. (u, k) \<notin> edge_rel (succs g))" by (metis r_into_trancl' tranclD2)
  finally show ?thesis by (auto simp: edge_rel_def)
qed

text \<open>Where DL010, DL011 and DL012 look.\<close>

definition unused_kinds :: "string list" where
  "unused_kinds = [''EventStream'', ''Catalog'', ''SecretReference'', ''Connection'', ''Provider'']"

text \<open>
  The unused-resource lints are exact. For a manifest set with a graph, DL010, DL011 and DL012
  together report a resource exactly when it is an EventStream, Catalog, SecretReference,
  Connection or Provider that no resource of the set references.
\<close>

theorem unused_resources_exact:
  assumes "Build envelopes = Inr g" "e \<in> set envelopes"
  shows "(\<exists>f\<in>set (lintOrphanedEventStream envelopes g @ lintUnreferencedResources envelopes g). f_Resource f = env_Key e) \<longleftrightarrow>
    env_Kind e \<in> set unused_kinds \<and> (\<forall>e'\<in>set envelopes. env_Key e \<notin> set (succs g (env_Key e')))"
proof -
  have wf: "wf_Graph g" by (rule Build_wf [OF assms(1)])
  have dist: "distinct (map env_Key envelopes)" using Build_Nodes [OF assms(1)] by simp
  have src: "u \<in> env_Key ` set envelopes" if "k \<in> set (succs g u)" for k u
    using closed_succs_source [of g k u] wf that Build_node_keys [OF assms(1)] by (auto simp: wf_Graph_def)
  have used: "length (Dependents g (env_Key x)) > 0 \<longleftrightarrow> (\<exists>e'\<in>set envelopes. env_Key x \<in> set (succs g (env_Key e')))" for x
    unfolding no_dependents_iff [OF wf] using src by blast
  have inj: "x = e" if "x \<in> set envelopes" "env_Key x = env_Key e" for x
    using that assms(2) dist by (auto simp: distinct_map dest: inj_onD)
  have pick: "(\<exists>f\<in>set (List.map_filter h envelopes). f_Resource f = env_Key e) \<longleftrightarrow> h e \<noteq> None"
    if "\<And>x f. h x = Some f \<Longrightarrow> f_Resource f = env_Key x" for h :: "Envelope \<Rightarrow> Finding option"
  proof -
    have "(\<exists>f\<in>set (List.map_filter h envelopes). f_Resource f = env_Key e) \<longleftrightarrow>
        (\<exists>x\<in>set envelopes. \<exists>f. h x = Some f \<and> f_Resource f = env_Key e)"
      by (fastforce simp: List.map_filter_def)
    with that inj assms(2) show ?thesis by (metis not_None_eq)
  qed
  have streams: "(\<exists>f\<in>set (lintOrphanedEventStream envelopes g). f_Resource f = env_Key e) \<longleftrightarrow>
      env_Kind e = ''EventStream'' \<and> \<not> length (Dependents g (env_Key e)) > 0"
    unfolding lintOrphanedEventStream_def by (subst pick) (auto simp: mk_finding_def split: if_splits)
  have others: "(\<exists>f\<in>set (lintUnreferencedResources envelopes g). f_Resource f = env_Key e) \<longleftrightarrow>
      env_Kind e \<in> {''Catalog'', ''SecretReference'', ''Connection'', ''Provider''} \<and> \<not> length (Dependents g (env_Key e)) > 0"
    unfolding lintUnreferencedResources_def by (subst pick) (auto simp: mk_finding_def split: if_splits)
  have kinds: "env_Kind e \<in> set unused_kinds \<longleftrightarrow> env_Kind e = ''EventStream'' \<or>
      env_Kind e \<in> {''Catalog'', ''SecretReference'', ''Connection'', ''Provider''}"
    unfolding unused_kinds_def list.set by (rule insert_iff)
  show ?thesis unfolding set_append bex_Un streams others used kinds by blast
qed

section \<open>An example\<close>

text \<open>Two cdc Bindings that capture one Source into one EventStream, which nothing reads.\<close>

definition ref_to :: "string \<Rightarrow> any" where
  "ref_to n = AMap [(''name'', AStr n)]"

definition cdc_env :: "string \<Rightarrow> Envelope" where
  "cdc_env n = (sample_env ''Binding'' n)\<lparr>env_Spec := [(''mode'', AStr ''cdc''), (''sourceRef'', ref_to ''db''),
     (''targetRef'', ref_to ''orders''), (''providerRef'', ref_to ''worker'')]\<rparr>"

definition pipeline :: "Envelope list" where
  "pipeline = [sample_env ''Provider'' ''worker'',
     (sample_env ''Source'' ''db'')\<lparr>env_Spec := [(''providerRef'', ref_to ''worker'')]\<rparr>,
     (sample_env ''EventStream'' ''orders'')\<lparr>env_Spec := [(''providerRef'', ref_to ''worker'')]\<rparr>,
     cdc_env ''left'', cdc_env ''right'']"

definition pipeline_graph :: Graph where
  "pipeline_graph = (case Build pipeline of Inr g \<Rightarrow> g)"

lemma pipeline_Build: "Build pipeline = Inr pipeline_graph"
proof -
  have "\<not> isl (Build pipeline)" by code_simp
  then show ?thesis by (cases "Build pipeline") (simp_all add: pipeline_graph_def)
qed

theorem duplicate_capture_exact_witness:
  "\<exists>f\<in>set (lintDuplicateCapture pipeline (newIndex pipeline)). f_Resource f = env_Key (cdc_env ''left'')"
proof -
  let ?idx = "newIndex pipeline"
  have d: "distinct (map env_Key pipeline)" by (rule conjunct2 [OF Build_Nodes [OF pipeline_Build]])
  have m: "cdc_env ''left'' \<in> set pipeline" "cdc_env ''right'' \<in> set pipeline" by (simp_all add: pipeline_def)
  have "cdc_capture ?idx (cdc_env n) =
      Some (env_Key (sample_env ''Source'' ''db''), \<lparr>cap_env = cdc_env n, cap_tables = [], cap_all = True\<rparr>)"
    if "n \<in> {''left'', ''right''}" for n
    using that by (elim insertE emptyE) (simp_all only:, code_simp+)
  moreover have "cdc_env ''right'' \<noteq> cdc_env ''left''" by code_simp
  ultimately show ?thesis
    unfolding duplicate_capture_exact [OF d m(1)] using m(2) by (auto simp: capturesOverlap_def)
qed

text \<open>
  DL013 misses dead ends. There is a manifest set with a graph in which a cdc Binding writes an
  EventStream, no sink or ingest Binding exists at all, and the check reports nothing, because a
  second cdc Binding into the same stream counts as a dependent.
\<close>

theorem dead_end_missed:
  "\<exists>envelopes g. Build envelopes = Inr g \<and>
     map (\<lambda>e. (bi_Mode (fst (Binding_FromEnvelope e)), snd (Binding_FromEnvelope e))) (filter (\<lambda>e. env_Kind e = ''Binding'') envelopes) =
       [(''cdc'', None), (''cdc'', None)] \<and>
     lintDeadEndPipeline envelopes g = []"
proof (intro exI conjI)
  show "Build pipeline = Inr pipeline_graph" by (rule pipeline_Build)
  show "map (\<lambda>e. (bi_Mode (fst (Binding_FromEnvelope e)), snd (Binding_FromEnvelope e))) (filter (\<lambda>e. env_Kind e = ''Binding'') pipeline) =
       [(''cdc'', None), (''cdc'', None)]" by code_simp
  show "lintDeadEndPipeline pipeline pipeline_graph = []" by code_simp
qed

theorem unused_resources_exact_witness:
  "\<not> (\<exists>f\<in>set (lintOrphanedEventStream pipeline pipeline_graph @ lintUnreferencedResources pipeline pipeline_graph).
     f_Resource f = env_Key (sample_env ''Provider'' ''worker''))"
proof -
  have m: "sample_env ''Provider'' ''worker'' \<in> set pipeline" by (simp add: pipeline_def)
  have "\<exists>e'\<in>set pipeline. env_Key (sample_env ''Provider'' ''worker'') \<in> set (succs pipeline_graph (env_Key e'))" by code_simp
  then show ?thesis unfolding unused_resources_exact [OF pipeline_Build m] by blast
qed

text \<open>A set whose one Provider waives that nothing uses it.\<close>

definition idle_env :: Envelope where
  "idle_env = (sample_env ''Provider'' ''idle'')\<lparr>env_Metadata := zero_Metadata\<lparr>md_Name := ''idle'',
     md_Annotations := [(WaiveAnnotation, ''DL012: kept for later'')]\<rparr>\<rparr>"

definition idle_graph :: Graph where
  "idle_graph = (case Build [idle_env] of Inr g \<Rightarrow> g)"

definition no_provider :: "(unit, unit) resolver" where
  "no_provider t = Inl (UnknownProviderType t [])"

definition idle_options :: lint_options where
  "idle_options = \<lparr>op_HighAvailabilityEnabled = False, op_State = None\<rparr>"

definition idle_report :: "Finding list" where
  "idle_report = fst (lint_Run [idle_env] idle_graph no_provider (\<lambda>_. None) idle_options [])"

definition idle_checks :: "Finding list" where
  "idle_checks = fst (lint_checks [idle_env] idle_graph no_provider (\<lambda>_. None) idle_options [])"

theorem lint_report_witness:
  "\<exists>f'\<in>set idle_report. f_Code f' = CodeUnusedResource \<and> f_Waived f'"
proof -
  define f where "f = mk_finding CodeUnusedResource Info (env_Key idle_env) (UnusedResource ''Provider'' ''idle'')"
  have c: "lint_checks [idle_env] idle_graph no_provider (\<lambda>_. None) idle_options [] =
      (idle_checks, snd (lint_checks [idle_env] idle_graph no_provider (\<lambda>_. None) idle_options []))"
    by (simp add: idle_checks_def)
  have nw: "\<forall>f\<in>set idle_checks. \<not> f_Waived f" by code_simp
  have r: "lint_Run [idle_env] idle_graph no_provider (\<lambda>_. None) idle_options [] =
      (idle_report, snd (lint_Run [idle_env] idle_graph no_provider (\<lambda>_. None) idle_options []))"
    by (simp add: idle_report_def)
  have "f \<in> set idle_checks" unfolding f_def by code_simp
  moreover have "waiver_for [idle_env] f ''kept for later''"
    unfolding waiver_for_def f_def by (intro exI [of _ idle_env]) (simp add: mk_finding_def, code_simp)
  ultimately obtain f' where "f' \<in> set idle_report" "unwaived f' = unwaived f" "f_Waived f'"
    using lint_report [OF c nw r] by blast
  moreover have "f_Code (unwaived x) = f_Code x" for x by (simp add: unwaived_def)
  ultimately show ?thesis by (metis f_def Finding.select_convs(1) mk_finding_def)
qed

end
