(* ===== verification/Policy_Eval.thy ===== *)
theory Policy_Eval
  imports Lints
begin

text \<open>
  The policy evaluator, \<open>internal/application/policy\<close> (\<open>evaluator.go\<close>, \<open>exemption.go\<close>): the rules of
  a policy set against manifests, lint findings, the reference graph and plans, exemptions, and
  the sorted decisions. Fallback messages are values, one constructor per \<open>fmt.Sprintf\<close> site.
\<close>

section \<open>Messages and decisions\<close>

definition action_string :: "Action \<Rightarrow> string" where
  "action_string a = (case a of ActionCreate \<Rightarrow> ''create'' | ActionUpdate \<Rightarrow> ''update''
     | ActionConfigure \<Rightarrow> ''configure'' | ActionNoop \<Rightarrow> ''no-op'' | ActionDelete \<Rightarrow> ''delete''
     | ActionOrphanUnknown \<Rightarrow> ''orphan-unknown'' | ActionRefused \<Rightarrow> ''refused'')"

datatype policy_message =
    RuleMessage string
  | FailsAssert string string string
  | EscalatedLint string Key lint_message
  | PlanActionDenied string Key
  | CrossDomainDenied Key string Key string Key
  | EdgeSelectorDenied Key Key Key string string
  | WideGrantDenied Key string

definition message :: "Rule \<Rightarrow> policy_message \<Rightarrow> policy_message" where
  "message rule fallback = (if r_Message rule \<noteq> [] then RuleMessage (r_Message rule) else fallback)"

definition decide :: "Rule \<Rightarrow> Key \<Rightarrow> policy_message \<Rightarrow> policy_message Decision" where
  "decide rule k fallback = \<lparr>d_RuleID = r_ID rule, d_Effect = r_Effect rule, d_Resource = k,
     d_Message = message rule fallback, d_Exempted = False, d_ExemptReason = []\<rparr>"

type_synonym decisions = "policy_message Decision list"

section \<open>Evaluation of one rule\<close>

definition assert_step :: "golib \<Rightarrow> Rule \<Rightarrow> Assert \<Rightarrow> Envelope \<Rightarrow> decisions \<Rightarrow> policy_error + decisions" where
  "assert_step lib rule a e out =
     (if \<not> match_Selects (r_Match rule) e then Inr out
      else case FieldValue lib e (a_Field a) of (val, present) \<Rightarrow>
        (case Satisfied lib a val present of
           Inl err \<Rightarrow> Inl err
         | Inr True \<Rightarrow> Inr out
         | Inr False \<Rightarrow> Inr (out @ [decide rule (env_Key e)
             (FailsAssert (env_Kind e) (md_Name (env_Metadata e)) (a_Field a))])))"

definition evaluateFieldAssert :: "golib \<Rightarrow> Rule \<Rightarrow> Envelope list \<Rightarrow> policy_error + decisions" where
  "evaluateFieldAssert lib rule envelopes = fold_err (assert_step lib rule (the (r_Assert rule))) envelopes []"

definition evaluateFinding :: "Rule \<Rightarrow> Finding list \<Rightarrow> decisions" where
  "evaluateFinding rule findings = List.map_filter (\<lambda>f.
     (if f_Code f \<noteq> fm_Code (the (r_MatchFinding rule)) then None
      else Some (decide rule (f_Resource f) (EscalatedLint (f_Code f) (f_Resource f) (f_Message f))))) findings"

definition evaluatePlan :: "Rule \<Rightarrow> Entry list \<Rightarrow> decisions" where
  "evaluatePlan rule entries = List.map_filter (\<lambda>entry.
     (let pm = the (r_MatchPlan rule) in
      if action_string (pe_Action entry) \<noteq> pm_Action pm then None
      else if pm_Kind pm \<noteq> [] \<and> key_Kind (pe_Key entry) \<noteq> pm_Kind pm then None
      else Some (decide rule (pe_Key entry) (PlanActionDenied (action_string (pe_Action entry)) (pe_Key entry))))) entries"

record crossDomainEdge =
  cde_Owner :: Envelope
  cde_From :: Envelope
  cde_To :: Envelope
  cde_FromDomain :: string
  cde_ToDomain :: string

definition connectionRefKinds :: "string list" where
  "connectionRefKinds = [''Connection'', ''SecretReference'']"

definition resolveRef :: "Graph \<Rightarrow> Envelope \<Rightarrow> string \<Rightarrow> string list option \<Rightarrow> Envelope option" where
  "resolveRef g from field allowed =
     (let ref = RefFromSpec (env_Spec from) field; ns = NamespaceOr ref (md_Namespace (env_Metadata from)) in
      if ref_Name ref = [] then None
      else find (\<lambda>e. \<not> (md_Name (env_Metadata e) \<noteq> ref_Name ref \<or> NormalizeNamespace (md_Namespace (env_Metadata e)) \<noteq> ns) \<and>
          \<not> (case allowed of None \<Rightarrow> False | Some kinds \<Rightarrow> env_Kind e \<notin> set kinds)) (map snd (Nodes g)))"

definition mk_edge :: "Envelope \<Rightarrow> Envelope \<Rightarrow> Envelope \<Rightarrow> crossDomainEdge" where
  "mk_edge owner from to = \<lparr>cde_Owner = owner, cde_From = from, cde_To = to,
     cde_FromDomain = NormalizeDomain (md_Domain (env_Metadata from)),
     cde_ToDomain = NormalizeDomain (md_Domain (env_Metadata to))\<rparr>"

definition cross_edge :: "Graph \<Rightarrow> Envelope \<Rightarrow> crossDomainEdge option" where
  "cross_edge g e =
     (if env_Kind e = ''Binding'' then
        (case (resolveRef g e ''sourceRef'' None, resolveRef g e ''targetRef'' None) of
           (Some from, Some to) \<Rightarrow> Some (mk_edge e from to) | _ \<Rightarrow> None)
      else if ref_Name (RefFromSpec (env_Spec e) ''connectionRef'') = [] then None
      else case resolveRef g e ''connectionRef'' (Some connectionRefKinds) of
        None \<Rightarrow> None
      | Some to \<Rightarrow> (if env_Kind to = ''Connection'' then Some (mk_edge e e to) else None))"

definition crossDomainEdges :: "Envelope list \<Rightarrow> Graph option \<Rightarrow> crossDomainEdge list" where
  "crossDomainEdges envelopes g = (case g of None \<Rightarrow> [] | Some g \<Rightarrow> List.map_filter (cross_edge g) envelopes)"

definition evaluateCrossDomain :: "Rule \<Rightarrow> Envelope list \<Rightarrow> Graph option \<Rightarrow> decisions" where
  "evaluateCrossDomain rule envelopes g = List.map_filter (\<lambda>edge.
     (let sel = the (em_CrossDomain (the (r_MatchEdge rule))) in
      if cde_FromDomain edge \<noteq> cd_From sel \<or> cde_ToDomain edge \<noteq> cd_To sel then None
      else Some (decide rule (env_Key (cde_Owner edge)) (CrossDomainDenied (env_Key (cde_From edge)) (cde_FromDomain edge)
        (env_Key (cde_To edge)) (cde_ToDomain edge) (env_Key (cde_Owner edge)))))) (crossDomainEdges envelopes g)"

definition evaluateEdgeSelector :: "Rule \<Rightarrow> Envelope list \<Rightarrow> Graph option \<Rightarrow> decisions" where
  "evaluateEdgeSelector rule envelopes g = List.map_filter (\<lambda>edge.
     (let sel = the (em_Selector (the (r_MatchEdge rule))) in
      if \<not> Selects_labels (es_From sel) (md_Labels (env_Metadata (cde_From edge))) \<or>
         \<not> Selects_labels (es_To sel) (md_Labels (env_Metadata (cde_To edge))) then None
      else Some (decide rule (env_Key (cde_Owner edge)) (EdgeSelectorDenied (env_Key (cde_From edge)) (env_Key (cde_To edge))
        (env_Key (cde_Owner edge)) (selector_String (es_From sel)) (selector_String (es_To sel)))))) (crossDomainEdges envelopes g)"

definition evaluateGrant :: "Rule \<Rightarrow> Envelope list \<Rightarrow> decisions" where
  "evaluateGrant rule envelopes = concat (map (\<lambda>e. List.map_filter (\<lambda>grant.
     (if ag_Namespace grant \<noteq> gm_Namespace (the (r_MatchGrant rule)) then None
      else Some (decide rule (env_Key e) (WideGrantDenied (env_Key e) (ag_Namespace grant))))) (AccessGrants e)) envelopes)"

section \<open>Exemptions and the two runs\<close>

definition exempt_decision :: "(string \<times> bool) list \<Rightarrow> (Key \<times> Envelope) list \<Rightarrow> policy_message Decision \<Rightarrow> policy_message Decision" where
  "exempt_decision exemptible byKey d =
     (if \<not> get_or False exemptible (d_RuleID d) then d
      else case map_of byKey (d_Resource d) of None \<Rightarrow> d | Some env \<Rightarrow>
        (case find (\<lambda>ex. ex_RuleID ex = d_RuleID d) (ParseExemptions (md_Annotations (env_Metadata env))) of
           None \<Rightarrow> d | Some ex \<Rightarrow> d\<lparr>d_Exempted := True, d_ExemptReason := ex_Reason ex\<rparr>))"

definition all_rules :: "Policy list \<Rightarrow> Rule list" where
  "all_rules policies = concat (map pol_Rules policies)"

definition exemptibleByID :: "Policy list \<Rightarrow> (string \<times> bool) list" where
  "exemptibleByID policies = fold (\<lambda>r m. AList.update (r_ID r) (r_Exemptible r) m) (all_rules policies) []"

definition applyExemptions :: "Envelope list \<Rightarrow> decisions \<Rightarrow> Policy list \<Rightarrow> decisions" where
  "applyExemptions envelopes ds policies = map (exempt_decision (exemptibleByID policies) (by_key envelopes)) ds"

definition run_rule :: "golib \<Rightarrow> Envelope list \<Rightarrow> Graph option \<Rightarrow> Finding list \<Rightarrow> bool \<Rightarrow> Rule \<Rightarrow> policy_error + decisions" where
  "run_rule lib envelopes g findings gate rule = (case rule_Kind rule of
     RuleKindFieldAssert \<Rightarrow>
       (if m_Selector (the (r_Match rule)) \<noteq> None \<and> \<not> gate then Inr []
        else case evaluateFieldAssert lib rule envelopes of Inl err \<Rightarrow> Inl (InRule (r_ID rule) err) | Inr ds \<Rightarrow> Inr ds)
   | RuleKindFinding \<Rightarrow> Inr (evaluateFinding rule findings)
   | RuleKindEdge \<Rightarrow>
       (if em_CrossDomain (the (r_MatchEdge rule)) \<noteq> None then Inr (evaluateCrossDomain rule envelopes g)
        else if gate then Inr (evaluateEdgeSelector rule envelopes g) else Inr [])
   | RuleKindGrant \<Rightarrow> Inr (evaluateGrant rule envelopes)
   | _ \<Rightarrow> Inr [])"

definition policy_Run ::
  "golib \<Rightarrow> Policy list \<Rightarrow> Envelope list \<Rightarrow> Graph option \<Rightarrow> Finding list \<Rightarrow> bool \<Rightarrow> policy_error + decisions" where
  "policy_Run lib policies envelopes g findings gate =
     (case fold_err (\<lambda>rule ds. case run_rule lib envelopes g findings gate rule of
         Inl err \<Rightarrow> Inl err | Inr ds' \<Rightarrow> Inr (ds @ ds')) (all_rules policies) [] of
        Inl err \<Rightarrow> Inl err
      | Inr ds \<Rightarrow> Inr (SortDecisions (applyExemptions envelopes ds policies)))"

definition RunPlan :: "Policy list \<Rightarrow> Envelope list \<Rightarrow> Entry list \<Rightarrow> decisions" where
  "RunPlan policies envelopes entries = SortDecisions (applyExemptions envelopes
     (concat (map (\<lambda>rule. if rule_Kind rule \<noteq> RuleKindPlan then [] else evaluatePlan rule entries) (all_rules policies))) policies)"

section \<open>What a rule says\<close>

text \<open>A resource violates a rule: the contract of the evaluator, rule shape by rule shape.\<close>

definition field_violation :: "golib \<Rightarrow> Envelope list \<Rightarrow> Rule \<Rightarrow> Key \<Rightarrow> bool" where
  "field_violation lib envelopes rule k \<longleftrightarrow> (\<exists>e\<in>set envelopes. env_Key e = k \<and> match_Selects (r_Match rule) e \<and>
     (case FieldValue lib e (a_Field (the (r_Assert rule))) of (val, present) \<Rightarrow>
        Satisfied lib (the (r_Assert rule)) val present = Inr False))"

definition edge_violation :: "Envelope list \<Rightarrow> Graph option \<Rightarrow> bool \<Rightarrow> Rule \<Rightarrow> Key \<Rightarrow> bool" where
  "edge_violation envelopes g gate rule k \<longleftrightarrow> (\<exists>edge\<in>set (crossDomainEdges envelopes g). env_Key (cde_Owner edge) = k \<and>
     (case em_CrossDomain (the (r_MatchEdge rule)) of
        Some sel \<Rightarrow> cde_FromDomain edge = cd_From sel \<and> cde_ToDomain edge = cd_To sel
      | None \<Rightarrow> gate \<and> (case em_Selector (the (r_MatchEdge rule)) of None \<Rightarrow> False | Some sel \<Rightarrow>
          Selects_labels (es_From sel) (md_Labels (env_Metadata (cde_From edge))) \<and>
          Selects_labels (es_To sel) (md_Labels (env_Metadata (cde_To edge))))))"

definition violates :: "golib \<Rightarrow> Envelope list \<Rightarrow> Graph option \<Rightarrow> Finding list \<Rightarrow> bool \<Rightarrow> Rule \<Rightarrow> Key \<Rightarrow> bool" where
  "violates lib envelopes g findings gate rule k \<longleftrightarrow> (case rule_Kind rule of
     RuleKindFieldAssert \<Rightarrow> (m_Selector (the (r_Match rule)) = None \<or> gate) \<and> field_violation lib envelopes rule k
   | RuleKindFinding \<Rightarrow> (\<exists>f\<in>set findings. f_Code f = fm_Code (the (r_MatchFinding rule)) \<and> f_Resource f = k)
   | RuleKindEdge \<Rightarrow> edge_violation envelopes g gate rule k
   | RuleKindGrant \<Rightarrow> (\<exists>e\<in>set envelopes. env_Key e = k \<and>
       (\<exists>grant\<in>set (AccessGrants e). ag_Namespace grant = gm_Namespace (the (r_MatchGrant rule))))
   | _ \<Rightarrow> False)"

definition exempts :: "Envelope list \<Rightarrow> Rule \<Rightarrow> Key \<Rightarrow> bool" where
  "exempts envelopes rule k \<longleftrightarrow> r_Exemptible rule \<and> (\<exists>env. map_of (by_key envelopes) k = Some env \<and>
     (\<exists>ex\<in>set (ParseExemptions (md_Annotations (env_Metadata env))). ex_RuleID ex = r_ID rule))"

section \<open>Validated rules evaluate\<close>

lemma decide_sel [simp]: "d_RuleID (decide rule k m) = r_ID rule" "d_Effect (decide rule k m) = r_Effect rule"
  "d_Resource (decide rule k m) = k" "\<not> d_Exempted (decide rule k m)"
  by (simp_all add: decide_def)

definition decided :: "Rule \<Rightarrow> decisions \<Rightarrow> Key \<Rightarrow> bool" where
  "decided rule ds k \<longleftrightarrow> (\<exists>d\<in>set ds. d_Resource d = k)"

definition decisions_of :: "Rule \<Rightarrow> decisions \<Rightarrow> bool" where
  "decisions_of rule ds \<longleftrightarrow> (\<forall>d\<in>set ds. d_RuleID d = r_ID rule \<and> d_Effect d = r_Effect rule \<and> \<not> d_Exempted d)"

lemma Satisfied_total:
  assumes "operatorCount a = 1" "a_Matches a \<noteq> [] \<Longrightarrow> gl_Compile lib (a_Matches a) \<noteq> None"
  shows "\<exists>b. Satisfied lib a val present = Inr b"
  using assms by (auto simp: Satisfied_def operatorCount_def of_bool_def split: if_splits option.splits)

lemma assert_loop:
  assumes "\<And>val present. \<exists>b. Satisfied lib a val present = Inr b"
  shows "\<exists>ds. fold_err (assert_step lib rule a) es out = Inr (out @ ds) \<and> decisions_of rule ds \<and>
    (\<forall>k. decided rule ds k \<longleftrightarrow> (\<exists>e\<in>set es. env_Key e = k \<and> match_Selects (r_Match rule) e \<and>
       (case FieldValue lib e (a_Field a) of (val, present) \<Rightarrow> Satisfied lib a val present = Inr False)))"
proof (induction es arbitrary: out)
  case Nil
  show ?case by (rule exI [of _ "[]"]) (simp add: decisions_of_def decided_def)
next
  case (Cons e es)
  obtain val present where fv: "FieldValue lib e (a_Field a) = (val, present)" by fastforce
  obtain b where b: "Satisfied lib a val present = Inr b" using assms by blast
  let ?d = "decide rule (env_Key e) (FailsAssert (env_Kind e) (md_Name (env_Metadata e)) (a_Field a))"
  show ?case
  proof (cases "match_Selects (r_Match rule) e \<and> \<not> b")
    case True
    then have step: "assert_step lib rule a e out = Inr (out @ [?d])" using fv b by (simp add: assert_step_def)
    from Cons [of "out @ [?d]"] obtain ds where ds: "fold_err (assert_step lib rule a) es (out @ [?d]) = Inr (out @ [?d] @ ds)"
      "decisions_of rule ds" "\<And>k. decided rule ds k \<longleftrightarrow> (\<exists>e\<in>set es. env_Key e = k \<and> match_Selects (r_Match rule) e \<and>
       (case FieldValue lib e (a_Field a) of (val, present) \<Rightarrow> Satisfied lib a val present = Inr False))" by auto
    have "decided rule (?d # ds) k \<longleftrightarrow> env_Key e = k \<or> decided rule ds k" for k by (auto simp: decided_def)
    with ds step True fv b show ?thesis by (intro exI [of _ "?d # ds"]) (auto simp: decisions_of_def)
  next
    case False
    then have step: "assert_step lib rule a e out = Inr out" using fv b by (auto simp: assert_step_def)
    with Cons [of out] False fv b show ?thesis by auto
  qed
qed

lemma run_rule_exact:
  assumes "validate_shape lib rule = None"
  shows "\<exists>ds. run_rule lib envelopes g findings gate rule = Inr ds \<and> decisions_of rule ds \<and>
    (\<forall>k. decided rule ds k \<longleftrightarrow> violates lib envelopes g findings gate rule k)"
proof (cases "rule_Kind rule")
  case RuleKindInvalid
  with assms show ?thesis by (simp add: validate_shape_def)
next
  case RuleKindFieldAssert
  let ?a = "the (r_Assert rule)"
  have "\<exists>b. Satisfied lib ?a val present = Inr b" for val present
    using assms RuleKindFieldAssert
    by (intro Satisfied_total) (auto simp: validate_shape_def validate_assert_def split: if_splits)
  from assert_loop [OF this, of rule envelopes "[]"] obtain ds where
    "evaluateFieldAssert lib rule envelopes = Inr ds" "decisions_of rule ds"
    "\<And>k. decided rule ds k \<longleftrightarrow> field_violation lib envelopes rule k"
    by (auto simp: evaluateFieldAssert_def field_violation_def)
  with RuleKindFieldAssert show ?thesis
    by (cases "m_Selector (the (r_Match rule)) \<noteq> None \<and> \<not> gate")
      (auto simp: run_rule_def violates_def decisions_of_def decided_def)
next
  case RuleKindFinding
  then show ?thesis
    by (auto simp: run_rule_def violates_def decisions_of_def decided_def evaluateFinding_def set_map_filter)
next
  case RuleKindPlan
  then show ?thesis by (simp add: run_rule_def violates_def decisions_of_def decided_def)
next
  case RuleKindEdge
  then have sel: "em_CrossDomain (the (r_MatchEdge rule)) = None \<Longrightarrow> em_Selector (the (r_MatchEdge rule)) \<noteq> None"
    by (auto simp: rule_Kind_def split: if_splits option.splits)
  show ?thesis
  proof (cases "em_CrossDomain (the (r_MatchEdge rule))")
    case (Some cd)
    with RuleKindEdge show ?thesis
      by (auto simp: run_rule_def violates_def edge_violation_def decisions_of_def decided_def evaluateCrossDomain_def
          set_map_filter Let_def)
  next
    case None
    with sel obtain es where "em_Selector (the (r_MatchEdge rule)) = Some es" by blast
    with None RuleKindEdge show ?thesis
      by (cases gate) (auto simp: run_rule_def violates_def edge_violation_def decisions_of_def decided_def
          evaluateEdgeSelector_def set_map_filter Let_def)
  qed
next
  case RuleKindGrant
  have "set (evaluateGrant rule envelopes) = (\<Union>e\<in>set envelopes. \<Union>grant\<in>{grant \<in> set (AccessGrants e).
      ag_Namespace grant = gm_Namespace (the (r_MatchGrant rule))}. {decide rule (env_Key e) (WideGrantDenied (env_Key e) (ag_Namespace grant))})"
    by (auto simp: evaluateGrant_def set_map_filter)
  with RuleKindGrant show ?thesis
    by (auto simp: run_rule_def violates_def decisions_of_def decided_def)
qed

section \<open>Validated policy sets\<close>

lemma validate_rules_ok:
  assumes "fold_err (validate_rule lib name) rs seen = Inr seen'"
  shows "(\<forall>r\<in>set rs. validate_shape lib r = None \<and> effect_Valid (r_Effect r) \<and> r_ID r \<notin> fst ` set seen) \<and>
    distinct (map r_ID rs) \<and> fst ` set seen' = fst ` set seen \<union> r_ID ` set rs"
  using assms
proof (induction rs arbitrary: seen)
  case (Cons r rs)
  then obtain seen1 where s: "validate_rule lib name r seen = Inr seen1" "fold_err (validate_rule lib name) rs seen1 = Inr seen'"
    by (cases "validate_rule lib name r seen") auto
  from s(1) have r: "map_of seen (r_ID r) = None" "effect_Valid (r_Effect r)" "validate_shape lib r = None"
    "seen1 = AList.update (r_ID r) name seen"
    by (auto simp: validate_rule_def split: if_splits option.splits)
  from Cons.IH [OF s(2)] r show ?case by (auto simp: dom_update map_of_eq_None_iff)
qed simp

lemma all_rules_Cons: "all_rules (p # ps) = pol_Rules p @ all_rules ps"
  by (simp add: all_rules_def)

lemma validate_policies_ok:
  assumes "fold_err (validate_policy lib) ps seen = Inr seen'"
  shows "(\<forall>r\<in>set (all_rules ps). validate_shape lib r = None \<and> effect_Valid (r_Effect r) \<and> r_ID r \<notin> fst ` set seen) \<and>
    distinct (map r_ID (all_rules ps))"
  using assms
proof (induction ps arbitrary: seen)
  case (Cons p ps)
  then obtain seen1 where s: "validate_policy lib p seen = Inr seen1" and p2: "fold_err (validate_policy lib) ps seen1 = Inr seen'"
    by (cases "validate_policy lib p seen") auto
  from s have p1: "fold_err (validate_rule lib (pol_Name p)) (pol_Rules p) seen = Inr seen1"
    by (simp add: validate_policy_def split: if_splits)
  note a = validate_rules_ok [OF p1] and b = Cons.IH [OF p2]
  have s1: "fst ` set seen1 = fst ` set seen \<union> r_ID ` set (pol_Rules p)" using a by (elim conjE)
  have new: "\<forall>r\<in>set (all_rules ps). validate_shape lib r = None \<and> effect_Valid (r_Effect r) \<and> r_ID r \<notin> fst ` set seen"
    using b unfolding s1 by simp
  have "r_ID r \<notin> r_ID ` set (pol_Rules p)" if "r \<in> set (all_rules ps)" for r using b that unfolding s1 by simp
  then have disj: "r_ID ` set (pol_Rules p) \<inter> r_ID ` set (all_rules ps) = {}"
    unfolding disjoint_iff by (metis (no_types, lifting) imageE)
  have "distinct (map r_ID (all_rules (p # ps)))"
    using a b disj by (simp add: all_rules_Cons)
  moreover have "\<forall>r\<in>set (all_rules (p # ps)). validate_shape lib r = None \<and> effect_Valid (r_Effect r) \<and> r_ID r \<notin> fst ` set seen"
    using a new unfolding all_rules_Cons set_append by (simp add: ball_Un)
  ultimately show ?case by (rule conjI [rotated])
qed (simp add: all_rules_def)

lemma Validate_policies_rules:
  assumes "Validate_policies lib policies = None"
  shows "\<forall>r\<in>set (all_rules policies). validate_shape lib r = None" "distinct (map r_ID (all_rules policies))"
  using assms validate_policies_ok [of lib policies "[]"] by (auto simp: Validate_policies_def split: sum.splits)

lemma fold_update_lookup:
  assumes "distinct (map f xs)" "x \<in> set xs"
  shows "map_of (fold (\<lambda>x m. AList.update (f x) (v x) m) xs m) (f x) = Some (v x)"
  using assms
proof (induction xs arbitrary: m)
  case (Cons y ys)
  have keep: "map_of (fold (\<lambda>x m. AList.update (f x) (v x) m) zs m) k = map_of m k" if "k \<notin> f ` set zs" for zs k m
    using that by (induction zs arbitrary: m) auto
  show ?case
  proof (cases "x \<in> set ys")
    case True
    with Cons show ?thesis by simp
  next
    case False
    with Cons.prems have "x = y" "f x \<notin> f ` set ys" by auto
    with keep [of "f x" ys] show ?thesis by simp
  qed
qed simp

definition rule_decisions :: "golib \<Rightarrow> Envelope list \<Rightarrow> Graph option \<Rightarrow> Finding list \<Rightarrow> bool \<Rightarrow> Rule \<Rightarrow> decisions" where
  "rule_decisions lib envelopes g findings gate rule =
     (case run_rule lib envelopes g findings gate rule of Inl _ \<Rightarrow> [] | Inr ds \<Rightarrow> ds)"

lemma rule_decisions_exact:
  assumes "validate_shape lib rule = None"
  shows "run_rule lib envelopes g findings gate rule = Inr (rule_decisions lib envelopes g findings gate rule)"
    "decisions_of rule (rule_decisions lib envelopes g findings gate rule)"
    "decided rule (rule_decisions lib envelopes g findings gate rule) k \<longleftrightarrow> violates lib envelopes g findings gate rule k"
proof -
  obtain ds where ds: "run_rule lib envelopes g findings gate rule = Inr ds" "decisions_of rule ds"
    "\<forall>k. decided rule ds k \<longleftrightarrow> violates lib envelopes g findings gate rule k"
    using run_rule_exact [OF assms] by metis
  then have "rule_decisions lib envelopes g findings gate rule = ds" by (simp add: rule_decisions_def)
  with ds show "run_rule lib envelopes g findings gate rule = Inr (rule_decisions lib envelopes g findings gate rule)"
    "decisions_of rule (rule_decisions lib envelopes g findings gate rule)"
    "decided rule (rule_decisions lib envelopes g findings gate rule) k \<longleftrightarrow> violates lib envelopes g findings gate rule k"
    by simp_all
qed

lemma run_loop:
  assumes "\<forall>r\<in>set rules. validate_shape lib r = None"
  shows "fold_err (\<lambda>rule ds. case run_rule lib envelopes g findings gate rule of
      Inl err \<Rightarrow> Inl err | Inr ds' \<Rightarrow> Inr (ds @ ds')) rules out =
    Inr (out @ concat (map (rule_decisions lib envelopes g findings gate) rules))"
  using assms by (induction rules arbitrary: out) (auto simp: rule_decisions_exact(1))

lemma exempt_decision_sel:
  "d_RuleID (exempt_decision m byKey d) = d_RuleID d" "d_Effect (exempt_decision m byKey d) = d_Effect d"
  "d_Resource (exempt_decision m byKey d) = d_Resource d"
  by (simp_all add: exempt_decision_def split: option.splits)

lemma exempt_decision_exact:
  assumes "distinct (map r_ID (all_rules policies))" "rule \<in> set (all_rules policies)" "d_RuleID d = r_ID rule" "\<not> d_Exempted d"
  shows "d_Exempted (exempt_decision (exemptibleByID policies) (by_key envelopes) d) \<longleftrightarrow> exempts envelopes rule (d_Resource d)"
proof -
  have "get_or False (exemptibleByID policies) (r_ID rule) = r_Exemptible rule"
    using fold_update_lookup [OF assms(1,2), of r_Exemptible "[]"] by (simp add: exemptibleByID_def get_or_def)
  note m = this
  show ?thesis
  proof (cases "map_of (by_key envelopes) (d_Resource d)")
    case None
    with assms(4) show ?thesis by (simp add: exempt_decision_def exempts_def)
  next
    case (Some env)
    let ?exs = "ParseExemptions (md_Annotations (env_Metadata env))"
    have "find (\<lambda>ex. ex_RuleID ex = r_ID rule) ?exs = None \<longleftrightarrow> \<not> (\<exists>ex\<in>set ?exs. ex_RuleID ex = r_ID rule)"
      by (auto simp: find_None_iff)
    with Some m assms(3,4) show ?thesis
      by (cases "find (\<lambda>ex. ex_RuleID ex = r_ID rule) ?exs") (auto simp: exempt_decision_def exempts_def)
  qed
qed

lemma run_exact:
  assumes "Validate_policies lib policies = None"
  shows "\<exists>ds. policy_Run lib policies envelopes g findings gate = Inr ds \<and> sorted (map decision_key ds) \<and>
    (\<forall>rule\<in>set (all_rules policies). \<forall>k.
      (\<exists>d\<in>set ds. d_RuleID d = r_ID rule \<and> d_Resource d = k) \<longleftrightarrow> violates lib envelopes g findings gate rule k) \<and>
    (\<forall>d\<in>set ds. \<exists>rule\<in>set (all_rules policies). d_RuleID d = r_ID rule \<and> d_Effect d = r_Effect rule \<and>
      (d_Exempted d \<longleftrightarrow> exempts envelopes rule (d_Resource d)))"
proof -
  note ok = Validate_policies_rules [OF assms]
  let ?rd = "rule_decisions lib envelopes g findings gate"
  let ?ex = "exempt_decision (exemptibleByID policies) (by_key envelopes)"
  define ds where "ds = SortDecisions (map ?ex (concat (map ?rd (all_rules policies))))"
  have run: "policy_Run lib policies envelopes g findings gate = Inr ds"
    using run_loop [OF ok(1), of envelopes g findings gate "[]"] by (simp add: policy_Run_def ds_def applyExemptions_def)
  have set: "set ds = {?ex d | d rule. rule \<in> set (all_rules policies) \<and> d \<in> set (?rd rule)}"
    by (auto simp: ds_def SortDecisions_def)
  have of_rule: "d_RuleID d = r_ID rule \<and> d_Effect d = r_Effect rule \<and> \<not> d_Exempted d"
    if "rule \<in> set (all_rules policies)" "d \<in> set (?rd rule)" for d rule
    using that ok(1) rule_decisions_exact(2) [of lib rule] by (auto simp: decisions_of_def)
  have same: "rule = rule'" if "rule \<in> set (all_rules policies)" "rule' \<in> set (all_rules policies)" "r_ID rule = r_ID rule'" for rule rule'
    using that ok(2) by (auto simp: distinct_map dest: inj_onD)
  have "(\<exists>d\<in>set ds. d_RuleID d = r_ID rule \<and> d_Resource d = k) \<longleftrightarrow> violates lib envelopes g findings gate rule k"
    if r: "rule \<in> set (all_rules policies)" for rule k
  proof -
    have "(\<exists>d\<in>set ds. d_RuleID d = r_ID rule \<and> d_Resource d = k) \<longleftrightarrow> (\<exists>d\<in>set (?rd rule). d_Resource d = k)"
    proof
      assume "\<exists>d\<in>set ds. d_RuleID d = r_ID rule \<and> d_Resource d = k"
      then obtain d rule' where d: "rule' \<in> set (all_rules policies)" "d \<in> set (?rd rule')"
        "d_RuleID d = r_ID rule" "d_Resource d = k"
        unfolding set by (auto simp: exempt_decision_sel)
      have "rule' = rule" using same [OF d(1) r] of_rule [OF d(1,2)] d(3) by simp
      with d show "\<exists>d\<in>set (?rd rule). d_Resource d = k" by blast
    next
      assume "\<exists>d\<in>set (?rd rule). d_Resource d = k"
      then obtain d where d: "d \<in> set (?rd rule)" "d_Resource d = k" by blast
      with r have "?ex d \<in> set ds" unfolding set by blast
      with d of_rule [OF r d(1)] show "\<exists>d\<in>set ds. d_RuleID d = r_ID rule \<and> d_Resource d = k"
        by (intro bexI [of _ "?ex d"]) (simp_all add: exempt_decision_sel)
    qed
    then show ?thesis using rule_decisions_exact(3) [of lib rule] ok(1) r by (simp add: decided_def)
  qed
  moreover have "\<exists>rule\<in>set (all_rules policies). d_RuleID d = r_ID rule \<and> d_Effect d = r_Effect rule \<and>
      (d_Exempted d \<longleftrightarrow> exempts envelopes rule (d_Resource d))" if d: "d \<in> set ds" for d
  proof -
    from d obtain d0 rule where "d = ?ex d0" and r: "rule \<in> set (all_rules policies)" "d0 \<in> set (?rd rule)" unfolding set by blast
    with of_rule [OF r] exempt_decision_exact [OF ok(2) r(1), of d0 envelopes] show ?thesis
      by (intro bexI [OF _ r(1)]) (simp add: exempt_decision_sel)
  qed
  moreover have "sorted (map decision_key ds)" by (simp add: ds_def SortDecisions_def)
  ultimately show ?thesis using run by blast
qed

text \<open>
  C15: the evaluator is total and exact on validated policy sets. \<open>Run\<close> never fails on a policy
  set that \<open>Validate\<close> accepts, its decisions are sorted, a rule has a decision about a resource
  exactly when the resource violates the rule, every decision carries the effect of its rule, and
  it is exempted exactly when the rule is exemptible and the resource's annotation names the rule.
\<close>

theorem policy_Run_exact:
  assumes "Validate_policies lib policies = None"
  shows "\<exists>ds. policy_Run lib policies envelopes g findings gate = Inr ds \<and> sorted (map decision_key ds) \<and>
    (\<forall>rule\<in>set (all_rules policies). \<forall>k.
      (\<exists>d\<in>set ds. d_RuleID d = r_ID rule \<and> d_Resource d = k) \<longleftrightarrow> violates lib envelopes g findings gate rule k) \<and>
    (\<forall>d\<in>set ds. \<exists>rule\<in>set (all_rules policies). d_RuleID d = r_ID rule \<and> d_Effect d = r_Effect rule \<and>
      (d_Exempted d \<longleftrightarrow> exempts envelopes rule (d_Resource d)))"
  using assms by (rule run_exact)

section \<open>The LabelScopedAccess gate\<close>

definition uses_selector :: "Rule \<Rightarrow> bool" where
  "uses_selector rule \<longleftrightarrow> rule_Kind rule = RuleKindFieldAssert \<and> m_Selector (the (r_Match rule)) \<noteq> None \<or>
     rule_Kind rule = RuleKindEdge \<and> em_CrossDomain (the (r_MatchEdge rule)) = None"

definition without_selectors :: "Policy \<Rightarrow> Policy" where
  "without_selectors p = p\<lparr>pol_Rules := filter (\<lambda>r. \<not> uses_selector r) (pol_Rules p)\<rparr>"

lemma all_rules_without: "all_rules (map without_selectors ps) = filter (\<lambda>r. \<not> uses_selector r) (all_rules ps)"
  by (induction ps) (simp_all add: all_rules_def without_selectors_def)

lemma rule_decisions_gate:
  "uses_selector rule \<Longrightarrow> rule_decisions lib envelopes g findings False rule = []"
  "\<not> uses_selector rule \<Longrightarrow> rule_decisions lib envelopes g findings gate rule = rule_decisions lib envelopes g findings False rule"
  by (auto simp: uses_selector_def rule_decisions_def run_rule_def split: RuleKind.splits)

lemma exempt_decision_cong:
  "get_or False m (d_RuleID d) = get_or False m' (d_RuleID d) \<Longrightarrow> exempt_decision m byKey d = exempt_decision m' byKey d"
  by (simp add: exempt_decision_def)

text \<open>
  With the LabelScopedAccess gate off a validated policy set is evaluated as if every rule
  that uses a label selector were absent, and such a set without selectors does not depend on
  the gate: every rule shape that predates selectors is untouched.
\<close>

theorem policy_gate_off:
  assumes "Validate_policies lib policies = None"
  shows "policy_Run lib policies envelopes g findings False =
    policy_Run lib (map without_selectors policies) envelopes g findings gate"
proof -
  note ok = Validate_policies_rules [OF assms]
  let ?rs = "all_rules policies" and ?ks = "filter (\<lambda>r. \<not> uses_selector r) (all_rules policies)"
  let ?rd = "\<lambda>gate. rule_decisions lib envelopes g findings gate"
  let ?ps = "map without_selectors policies"
  have "concat (map (?rd False) rs) = concat (map (?rd gate) (filter (\<lambda>r. \<not> uses_selector r) rs))" for rs
  proof (induction rs)
    case (Cons r rs)
    have "?rd False r = (if uses_selector r then [] else ?rd gate r)"
      using rule_decisions_gate(1) [of r lib envelopes g findings] rule_decisions_gate(2) [of r lib envelopes g findings gate] by simp
    with Cons show ?case by simp
  qed simp
  then have c: "concat (map (?rd False) ?rs) = concat (map (?rd gate) ?ks)" .
  have ex: "exempt_decision (exemptibleByID policies) byKey d = exempt_decision (exemptibleByID ?ps) byKey d"
    if "d \<in> set (concat (map (?rd gate) ?ks))" for d byKey
  proof -
    from that obtain rule where rule: "rule \<in> set ?ks" "d \<in> set (?rd gate rule)" by auto
    then have "d_RuleID d = r_ID rule"
      using rule_decisions_exact(2) [of lib rule envelopes g findings gate] ok(1) by (auto simp: decisions_of_def)
    moreover have "map_of (exemptibleByID policies) (r_ID rule) = Some (r_Exemptible rule)"
      unfolding exemptibleByID_def by (rule fold_update_lookup) (use ok(2) rule in auto)
    moreover have "map_of (exemptibleByID ?ps) (r_ID rule) = Some (r_Exemptible rule)"
      unfolding exemptibleByID_def all_rules_without
      by (rule fold_update_lookup) (use ok(2) rule in \<open>auto intro: distinct_map_filter\<close>)
    ultimately show ?thesis by (intro exempt_decision_cong) (simp add: get_or_def)
  qed
  have "policy_Run lib policies envelopes g findings False =
      Inr (SortDecisions (applyExemptions envelopes (concat (map (?rd False) ?rs)) policies))"
    using run_loop [OF ok(1), of envelopes g findings False "[]"] by (simp add: policy_Run_def)
  moreover have "policy_Run lib ?ps envelopes g findings gate =
      Inr (SortDecisions (applyExemptions envelopes (concat (map (?rd gate) ?ks)) ?ps))"
    using run_loop [of ?ks lib envelopes g findings gate "[]"] ok(1) by (simp add: policy_Run_def all_rules_without)
  moreover have "applyExemptions envelopes (concat (map (?rd gate) ?ks)) policies =
      applyExemptions envelopes (concat (map (?rd gate) ?ks)) ?ps"
    unfolding applyExemptions_def by (rule map_cong [OF refl ex])
  ultimately show ?thesis by (simp only: c)
qed

section \<open>Data-flow edges are references of the graph\<close>

definition ref_matches :: "Envelope \<Rightarrow> NameRef \<Rightarrow> string list option \<Rightarrow> Envelope \<Rightarrow> bool" where
  "ref_matches from ref allowed e \<longleftrightarrow>
     \<not> (md_Name (env_Metadata e) \<noteq> ref_Name ref \<or>
        NormalizeNamespace (md_Namespace (env_Metadata e)) \<noteq> NamespaceOr ref (md_Namespace (env_Metadata from))) \<and>
     \<not> (case allowed of None \<Rightarrow> False | Some kinds \<Rightarrow> env_Kind e \<notin> set kinds)"

lemma resolveRef_find: "resolveRef g from field allowed = (if RefName (env_Spec from) field = [] then None
    else find (ref_matches from (RefFromSpec (env_Spec from) field) allowed) (map snd (Nodes g)))"
  by (simp add: resolveRef_def Let_def RefName_def ref_matches_def [abs_def])

lemma ref_matches_denoted:
  assumes "Build envs = Inr g" "x \<in> set envs"
  shows "ref_matches e ref allowed x \<longleftrightarrow> env_Key x \<in> denoted g e ref allowed"
proof -
  have "env_Key x \<in> node_keys g" using assms Build_node_keys by blast
  then show ?thesis by (auto simp: ref_matches_def denoted_def kind_ok_def env_Key_def split: option.splits)
qed

lemma resolveRef_unique:
  assumes "Build envs = Inr g" "\<forall>x\<in>set envs. Validate x = None" "e \<in> set envs"
    and "field \<in> set refFields" "RefName (env_Spec e) field \<noteq> []" "mset (Nodes g') = mset (Nodes g)"
  obtains x where "x \<in> set envs" "env_Key x \<in> set (succs g (env_Key e))"
    "resolveRef g' e field (allowedKinds field) = Some x"
    "\<And>y. y \<in> set envs \<Longrightarrow> ref_matches e (RefFromSpec (env_Spec e) field) (allowedKinds field) y \<longleftrightarrow> y = x"
proof -
  let ?P = "ref_matches e (RefFromSpec (env_Spec e) field) (allowedKinds field)"
  obtain to where to: "to \<in> set (succs g (env_Key e))"
    "denoted g e (RefFromSpec (env_Spec e) field) (allowedKinds field) = {to}"
    using Build_resolves [OF assms(1-5)] by blast
  have P: "?P y \<longleftrightarrow> env_Key y = to" if "y \<in> set envs" for y
    using ref_matches_denoted [OF assms(1) that, of e] to(2) by simp
  have "to \<in> node_keys g" using to(2) by (auto simp: denoted_def)
  then obtain x where x: "x \<in> set envs" "env_Key x = to" using Build_node_keys [OF assms(1)] by auto
  have inj: "inj_on env_Key (set envs)" using Build_Nodes [OF assms(1)] by (simp add: distinct_map)
  have Px: "?P y \<longleftrightarrow> y = x" if "y \<in> set envs" for y using P [OF that] x inj that by (metis inj_onD)
  have nodes: "set (map snd (Nodes g')) = set envs"
    using Build_Nodes [OF assms(1)] mset_eq_setD [OF assms(6)] by (simp add: image_image)
  have "find ?P (map snd (Nodes g')) \<noteq> None" using x(1) Px nodes by (auto simp: find_None_iff)
  then obtain y where y: "find ?P (map snd (Nodes g')) = Some y" by blast
  with find_in [OF y] nodes Px have "find ?P (map snd (Nodes g')) = Some x" by auto
  then show thesis using x to(1) assms(5) Px by (intro that [of x]) (simp_all add: resolveRef_find)
qed

lemma ref_kinds: "allowedKinds ''sourceRef'' = None" "allowedKinds ''targetRef'' = None"
  "allowedKinds ''connectionRef'' = Some connectionRefKinds"
  "''sourceRef'' \<in> set refFields" "''targetRef'' \<in> set refFields" "''connectionRef'' \<in> set refFields"
  by (simp_all add: allowedKinds_def connectionRefKinds_def refFields_def)

lemma resolveRef_node:
  assumes "Build envs = Inr g" "\<forall>x\<in>set envs. Validate x = None" "e \<in> set envs"
    and "field \<in> set refFields" "resolveRef g e field (allowedKinds field) = Some x"
  shows "x \<in> set envs \<and> env_Key x \<in> set (succs g (env_Key e))"
proof -
  have "RefName (env_Spec e) field \<noteq> []" using assms(5) by (auto simp: resolveRef_find split: if_splits)
  from resolveRef_unique [OF assms(1-4) this refl] assms(5) show ?thesis by (metis option.inject)
qed

lemma resolveRef_order:
  assumes "Build envs = Inr g" "\<forall>x\<in>set envs. Validate x = None" "e \<in> set envs"
    and "field \<in> set refFields" "mset (Nodes g') = mset (Nodes g)"
  shows "resolveRef g' e field (allowedKinds field) = resolveRef g e field (allowedKinds field)"
proof (cases "RefName (env_Spec e) field = []")
  case True
  then show ?thesis by (simp add: resolveRef_find)
next
  case False
  obtain x where x: "x \<in> set envs" "env_Key x \<in> set (succs g (env_Key e))"
    "resolveRef g' e field (allowedKinds field) = Some x"
    "\<And>y. y \<in> set envs \<Longrightarrow> ref_matches e (RefFromSpec (env_Spec e) field) (allowedKinds field) y \<longleftrightarrow> y = x"
    by (rule resolveRef_unique [OF assms(1-4) False assms(5)]) (rule that)
  obtain y where y: "y \<in> set envs" "env_Key y \<in> set (succs g (env_Key e))"
    "resolveRef g e field (allowedKinds field) = Some y"
    "\<And>z. z \<in> set envs \<Longrightarrow> ref_matches e (RefFromSpec (env_Spec e) field) (allowedKinds field) z \<longleftrightarrow> z = y"
    by (rule resolveRef_unique [OF assms(1-4) False refl]) (rule that)
  from x(4) [OF y(1)] y(4) [OF y(1)] x(3) y(3) show ?thesis by simp
qed

text \<open>
  The edges policies judge are references of the graph. On a validated manifest set every
  data-flow edge belongs to a resource of the set, its target and (for a Binding) its source are
  resources the owner references in the graph, and the edges do not depend on the iteration
  order of the node map, although the evaluator resolves names by scanning it.
\<close>

theorem policy_edges_are_references:
  assumes "Build envs = Inr g" "\<forall>x\<in>set envs. Validate x = None"
  shows "(\<forall>edge\<in>set (crossDomainEdges envs (Some g)). cde_Owner edge \<in> set envs \<and>
      {cde_From edge, cde_To edge} \<subseteq> set envs \<and> env_Key (cde_To edge) \<in> set (succs g (env_Key (cde_Owner edge))) \<and>
      (if env_Kind (cde_Owner edge) = ''Binding'' then env_Key (cde_From edge) \<in> set (succs g (env_Key (cde_Owner edge)))
       else cde_From edge = cde_Owner edge \<and> env_Kind (cde_To edge) = ''Connection'')) \<and>
    (\<forall>g'. mset (Nodes g') = mset (Nodes g) \<longrightarrow> crossDomainEdges envs (Some g') = crossDomainEdges envs (Some g))"
proof (intro conjI ballI allI impI)
  fix g' :: Graph
  assume n: "mset (Nodes g') = mset (Nodes g)"
  have "cross_edge g' e = cross_edge g e" if "e \<in> set envs" for e
    using resolveRef_order [OF assms that ref_kinds(4) n] resolveRef_order [OF assms that ref_kinds(5) n]
      resolveRef_order [OF assms that ref_kinds(6) n]
    by (simp add: cross_edge_def ref_kinds)
  then show "crossDomainEdges envs (Some g') = crossDomainEdges envs (Some g)"
    by (auto simp: crossDomainEdges_def intro: map_filter_cong)
next
  fix edge assume "edge \<in> set (crossDomainEdges envs (Some g))"
  then obtain e where e: "e \<in> set envs" "cross_edge g e = Some edge" by (auto simp: crossDomainEdges_def set_map_filter)
  note src = resolveRef_node [OF assms e(1) ref_kinds(4), unfolded ref_kinds]
    and tgt = resolveRef_node [OF assms e(1) ref_kinds(5), unfolded ref_kinds]
    and con = resolveRef_node [OF assms e(1) ref_kinds(6), unfolded ref_kinds]
  have own: "cde_Owner edge = e" using e(2) by (auto simp: cross_edge_def mk_edge_def split: if_splits option.splits)
  have parts: "if env_Kind e = ''Binding''
    then resolveRef g e ''sourceRef'' None = Some (cde_From edge) \<and> resolveRef g e ''targetRef'' None = Some (cde_To edge)
    else cde_From edge = e \<and> resolveRef g e ''connectionRef'' (Some connectionRefKinds) = Some (cde_To edge) \<and>
      env_Kind (cde_To edge) = ''Connection''"
    using e(2) by (auto simp: cross_edge_def mk_edge_def split: if_splits option.splits)
  show "cde_Owner edge \<in> set envs" using own e(1) by simp
  show "{cde_From edge, cde_To edge} \<subseteq> set envs" using parts src tgt con e(1) by (auto split: if_splits)
  show "env_Key (cde_To edge) \<in> set (succs g (env_Key (cde_Owner edge)))" using parts own tgt con by (auto split: if_splits)
  show "if env_Kind (cde_Owner edge) = ''Binding'' then env_Key (cde_From edge) \<in> set (succs g (env_Key (cde_Owner edge)))
       else cde_From edge = cde_Owner edge \<and> env_Kind (cde_To edge) = ''Connection''"
    using parts own src by (auto split: if_splits)
qed

section \<open>Equality matches on absent labels\<close>

text \<open>
  A \<open>matchLabels\<close> entry with an empty value is not the \<open>In\<close> requirement it abbreviates in
  Kubernetes: it also selects resources that do not carry the label, because a missing key of a
  Go map reads as the empty string. For every other value the two agree.
\<close>

theorem matchLabels_In_equivalent:
  "Selects_labels (Some \<lparr>sel_MatchLabels = [(k, v)], sel_MatchExpressions = []\<rparr>) ls \<longleftrightarrow>
     Selects_labels (Some \<lparr>sel_MatchLabels = [],
       sel_MatchExpressions = [\<lparr>req_Key = k, req_Operator = SelectorIn, req_Values = [v]\<rparr>]\<rparr>) ls \<or>
     v = [] \<and> map_of ls k = None"
  by (auto simp: Selects_labels_def equal_labels_def Satisfied_req_def get_or_def split: option.splits)

section \<open>An example\<close>

definition sample_lib :: golib where
  "sample_lib = \<lparr>gl_Compile = (\<lambda>p. Some (\<lambda>s. s = p)), gl_Sprint = (\<lambda>_. []), gl_Time = (\<lambda>_. [])\<rparr>"

definition protect_rule :: Rule where
  "protect_rule = \<lparr>r_ID = ''protect-data'', r_Match = Some \<lparr>m_Kind = [''Source''], m_Label = [], m_Name = [], m_Selector = None\<rparr>,
     r_Assert = Some \<lparr>a_Field = ''metadata.protect'', a_Equals = ABool True, a_NotEquals = ANil, a_In = [], a_Absent = False, a_Matches = []\<rparr>,
     r_MatchFinding = None, r_MatchPlan = None, r_MatchEdge = None, r_MatchGrant = None,
     r_Effect = Deny, r_Exemptible = False, r_Message = []\<rparr>"

definition sample_policies :: "Policy list" where
  "sample_policies = [\<lparr>pol_APIVersion = APIVersion, pol_Kind = KindName, pol_Name = ''data'', pol_Rules = [protect_rule]\<rparr>]"

lemma sample_policies_valid: "Validate_policies sample_lib sample_policies = None"
  by code_simp

theorem policy_Run_exact_witness:
  "\<exists>ds. policy_Run sample_lib sample_policies pipeline (Some pipeline_graph) [] False = Inr ds \<and>
     (\<exists>d\<in>set ds. d_Resource d = env_Key (sample_env ''Source'' ''db'') \<and> d_RuleID d = ''protect-data'')"
proof -
  have v: "violates sample_lib pipeline (Some pipeline_graph) [] False protect_rule (env_Key (sample_env ''Source'' ''db''))"
    unfolding violates_def field_violation_def by code_simp
  have r: "protect_rule \<in> set (all_rules sample_policies)" "r_ID protect_rule = ''protect-data''"
    by (simp_all add: all_rules_def sample_policies_def protect_rule_def)
  from policy_Run_exact [OF sample_policies_valid, of pipeline "Some pipeline_graph" "[]" False] v r show ?thesis by metis
qed

theorem policy_gate_off_witness:
  "policy_Run sample_lib sample_policies pipeline (Some pipeline_graph) [] False =
   policy_Run sample_lib (map without_selectors sample_policies) pipeline (Some pipeline_graph) [] True"
  by (rule policy_gate_off [OF sample_policies_valid])

theorem policy_edges_are_references_witness:
  "\<exists>edge\<in>set (crossDomainEdges pipeline (Some pipeline_graph)).
     env_Key (cde_From edge) \<in> set (succs pipeline_graph (env_Key (cdc_env ''left'')))"
proof -
  have valid: "\<forall>x\<in>set pipeline. Validate x = None" by code_simp
  have ex: "\<exists>edge\<in>set (crossDomainEdges pipeline (Some pipeline_graph)). cde_Owner edge = cdc_env ''left''" by code_simp
  have k: "env_Kind (cdc_env ''left'') = ''Binding''" by code_simp
  from ex policy_edges_are_references [OF pipeline_Build valid] k show ?thesis by metis
qed

end
