(* ===== verification/Domain_Runtime.thy ===== *)
theory Domain_Runtime
  imports Graph_Access Engine_Steps
begin

text \<open>
  The runtime decorator of \<open>internal/application/engine\<close> (\<open>domainruntime.go\<close>, \<open>graphscoped.go\<close>): the
  one place where the logical network names of providers become concrete networks. The wrapped
  runtime is a record of functions on a world; the parts of a container or volume specification
  that the decorator does not touch are the extension of its record. Allocating the subnet of an
  edge network records a claim, so the claims are threaded.
\<close>

section \<open>The runtime port\<close>

record NetworkSpec =
  ns_Name :: string
  ns_Labels :: labels
  ns_IsolationPolicy :: string
  ns_AllowFromNetworks :: "string list"
  ns_Subnet :: string

record NetworkPeer =
  np_Network :: string
  np_Name :: string

record Resources =
  re_CPULimit :: rat
  re_CPUReservation :: rat
  re_MemoryLimitBytes :: "64 word"
  re_MemoryReservationBytes :: "64 word"

record NetContainerSpec = ContainerSpec +
  cs_Networks :: "string list"
  cs_Labels :: labels
  cs_Resources :: "Resources option"
  cs_AllowFromPeers :: "NetworkPeer list"

record VolumeSpec =
  vs_Networks :: "string list"

record ('w, 'c, 'z, 'v) runtime_port =
  rp_EnsureNetwork :: "NetworkSpec \<Rightarrow> 'w \<Rightarrow> string option \<times> 'w"
  rp_RemoveNetwork :: "string \<Rightarrow> 'w \<Rightarrow> string option \<times> 'w"
  rp_EnsureVolume :: "'v VolumeSpec_scheme \<Rightarrow> 'w \<Rightarrow> string option \<times> 'w"
  rp_EnsureContainer :: "'z NetContainerSpec_scheme \<Rightarrow> 'w \<Rightarrow> (string + 'c) \<times> 'w"
  rp_ProbeReachable :: "string \<Rightarrow> string \<Rightarrow> 'w \<Rightarrow> string option \<times> 'w"

definition IsolationNone :: string where "IsolationNone = ''none''"
definition IsolationGraphScoped :: string where "IsolationGraphScoped = ''graph-scoped''"

section \<open>Resource bounds\<close>

definition strip_suffix :: "string \<Rightarrow> string \<Rightarrow> string option" where
  "strip_suffix suf s = (if starts_with (rev suf) (rev s) then Some (take (length s - length suf) s) else None)"

text \<open>\<open>strconv.ParseInt(s, 10, 64)\<close> where negative results are of no interest to the caller.\<close>

definition parse_int64 :: "string \<Rightarrow> nat option" where
  "parse_int64 s = (case parse_nat (if s \<noteq> [] \<and> hd s = CHR ''+'' then tl s else s) of
     None \<Rightarrow> None | Some n \<Rightarrow> (if n < 2 ^ 63 then Some n else None))"

definition parseQuantityBytes :: "string \<Rightarrow> 64 word" where
  "parseQuantityBytes s =
     (let (mult, digits) = (case strip_suffix ''Ki'' s of Some d \<Rightarrow> (2 ^ 10, d) | None \<Rightarrow>
        (case strip_suffix ''Mi'' s of Some d \<Rightarrow> (2 ^ 20, d) | None \<Rightarrow>
          (case strip_suffix ''Gi'' s of Some d \<Rightarrow> (2 ^ 30, d) | None \<Rightarrow> (1, s))))
      in case parse_int64 digits of None \<Rightarrow> 0 | Some n \<Rightarrow> of_nat n * of_nat mult)"

definition zero_Resources :: Resources where
  "zero_Resources = \<lparr>re_CPULimit = 0, re_CPUReservation = 0, re_MemoryLimitBytes = 0, re_MemoryReservationBytes = 0\<rparr>"

fun is_float :: "any \<Rightarrow> rat option" where
  "is_float (AFloat q) = Some q"
| "is_float _ = None"

definition parseRuntimeResources :: "anymap \<Rightarrow> Resources option" where
  "parseRuntimeResources cfg = (case is_map (index_any cfg ''resources'') of None \<Rightarrow> None | Some raw \<Rightarrow>
     (let fl = (\<lambda>f. case is_float (index_any raw f) of None \<Rightarrow> 0 | Some q \<Rightarrow> q);
          by = (\<lambda>f. case is_string (index_any raw f) of None \<Rightarrow> 0 | Some s \<Rightarrow> parseQuantityBytes s);
          res = \<lparr>re_CPULimit = fl ''cpu'', re_CPUReservation = fl ''cpuReservation'',
            re_MemoryLimitBytes = by ''memory'', re_MemoryReservationBytes = by ''memoryReservation''\<rparr>
      in if res = zero_Resources then None else Some res))"

definition memory_profile :: "nat \<Rightarrow> nat \<Rightarrow> Resources option" where
  "memory_profile limit reservation = Some (zero_Resources\<lparr>re_MemoryLimitBytes := of_nat (limit * 2 ^ 20),
     re_MemoryReservationBytes := of_nat (reservation * 2 ^ 20)\<rparr>)"

definition defaultResourcesForProvider :: "string \<Rightarrow> Resources option" where
  "defaultResourcesForProvider t =
     (if t \<in> {''postgres'', ''mysql'', ''mariadb''} then memory_profile 512 256
      else if t \<in> {''s3'', ''minio''} then memory_profile 512 256
      else if t = ''redpanda'' then memory_profile 1024 512
      else if t \<in> {''nessie'', ''trino'', ''openlineage'', ''debezium'', ''s3sink'', ''jdbcsink'', ''s3source''} then memory_profile 1024 512
      else if t \<in> {''prometheus'', ''grafana''} then memory_profile 512 256
      else if t \<in> {''openziti'', ''wireguard'', ''proxy'', ''ingress''} then memory_profile 256 128
      else None)"

section \<open>The decorator\<close>

record domainRuntime =
  dr_providerType :: string
  dr_containerResources :: "Resources option"
  dr_token :: string
  dr_pinned :: bool
  dr_domain :: string
  dr_holes :: "string list"
  dr_graphScoped :: bool
  dr_labelScopedAccessEnabled :: bool
  dr_labelScopedGate :: bool
  dr_namespaced :: bool
  dr_self :: Key
  dr_peers :: "Key list"
  dr_ingressPeers :: "Key list"
  dr_resources :: resources

definition consumerDomainHoles :: "Envelope \<Rightarrow> resources \<Rightarrow> string list" where
  "consumerDomainHoles conn byKey =
     (let connNS = NormalizeNamespace (md_Namespace (env_Metadata conn));
          home = NormalizeDomain (md_Domain (env_Metadata conn))
      in sort (fold (\<lambda>(k, e) holes.
           (let ref = RefFromSpec (env_Spec e) ''connectionRef''; d = NormalizeDomain (md_Domain (env_Metadata e)) in
            if env_Kind e = ''Connection'' then holes
            else if ref_Name ref \<noteq> md_Name (env_Metadata conn) then holes
            else if NamespaceOr ref (md_Namespace (env_Metadata e)) \<noteq> connNS then holes
            else if d = home then holes else add_new d holes)) byKey []))"

definition newDomainRuntime ::
  "anymap \<Rightarrow> Envelope \<Rightarrow> Envelope \<Rightarrow> resources \<Rightarrow> bool \<Rightarrow> bool \<Rightarrow> Edge list \<Rightarrow> string \<Rightarrow> string \<Rightarrow> domainRuntime" where
  "newDomainRuntime runtimeConfig provEnv env byKey graphScoped labelScoped edges runtimeType providerType =
     (let (token, pinned) = networkToken runtimeConfig;
          d = \<lparr>dr_providerType = providerType, dr_containerResources = parseRuntimeResources runtimeConfig,
            dr_token = token, dr_pinned = pinned, dr_domain = NormalizeDomain (md_Domain (env_Metadata provEnv)),
            dr_holes = [], dr_graphScoped = False, dr_labelScopedAccessEnabled = False, dr_labelScopedGate = labelScoped,
            dr_namespaced = (runtimeType = ''kubernetes''), dr_self = Key [] [] [], dr_peers = [], dr_ingressPeers = [],
            dr_resources = []\<rparr>
      in if graphScoped then d\<lparr>dr_graphScoped := True, dr_labelScopedAccessEnabled := labelScoped,
           dr_self := env_Key provEnv, dr_resources := byKey,
           dr_peers := MembershipEdges edges (env_Key provEnv) byKey labelScoped,
           dr_ingressPeers := IngressPeers edges (env_Key provEnv) byKey labelScoped\<rparr>
         else if env_Kind env = ''Connection'' then d\<lparr>dr_holes := consumerDomainHoles env byKey\<rparr>
         else d)"

definition translate :: "domainRuntime \<Rightarrow> string \<Rightarrow> string" where
  "translate d name =
     (if dr_pinned d \<or> name \<noteq> dr_token d then name
      else if dr_graphScoped d \<and> \<not> dr_namespaced d then PrivateNetworkName name (dr_domain d) (dr_self d)
      else NetworkName name (dr_domain d))"

definition isHomeToken :: "domainRuntime \<Rightarrow> string \<Rightarrow> bool" where
  "isHomeToken d name \<longleftrightarrow> \<not> dr_pinned d \<and> name = dr_token d"

definition holeNetworks :: "domainRuntime \<Rightarrow> string list" where
  "holeNetworks d = map (NetworkName (dr_token d)) (dr_holes d)"

definition translateAll :: "domainRuntime \<Rightarrow> string list \<Rightarrow> string list" where
  "translateAll d names = map (translate d) names"

fun ensure_networks :: "('w, 'c, 'z, 'v) runtime_port \<Rightarrow> NetworkSpec list \<Rightarrow> 'w \<Rightarrow> string option \<times> 'w" where
  "ensure_networks rt [] w = (None, w)"
| "ensure_networks rt (n # ns) w = (case rp_EnsureNetwork rt n w of
     (Some err, w') \<Rightarrow> (Some err, w') | (None, w') \<Rightarrow> ensure_networks rt ns w')"

definition plain_network :: "string \<Rightarrow> string \<Rightarrow> labels \<Rightarrow> NetworkSpec" where
  "plain_network name subnet ls = \<lparr>ns_Name = name, ns_Labels = ls, ns_IsolationPolicy = [], ns_AllowFromNetworks = [], ns_Subnet = subnet\<rparr>"

definition network_spec :: "domainRuntime \<Rightarrow> NetworkSpec \<Rightarrow> NetworkSpec" where
  "network_spec d spec =
     (let home = isHomeToken d (ns_Name spec);
          s1 = spec\<lparr>ns_Name := translate d (ns_Name spec)\<rparr>;
          s2 = (if dr_graphScoped d \<and> dr_namespaced d \<and> home \<and> ns_IsolationPolicy spec \<noteq> IsolationNone
                then s1\<lparr>ns_IsolationPolicy := IsolationGraphScoped\<rparr> else s1)
      in if home \<and> dr_holes d \<noteq> [] then s2\<lparr>ns_AllowFromNetworks := ns_AllowFromNetworks spec @ holeNetworks d\<rparr> else s2)"

definition dr_EnsureNetwork ::
  "domainRuntime \<Rightarrow> ('w, 'c, 'z, 'v) runtime_port \<Rightarrow> NetworkSpec \<Rightarrow> 'w \<Rightarrow> string option \<times> 'w" where
  "dr_EnsureNetwork d rt spec w = (case rp_EnsureNetwork rt (network_spec d spec) w of
     (Some err, w') \<Rightarrow> (Some err, w')
   | (None, w') \<Rightarrow> (if isHomeToken d (ns_Name spec)
       then ensure_networks rt (map (\<lambda>n. plain_network n [] (ns_Labels spec)) (holeNetworks d)) w' else (None, w')))"

definition dr_RemoveNetwork :: "domainRuntime \<Rightarrow> ('w, 'c, 'z, 'v) runtime_port \<Rightarrow> string \<Rightarrow> 'w \<Rightarrow> string option \<times> 'w" where
  "dr_RemoveNetwork d rt name w = rp_RemoveNetwork rt (translate d name) w"

definition dr_EnsureVolume :: "domainRuntime \<Rightarrow> ('w, 'c, 'z, 'v) runtime_port \<Rightarrow> 'v VolumeSpec_scheme \<Rightarrow> 'w \<Rightarrow> string option \<times> 'w" where
  "dr_EnsureVolume d rt spec w = rp_EnsureVolume rt (spec\<lparr>vs_Networks := translateAll d (vs_Networks spec)\<rparr>) w"

definition dr_ProbeReachable :: "domainRuntime \<Rightarrow> ('w, 'c, 'z, 'v) runtime_port \<Rightarrow> string \<Rightarrow> string \<Rightarrow> 'w \<Rightarrow> string option \<times> 'w" where
  "dr_ProbeReachable d rt network target w = rp_ProbeReachable rt (translate d network) target w"

datatype access_error = SubnetError subnet_error | EnsureError string

fun edge_networks ::
  "domainRuntime \<Rightarrow> ('w, 'c, 'z, 'v) runtime_port \<Rightarrow> labels \<Rightarrow> Key list \<Rightarrow> string claims \<Rightarrow> 'w
    \<Rightarrow> (access_error + string list) \<times> string claims \<times> 'w" where
  "edge_networks d rt ls [] claims w = (Inr [], claims, w)"
| "edge_networks d rt ls (peer # peers) claims w =
     (let name = EdgeNetworkName (dr_self d) peer in
      case subnet_For DefaultSupernet (EdgeKey (key_String (dr_self d)) (key_String peer)) claims of
        (Inl err, claims') \<Rightarrow> (Inl (SubnetError err), claims', w)
      | (Inr cidr, claims') \<Rightarrow>
          (case rp_EnsureNetwork rt (plain_network name cidr ls) w of
             (Some err, w') \<Rightarrow> (Inl (EnsureError err), claims', w')
           | (None, w') \<Rightarrow>
               (case edge_networks d rt ls peers claims' w' of
                  (Inl err, r) \<Rightarrow> (Inl err, r) | (Inr names, r) \<Rightarrow> (Inr (name # names), r))))"

definition k8sPeers :: "domainRuntime \<Rightarrow> NetworkPeer list" where
  "k8sPeers d = List.map_filter (\<lambda>peer. map_option (\<lambda>env.
     \<lparr>np_Network = NetworkName (dr_token d) (ContainerDomain peer (dr_resources d)), np_Name = RuntimeObjectName env\<rparr>)
     (map_of (dr_resources d) peer)) (dr_ingressPeers d)"

definition container_resources :: "domainRuntime \<Rightarrow> Resources option \<Rightarrow> Resources option" where
  "container_resources d own = (case own of Some r \<Rightarrow> Some r | None \<Rightarrow>
     (case dr_containerResources d of Some r \<Rightarrow> Some r | None \<Rightarrow> defaultResourcesForProvider (dr_providerType d)))"

definition dr_EnsureContainer ::
  "domainRuntime \<Rightarrow> ('w, 'c, 'z, 'v) runtime_port \<Rightarrow> 'z NetContainerSpec_scheme \<Rightarrow> string claims \<Rightarrow> 'w
    \<Rightarrow> (access_error + 'c) \<times> string claims \<times> 'w" where
  "dr_EnsureContainer d rt spec0 claims w =
     (let spec = spec0\<lparr>cs_Resources := container_resources d (cs_Resources spec0)\<rparr>;
          nets = fold add_new (holeNetworks d) (translateAll d (cs_Networks spec));
          finish = (\<lambda>nets spec claims w. case rp_EnsureContainer rt (spec\<lparr>cs_Networks := nets\<rparr>) w of
            (Inl err, w') \<Rightarrow> (Inl (EnsureError err), claims, w') | (Inr c, w') \<Rightarrow> (Inr c, claims, w'))
      in if dr_graphScoped d \<and> \<not> dr_namespaced d then
           (case edge_networks d rt (cs_Labels spec) (dr_peers d) claims w of
              (Inl err, claims', w') \<Rightarrow> (Inl err, claims', w')
            | (Inr names, claims', w') \<Rightarrow> finish (fold add_new names nets) spec claims' w')
         else if dr_graphScoped d \<and> dr_namespaced d then
           finish nets (spec\<lparr>cs_AllowFromPeers := cs_AllowFromPeers spec @ k8sPeers d\<rparr>) claims w
         else finish nets spec claims w)"

text \<open>\<open>net.SplitHostPort\<close> gives the host and the port behind the last colon.\<close>

definition QualifyTargetAddress :: "domainRuntime \<Rightarrow> Envelope \<Rightarrow> Envelope \<Rightarrow> string \<Rightarrow> string" where
  "QualifyTargetAddress d target caller hostport =
     (let td = NormalizeDomain (md_Domain (env_Metadata target)); cd = NormalizeDomain (md_Domain (env_Metadata caller)) in
      if \<not> dr_namespaced d then hostport
      else if dr_pinned d then hostport
      else if td = cd then hostport
      else case SplitHost hostport of None \<Rightarrow> hostport | Some host \<Rightarrow>
        host @ ''.'' @ NetworkName (dr_token d) td @ ''.svc.cluster.local:'' @ rev (fst (Cut (CHR '':'') (rev hostport))))"

definition LabelScopedAccessEnabled :: "domainRuntime \<Rightarrow> bool" where
  "LabelScopedAccessEnabled d = dr_labelScopedGate d"

section \<open>The access graph of a request\<close>

definition deriveGraphAccessEdges :: "resources \<Rightarrow> (Envelope \<Rightarrow> bool) option \<Rightarrow> graph_error + Edge list" where
  "deriveGraphAccessEdges byKey capable = (case Build (map snd byKey) of Inl err \<Rightarrow> Inl err | Inr g \<Rightarrow>
     Inr (DeriveEdges g @ (case capable of None \<Rightarrow> [] | Some c \<Rightarrow> MediatedConsumerEdges g byKey c)))"

text \<open>Whether an implementation is a \<open>MediationCapableProvider\<close> is the predicate \<open>mediates\<close>.\<close>

definition mediationCapable :: "('p, 'r) Registry \<Rightarrow> ('p \<Rightarrow> bool) \<Rightarrow> Envelope \<Rightarrow> bool" where
  "mediationCapable reg mediates provEnv = (case Provider_FromEnvelope provEnv of (p, err) \<Rightarrow>
     (if err \<noteq> None then False
      else case registry_Provider reg (pv_Type p) of Inl _ \<Rightarrow> False | Inr prov \<Rightarrow> mediates prov))"

section \<open>Undeclared domains change nothing\<close>

lemma newDomainRuntime_off:
  "dr_graphScoped (newDomainRuntime cfg provEnv env byKey False lbl edges rtt pt) = False"
  "dr_holes (newDomainRuntime cfg provEnv env byKey False lbl edges rtt pt) =
    (if env_Kind env = ''Connection'' then consumerDomainHoles env byKey else [])"
  "dr_domain (newDomainRuntime cfg provEnv env byKey False lbl edges rtt pt) = NormalizeDomain (md_Domain (env_Metadata provEnv))"
  by (simp_all add: newDomainRuntime_def Let_def split: prod.splits)

lemma translate_default:
  assumes "d = newDomainRuntime cfg provEnv env byKey False lbl edges rtt pt"
    "NormalizeDomain (md_Domain (env_Metadata provEnv)) = DefaultDomain"
  shows "translate d name = name"
proof -
  have "dr_domain d = DefaultDomain" "\<not> dr_graphScoped d" using assms by (simp_all add: newDomainRuntime_off)
  moreover have "NormalizeDomain DefaultDomain = DefaultDomain" by (simp add: NormalizeDomain_def DefaultDomain_def)
  ultimately show ?thesis by (simp add: translate_def NetworkName_def)
qed

text \<open>
  Without graph-scoped access and domains the decorator is transparent. For a Provider in the
  default domain, and unless the resource is a Connection with consumers in other domains, every
  network, volume and probe call reaches the wrapped runtime unchanged, and a container is
  started with the networks and peers its provider asked for; only resource bounds are filled in.
\<close>

theorem decorator_transparent:
  assumes "d = newDomainRuntime cfg provEnv env byKey False lbl edges rtt pt"
    and "NormalizeDomain (md_Domain (env_Metadata provEnv)) = DefaultDomain"
    and "env_Kind env = ''Connection'' \<longrightarrow> consumerDomainHoles env byKey = []"
  shows "dr_EnsureNetwork d rt n w = rp_EnsureNetwork rt n w \<and> dr_RemoveNetwork d rt name w = rp_RemoveNetwork rt name w \<and>
    dr_EnsureVolume d rt v w = rp_EnsureVolume rt v w \<and> dr_ProbeReachable d rt name target w = rp_ProbeReachable rt name target w \<and>
    (case dr_EnsureContainer d rt spec claims w of (res, claims', w') \<Rightarrow> claims' = claims \<and>
       (case rp_EnsureContainer rt (spec\<lparr>cs_Resources := container_resources d (cs_Resources spec)\<rparr>) w of
          (Inl err, w'') \<Rightarrow> res = Inl (EnsureError err) \<and> w' = w'' | (Inr c, w'') \<Rightarrow> res = Inr c \<and> w' = w''))"
proof -
  note t = translate_default [OF assms(1,2)]
  have g: "\<not> dr_graphScoped d" "holeNetworks d = []" "dr_holes d = []"
    using assms(3) unfolding assms(1) newDomainRuntime_off holeNetworks_def by auto
  have n: "network_spec d n = n" using g by (simp add: network_spec_def t Let_def)
  have nets: "translateAll d xs = xs" for xs by (simp add: translateAll_def t map_idI)
  have vol: "v\<lparr>vs_Networks := vs_Networks v\<rparr> = v" by simp
  have con: "spec\<lparr>cs_Resources := r, cs_Networks := cs_Networks spec\<rparr> = spec\<lparr>cs_Resources := r\<rparr>" for r
    by (rule NetContainerSpec.equality) simp_all
  show ?thesis
  proof (intro conjI)
    show "dr_EnsureNetwork d rt n w = rp_EnsureNetwork rt n w"
      by (simp add: dr_EnsureNetwork_def n g split: prod.splits option.splits)
    show "dr_EnsureVolume d rt v w = rp_EnsureVolume rt v w" by (simp add: dr_EnsureVolume_def nets vol)
    show "case dr_EnsureContainer d rt spec claims w of (res, claims', w') \<Rightarrow> claims' = claims \<and>
       (case rp_EnsureContainer rt (spec\<lparr>cs_Resources := container_resources d (cs_Resources spec)\<rparr>) w of
          (Inl err, w'') \<Rightarrow> res = Inl (EnsureError err) \<and> w' = w'' | (Inr c, w'') \<Rightarrow> res = Inr c \<and> w' = w'')"
      by (simp add: dr_EnsureContainer_def Let_def g nets con split: prod.splits sum.splits)
  qed (simp_all add: dr_RemoveNetwork_def dr_ProbeReachable_def t)
qed

section \<open>Networks under graph-scoped access\<close>

text \<open>The networks a container is attached to on a runtime without namespaces.\<close>

definition joined :: "domainRuntime \<Rightarrow> string list \<Rightarrow> string list" where
  "joined d nets = fold add_new (map (EdgeNetworkName (dr_self d)) (dr_peers d))
     (fold add_new (holeNetworks d) (translateAll d nets))"

lemma edge_networks_names:
  "edge_networks d rt ls peers claims w = (Inr names, r) \<Longrightarrow> names = map (EdgeNetworkName (dr_self d)) peers"
  by (induction peers arbitrary: claims w names r) (auto simp: Let_def split: prod.splits sum.splits option.splits)

lemma container_attached:
  assumes "dr_graphScoped d" "\<not> dr_namespaced d" "dr_EnsureContainer d rt spec claims w = (Inr c, claims', w')"
  shows "\<exists>w0. rp_EnsureContainer rt (spec\<lparr>cs_Resources := container_resources d (cs_Resources spec),
    cs_Networks := joined d (cs_Networks spec)\<rparr>) w0 = (Inr c, w')"
  using assms edge_networks_names [of d rt "cs_Labels spec" "dr_peers d" claims w]
  by (auto simp: dr_EnsureContainer_def joined_def Let_def split: prod.splits sum.splits)

lemma set_fold_add_new: "set (fold add_new xs ys) = set ys \<union> set xs"
  using set_fold_collect [of xs add_new "\<lambda>x. {x}" ys] by simp

lemma newDomainRuntime_on:
  assumes "d = newDomainRuntime cfg provEnv env byKey True lbl edges rtt pt" "rtt \<noteq> ''kubernetes''"
  shows "dr_graphScoped d" "\<not> dr_namespaced d" "dr_self d = env_Key provEnv"
    "dr_peers d = MembershipEdges edges (env_Key provEnv) byKey lbl" "holeNetworks d = []"
    "dr_token d = fst (networkToken cfg)" "dr_pinned d = snd (networkToken cfg)"
  using assms by (simp_all add: newDomainRuntime_def Let_def holeNetworks_def split: prod.splits)

lemma set_joined_home:
  assumes "d = newDomainRuntime cfg provEnv env byKey True lbl edges rtt pt" "rtt \<noteq> ''kubernetes''" "\<not> dr_pinned d"
  shows "set (joined d [dr_token d]) = insert (PrivateNetworkName (dr_token d) (dr_domain d) (env_Key provEnv))
    (EdgeNetworkName (env_Key provEnv) ` set (MembershipEdges edges (env_Key provEnv) byKey lbl))"
  using newDomainRuntime_on [OF assms(1,2)] assms(3)
  by (simp add: joined_def set_fold_add_new translateAll_def translate_def)

text \<open>Distinct networks have distinct names: no two of the hashed names in play collide.\<close>

definition names_apart :: "domainRuntime \<Rightarrow> domainRuntime \<Rightarrow> bool" where
  "names_apart a b \<longleftrightarrow>
     PrivateNetworkName (dr_token a) (dr_domain a) (dr_self a) \<noteq> PrivateNetworkName (dr_token b) (dr_domain b) (dr_self b) \<and>
     (\<forall>q\<in>set (dr_peers b). PrivateNetworkName (dr_token a) (dr_domain a) (dr_self a) \<noteq> EdgeNetworkName (dr_self b) q) \<and>
     (\<forall>p\<in>set (dr_peers a). PrivateNetworkName (dr_token b) (dr_domain b) (dr_self b) \<noteq> EdgeNetworkName (dr_self a) p) \<and>
     (\<forall>p\<in>set (dr_peers a). \<forall>q\<in>set (dr_peers b). EdgeNetworkName (dr_self a) p = EdgeNetworkName (dr_self b) q \<longrightarrow>
        p = dr_self b \<and> q = dr_self a)"

lemma EdgeNetworkName_sym: "EdgeNetworkName a b = EdgeNetworkName b a"
  by (simp add: EdgeNetworkName_def edgeKey_sym)

lemma Membership_iff:
  assumes "distinct (map fst resources)" "is_container resources a" "is_container resources b"
  shows "b \<in> set (MembershipEdges edges a resources gate) \<longleftrightarrow> a \<noteq> b \<and>
    (references edges resources a b \<or> grants_access resources gate a b \<or>
     references edges resources b a \<or> grants_access resources gate b a)"
proof -
  have m: "set (MembershipEdges edges x resources gate) =
      set (EgressPeers edges x resources gate) \<union> set (IngressPeers edges x resources gate)" for x
    by (simp add: MembershipEdges_def set_fold_add_new)
  have "realised resources b" using assms(3) by (auto simp: is_container_def realised_def)
  then show ?thesis unfolding m Un_iff egress_exact [OF assms(2,1)] ingress_exact [OF assms(2)] by blast
qed

lemma joined_meet:
  assumes "distinct (map fst resources)" "is_container resources (env_Key pa)" "is_container resources (env_Key pb)"
    and "env_Key pa \<noteq> env_Key pb"
    and "da = newDomainRuntime cfga pa enva resources True lbl edges rta pta" "rta \<noteq> ''kubernetes''" "\<not> dr_pinned da"
    and "db = newDomainRuntime cfgb pb envb resources True lbl edges rtb ptb" "rtb \<noteq> ''kubernetes''" "\<not> dr_pinned db"
    and "names_apart da db"
  shows "set (joined da [dr_token da]) \<inter> set (joined db [dr_token db]) \<noteq> {} \<longleftrightarrow>
    references edges resources (env_Key pa) (env_Key pb) \<or> grants_access resources lbl (env_Key pa) (env_Key pb) \<or>
    references edges resources (env_Key pb) (env_Key pa) \<or> grants_access resources lbl (env_Key pb) (env_Key pa)"
proof -
  note a = newDomainRuntime_on [OF assms(5,6)] and b = newDomainRuntime_on [OF assms(8,9)]
  let ?a = "env_Key pa" and ?b = "env_Key pb"
  note ja = set_joined_home [OF assms(5-7)] and jb = set_joined_home [OF assms(8-10)]
  note apart = assms(11) [unfolded names_apart_def a(3,4) b(3,4)]
  have "set (joined da [dr_token da]) \<inter> set (joined db [dr_token db]) \<noteq> {} \<longleftrightarrow>
      ?b \<in> set (MembershipEdges edges ?a resources lbl) \<and> ?a \<in> set (MembershipEdges edges ?b resources lbl)"
  proof
    assume "set (joined da [dr_token da]) \<inter> set (joined db [dr_token db]) \<noteq> {}"
    then show "?b \<in> set (MembershipEdges edges ?a resources lbl) \<and> ?a \<in> set (MembershipEdges edges ?b resources lbl)"
      unfolding ja jb using apart by auto
  next
    assume "?b \<in> set (MembershipEdges edges ?a resources lbl) \<and> ?a \<in> set (MembershipEdges edges ?b resources lbl)"
    then show "set (joined da [dr_token da]) \<inter> set (joined db [dr_token db]) \<noteq> {}"
      unfolding ja jb using EdgeNetworkName_sym [of ?a ?b] by auto
  qed
  also have "\<dots> \<longleftrightarrow> references edges resources ?a ?b \<or> grants_access resources lbl ?a ?b \<or>
       references edges resources ?b ?a \<or> grants_access resources lbl ?b ?a"
    using Membership_iff [OF assms(1-3), of edges lbl] Membership_iff [OF assms(1,3,2), of edges lbl] assms(4) by argo
  finally show ?thesis .
qed


section \<open>Telling hashed names apart\<close>

text \<open>The last hexadecimal digit of a hash depends on the low four bits alone.\<close>

definition fnv_low :: "string \<Rightarrow> nat \<Rightarrow> nat" where
  "fnv_low s h = fold (\<lambda>c h. (h XOR of_char c) * 3 mod 16) s h"

lemma fnv_low: "unat (fold (\<lambda>c (h :: 64 word). (h XOR of_nat (of_char c)) * 1099511628211) s h) mod 16 = fnv_low s (unat h mod 16)"
proof (induction s arbitrary: h)
  case (Cons c s)
  have "(of_char c :: nat) < 2 ^ 64" by (rule less_le_trans [of _ 256]) simp_all
  then have c: "unat (of_nat (of_char c) :: 64 word) = of_char c" by (simp add: unat_of_nat)
  have low: "(x XOR y) mod 16 = (x mod 16 XOR y) mod 16" for x y :: nat
  proof -
    have "take_bit 4 (x XOR y) = take_bit 4 (take_bit 4 x XOR y)" by (simp add: take_bit_xor)
    then show ?thesis by (simp add: take_bit_eq_mod)
  qed
  have "unat ((h XOR of_nat (of_char c)) * 1099511628211) mod 16 = (unat h XOR of_char c) * 1099511628211 mod 18446744073709551616 mod 16"
    by (simp add: unat_word_ariths unsigned_xor_eq c)
  also have "\<dots> = (unat h XOR of_char c) * 1099511628211 mod 16" by (rule mod_mod_cancel) simp
  also have "\<dots> = ((unat h XOR of_char c) mod 16) * (1099511628211 mod 16) mod 16" by (rule mod_mult_eq [symmetric])
  also have "\<dots> = ((unat h mod 16 XOR of_char c) mod 16) * 3 mod 16" by (subst low) simp
  also have "\<dots> = (unat h mod 16 XOR of_char c) * 3 mod 16" by (rule mod_mult_left_eq)
  finally show ?case using Cons.IH by (simp add: fnv_low_def)
qed (simp add: fnv_low_def)

lemma hex_digit_inj: "hex_digit m = hex_digit n \<Longrightarrow> m mod 16 = n mod 16"
proof -
  assume "hex_digit m = hex_digit n"
  moreover have "distinct ''0123456789abcdef''" by simp
  moreover have "k mod 16 < length ''0123456789abcdef''" for k :: nat by simp
  ultimately show ?thesis unfolding hex_digit_def by (metis nth_eq_iff_index_eq)
qed

lemma edge_names_apart:
  assumes "fnv_low (edgeKey (key_String a) (key_String b)) 5 \<noteq> fnv_low (edgeKey (key_String c) (key_String d)) 5"
  shows "EdgeNetworkName a b \<noteq> EdgeNetworkName c d"
proof
  assume eq: "EdgeNetworkName a b = EdgeNetworkName c d"
  have "Suc 15 = 16" by simp
  then have "hex 16 n = hex 15 (n div 16) @ [hex_digit n]" for n using hex.simps(2) [of 15 n] by (simp only:)
  with eq have "hex_digit (unat (fnv64a (edgeKey (key_String a) (key_String b)))) =
      hex_digit (unat (fnv64a (edgeKey (key_String c) (key_String d))))"
    by (simp add: EdgeNetworkName_def)
  moreover have "unat (fnv64a s) mod 16 = fnv_low s 5" for s
    using fnv_low [of s 14695981039346656037] by (simp add: fnv64a_def)
  ultimately show False using assms hex_digit_inj by metis
qed

section \<open>Examples\<close>

definition ok_port :: "(unit, unit, unit, unit) runtime_port" where
  "ok_port = \<lparr>rp_EnsureNetwork = (\<lambda>_ w. (None, w)), rp_RemoveNetwork = (\<lambda>_ w. (None, w)), rp_EnsureVolume = (\<lambda>_ w. (None, w)),
     rp_EnsureContainer = (\<lambda>_ w. (Inr (), w)), rp_ProbeReachable = (\<lambda>_ _ w. (None, w))\<rparr>"

definition home_spec :: NetContainerSpec where
  "home_spec = \<lparr>cs_Name = ''home'', cs_Replicas = 1, cs_Networks = [''datascape''], cs_Labels = [], cs_Resources = None, cs_AllowFromPeers = []\<rparr>"

definition in_domain :: "string \<Rightarrow> Envelope \<Rightarrow> Envelope" where
  "in_domain d e = e\<lparr>env_Metadata := (env_Metadata e)\<lparr>md_Domain := d\<rparr>\<rparr>"

definition zoned_set :: resources where
  "zoned_set = map (\<lambda>e. (env_Key e, e)) [in_domain ''edge'' reader_env, in_domain ''core'' broker_env, stream_env, sink_env]"

definition access_edges :: "Edge list" where
  "access_edges = [Edge (env_Key sink_env) (env_Key stream_env)]"

definition reader_dr :: domainRuntime where
  "reader_dr = newDomainRuntime [] (in_domain ''edge'' reader_env) sink_env zoned_set True False access_edges ''docker'' ''debezium''"

definition broker_dr :: domainRuntime where
  "broker_dr = newDomainRuntime [] (in_domain ''core'' broker_env) stream_env zoned_set True False access_edges ''docker'' ''redpanda''"

lemma zoned_set_facts:
  "distinct (map fst zoned_set)" "is_container zoned_set (env_Key (in_domain ''edge'' reader_env))"
  "is_container zoned_set (env_Key (in_domain ''core'' broker_env))"
  "ContainerOf (env_Key sink_env) zoned_set = env_Key (in_domain ''edge'' reader_env)"
  "ContainerOf (env_Key stream_env) zoned_set = env_Key (in_domain ''core'' broker_env)"
  "env_Key (in_domain ''edge'' reader_env) \<noteq> env_Key (in_domain ''core'' broker_env)"
  unfolding is_container_def by code_simp+

lemma zoned_runtimes:
  "dr_token reader_dr = ''datascape'' \<and> dr_domain reader_dr = ''edge'' \<and> dr_self reader_dr = Key ''default'' ''Provider'' ''reader'' \<and>
   dr_peers reader_dr = [Key ''default'' ''Provider'' ''broker''] \<and> \<not> dr_pinned reader_dr"
  "dr_token broker_dr = ''datascape'' \<and> dr_domain broker_dr = ''core'' \<and> dr_self broker_dr = Key ''default'' ''Provider'' ''broker'' \<and>
   dr_peers broker_dr = [Key ''default'' ''Provider'' ''reader''] \<and> \<not> dr_pinned broker_dr"
  by code_simp+

lemma sample_names_apart: "names_apart reader_dr broker_dr"
proof -
  have dom: "NetworkName ''datascape'' ''edge'' = ''datascape-edge''" "NetworkName ''datascape'' ''core'' = ''datascape-core''"
    by code_simp+
  have "names_apart r b" if "dr_token r = ''datascape''" "dr_domain r = ''edge''" "dr_peers r = [dr_self b]"
    "dr_token b = ''datascape''" "dr_domain b = ''core''" "dr_peers b = [dr_self r]" for r b
    using that by (simp add: names_apart_def PrivateNetworkName_def EdgeNetworkName_def dom truncateName_def)
  then show ?thesis by (simp add: zoned_runtimes)
qed

lemma ok_port_edges: "\<exists>names cl. edge_networks d ok_port ls peers claims () = (Inr names, cl, ())"
proof (induction peers arbitrary: claims)
  case (Cons p ps)
  show ?case
    using Cons.IH [of "record_claim (default_subnet (EdgeKey (key_String (dr_self d)) (key_String p)))
      (EdgeKey (key_String (dr_self d)) (key_String p)) claims"]
    by (auto simp: ok_port_def subnet_For_default)
qed simp

lemma ok_port_starts: "\<exists>cl. dr_EnsureContainer d ok_port spec claims () = (Inr (), cl, ())"
proof -
  obtain names cl where "edge_networks d ok_port (cs_Labels spec) (dr_peers d) claims () = (Inr names, cl, ())"
    using ok_port_edges by blast
  then show ?thesis by (simp add: dr_EnsureContainer_def Let_def) (simp add: ok_port_def)
qed


theorem decorator_transparent_witness:
  "dr_EnsureNetwork (newDomainRuntime [] broker_env stream_env access_set False False [] ''docker'' ''redpanda'') ok_port
     (plain_network ''datascape'' [] []) () = (None, ())"
proof -
  have d: "NormalizeDomain (md_Domain (env_Metadata broker_env)) = DefaultDomain" by code_simp
  have k: "env_Kind stream_env = ''Connection'' \<longrightarrow> consumerDomainHoles stream_env access_set = []" by code_simp
  show ?thesis
    using decorator_transparent [OF refl d k, where cfg = "[]" and lbl = False and edges = "[]" and rtt = "''docker''" and pt = "''redpanda''" and rt = ok_port and n = "plain_network ''datascape'' [] []" and w = "()"]
    by (simp add: ok_port_def)
qed

section \<open>Plain Connections under graph-scoped access\<close>

text \<open>A worker captures an external database through a forwarder that a proxy Provider realises.\<close>

definition ref_field :: "string \<Rightarrow> string \<Rightarrow> string \<times> any" where
  "ref_field field name = (field, AMap [(''name'', AStr name)])"

definition worker_env :: Envelope where "worker_env = in_domain ''edge'' (access_env ''Provider'' ''w'' [])"
definition proxy_env :: Envelope where "proxy_env = access_env ''Provider'' ''p'' []"
definition forward_env :: Envelope where
  "forward_env = access_env ''Connection'' ''c'' [ref_field ''providerRef'' ''p'']"
definition remote_env :: Envelope where
  "remote_env = access_env ''Source'' ''s'' [(''external'', ABool True), ref_field ''connectionRef'' ''c'']"
definition feed_env :: Envelope where
  "feed_env = access_env ''EventStream'' ''e'' [ref_field ''providerRef'' ''broker'']"
definition capture_env :: Envelope where
  "capture_env = access_env ''Binding'' ''b'' [ref_field ''sourceRef'' ''s'', ref_field ''targetRef'' ''e'', ref_field ''providerRef'' ''w'']"

definition plant :: resources where
  "plant = map (\<lambda>e. (env_Key e, e)) [worker_env, proxy_env, broker_env, forward_env, remote_env, feed_env, capture_env]"

definition plant_edges :: "Edge list" where
  "plant_edges = (case deriveGraphAccessEdges plant (Some (\<lambda>_. False)) of Inl _ \<Rightarrow> [] | Inr es \<Rightarrow> es)"

definition worker_dr :: domainRuntime where
  "worker_dr = newDomainRuntime [] worker_env capture_env plant True True plant_edges ''docker'' ''debezium''"

definition forwarder_dr :: domainRuntime where
  "forwarder_dr = newDomainRuntime [] proxy_env forward_env plant True True plant_edges ''docker'' ''proxy''"

lemma plant_peers:
  "MembershipEdges plant_edges (Key ''default'' ''Provider'' ''w'') plant True = [Key ''default'' ''Provider'' ''broker'', Key ''default'' ''Source'' ''s'']"
  "MembershipEdges plant_edges (Key ''default'' ''Provider'' ''p'') plant True = [Key ''default'' ''Connection'' ''c'']"
  by code_simp+

lemma plant_runtimes:
  "dr_token worker_dr = ''datascape''" "dr_domain worker_dr = ''edge''" "dr_pinned worker_dr = False"
  "dr_token forwarder_dr = ''datascape''" "dr_domain forwarder_dr = ''default''" "dr_pinned forwarder_dr = False"
proof -
  have tok: "networkToken [] = (''datascape'', False)" by code_simp
  have dom: "NormalizeDomain (md_Domain (env_Metadata worker_env)) = ''edge''"
    "NormalizeDomain (md_Domain (env_Metadata proxy_env)) = ''default''" by code_simp+
  show "dr_token worker_dr = ''datascape''" "dr_domain worker_dr = ''edge''" "dr_pinned worker_dr = False"
    "dr_token forwarder_dr = ''datascape''" "dr_domain forwarder_dr = ''default''" "dr_pinned forwarder_dr = False"
    unfolding worker_dr_def forwarder_dr_def newDomainRuntime_def Let_def tok by (simp_all add: dom)
qed

lemma plant_edge_names:
  "EdgeNetworkName (Key ''default'' ''Provider'' ''w'') (Key ''default'' ''Provider'' ''broker'') \<noteq>
   EdgeNetworkName (Key ''default'' ''Provider'' ''p'') (Key ''default'' ''Connection'' ''c'')"
  "EdgeNetworkName (Key ''default'' ''Provider'' ''w'') (Key ''default'' ''Source'' ''s'') \<noteq>
   EdgeNetworkName (Key ''default'' ''Provider'' ''p'') (Key ''default'' ''Connection'' ''c'')"
proof -
  have "fnv_low ''default/Provider/broker|default/Provider/w'' 5 = 11" "fnv_low ''default/Provider/w|default/Source/s'' 5 = 9"
    "fnv_low ''default/Connection/c|default/Provider/p'' 5 = 7"
    by (simp_all add: fnv_low_def)
  moreover have "edgeKey (key_String (Key ''default'' ''Provider'' ''w'')) (key_String (Key ''default'' ''Provider'' ''broker'')) =
      ''default/Provider/broker|default/Provider/w''"
    "edgeKey (key_String (Key ''default'' ''Provider'' ''w'')) (key_String (Key ''default'' ''Source'' ''s'')) =
      ''default/Provider/w|default/Source/s''"
    "edgeKey (key_String (Key ''default'' ''Provider'' ''p'')) (key_String (Key ''default'' ''Connection'' ''c'')) =
      ''default/Connection/c|default/Provider/p''" by code_simp+
  ultimately show
    "EdgeNetworkName (Key ''default'' ''Provider'' ''w'') (Key ''default'' ''Provider'' ''broker'') \<noteq>
     EdgeNetworkName (Key ''default'' ''Provider'' ''p'') (Key ''default'' ''Connection'' ''c'')"
    "EdgeNetworkName (Key ''default'' ''Provider'' ''w'') (Key ''default'' ''Source'' ''s'') \<noteq>
     EdgeNetworkName (Key ''default'' ''Provider'' ''p'') (Key ''default'' ''Connection'' ''c'')"
    by (intro edge_names_apart; simp)+
qed

text \<open>
  Under graph-scoped access on Docker a plain Connection's forwarder is cut off from its
  consumers. The capture Binding depends on the Connection through its Source, yet the worker
  that runs the capture and the container the proxy Provider starts for the Connection are attached
  to no common network: a Connection counts as a container of its own when peers are computed, but
  its container is started under the key of its Provider.
\<close>

theorem forwarder_unreachable:
  "(\<exists>g. Build (map snd plant) = Inr g \<and> env_Key forward_env \<in> set (Dependencies g (env_Key capture_env))) \<and>
   deriveGraphAccessEdges plant (Some (\<lambda>_. False)) = Inr plant_edges \<and>
   set (joined worker_dr [dr_token worker_dr]) \<inter> set (joined forwarder_dr [dr_token forwarder_dr]) = {}"
proof (intro conjI)
  have "(case Build (map snd plant) of Inl _ \<Rightarrow> False | Inr g \<Rightarrow> env_Key forward_env \<in> set (Dependencies g (env_Key capture_env)))"
    by code_simp
  then show "\<exists>g. Build (map snd plant) = Inr g \<and> env_Key forward_env \<in> set (Dependencies g (env_Key capture_env))"
    by (auto split: sum.splits)
  then show "deriveGraphAccessEdges plant (Some (\<lambda>_. False)) = Inr plant_edges"
    by (auto simp: plant_edges_def deriveGraphAccessEdges_def)
  have dom: "NetworkName ''datascape'' ''edge'' = ''datascape-edge''" "NetworkName ''datascape'' ''default'' = ''datascape''"
    by code_simp+
  have priv: "PrivateNetworkName ''datascape'' ''edge'' k \<noteq> PrivateNetworkName ''datascape'' ''default'' k'"
    "PrivateNetworkName ''datascape'' ''edge'' k \<noteq> EdgeNetworkName a b" "PrivateNetworkName ''datascape'' ''default'' k \<noteq> EdgeNetworkName a b"
    for k k' a b
    by (simp_all add: PrivateNetworkName_def EdgeNetworkName_def dom truncateName_def)
  have keys: "env_Key worker_env = Key ''default'' ''Provider'' ''w''" "env_Key proxy_env = Key ''default'' ''Provider'' ''p''"
    by code_simp+
  have docker: "''docker'' \<noteq> ''kubernetes''" by simp
  show "set (joined worker_dr [dr_token worker_dr]) \<inter> set (joined forwarder_dr [dr_token forwarder_dr]) = {}"
    unfolding plant_runtimes
      set_joined_home [OF worker_dr_def docker plant_runtimes(3) [THEN eq_False [THEN iffD1]], unfolded plant_peers plant_runtimes keys]
      set_joined_home [OF forwarder_dr_def docker plant_runtimes(6) [THEN eq_False [THEN iffD1]], unfolded plant_peers plant_runtimes keys]
    using plant_edge_names priv by (auto dest: sym)
qed

section \<open>Resource bounds as declared\<close>

text \<open>
  A whole number of cores is not a bound. A fraction such as 0.5 becomes the CPU limit of the container,
  but for a whole number, which the decoder delivers as an integer, the block without a
  memory bound counts as no bounds at all.
\<close>

theorem whole_cores_ignored:
  "parseRuntimeResources [(''resources'', AMap [(''cpu'', AInt n)])] = None \<and>
   map_option re_CPULimit (parseRuntimeResources [(''resources'', AMap [(''cpu'', AFloat (1 / 2))])]) = Some (1 / 2)"
  by (simp add: parseRuntimeResources_def index_any_def zero_Resources_def Let_def)

end
