(* ===== verification/Backup_Ops.thy ===== *)
theory Backup_Ops
  imports Engine_Steps
begin

text \<open>
  Backup and restore, \<open>internal/application/engine/backup.go\<close>: the guards in front of a provider's
  \<open>Backup\<close> and \<open>Restore\<close>, and the resolution of a \<open>--to\<close> or \<open>--from\<close> argument to an object-store location.
  Whether an implementation is a \<open>BackupCapableProvider\<close>, and what its two methods do, is the
  function \<open>backup_of\<close>; the engine's \<open>AllowOverwrite\<close> is an argument of \<open>Restore\<close>.
\<close>

section \<open>Guards\<close>

record ('w, 'r, 'm) BackupCapable =
  bc_Backup :: "'r Request \<Rightarrow> Location \<Rightarrow> 'w \<Rightarrow> (string + 'm) \<times> 'w"
  bc_Restore :: "'r Request \<Rightarrow> Location \<Rightarrow> 'w \<Rightarrow> string option \<times> 'w"

datatype backup_error =
    NeedsOverwriteFlag Key
  | NotInManifests Key
  | BackupEngineError engine_error
  | NotBackupCapable Key string
  | RestoreProtected Key
  | ProviderFailed string
  | BadLocation string resource_error
  | NotADataset string string
  | NoCredentials string string
  | NotAppliedYet string
  | IncompleteFact string
  | NoObjectStoreFact string
  | CredentialsRefRequired string
  | NotAURL string
  | UnsupportedScheme string string
  | MissingBucket string
  | CredentialsRefUnresolved string string
  | NoSecretStoreFor string
  | CredentialKeysMissing string

type_synonym ('w, 'r, 'm) backup_of = "('w, 'r) Impl \<Rightarrow> ('w, 'r, 'm) BackupCapable option"

definition backupCapable ::
  "('w, 'r) Engine \<Rightarrow> ('w, 'r, 'm) backup_of \<Rightarrow> Envelope list \<Rightarrow> Key \<Rightarrow> 'w ctx
    \<Rightarrow> (backup_error + ('w, 'r, 'm) BackupCapable \<times> 'r Request) \<times> 'w ctx" where
  "backupCapable e backup_of envelopes key c =
     (let byKey = by_key envelopes in
      case map_of byKey key of None \<Rightarrow> (Inl (NotInManifests key), c) | Some env \<Rightarrow>
        (case resolveRequest e env byKey None c of
           (Inl err, c') \<Rightarrow> (Inl (BackupEngineError err), c')
         | (Inr (prov, req), c') \<Rightarrow> (case backup_of prov of
             None \<Rightarrow> (Inl (NotBackupCapable key (im_Type prov)), c')
           | Some bp \<Rightarrow> (Inr (bp, req), c'))))"

definition engine_Backup ::
  "('w, 'r) Engine \<Rightarrow> ('w, 'r, 'm) backup_of \<Rightarrow> Envelope list \<Rightarrow> Key \<Rightarrow> Location \<Rightarrow> 'w ctx \<Rightarrow> (backup_error + 'm) \<times> 'w ctx" where
  "engine_Backup e backup_of envelopes key dest c = (case backupCapable e backup_of envelopes key c of
     (Inl err, c') \<Rightarrow> (Inl err, c')
   | (Inr (bp, req), c') \<Rightarrow> (case bc_Backup bp req dest (cx_World c') of
       (Inl err, w) \<Rightarrow> (Inl (ProviderFailed err), set_world w c') | (Inr m, w) \<Rightarrow> (Inr m, set_world w c')))"

definition engine_Restore ::
  "('w, 'r) Engine \<Rightarrow> bool \<Rightarrow> ('w, 'r, 'm) backup_of \<Rightarrow> Envelope list \<Rightarrow> Key \<Rightarrow> Location \<Rightarrow> 'w ctx \<Rightarrow> backup_error option \<times> 'w ctx" where
  "engine_Restore e allowOverwrite backup_of envelopes key src c =
     (if \<not> allowOverwrite then (Some (NeedsOverwriteFlag key), c)
      else case backupCapable e backup_of envelopes key c of
        (Inl err, c') \<Rightarrow> (Some err, c')
      | (Inr (bp, req), c') \<Rightarrow>
          (if md_Protect (env_Metadata (rq_Resource req)) then (Some (RestoreProtected key), c')
           else case bc_Restore bp req src (cx_World c') of
             (Some err, w) \<Rightarrow> (Some (ProviderFailed err), set_world w c') | (None, w) \<Rightarrow> (None, set_world w c')))"

section \<open>Locations\<close>

definition trim_slashes :: "string \<Rightarrow> string" where
  "trim_slashes s = rev (dropWhile (\<lambda>c. c = CHR ''/'') (rev (dropWhile (\<lambda>c. c = CHR ''/'') s)))"

definition joinPrefix :: "string \<Rightarrow> string \<Rightarrow> string" where
  "joinPrefix prefix0 object0 =
     (let prefix = trim_slashes prefix0;
          object = (if starts_with ''/'' object0 then tl object0 else object0)
      in if prefix = [] then object else if object = [] then prefix else prefix @ ''/'' @ object)"

definition objectStoreEndpointFact :: "('w, 'r) Engine \<Rightarrow> Envelope \<Rightarrow> 'w \<Rightarrow> backup_error + Endpoint" where
  "objectStoreEndpointFact e providerEnv w = (case en_Load e w of
     Inl err \<Rightarrow> Inl (BackupEngineError (StoreError err))
   | Inr st \<Rightarrow> (case map_of (st_Resources st) (env_Key providerEnv) of
       None \<Rightarrow> Inl (NotAppliedYet (env_name providerEnv))
     | Some rs \<Rightarrow> (case find (\<lambda>ep. ep_Name ep = ''s3'') (FromState (index_any (ProviderState (rs_Status rs)) ''endpoints'')) of
         None \<Rightarrow> Inl (NoObjectStoreFact (env_name providerEnv))
       | Some ep \<Rightarrow> (if ep_RuntimeName ep = [] \<or> ep_ContainerPort ep = 0 \<or> ep_Internal ep = []
           then Inl (IncompleteFact (env_name providerEnv)) else Inr ep))))"

definition dataset_location ::
  "Endpoint \<Rightarrow> Dataset \<Rightarrow> string \<Rightarrow> (string \<times> string) list \<Rightarrow> Location" where
  "dataset_location ep ds object creds =
     \<lparr>lo_Endpoint = (if ep_Scheme ep = [] then ''http'' else ep_Scheme ep) @ ''://'' @ ep_Internal ep, lo_Bucket = da_Bucket ds,
      lo_Prefix = joinPrefix (da_Prefix ds) object, lo_Insecure = ep_Insecure ep, lo_Network = ep_Network ep,
      lo_RuntimeName = ep_RuntimeName ep, lo_ContainerPort = ep_ContainerPort ep,
      lo_AccessKey = get_or [] creds ''username'', lo_SecretKey = get_or [] creds ''password''\<rparr>"

definition root_secret_ref :: "Provider \<Rightarrow> string" where
  "root_secret_ref cfg =
     (let refName = str_of (index_any (pv_Configuration cfg) ''rootSecretRef'')
      in if refName = [] \<and> pv_SecretRefs cfg \<noteq> [] then hd (pv_SecretRefs cfg) else refName)"

definition resolveDatasetLocation ::
  "('w, 'r) Engine \<Rightarrow> Envelope list \<Rightarrow> string \<Rightarrow> string \<Rightarrow> string \<Rightarrow> 'w ctx \<Rightarrow> (backup_error + Location) \<times> 'w ctx" where
  "resolveDatasetLocation e envelopes ref object namespace c =
     (case ParseSelector ref namespace of Inl err \<Rightarrow> (Inl (BadLocation ref err), c) | Inr key \<Rightarrow>
       (if key_Kind key \<noteq> ''Dataset'' then (Inl (NotADataset ref (key_Kind key)), c)
        else let byKey = by_key envelopes in
          case map_of byKey key of None \<Rightarrow> (Inl (NotInManifests key), c) | Some env \<Rightarrow>
            (case resolveRequest e env byKey None c of
               (Inl err, c') \<Rightarrow> (Inl (BackupEngineError err), c')
             | (Inr (prov, req), c') \<Rightarrow>
                 (case Provider_FromEnvelope (rq_Provider req) of
                    (_, Some err) \<Rightarrow> (Inl (BackupEngineError (DecodeError err)), c')
                  | (cfg, None) \<Rightarrow> (case Dataset_FromEnvelope env of
                      (_, Some err) \<Rightarrow> (Inl (BackupEngineError (DecodeError err)), c')
                    | (ds, None) \<Rightarrow> (case objectStoreEndpointFact e (rq_Provider req) (cx_World c') of
                        Inl err \<Rightarrow> (Inl err, c')
                      | Inr ep \<Rightarrow> (case map_of (rq_Secrets req) (root_secret_ref cfg) of
                          None \<Rightarrow> (Inl (NoCredentials (env_name env) (root_secret_ref cfg)), c')
                        | Some creds \<Rightarrow> (Inr (dataset_location ep ds object creds), c'))))))))"

text \<open>\<open>strings.Cut(s, "://")\<close>.\<close>

fun cut_scheme :: "string \<Rightarrow> (string \<times> string) option" where
  "cut_scheme [] = None"
| "cut_scheme (c # cs) = (if starts_with ''://'' (c # cs) then Some ([], drop 3 (c # cs))
     else map_option (\<lambda>(a, b). (c # a, b)) (cut_scheme cs))"

definition url_parts :: "string \<Rightarrow> backup_error + string \<times> string \<times> string \<times> string" where
  "url_parts raw = (case cut_scheme raw of None \<Rightarrow> Inl (NotAURL raw) | Some (scheme, rest) \<Rightarrow>
     (if scheme \<noteq> ''http'' \<and> scheme \<noteq> ''https'' then Inl (UnsupportedScheme raw scheme)
      else let (host, path, _) = Cut (CHR ''/'') rest in
        if host = [] \<or> path = [] then Inl (MissingBucket raw)
        else let (bucket, prefix, _) = Cut (CHR ''/'') path in Inr (scheme, host, bucket, prefix)))"

definition resolveURLLocation ::
  "('w, 'r) Engine \<Rightarrow> Envelope list \<Rightarrow> string \<Rightarrow> string \<Rightarrow> string \<Rightarrow> 'w ctx \<Rightarrow> (backup_error + Location) \<times> 'w ctx" where
  "resolveURLLocation e envelopes raw credentialsSecretRef namespace c =
     (if credentialsSecretRef = [] then (Inl (CredentialsRefRequired raw), c)
      else case url_parts raw of Inl err \<Rightarrow> (Inl err, c) | Inr (scheme, host, bucket, prefix) \<Rightarrow>
        (case map_of (by_key envelopes) (Key (NormalizeNamespace namespace) ''SecretReference'' credentialsSecretRef) of
           None \<Rightarrow> (Inl (CredentialsRefUnresolved credentialsSecretRef (NormalizeNamespace namespace)), c)
         | Some refEnv \<Rightarrow> (case en_SecretStore e of None \<Rightarrow> (Inl (NoSecretStoreFor credentialsSecretRef), c) | Some ss \<Rightarrow>
             (case ss_Resolve ss (secretRefFrom refEnv) (cx_World c) of
                (Inl err, w) \<Rightarrow> (Inl (BackupEngineError (PortError err)), set_world w c)
              | (Inr creds, w) \<Rightarrow>
                  (if get_or [] creds ''accessKey'' = [] \<or> get_or [] creds ''secretKey'' = []
                   then (Inl (CredentialKeysMissing credentialsSecretRef), set_world w c)
                   else (Inr \<lparr>lo_Endpoint = scheme @ ''://'' @ host, lo_Bucket = bucket, lo_Prefix = prefix,
                     lo_Insecure = (scheme = ''http''), lo_Network = [], lo_RuntimeName = [], lo_ContainerPort = 0,
                     lo_AccessKey = get_or [] creds ''accessKey'', lo_SecretKey = get_or [] creds ''secretKey''\<rparr>, set_world w c))))))"

definition ResolveObjectStoreLocation ::
  "('w, 'r) Engine \<Rightarrow> Envelope list \<Rightarrow> string \<Rightarrow> string \<Rightarrow> string \<Rightarrow> string \<Rightarrow> 'w ctx \<Rightarrow> (backup_error + Location) \<times> 'w ctx" where
  "ResolveObjectStoreLocation e envelopes ref credentialsSecretRef object namespace c =
     (if cut_scheme ref \<noteq> None then resolveURLLocation e envelopes ref credentialsSecretRef namespace c
      else resolveDatasetLocation e envelopes ref object namespace c)"

section \<open>Restores are guarded\<close>

lemma backupCapable_Inr:
  assumes "backupCapable e backup_of envelopes key c = (Inr (bp, req), c')"
  obtains env prov where "map_of (by_key envelopes) key = Some env"
    "resolveRequest e env (by_key envelopes) None c = (Inr (prov, req), c')" "backup_of prov = Some bp" "rq_Resource req = env"
proof -
  from assms obtain env prov where
    *: "map_of (by_key envelopes) key = Some env" "resolveRequest e env (by_key envelopes) None c = (Inr (prov, req), c')"
      "backup_of prov = Some bp"
    by (auto simp: backupCapable_def Let_def split: option.splits prod.splits sum.splits)
  moreover from *(2) have "rq_Resource req = env" by (rule resolveRequest_Inr)
  ultimately show thesis by (rule that)
qed

lemma backupCapable_ctx:
  assumes "backupCapable e backup_of envelopes key c = (r, c')"
  shows "c' = c \<or> (\<exists>env. map_of (by_key envelopes) key = Some env \<and> c' = snd (resolveRequest e env (by_key envelopes) None c))"
  using assms by (auto simp: backupCapable_def Let_def split: option.splits prod.splits sum.splits)

text \<open>
  C34: a restore overwrites data only when it may. It reaches the provider only with the overwrite flag
  set and for a declared resource that is not protected, and it succeeds exactly when the provider's own
  restore does; without the flag nothing is touched at all, and for a protected resource nothing beyond
  resolving the request.
\<close>

theorem restore_guarded:
  assumes "engine_Restore e allowOverwrite backup_of envelopes key src c = (r, c')"
  shows "(r = None \<longleftrightarrow> allowOverwrite \<and>
      (\<exists>env prov req bp c1. map_of (by_key envelopes) key = Some env \<and> \<not> md_Protect (env_Metadata env) \<and>
        resolveRequest e env (by_key envelopes) None c = (Inr (prov, req), c1) \<and> backup_of prov = Some bp \<and>
        bc_Restore bp req src (cx_World c1) = (None, cx_World c') \<and> c' = set_world (cx_World c') c1)) \<and>
    (\<not> allowOverwrite \<longrightarrow> c' = c) \<and>
    (\<forall>env. map_of (by_key envelopes) key = Some env \<and> md_Protect (env_Metadata env) \<longrightarrow>
       c' = c \<or> c' = snd (resolveRequest e env (by_key envelopes) None c))"
proof (cases "allowOverwrite")
  case False
  with assms show ?thesis by (auto simp: engine_Restore_def)
next
  case True
  show ?thesis
  proof (cases "backupCapable e backup_of envelopes key c")
    case (Pair x c1)
    show ?thesis
    proof (cases x)
      case (Inl err)
      with Pair True assms have r: "r = Some err" "c' = c1" by (simp_all add: engine_Restore_def)
      have "\<not> (resolveRequest e env (by_key envelopes) None c = (Inr (prov, req), c2) \<and> backup_of prov = Some bp)"
        if "map_of (by_key envelopes) key = Some env" for env prov req bp c2
        using Pair that Inl by (auto simp: backupCapable_def)
      then show ?thesis using True r backupCapable_ctx [OF Pair] by auto
    next
      case (Inr y)
      obtain bp req where y: "y = (bp, req)" by fastforce
      from Pair Inr y have "backupCapable e backup_of envelopes key c = (Inr (bp, req), c1)" by simp
      then obtain env prov where *: "map_of (by_key envelopes) key = Some env"
        "resolveRequest e env (by_key envelopes) None c = (Inr (prov, req), c1)" "backup_of prov = Some bp" "rq_Resource req = env"
        by (rule backupCapable_Inr)
      show ?thesis using assms True Pair Inr y *
        by (auto simp: engine_Restore_def split: if_splits prod.splits option.splits)
    qed
  qed
qed

section \<open>Locations\<close>

lemma cut_scheme_no_colon: "CHR '':'' \<notin> set s \<Longrightarrow> cut_scheme (s @ ''://'' @ t) = Some (s, t)"
  by (induction s) (auto simp: starts_with_def)

text \<open>
  A URL names its location. The URL of a bucket and key on an HTTP or HTTPS host is taken apart into
  exactly these parts.
\<close>

theorem url_round_trip:
  assumes "scheme = ''http'' \<or> scheme = ''https''" "host \<noteq> []" "CHR ''/'' \<notin> set host" "CHR ''/'' \<notin> set bucket"
  shows "url_parts (scheme @ ''://'' @ host @ ''/'' @ bucket @ ''/'' @ prefix) = Inr (scheme, host, bucket, prefix)"
proof -
  have "CHR '':'' \<notin> set scheme" using assms(1) by auto
  then have "cut_scheme (scheme @ ''://'' @ host @ ''/'' @ bucket @ ''/'' @ prefix) =
      Some (scheme, host @ ''/'' @ bucket @ ''/'' @ prefix)" by (rule cut_scheme_no_colon)
  moreover have "Cut (CHR ''/'') (host @ ''/'' @ bucket @ ''/'' @ prefix) = (host, bucket @ ''/'' @ prefix, True)"
    using Cut_sep [OF assms(3)] by simp
  moreover have "Cut (CHR ''/'') (bucket @ ''/'' @ prefix) = (bucket, prefix, True)" using Cut_sep [OF assms(4)] by simp
  ultimately show ?thesis using assms(1,2) by (auto simp: url_parts_def)
qed

lemma objectStoreEndpointFact_Inr:
  assumes "objectStoreEndpointFact e providerEnv w = Inr ep"
  shows "\<exists>st rs. en_Load e w = Inr st \<and> map_of (st_Resources st) (env_Key providerEnv) = Some rs \<and>
    ep \<in> set (FromState (index_any (ProviderState (rs_Status rs)) ''endpoints'')) \<and> ep_Name ep = ''s3'' \<and>
    ep_RuntimeName ep \<noteq> [] \<and> ep_ContainerPort ep \<noteq> 0 \<and> ep_Internal ep \<noteq> []"
  using assms by (auto simp: objectStoreEndpointFact_def find_Some_iff split: sum.splits option.splits if_splits)

lemma joinPrefix_inside:
  "joinPrefix prefix object = trim_slashes prefix \<or>
   (\<exists>rest. joinPrefix prefix object = trim_slashes prefix @ rest \<and> (trim_slashes prefix = [] \<or> starts_with ''/'' rest))"
  by (auto simp: joinPrefix_def Let_def starts_with_def)

text \<open>
  A backup location is never guessed. What a Dataset argument resolves to is the bucket of that
  declared Dataset, a key inside its prefix, and the address and network of an S3 endpoint that the
  Dataset's own Provider recorded in the state; its credentials are a secret the request carries.
\<close>

theorem dataset_location_recorded:
  assumes "resolveDatasetLocation e envelopes ref object namespace c = (Inr loc, c')"
  shows "\<exists>key env prov req ds st rs ep creds.
    ParseSelector ref namespace = Inr key \<and> map_of (by_key envelopes) key = Some env \<and>
    resolveRequest e env (by_key envelopes) None c = (Inr (prov, req), c') \<and> Dataset_FromEnvelope env = (ds, None) \<and>
    en_Load e (cx_World c') = Inr st \<and> map_of (st_Resources st) (env_Key (rq_Provider req)) = Some rs \<and>
    ep \<in> set (FromState (index_any (ProviderState (rs_Status rs)) ''endpoints'')) \<and> ep_Name ep = ''s3'' \<and>
    creds \<in> snd ` set (rq_Secrets req) \<and>
    lo_Endpoint loc = (if ep_Scheme ep = [] then ''http'' else ep_Scheme ep) @ ''://'' @ ep_Internal ep \<and>
    lo_Network loc = ep_Network ep \<and> lo_RuntimeName loc \<noteq> [] \<and> lo_Bucket loc = da_Bucket ds \<and>
    (lo_Prefix loc = trim_slashes (da_Prefix ds) \<or>
      (\<exists>rest. lo_Prefix loc = trim_slashes (da_Prefix ds) @ rest \<and> (trim_slashes (da_Prefix ds) = [] \<or> starts_with ''/'' rest))) \<and>
    lo_AccessKey loc = get_or [] creds ''username'' \<and> lo_SecretKey loc = get_or [] creds ''password''"
proof -
  from assms obtain key env prov req cfg ds ep creds where
    *: "ParseSelector ref namespace = Inr key" "map_of (by_key envelopes) key = Some env"
      "resolveRequest e env (by_key envelopes) None c = (Inr (prov, req), c')" "Dataset_FromEnvelope env = (ds, None)"
      "objectStoreEndpointFact e (rq_Provider req) (cx_World c') = Inr ep"
      "map_of (rq_Secrets req) (root_secret_ref cfg) = Some creds" "loc = dataset_location ep ds object creds"
    by (auto simp: resolveDatasetLocation_def Let_def split: sum.splits if_splits option.splits prod.splits)
  from objectStoreEndpointFact_Inr [OF *(5)] obtain st rs where
    ep: "en_Load e (cx_World c') = Inr st" "map_of (st_Resources st) (env_Key (rq_Provider req)) = Some rs"
      "ep \<in> set (FromState (index_any (ProviderState (rs_Status rs)) ''endpoints''))" "ep_Name ep = ''s3''" "ep_RuntimeName ep \<noteq> []"
    by blast
  have "creds \<in> snd ` set (rq_Secrets req)" using map_of_SomeD [OF *(6)] by force
  with *(1-4) ep joinPrefix_inside [of "da_Prefix ds" object] show ?thesis
    unfolding *(7) dataset_location_def
    by (intro exI [of _ key] exI [of _ env] exI [of _ prov] exI [of _ req] exI [of _ ds] exI [of _ st] exI [of _ rs]
        exI [of _ ep] exI [of _ creds]) simp
qed

section \<open>Examples\<close>

definition lake_env :: Envelope where
  "lake_env = (sample_env ''Dataset'' ''events'')\<lparr>env_Spec := [(''providerRef'', AMap [(''name'', AStr ''pg'')]),
     (''bucket'', AStr ''lake''), (''prefix'', AStr ''raw/''), (''format'', AStr ''parquet'')]\<rparr>"

definition lake_state :: State where
  "lake_state = zero_State\<lparr>st_Resources := [(env_Key sample_pg, zero_ResourceState\<lparr>rs_Status := zero_Status\<lparr>ProviderState :=
     [(''endpoints'', AList [AMap [(''name'', AStr ''s3''), (''internal'', AStr ''lake:9000''), (''runtimeName'', AStr ''lake''),
       (''containerPort'', AInt 9000)]])]\<rparr>\<rparr>)]\<rparr>"

definition lake_engine :: "(file_system, unit) Engine" where
  "lake_engine = sample_engine\<lparr>en_Load := (\<lambda>_. Inr lake_state)\<rparr>"

definition lake_backup :: "(file_system, unit, unit) backup_of" where
  "lake_backup _ = Some \<lparr>bc_Backup = (\<lambda>_ _ w. (Inr (), w)), bc_Restore = (\<lambda>_ _ w. (None, w))\<rparr>"

definition lake_set :: "Envelope list" where "lake_set = [sample_pg, sample_secret, lake_env]"

definition lake_location :: Location where
  "lake_location = (case fst (resolveDatasetLocation lake_engine lake_set ''Dataset/events'' ''day1'' ''default'' sample_ctx) of
     Inr loc \<Rightarrow> loc | Inl _ \<Rightarrow> undefined)"

lemma lake_resolves:
  "\<exists>c'. resolveDatasetLocation lake_engine lake_set ''Dataset/events'' ''day1'' ''default'' sample_ctx = (Inr lake_location, c')"
proof -
  obtain r c' where r: "resolveDatasetLocation lake_engine lake_set ''Dataset/events'' ''day1'' ''default'' sample_ctx = (r, c')"
    by fastforce
  have "\<not> isl (fst (resolveDatasetLocation lake_engine lake_set ''Dataset/events'' ''day1'' ''default'' sample_ctx))" by code_simp
  with r show ?thesis by (cases r) (auto simp: lake_location_def)
qed

theorem dataset_location_recorded_witness: "lo_RuntimeName lake_location \<noteq> []"
  using lake_resolves dataset_location_recorded by blast

theorem restore_guarded_witness:
  "\<exists>env. map_of (by_key lake_set) (env_Key lake_env) = Some env \<and> \<not> md_Protect (env_Metadata env)"
proof -
  obtain r c' where r: "engine_Restore lake_engine True lake_backup lake_set (env_Key lake_env) lake_location sample_ctx = (r, c')"
    by fastforce
  have "fst (engine_Restore lake_engine True lake_backup lake_set (env_Key lake_env) loc sample_ctx) = None" for loc
    by code_simp
  with r have "r = None" by (metis fst_conv)
  with restore_guarded [OF r] show ?thesis by blast
qed

theorem url_round_trip_witness:
  "url_parts ''https://store:9000/lake/raw/day1'' = Inr (''https'', ''store:9000'', ''lake'', ''raw/day1'')"
  using url_round_trip [of "''https''" "''store:9000''" "''lake''" "''raw/day1''"] by simp

end
