(* ===== verification/Fake_Runtime.thy ===== *)
theory Fake_Runtime
  imports Domain_Runtime
begin

text \<open>
  The in-memory container runtime \<open>internal/adapters/runtime/fake/fake.go\<close>, which every unit test of
  the program runs on and which states the contract of the runtime port, with the types of
  \<open>internal/ports/runtime/runtime.go\<close> it stores. A Go map is an association list; the two levels of
  \<open>volumeFiles\<close> are one list keyed by volume and path. \<open>nil\<close> and empty slices and maps are not
  told apart. The mutex makes each method one step.
\<close>

section \<open>Types of the runtime port\<close>

record VolumeMount =
  vm_VolumeName :: string
  vm_MountPath :: string

record FileMount =
  fm_Path :: string
  fm_Content :: string
  fm_Mode :: "32 word"

record PortBinding =
  pb_HostIP :: string
  pb_HostPort :: int
  pb_ContainerPort :: int
  pb_Audience :: string
  pb_Protocol :: string

record HealthCheck =
  hc_Test :: "string list"
  hc_Interval :: int
  hc_Timeout :: int
  hc_Retries :: int

record RestartPolicy =
  rp_Mode :: string
  rp_MaxRetries :: int

record SecurityContext =
  sc_User :: string
  sc_ReadOnlyRootFS :: bool
  sc_CapAdd :: "string list"
  sc_CapDrop :: "string list"
  sc_SecurityOpt :: "string list"

record LogConfig =
  lc_Driver :: string
  lc_Options :: labels

record ImagePullAuth =
  ia_Username :: string
  ia_Password :: string
  ia_Registry :: string

record RunSpec = NetContainerSpec +
  cs_AccessMode :: string
  cs_Image :: string
  cs_PullPolicy :: string
  cs_ImagePullAuth :: "ImagePullAuth option"
  cs_Cmd :: "string list"
  cs_Entrypoint :: "string list"
  cs_Aliases :: "string list"
  cs_Volumes :: "VolumeMount list"
  cs_Files :: "FileMount list"
  cs_Env :: labels
  cs_Ports :: "PortBinding list"
  cs_HealthCheck :: "HealthCheck option"
  cs_RestartPolicy :: "RestartPolicy option"
  cs_Security :: "SecurityContext option"
  cs_LogConfig :: "LogConfig option"
  cs_Sysctls :: labels
  cs_StableIdentity :: bool

record VolSpec = VolumeSpec +
  vs_Name :: string
  vs_Labels :: labels
  vs_SizeBytes :: "64 word"
  vs_StorageClass :: string

record ContainerState =
  cst_Name :: string
  cst_ID :: string
  cst_Image :: string
  cst_Running :: bool
  cst_Healthy :: bool
  cst_Labels :: labels
  cst_Env :: labels
  cst_Ports :: "PortBinding list"
  cst_ReadyReplicas :: nat

definition zero_ContainerState :: ContainerState where
  "zero_ContainerState = \<lparr>cst_Name = [], cst_ID = [], cst_Image = [], cst_Running = False, cst_Healthy = False,
     cst_Labels = [], cst_Env = [], cst_Ports = [], cst_ReadyReplicas = 0\<rparr>"

record ManagedObject =
  mo_Name :: string
  mo_Labels :: labels

definition AudienceHost :: string where "AudienceHost = ''host''"
definition AudienceInternal :: string where "AudienceInternal = ''internal''"

definition LabelManagedBy :: string where "LabelManagedBy = ''io.datascape.managed-by''"
definition LabelGeneration :: string where "LabelGeneration = ''io.datascape.generation''"
definition LabelNamespace :: string where "LabelNamespace = ''io.datascape.namespace''"
definition LabelKind :: string where "LabelKind = ''io.datascape.kind''"
definition LabelName :: string where "LabelName = ''io.datascape.name''"
definition LabelProject :: string where "LabelProject = ''io.datascape.project''"
definition ManagedByValue :: string where "ManagedByValue = ''platformctl''"
definition LabelReplicaBase :: string where "LabelReplicaBase = ''io.datascape.replica-base''"
definition LabelReplicaOrdinal :: string where "LabelReplicaOrdinal = ''io.datascape.replica-ordinal''"

definition ManagedLabels :: "string \<Rightarrow> string \<Rightarrow> string \<Rightarrow> string \<Rightarrow> labels" where
  "ManagedLabels namespace kind name generation =
     (let ns = (if namespace = [] then ''default'' else namespace); gen = (if generation = [] then name else generation)
      in [(LabelManagedBy, ManagedByValue), (LabelGeneration, gen), (LabelNamespace, ns), (LabelKind, kind),
          (LabelName, name), (LabelProject, ns)])"

definition OrdinalName :: "string \<Rightarrow> nat \<Rightarrow> string" where
  "OrdinalName name i = name @ ''-'' @ show_nat i"

definition HostAddr :: "ContainerState \<Rightarrow> int \<Rightarrow> string" where
  "HostAddr s containerPort =
     (case find (\<lambda>p. pb_ContainerPort p = containerPort \<and> pb_HostPort p \<noteq> 0) (cst_Ports s) of
        None \<Rightarrow> []
      | Some p \<Rightarrow> (let host = (if pb_HostIP p \<in> {[], ''0.0.0.0'', ''::''} then ''127.0.0.1'' else pb_HostIP p)
                   in JoinHostPort host (show_int (pb_HostPort p))))"

section \<open>State\<close>

record containerRecord =
  cr_spec :: RunSpec
  cr_replicaBase :: string
  cr_ordinal :: nat

record FakeRuntime =
  fr_networks :: "(string \<times> NetworkSpec) list"
  fr_volumes :: "(string \<times> VolSpec) list"
  fr_containers :: "(string \<times> containerRecord) list"
  fr_volumeFiles :: "((string \<times> string) \<times> string) list"
  fr_MutationCount :: nat
  fr_nextID :: nat

definition New_fake :: FakeRuntime where
  "New_fake = \<lparr>fr_networks = [], fr_volumes = [], fr_containers = [], fr_volumeFiles = [], fr_MutationCount = 0, fr_nextID = 0\<rparr>"

definition mutated :: "FakeRuntime \<Rightarrow> FakeRuntime" where
  "mutated r = r\<lparr>fr_MutationCount := fr_MutationCount r + 1\<rparr>"

datatype fake_error =
    BadAudience string int string
  | ReplicaSetExists string nat
  | SingleExists string
  | ContainerNotFound string
  | NetworkInUse string string
  | FileNotFound string string
  | InternalPort string int
  | NoHostBinding string int
  | InvalidTarget string
  | PortNotNumeric string string
  | NotFakeManaged string
  | NotAttached string string
  | PortNotDeclared string int

definition fake_Spec :: "string \<Rightarrow> FakeRuntime \<Rightarrow> RunSpec option" where
  "fake_Spec name r = map_option cr_spec (map_of (fr_containers r) name)"

definition Mutations :: "FakeRuntime \<Rightarrow> nat" where "Mutations r = fr_MutationCount r"

section \<open>Comparisons\<close>

definition specEqual :: "labels \<Rightarrow> labels \<Rightarrow> bool" where
  "specEqual a b \<longleftrightarrow> length a = length b \<and> list_all (\<lambda>(k, v). get_or [] b k = v) a"

text \<open>\<open>reflect.DeepEqual\<close> compares maps as maps.\<close>

definition same_map :: "labels \<Rightarrow> labels \<Rightarrow> bool" where
  "same_map a b \<longleftrightarrow> list_all (\<lambda>(k, _). map_of a k = map_of b k) (a @ b)"

definition same_log :: "LogConfig option \<Rightarrow> LogConfig option \<Rightarrow> bool" where
  "same_log a b \<longleftrightarrow> (case (a, b) of (None, None) \<Rightarrow> True
     | (Some x, Some y) \<Rightarrow> lc_Driver x = lc_Driver y \<and> same_map (lc_Options x) (lc_Options y) | _ \<Rightarrow> False)"

definition containerSpecEqual :: "RunSpec \<Rightarrow> RunSpec \<Rightarrow> bool" where
  "containerSpecEqual a b \<longleftrightarrow>
     a\<lparr>cs_Labels := [], cs_Env := [], cs_Sysctls := [], cs_LogConfig := None\<rparr> =
       b\<lparr>cs_Labels := [], cs_Env := [], cs_Sysctls := [], cs_LogConfig := None\<rparr> \<and>
     same_map (cs_Labels a) (cs_Labels b) \<and> same_map (cs_Env a) (cs_Env b) \<and> same_map (cs_Sysctls a) (cs_Sysctls b) \<and>
     same_log (cs_LogConfig a) (cs_LogConfig b)"

section \<open>Networks and volumes\<close>

definition fake_EnsureNetwork :: "NetworkSpec \<Rightarrow> FakeRuntime \<Rightarrow> FakeRuntime" where
  "fake_EnsureNetwork spec r =
     (if case map_of (fr_networks r) (ns_Name spec) of None \<Rightarrow> False | Some existing \<Rightarrow> specEqual (ns_Labels existing) (ns_Labels spec)
      then r else mutated (r\<lparr>fr_networks := AList.update (ns_Name spec) spec (fr_networks r)\<rparr>))"

definition fake_EnsureVolume :: "VolSpec \<Rightarrow> FakeRuntime \<Rightarrow> FakeRuntime" where
  "fake_EnsureVolume spec r =
     (if case map_of (fr_volumes r) (vs_Name spec) of None \<Rightarrow> False | Some existing \<Rightarrow> specEqual (vs_Labels existing) (vs_Labels spec)
      then r else mutated (r\<lparr>fr_volumes := AList.update (vs_Name spec) spec (fr_volumes r)\<rparr>))"

definition attached_to :: "string \<Rightarrow> FakeRuntime \<Rightarrow> containerRecord option" where
  "attached_to name r = find (\<lambda>rec. name \<in> set (cs_Networks (cr_spec rec))) (map snd (fr_containers r))"

definition fake_RemoveNetwork :: "string \<Rightarrow> FakeRuntime \<Rightarrow> fake_error option \<times> FakeRuntime" where
  "fake_RemoveNetwork name r =
     (if map_of (fr_networks r) name = None then (None, r)
      else case attached_to name r of
        Some rec \<Rightarrow> (Some (NetworkInUse name (cs_Name (cr_spec rec))), r)
      | None \<Rightarrow> (None, mutated (r\<lparr>fr_networks := AList.delete name (fr_networks r)\<rparr>)))"

definition fake_RemoveVolume :: "string \<Rightarrow> FakeRuntime \<Rightarrow> FakeRuntime" where
  "fake_RemoveVolume name r =
     (if map_of (fr_volumes r) name = None then r
      else mutated (r\<lparr>fr_volumes := AList.delete name (fr_volumes r),
        fr_volumeFiles := filter (\<lambda>((v, _), _). v \<noteq> name) (fr_volumeFiles r)\<rparr>))"

section \<open>Containers\<close>

definition persistVolumeFiles :: "RunSpec \<Rightarrow> FakeRuntime \<Rightarrow> FakeRuntime" where
  "persistVolumeFiles spec r = r\<lparr>fr_volumeFiles := fold (\<lambda>f. fold (\<lambda>vm files.
     (if \<not> starts_with (vm_MountPath vm) (fm_Path f) then files
      else AList.update (vm_VolumeName vm, fm_Path f) (fm_Content f) files)) (cs_Volumes spec)) (cs_Files spec) (fr_volumeFiles r)\<rparr>"

definition ensureOneLocked :: "RunSpec \<Rightarrow> string \<Rightarrow> nat \<Rightarrow> FakeRuntime \<Rightarrow> FakeRuntime" where
  "ensureOneLocked spec replicaBase ordinal r0 =
     (let r = persistVolumeFiles spec r0 in
      if case map_of (fr_containers r) (cs_Name spec) of None \<Rightarrow> False
         | Some existing \<Rightarrow> cr_replicaBase existing = replicaBase \<and> containerSpecEqual (cr_spec existing) spec
      then r
      else mutated (r\<lparr>fr_containers := AList.update (cs_Name spec)
        \<lparr>cr_spec = spec, cr_replicaBase = replicaBase, cr_ordinal = ordinal\<rparr> (fr_containers r), fr_nextID := fr_nextID r + 1\<rparr>))"

definition ordinalContainerSpec :: "RunSpec \<Rightarrow> nat \<Rightarrow> RunSpec" where
  "ordinalContainerSpec spec i = spec\<lparr>cs_Name := OrdinalName (cs_Name spec) i, cs_Aliases := cs_Aliases spec @ [cs_Name spec],
     cs_Replicas := 0,
     cs_Volumes := (if cs_StableIdentity spec \<and> cs_Volumes spec \<noteq> []
       then map (\<lambda>vm. \<lparr>vm_VolumeName = OrdinalName (vm_VolumeName vm) i, vm_MountPath = vm_MountPath vm\<rparr>) (cs_Volumes spec)
       else cs_Volumes spec),
     cs_Labels := AList.update LabelReplicaOrdinal (show_nat i) (AList.update LabelReplicaBase (cs_Name spec) (cs_Labels spec))\<rparr>"

definition observedPorts :: "PortBinding list \<Rightarrow> PortBinding list" where
  "observedPorts ports = map (\<lambda>p.
     (let p1 = (if pb_Audience p = AudienceInternal then p\<lparr>pb_HostIP := [], pb_HostPort := 0\<rparr>
                else if pb_HostIP p = [] then p\<lparr>pb_HostIP := ''127.0.0.1''\<rparr> else p)
      in if pb_Protocol p1 = [] then p1\<lparr>pb_Protocol := ''tcp''\<rparr> else p1)) ports"

definition stateOf :: "RunSpec \<Rightarrow> ContainerState" where
  "stateOf spec = \<lparr>cst_Name = cs_Name spec, cst_ID = ''fake-'' @ cs_Name spec, cst_Image = cs_Image spec, cst_Running = True,
     cst_Healthy = True, cst_Labels = cs_Labels spec, cst_Env = cs_Env spec, cst_Ports = observedPorts (cs_Ports spec),
     cst_ReadyReplicas = 1\<rparr>"

definition members_named :: "string \<Rightarrow> FakeRuntime \<Rightarrow> containerRecord list" where
  "members_named base r = filter (\<lambda>rec. cr_replicaBase rec = base) (map snd (fr_containers r))"

definition aggregateStateLocked :: "string \<Rightarrow> FakeRuntime \<Rightarrow> ContainerState" where
  "aggregateStateLocked base r =
     (let members = sort_key cr_ordinal (members_named base r);
          st = zero_ContainerState\<lparr>cst_Name := base, cst_ID := ''fake-'' @ base\<rparr>;
          st' = (case members of [] \<Rightarrow> st | m # _ \<Rightarrow> st\<lparr>cst_Image := cs_Image (cr_spec m), cst_Labels := cs_Labels (cr_spec m),
            cst_Env := cs_Env (cr_spec m), cst_Ports := observedPorts (cs_Ports (cr_spec m))\<rparr>)
      in st'\<lparr>cst_ReadyReplicas := length members, cst_Running := members \<noteq> [], cst_Healthy := members \<noteq> []\<rparr>)"

definition drop_stale :: "string \<Rightarrow> nat \<Rightarrow> FakeRuntime \<Rightarrow> FakeRuntime" where
  "drop_stale base n r =
     (let stale = (\<lambda>(name, rec). cr_replicaBase rec = base \<and> n \<le> cr_ordinal rec)
      in r\<lparr>fr_containers := filter (\<lambda>x. \<not> stale x) (fr_containers r),
           fr_MutationCount := fr_MutationCount r + length (filter stale (fr_containers r))\<rparr>)"

definition ensure_ordinal_volume :: "RunSpec \<Rightarrow> VolumeMount \<Rightarrow> FakeRuntime \<Rightarrow> FakeRuntime" where
  "ensure_ordinal_volume spec vm r =
     (if map_of (fr_volumes r) (vm_VolumeName vm) \<noteq> None then r
      else mutated (r\<lparr>fr_volumes := AList.update (vm_VolumeName vm) \<lparr>vs_Networks = cs_Networks spec, vs_Name = vm_VolumeName vm,
        vs_Labels = cs_Labels spec, vs_SizeBytes = 0, vs_StorageClass = []\<rparr> (fr_volumes r)\<rparr>))"

definition ensure_ordinal :: "RunSpec \<Rightarrow> nat \<Rightarrow> FakeRuntime \<Rightarrow> FakeRuntime" where
  "ensure_ordinal spec i r =
     (let ordSpec = ordinalContainerSpec spec i;
          r1 = (if cs_StableIdentity spec then fold (ensure_ordinal_volume spec) (cs_Volumes ordSpec) r else r)
      in ensureOneLocked ordSpec (cs_Name spec) i r1)"

definition ensureReplicaSetLocked :: "RunSpec \<Rightarrow> nat \<Rightarrow> FakeRuntime \<Rightarrow> ContainerState \<times> FakeRuntime" where
  "ensureReplicaSetLocked spec n r =
     (let r' = fold (ensure_ordinal spec) [0..<n] (drop_stale (cs_Name spec) n r)
      in (aggregateStateLocked (cs_Name spec) r', r'))"

definition validatePortAudiences :: "RunSpec \<Rightarrow> fake_error option" where
  "validatePortAudiences spec =
     (case find (\<lambda>p. pb_Audience p \<noteq> AudienceHost \<and> pb_Audience p \<noteq> AudienceInternal) (cs_Ports spec) of
        None \<Rightarrow> None | Some p \<Rightarrow> Some (BadAudience (cs_Name spec) (pb_ContainerPort p) (pb_Audience p)))"

definition fake_EnsureContainer :: "RunSpec \<Rightarrow> FakeRuntime \<Rightarrow> (fake_error + ContainerState) \<times> FakeRuntime" where
  "fake_EnsureContainer spec r =
     (case validatePortAudiences spec of Some err \<Rightarrow> (Inl err, r) | None \<Rightarrow>
       (let n = ReplicaCount spec in
        if n \<le> 1 \<and> \<not> cs_StableIdentity spec then
          (let memberCount = length (members_named (cs_Name spec) r) in
           if 0 < memberCount then (Inl (ReplicaSetExists (cs_Name spec) memberCount), r)
           else (Inr (stateOf spec), ensureOneLocked spec [] 0 r))
        else if case map_of (fr_containers r) (cs_Name spec) of None \<Rightarrow> False | Some rec \<Rightarrow> cr_replicaBase rec = []
        then (Inl (SingleExists (cs_Name spec)), r)
        else (case ensureReplicaSetLocked spec (nat n) r of (st, r') \<Rightarrow> (Inr st, r'))))"

definition fake_WaitHealthy :: "string \<Rightarrow> FakeRuntime \<Rightarrow> fake_error option" where
  "fake_WaitHealthy name r =
     (if map_of (fr_containers r) name \<noteq> None \<or> members_named name r \<noteq> [] then None else Some (ContainerNotFound name))"

definition fake_Inspect :: "string \<Rightarrow> FakeRuntime \<Rightarrow> ContainerState option" where
  "fake_Inspect name r =
     (case map_of (fr_containers r) name of
        Some rec \<Rightarrow> Some (if cr_replicaBase rec \<noteq> [] then (stateOf (cr_spec rec))\<lparr>cst_ReadyReplicas := 0\<rparr> else stateOf (cr_spec rec))
      | None \<Rightarrow> (if members_named name r = [] then None else Some (aggregateStateLocked name r)))"

definition fake_Remove :: "string \<Rightarrow> FakeRuntime \<Rightarrow> FakeRuntime" where
  "fake_Remove name r =
     (if map_of (fr_containers r) name \<noteq> None then mutated (r\<lparr>fr_containers := AList.delete name (fr_containers r)\<rparr>)
      else let kept = filter (\<lambda>(_, rec). cr_replicaBase rec \<noteq> name) (fr_containers r) in
        if members_named name r \<noteq> [] then mutated (r\<lparr>fr_containers := kept\<rparr>) else r)"

definition resolveRecord :: "string \<Rightarrow> FakeRuntime \<Rightarrow> containerRecord option" where
  "resolveRecord name r = (case map_of (fr_containers r) name of
     Some rec \<Rightarrow> Some rec
   | None \<Rightarrow> (case map_of (fr_containers r) (OrdinalName name 0) of
       Some rec \<Rightarrow> (if cr_replicaBase rec = name then Some rec else None) | None \<Rightarrow> None))"

definition fake_Logs :: "string \<Rightarrow> FakeRuntime \<Rightarrow> fake_error + string" where
  "fake_Logs name r = (case resolveRecord name r of None \<Rightarrow> Inl (ContainerNotFound name) | Some _ \<Rightarrow> Inr [])"

definition fake_ReadFile :: "string \<Rightarrow> string \<Rightarrow> FakeRuntime \<Rightarrow> fake_error + string" where
  "fake_ReadFile name path r = (case resolveRecord name r of None \<Rightarrow> Inl (ContainerNotFound name) | Some rec \<Rightarrow>
     (case find (\<lambda>f. fm_Path f = path) (cs_Files (cr_spec rec)) of
        Some f \<Rightarrow> Inr (fm_Content f)
      | None \<Rightarrow>
          (case List.map_filter (\<lambda>vm. map_of (fr_volumeFiles r) (vm_VolumeName vm, path)) (cs_Volumes (cr_spec rec)) of
             content # _ \<Rightarrow> Inr content | [] \<Rightarrow> Inl (FileNotFound path name))))"

definition fake_EnsureReachable :: "string \<Rightarrow> int \<Rightarrow> FakeRuntime \<Rightarrow> fake_error + string" where
  "fake_EnsureReachable name port r = (case resolveRecord name r of None \<Rightarrow> Inl (ContainerNotFound name) | Some rec \<Rightarrow>
     (if list_ex (\<lambda>p. pb_ContainerPort p = port \<and> pb_Audience p = AudienceInternal) (cs_Ports (cr_spec rec))
      then Inl (InternalPort name port)
      else let addr = HostAddr (stateOf (cr_spec rec)) port in
        if addr = [] then Inl (NoHostBinding name port) else Inr addr))"

text \<open>\<open>net.SplitHostPort\<close> and \<open>strconv.Atoi\<close> on the part behind the last colon.\<close>

definition Atoi :: "string \<Rightarrow> int option" where
  "Atoi s = (let neg = (s \<noteq> [] \<and> hd s = CHR ''-''); body = (if s \<noteq> [] \<and> hd s \<in> {CHR ''-'', CHR ''+''} then tl s else s) in
     case parse_nat body of None \<Rightarrow> None
     | Some n \<Rightarrow> (let v = (if neg then - int n else int n) in if - (2 ^ 63) \<le> v \<and> v < 2 ^ 63 then Some v else None))"

definition fake_ProbeReachable :: "string \<Rightarrow> string \<Rightarrow> FakeRuntime \<Rightarrow> fake_error option" where
  "fake_ProbeReachable network target r = (case SplitHost target of None \<Rightarrow> Some (InvalidTarget target) | Some host \<Rightarrow>
     (let portStr = rev (fst (Cut (CHR '':'') (rev target))) in
      case Atoi portStr of None \<Rightarrow> Some (PortNotNumeric target portStr) | Some port \<Rightarrow>
        (case resolveRecord host r of None \<Rightarrow> Some (NotFakeManaged host) | Some rec \<Rightarrow>
           (if network \<notin> set (cs_Networks (cr_spec rec)) then Some (NotAttached host network)
            else if list_ex (\<lambda>p. pb_ContainerPort p = port) (cs_Ports (cr_spec rec)) then None
            else Some (PortNotDeclared host port)))))"

definition is_managed :: "labels \<Rightarrow> bool" where
  "is_managed ls \<longleftrightarrow> get_or [] ls LabelManagedBy = ManagedByValue"

definition fake_ListManaged :: "FakeRuntime \<Rightarrow> ContainerState list" where
  "fake_ListManaged r = map (stateOf \<circ> cr_spec) (filter (\<lambda>rec. is_managed (cs_Labels (cr_spec rec))) (map snd (fr_containers r)))"

definition fake_ListManagedNetworks :: "FakeRuntime \<Rightarrow> ManagedObject list" where
  "fake_ListManagedNetworks r = map (\<lambda>(name, spec). \<lparr>mo_Name = name, mo_Labels = ns_Labels spec\<rparr>)
     (filter (\<lambda>(name, spec). is_managed (ns_Labels spec)) (fr_networks r))"

definition fake_ListManagedVolumes :: "FakeRuntime \<Rightarrow> ManagedObject list" where
  "fake_ListManagedVolumes r = map (\<lambda>(name, spec). \<lparr>mo_Name = name, mo_Labels = vs_Labels spec\<rparr>)
     (filter (\<lambda>(name, spec). is_managed (vs_Labels spec)) (fr_volumes r))"

end
