(* ===== verification/Fake_Laws.thy ===== *)
theory Fake_Laws
  imports Fake_Runtime
begin

text \<open>
  What the in-memory runtime guarantees: the shape of its states and the idempotence of ensuring a
  container.
\<close>

section \<open>Decimal names\<close>

lemma digit_val_char: "n < 10 \<Longrightarrow> digit_val (digit_char n) = Some n"
proof -
  assume "n < 10"
  then have "n \<in> {0, 1, 2, 3, 4, 5, 6, 7, 8, 9}" by auto
  then show ?thesis by (elim insertE emptyE) (simp_all add: digit_val_def digit_char_def)
qed

lemma digit_char_mod: "digit_char n = digit_char (n mod 10)"
  by (simp add: digit_char_def)

lemma parse_digits_append:
  "parse_digits (xs @ ys) acc = (case parse_digits xs acc of None \<Rightarrow> None | Some a \<Rightarrow> parse_digits ys a)"
  by (induction xs arbitrary: acc) (auto split: option.splits)

lemma parse_show_nat: "parse_digits (show_nat n) 0 = Some n"
proof (induction n rule: show_nat.induct)
  case (1 n)
  have d: "digit_val (digit_char n) = Some (n mod 10)" unfolding digit_char_mod [of n] by (rule digit_val_char) simp
  show ?case
  proof (cases "n < 10")
    case True
    with d show ?thesis by (subst show_nat.simps) simp
  next
    case False
    with 1 d show ?thesis by (subst show_nat.simps) (simp add: parse_digits_append)
  qed
qed

lemma show_nat_inj: "show_nat m = show_nat n \<longleftrightarrow> m = n"
  by (metis parse_show_nat option.inject)

lemma show_nat_Nil [simp]: "show_nat n \<noteq> []"
  by (subst show_nat.simps) simp

lemma parse_nat_show [simp]: "parse_nat (show_nat n) = Some n"
  by (simp add: parse_nat_def parse_show_nat)

lemma digit_char_in: "digit_char n \<in> set ''0123456789''"
proof -
  have "n mod 10 < length ''0123456789''" by simp
  then show ?thesis unfolding digit_char_def by (rule nth_mem)
qed

lemma show_nat_digits: "c \<in> set (show_nat n) \<Longrightarrow> c \<in> set ''0123456789''"
proof (induction n rule: show_nat.induct)
  case (1 n)
  from 1(2) consider "c = digit_char n" | "\<not> n < 10" "c \<in> set (show_nat (n div 10))"
    by (subst (asm) show_nat.simps) (auto split: if_splits)
  then show ?case by cases (use 1(1) digit_char_in in auto)
qed

lemma show_nat_no: "c \<notin> set ''0123456789'' \<Longrightarrow> c \<notin> set (show_nat n)"
  using show_nat_digits by blast

lemma OrdinalName_inj: "OrdinalName a i = OrdinalName b j \<longleftrightarrow> a = b \<and> i = j"
proof
  assume eq: "OrdinalName a i = OrdinalName b j"
  have no: "CHR ''-'' \<notin> set (rev (show_nat k))" for k using show_nat_no [of "CHR ''-''" k] by simp
  from eq have "rev (show_nat i) @ CHR ''-'' # rev a = rev (show_nat j) @ CHR ''-'' # rev b"
    unfolding OrdinalName_def by (metis append.assoc append_Cons append_Nil rev.simps(2) rev_append rev_rev_ident)
  then have "Cut (CHR ''-'') (rev (show_nat i) @ CHR ''-'' # rev a) = Cut (CHR ''-'') (rev (show_nat j) @ CHR ''-'' # rev b)"
    by simp
  then show "a = b \<and> i = j" unfolding Cut_sep [OF no] by (simp add: show_nat_inj)
qed simp

lemma OrdinalName_longer [simp]: "OrdinalName a i \<noteq> a" "OrdinalName a i \<noteq> []"
  by (simp_all add: OrdinalName_def)

section \<open>Association lists\<close>

lemma alist_eqI:
  assumes "map fst xs = map fst ys" "map_of xs = map_of ys" "distinct (map fst xs)"
  shows "xs = ys"
proof (rule nth_equalityI)
  from assms(1) show len: "length xs = length ys" by (metis length_map)
  fix i assume i: "i < length xs"
  have f: "fst (xs ! i) = fst (ys ! i)" using assms(1) i len by (metis nth_map)
  have "map_of xs (fst (xs ! i)) = Some (snd (xs ! i))" using i assms(3) by (simp add: map_of_is_SomeI)
  moreover have "map_of ys (fst (ys ! i)) = Some (snd (ys ! i))"
    using i len assms(1,3) by (simp add: map_of_is_SomeI)
  ultimately show "xs ! i = ys ! i" using f assms(2) by (simp add: prod_eq_iff)
qed

lemma fold_update_map_of:
  "map_of (fold (\<lambda>(k, v). AList.update k v) ws m) k = (case map_of (rev ws) k of Some v \<Rightarrow> Some v | None \<Rightarrow> map_of m k)"
proof (induction ws arbitrary: m)
  case (Cons w ws)
  then show ?case by (cases w) (simp add: update_conv map_add_def split: option.splits)
qed simp

lemma fold_update_keys: "fst ` set ws \<subseteq> fst ` set m \<Longrightarrow> map fst (fold (\<lambda>(k, v). AList.update k v) ws m) = map fst m"
proof (induction ws arbitrary: m)
  case (Cons w ws)
  obtain k v where w: "w = (k, v)" by fastforce
  with Cons.prems have k: "k \<in> set (map fst m)" by auto
  have keys: "map fst (AList.update k v m) = map fst m" using k by (simp add: update_keys)
  then have "fst ` set (AList.update k v m) = fst ` set m" by (metis list.set_map)
  with Cons w keys show ?case by simp
qed simp

lemma fold_update_distinct: "distinct (map fst m) \<Longrightarrow> distinct (map fst (fold (\<lambda>(k, v). AList.update k v) ws m))"
  by (induction ws arbitrary: m) (auto simp: distinct_update)

lemma fold_update_settled:
  assumes "distinct (map fst m)" "\<forall>(k, v)\<in>set ws. map_of m k = map_of (rev ws) k"
  shows "fold (\<lambda>(k, v). AList.update k v) ws m = m"
proof (rule alist_eqI [symmetric])
  have last: "\<exists>v. map_of (rev ws) k = Some v" if "k \<in> fst ` set ws" for k
    using that by (metis image_set map_of_eq_None_iff not_None_eq rev_map set_rev list.set_map)
  have "fst ` set ws \<subseteq> fst ` set m"
  proof
    fix k assume k: "k \<in> fst ` set ws"
    then obtain v where "(k, v) \<in> set ws" by auto
    with assms(2) last [OF k] have "map_of m k \<noteq> None" by fastforce
    then show "k \<in> fst ` set m" by (simp add: map_of_eq_None_iff)
  qed
  then show "map fst m = map fst (fold (\<lambda>(k, v). AList.update k v) ws m)" by (simp add: fold_update_keys)
  show "map_of m = map_of (fold (\<lambda>(k, v). AList.update k v) ws m)"
  proof
    fix k
    show "map_of m k = map_of (fold (\<lambda>(k, v). AList.update k v) ws m) k"
    proof (cases "map_of (rev ws) k")
      case (Some v)
      then have "(k, v) \<in> set ws" by (metis map_of_SomeD set_rev)
      with assms(2) Some show ?thesis by (auto simp: fold_update_map_of)
    qed (simp add: fold_update_map_of)
  qed
qed (rule assms(1))

section \<open>Steps that settle\<close>

text \<open>
  A family of steps in which each step is settled once it has run, stays settled when the others run, and
  does nothing when it is settled: running all of them a second time changes nothing.
\<close>

locale settling =
  fixes step :: "'i \<Rightarrow> 's \<Rightarrow> 's" and settled :: "'i \<Rightarrow> 's \<Rightarrow> bool" and inv :: "'s \<Rightarrow> bool"
  assumes inv_step: "inv s \<Longrightarrow> inv (step i s)"
    and settles: "inv s \<Longrightarrow> settled i (step i s)"
    and stays: "inv s \<Longrightarrow> settled i s \<Longrightarrow> settled i (step j s)"
    and idle: "inv s \<Longrightarrow> settled i s \<Longrightarrow> step i s = s"
begin

lemma run_inv: "inv s \<Longrightarrow> inv (fold step xs s)"
  by (induction xs arbitrary: s) (auto simp: inv_step)

lemma run_stays: "inv s \<Longrightarrow> settled i s \<Longrightarrow> settled i (fold step xs s)"
  by (induction xs arbitrary: s) (auto simp: inv_step stays)

lemma run_settles: "inv s \<Longrightarrow> i \<in> set xs \<Longrightarrow> settled i (fold step xs s)"
  by (induction xs arbitrary: s) (auto simp: inv_step settles run_stays)

lemma run_idle: "inv s \<Longrightarrow> \<forall>i\<in>set xs. settled i s \<Longrightarrow> fold step xs s = s"
  by (induction xs) (auto simp: idle)

lemma run_twice: "inv s \<Longrightarrow> fold step xs (fold step xs s) = fold step xs s"
  by (rule run_idle) (auto simp: run_inv run_settles)

end

section \<open>Files on volumes\<close>

definition file_writes :: "RunSpec \<Rightarrow> ((string \<times> string) \<times> string) list" where
  "file_writes spec = concat (map (\<lambda>f. map (\<lambda>vm. ((vm_VolumeName vm, fm_Path f), fm_Content f))
     (filter (\<lambda>vm. starts_with (vm_MountPath vm) (fm_Path f)) (cs_Volumes spec))) (cs_Files spec))"

lemma fold_filter_update:
  "fold (\<lambda>x m. if \<not> P x then m else AList.update (k x) (v x) m) xs m =
     fold (\<lambda>(k, v). AList.update k v) (map (\<lambda>x. (k x, v x)) (filter P xs)) m"
  by (induction xs arbitrary: m) auto

lemma persist_writes:
  "persistVolumeFiles spec r = r\<lparr>fr_volumeFiles := fold (\<lambda>(k, v). AList.update k v) (file_writes spec) (fr_volumeFiles r)\<rparr>"
proof -
  have "fold (\<lambda>f. fold (\<lambda>vm files. if \<not> starts_with (vm_MountPath vm) (fm_Path f) then files
      else AList.update (vm_VolumeName vm, fm_Path f) (fm_Content f) files) (cs_Volumes spec)) fs m =
    fold (\<lambda>(k, v). AList.update k v) (concat (map (\<lambda>f. map (\<lambda>vm. ((vm_VolumeName vm, fm_Path f), fm_Content f))
      (filter (\<lambda>vm. starts_with (vm_MountPath vm) (fm_Path f)) (cs_Volumes spec))) fs)) m" for fs m
    by (induction fs arbitrary: m) (simp_all add: fold_filter_update)
  from this [of "cs_Files spec" "fr_volumeFiles r"] show ?thesis
    unfolding persistVolumeFiles_def file_writes_def by (simp only:)
qed

lemma file_writes_ordinal:
  "file_writes (ordinalContainerSpec spec i) =
     (if cs_StableIdentity spec then map (\<lambda>((v, p), c). ((OrdinalName v i, p), c)) (file_writes spec) else file_writes spec)"
  by (auto simp: file_writes_def ordinalContainerSpec_def map_concat comp_def filter_map)

definition files_settled :: "RunSpec \<Rightarrow> FakeRuntime \<Rightarrow> bool" where
  "files_settled spec r \<longleftrightarrow> (\<forall>(k, v)\<in>set (file_writes spec). map_of (fr_volumeFiles r) k = map_of (rev (file_writes spec)) k)"

lemma in_writes: "(k, v) \<in> set ws \<Longrightarrow> \<exists>u. map_of (rev ws) k = Some u"
  by (rule weak_map_of_SomeI [of _ v]) simp

lemma persist_settles: "files_settled spec (persistVolumeFiles spec r)"
  unfolding files_settled_def persist_writes
  by (auto simp: fold_update_map_of dest!: in_writes split: option.splits)

lemma persist_idle:
  "distinct (map fst (fr_volumeFiles r)) \<Longrightarrow> files_settled spec r \<Longrightarrow> persistVolumeFiles spec r = r"
  unfolding files_settled_def persist_writes by (simp add: fold_update_settled)

lemma ordinal_writes_agree:
  assumes "map_of (rev (file_writes (ordinalContainerSpec spec i))) k = Some c"
    "map_of (rev (file_writes (ordinalContainerSpec spec j))) k = Some d"
  shows "c = d"
proof (cases "cs_StableIdentity spec")
  case True
  from assms [THEN map_of_SomeD] True have "i = j"
    by (auto simp: file_writes_ordinal OrdinalName_inj)
  with assms show ?thesis by simp
qed (use assms in \<open>simp add: file_writes_ordinal\<close>)

lemma persist_stays:
  assumes "files_settled (ordinalContainerSpec spec i) r"
  shows "files_settled (ordinalContainerSpec spec i) (persistVolumeFiles (ordinalContainerSpec spec j) r)"
  unfolding files_settled_def persist_writes
proof clarsimp
  fix v p c
  assume k: "((v, p), c) \<in> set (file_writes (ordinalContainerSpec spec i))"
  then obtain u where u: "map_of (rev (file_writes (ordinalContainerSpec spec i))) (v, p) = Some u" using in_writes [OF k] by blast
  with assms k have "map_of (fr_volumeFiles r) (v, p) = Some u" by (auto simp: files_settled_def)
  then show "map_of (fold (\<lambda>(k, v). AList.update k v) (file_writes (ordinalContainerSpec spec j)) (fr_volumeFiles r)) (v, p) =
      map_of (rev (file_writes (ordinalContainerSpec spec i))) (v, p)"
    using u ordinal_writes_agree [of spec i "(v, p)" u j] by (auto simp: fold_update_map_of split: option.splits)
qed

section \<open>Ensuring twice\<close>

lemma containerSpecEqual_refl [simp]: "containerSpecEqual s s"
  by (auto simp: containerSpecEqual_def same_map_def same_log_def list_all_iff split: option.splits)

definition record_settled :: "RunSpec \<Rightarrow> string \<Rightarrow> FakeRuntime \<Rightarrow> bool" where
  "record_settled spec base r \<longleftrightarrow> (\<exists>rec. map_of (fr_containers r) (cs_Name spec) = Some rec \<and> cr_replicaBase rec = base \<and>
     containerSpecEqual (cr_spec rec) spec)"

lemma mutated_sel [simp]:
  "fr_networks (mutated r) = fr_networks r" "fr_volumes (mutated r) = fr_volumes r" "fr_containers (mutated r) = fr_containers r"
  "fr_volumeFiles (mutated r) = fr_volumeFiles r" "fr_MutationCount (mutated r) = Suc (fr_MutationCount r)"
  by (simp_all add: mutated_def)

lemma persist_sel [simp]:
  "fr_networks (persistVolumeFiles spec r) = fr_networks r" "fr_volumes (persistVolumeFiles spec r) = fr_volumes r"
  "fr_containers (persistVolumeFiles spec r) = fr_containers r"
  "fr_volumeFiles (persistVolumeFiles spec r) = fold (\<lambda>(k, v). AList.update k v) (file_writes spec) (fr_volumeFiles r)"
  by (simp_all add: persist_writes)

lemma ensureOne_sel [simp]:
  "fr_networks (ensureOneLocked spec base i r) = fr_networks r" "fr_volumes (ensureOneLocked spec base i r) = fr_volumes r"
  "fr_volumeFiles (ensureOneLocked spec base i r) = fr_volumeFiles (persistVolumeFiles spec r)"
  by (simp_all add: ensureOneLocked_def Let_def)

lemma ensureOne_containers:
  "fr_containers (ensureOneLocked spec base i r) = (if record_settled spec base r then fr_containers r
     else AList.update (cs_Name spec) \<lparr>cr_spec = spec, cr_replicaBase = base, cr_ordinal = i\<rparr> (fr_containers r))"
  by (auto simp: ensureOneLocked_def Let_def record_settled_def split: option.splits)

lemma files_settled_cong: "fr_volumeFiles r = fr_volumeFiles r' \<Longrightarrow> files_settled spec r = files_settled spec r'"
  by (simp add: files_settled_def)

lemma ensureOne_settles:
  "record_settled spec base (ensureOneLocked spec base i r)" "files_settled spec (ensureOneLocked spec base i r)"
proof -
  show "record_settled spec base (ensureOneLocked spec base i r)"
  proof (cases "record_settled spec base r")
    case True
    then show ?thesis unfolding record_settled_def ensureOne_containers by (simp add: True [unfolded record_settled_def])
  next
    case False
    then show ?thesis by (simp add: record_settled_def [of _ _ "ensureOneLocked _ _ _ _"] ensureOne_containers update_conv)
  qed
  show "files_settled spec (ensureOneLocked spec base i r)"
    using persist_settles [of spec r] by (simp add: files_settled_cong [of "ensureOneLocked spec base i r" "persistVolumeFiles spec r"])
qed

lemma ensureOne_idle:
  "distinct (map fst (fr_volumeFiles r)) \<Longrightarrow> record_settled spec base r \<Longrightarrow> files_settled spec r \<Longrightarrow>
    ensureOneLocked spec base i r = r"
  by (auto simp: ensureOneLocked_def persist_idle record_settled_def)

definition ordinal_settled :: "RunSpec \<Rightarrow> nat \<Rightarrow> FakeRuntime \<Rightarrow> bool" where
  "ordinal_settled spec i r \<longleftrightarrow> (let o' = ordinalContainerSpec spec i in
     record_settled o' (cs_Name spec) r \<and> files_settled o' r \<and>
     (cs_StableIdentity spec \<longrightarrow> (\<forall>vm\<in>set (cs_Volumes o'). map_of (fr_volumes r) (vm_VolumeName vm) \<noteq> None)))"

interpretation vols: settling "ensure_ordinal_volume spec" "\<lambda>vm r. map_of (fr_volumes r) (vm_VolumeName vm) \<noteq> None" "\<lambda>_. True" for spec
  by unfold_locales (auto simp: ensure_ordinal_volume_def update_conv)

lemma ensure_volume_sel [simp]:
  "fr_networks (ensure_ordinal_volume spec vm r) = fr_networks r" "fr_containers (ensure_ordinal_volume spec vm r) = fr_containers r"
  "fr_volumeFiles (ensure_ordinal_volume spec vm r) = fr_volumeFiles r"
  by (simp_all add: ensure_ordinal_volume_def)

lemma ensure_volumes_sel [simp]:
  "fr_networks (fold (ensure_ordinal_volume spec) vms r) = fr_networks r"
  "fr_containers (fold (ensure_ordinal_volume spec) vms r) = fr_containers r"
  "fr_volumeFiles (fold (ensure_ordinal_volume spec) vms r) = fr_volumeFiles r"
  by (induction vms arbitrary: r) simp_all

lemma record_settled_cong: "fr_containers r = fr_containers r' \<Longrightarrow> record_settled spec base r = record_settled spec base r'"
  by (simp add: record_settled_def)

lemma name_ordinal [simp]: "cs_Name (ordinalContainerSpec spec i) = OrdinalName (cs_Name spec) i"
  by (simp add: ordinalContainerSpec_def)

interpretation ords: settling "ensure_ordinal spec" "ordinal_settled spec" "\<lambda>r. distinct (map fst (fr_volumeFiles r))" for spec
proof unfold_locales
  fix r :: FakeRuntime and i j
  let ?o = "ordinalContainerSpec spec i" and ?p = "ordinalContainerSpec spec j"
  let ?v = "\<lambda>o' r. if cs_StableIdentity spec then fold (ensure_ordinal_volume spec) (cs_Volumes o') r else r"
  assume d: "distinct (map fst (fr_volumeFiles r))"
  have vsel: "fr_containers (?v o' r) = fr_containers r" "fr_volumeFiles (?v o' r) = fr_volumeFiles r" for o' by auto
  have step: "ensure_ordinal spec k s = ensureOneLocked (ordinalContainerSpec spec k) (cs_Name spec) k (?v (ordinalContainerSpec spec k) s)" for k s
    by (simp add: ensure_ordinal_def Let_def)
  show "distinct (map fst (fr_volumeFiles (ensure_ordinal spec i r)))" using d by (simp add: step fold_update_distinct)
  show "ordinal_settled spec i (ensure_ordinal spec i r)"
    using vols.run_settles [where s = r and xs = "cs_Volumes ?o" and spec = spec]
    by (auto simp: ordinal_settled_def Let_def step ensureOne_settles)
  assume s: "ordinal_settled spec i r"
  then have vid: "?v ?o r = r" using vols.run_idle [where s = r and xs = "cs_Volumes ?o" and spec = spec] by (auto simp: ordinal_settled_def Let_def)
  show "ensure_ordinal spec i r = r"
    using s d by (simp add: step vid ensureOne_idle ordinal_settled_def Let_def)
  have f: "files_settled ?o (ensure_ordinal spec j r)"
    using s persist_stays [of spec i r j] vsel(2) [of ?p]
    by (simp add: step ordinal_settled_def Let_def files_settled_def)
  have c: "record_settled ?o (cs_Name spec) (ensure_ordinal spec j r)"
  proof (cases "i = j")
    case True
    then show ?thesis by (simp add: step ensureOne_settles)
  next
    case False
    then show ?thesis using s vsel(1) [of ?p]
      by (simp add: step record_settled_def [of ?o] ordinal_settled_def Let_def ensureOne_containers update_conv OrdinalName_inj)
  qed
  have "\<forall>vm\<in>set (cs_Volumes ?o). map_of (fr_volumes (ensure_ordinal spec j r)) (vm_VolumeName vm) \<noteq> None" if "cs_StableIdentity spec"
    using s that vols.run_stays [where s = r and xs = "cs_Volumes ?p" and spec = spec] by (auto simp: step ordinal_settled_def Let_def)
  with f c show "ordinal_settled spec i (ensure_ordinal spec j r)" by (simp add: ordinal_settled_def Let_def)
qed

lemma set_AList_update: "set (AList.update k v al) \<subseteq> insert (k, v) (set al)"
  by (induction al) auto

lemma in_AList_delete: "x \<in> set (AList.delete k al) \<Longrightarrow> x \<in> set al"
  by (simp add: AList.delete_eq)

lemma in_AList_update: "x \<in> set (AList.update k v al) \<Longrightarrow> x = (k, v) \<or> x \<in> set al"
  using set_AList_update by fastforce

definition none_stale :: "string \<Rightarrow> nat \<Rightarrow> FakeRuntime \<Rightarrow> bool" where
  "none_stale base n r \<longleftrightarrow> (\<forall>x\<in>set (fr_containers r). cr_replicaBase (snd x) = base \<longrightarrow> cr_ordinal (snd x) < n)"

lemma drop_stale_sel [simp]:
  "fr_networks (drop_stale base n r) = fr_networks r" "fr_volumes (drop_stale base n r) = fr_volumes r"
  "fr_volumeFiles (drop_stale base n r) = fr_volumeFiles r"
  by (simp_all add: drop_stale_def Let_def)

lemma none_stale_drop: "none_stale base n (drop_stale base n r)"
  by (auto simp: none_stale_def drop_stale_def Let_def)

lemma drop_none_stale: "none_stale base n r \<Longrightarrow> drop_stale base n r = r"
proof -
  assume q: "none_stale base n r"
  let ?stale = "\<lambda>(name :: string, rec). cr_replicaBase rec = base \<and> n \<le> cr_ordinal rec"
  have "filter (\<lambda>x. \<not> ?stale x) (fr_containers r) = fr_containers r"
    using q by (intro filter_True) (auto simp: none_stale_def)
  moreover have "filter ?stale (fr_containers r) = []"
    using q by (intro filter_False) (auto simp: none_stale_def)
  ultimately show ?thesis by (simp add: drop_stale_def Let_def)
qed

lemma ensure_ordinal_containers:
  "fr_containers (ensure_ordinal spec i r) = (let o' = ordinalContainerSpec spec i in
     if record_settled o' (cs_Name spec) r then fr_containers r
     else AList.update (OrdinalName (cs_Name spec) i) \<lparr>cr_spec = o', cr_replicaBase = cs_Name spec, cr_ordinal = i\<rparr> (fr_containers r))"
proof -
  let ?o = "ordinalContainerSpec spec i"
  let ?r = "if cs_StableIdentity spec then fold (ensure_ordinal_volume spec) (cs_Volumes ?o) r else r"
  have c: "fr_containers ?r = fr_containers r" by simp
  show ?thesis
    unfolding ensure_ordinal_def Let_def ensureOne_containers c record_settled_cong [OF c] by simp
qed

lemma none_stale_ordinals:
  "set xs \<subseteq> {0..<n} \<Longrightarrow> none_stale (cs_Name spec) n r \<Longrightarrow> none_stale (cs_Name spec) n (fold (ensure_ordinal spec) xs r)"
proof (induction xs arbitrary: r)
  case (Cons i xs)
  have "none_stale (cs_Name spec) n (ensure_ordinal spec i r)"
    unfolding none_stale_def ensure_ordinal_containers Let_def
    using Cons.prems by (auto simp: none_stale_def split: if_splits dest!: in_AList_update)
  with Cons show ?case by simp
qed simp

lemma ordinals_base:
  "map_of (fr_containers (fold (ensure_ordinal spec) xs r)) (cs_Name spec) = map_of (fr_containers r) (cs_Name spec)"
  by (induction xs arbitrary: r)
    (simp_all add: ensure_ordinal_containers Let_def update_conv OrdinalName_longer(1) [symmetric] del: OrdinalName_longer)

lemma members_named_iff: "rec \<in> set (members_named base r) \<longleftrightarrow> rec \<in> snd ` set (fr_containers r) \<and> cr_replicaBase rec = base"
  by (auto simp: members_named_def)

lemma replica_set_twice:
  assumes "distinct (map fst (fr_volumeFiles r))" "ensureReplicaSetLocked spec n r = (st, r1)"
  shows "ensureReplicaSetLocked spec n r1 = (st, r1)"
proof -
  have r1: "r1 = fold (ensure_ordinal spec) [0..<n] (drop_stale (cs_Name spec) n r)" "st = aggregateStateLocked (cs_Name spec) r1"
    using assms(2) by (auto simp: ensureReplicaSetLocked_def Let_def)
  have "none_stale (cs_Name spec) n r1" unfolding r1 by (rule none_stale_ordinals) (auto simp: none_stale_drop)
  then have "drop_stale (cs_Name spec) n r1 = r1" by (rule drop_none_stale)
  moreover have "fold (ensure_ordinal spec) [0..<n] r1 = r1"
    unfolding r1 by (rule ords.run_twice) (simp add: assms(1))
  ultimately show ?thesis using r1(2) by (simp add: ensureReplicaSetLocked_def Let_def)
qed

lemma drop_stale_map_of: "map_of (fr_containers (drop_stale base n r)) k = Some rec \<Longrightarrow>
    distinct (map fst (fr_containers r)) \<Longrightarrow> map_of (fr_containers r) k = Some rec"
  by (auto simp: drop_stale_def Let_def map_of_eq_Some_iff distinct_map_filter)

section \<open>The shape of the state\<close>

definition records_ok :: "(string \<times> containerRecord) list \<Rightarrow> bool" where
  "records_ok cs \<longleftrightarrow> distinct (map fst cs) \<and> (\<forall>(name, rec)\<in>set cs. cs_Name (cr_spec rec) = name \<and>
     validatePortAudiences (cr_spec rec) = None \<and>
     (cr_replicaBase rec \<noteq> [] \<longrightarrow> name = OrdinalName (cr_replicaBase rec) (cr_ordinal rec) \<and>
       (\<forall>(other, rec')\<in>set cs. other = cr_replicaBase rec \<longrightarrow> cr_replicaBase rec' \<noteq> [])))"

definition fake_wf :: "FakeRuntime \<Rightarrow> bool" where
  "fake_wf r \<longleftrightarrow> records_ok (fr_containers r) \<and>
     distinct (map fst (fr_networks r)) \<and> (\<forall>(name, spec)\<in>set (fr_networks r). ns_Name spec = name) \<and>
     distinct (map fst (fr_volumes r)) \<and> (\<forall>(name, spec)\<in>set (fr_volumes r). vs_Name spec = name) \<and>
     distinct (map fst (fr_volumeFiles r))"

text \<open>The states the methods of the runtime lead to; containers are given a name.\<close>

inductive fake_reaches :: "FakeRuntime \<Rightarrow> bool" where
  reach_new: "fake_reaches New_fake"
| reach_network: "fake_reaches r \<Longrightarrow> fake_reaches (fake_EnsureNetwork spec r)"
| reach_no_network: "fake_reaches r \<Longrightarrow> fake_reaches (snd (fake_RemoveNetwork name r))"
| reach_volume: "fake_reaches r \<Longrightarrow> fake_reaches (fake_EnsureVolume vol r)"
| reach_no_volume: "fake_reaches r \<Longrightarrow> fake_reaches (fake_RemoveVolume name r)"
| reach_container: "fake_reaches r \<Longrightarrow> cs_Name run \<noteq> [] \<Longrightarrow> fake_reaches (snd (fake_EnsureContainer run r))"
| reach_no_container: "fake_reaches r \<Longrightarrow> fake_reaches (fake_Remove name r)"

lemma records_okD:
  assumes "records_ok cs" "(n, r) \<in> set cs"
  shows "cs_Name (cr_spec r) = n" "validatePortAudiences (cr_spec r) = None"
    "cr_replicaBase r \<noteq> [] \<Longrightarrow> n = OrdinalName (cr_replicaBase r) (cr_ordinal r)"
    "\<lbrakk>cr_replicaBase r \<noteq> []; (cr_replicaBase r, r') \<in> set cs\<rbrakk> \<Longrightarrow> cr_replicaBase r' \<noteq> []"
  using assms by (simp_all add: records_ok_def) blast+

lemma records_okI:
  assumes "distinct (map fst cs)"
    and "\<And>n r. (n, r) \<in> set cs \<Longrightarrow> cs_Name (cr_spec r) = n \<and> validatePortAudiences (cr_spec r) = None"
    and "\<And>n r. (n, r) \<in> set cs \<Longrightarrow> cr_replicaBase r \<noteq> [] \<Longrightarrow> n = OrdinalName (cr_replicaBase r) (cr_ordinal r)"
    and "\<And>n r r'. (n, r) \<in> set cs \<Longrightarrow> (cr_replicaBase r, r') \<in> set cs \<Longrightarrow> cr_replicaBase r \<noteq> [] \<Longrightarrow> cr_replicaBase r' \<noteq> []"
  shows "records_ok cs"
  unfolding records_ok_def
proof (intro conjI ballI assms(1), clarify)
  fix n r assume x: "(n, r) \<in> set cs"
  show "cs_Name (cr_spec r) = n \<and> validatePortAudiences (cr_spec r) = None \<and>
    (cr_replicaBase r \<noteq> [] \<longrightarrow> n = OrdinalName (cr_replicaBase r) (cr_ordinal r) \<and>
     (\<forall>(other, rec')\<in>set cs. other = cr_replicaBase r \<longrightarrow> cr_replicaBase rec' \<noteq> []))"
    using assms(2,3) [OF x] assms(4) [OF x] by auto
qed

lemma records_ok_subset:
  assumes "records_ok cs" "set ds \<subseteq> set cs" "distinct (map fst ds)"
  shows "records_ok ds"
proof (rule records_okI [OF assms(3)])
  fix n r assume x: "(n, r) \<in> set ds"
  note old = records_okD [OF assms(1) subsetD [OF assms(2) x]]
  show "cs_Name (cr_spec r) = n \<and> validatePortAudiences (cr_spec r) = None" using old(1,2) ..
  show "cr_replicaBase r \<noteq> [] \<Longrightarrow> n = OrdinalName (cr_replicaBase r) (cr_ordinal r)" by (rule old(3))
  show "(cr_replicaBase r, r') \<in> set ds \<Longrightarrow> cr_replicaBase r \<noteq> [] \<Longrightarrow> cr_replicaBase r' \<noteq> []" for r'
    using old(4) subsetD [OF assms(2)] by blast
qed

lemma records_ok_update:
  assumes "records_ok cs" "cs_Name (cr_spec rec) = name" "validatePortAudiences (cr_spec rec) = None"
    and "cr_replicaBase rec \<noteq> [] \<Longrightarrow> name = OrdinalName (cr_replicaBase rec) (cr_ordinal rec) \<and>
      (\<forall>(other, rec')\<in>set cs. other = cr_replicaBase rec \<longrightarrow> cr_replicaBase rec' \<noteq> [])"
    and "cr_replicaBase rec = [] \<Longrightarrow> \<forall>(other, rec')\<in>set cs. cr_replicaBase rec' \<noteq> name"
    and "name \<noteq> []"
  shows "records_ok (AList.update name rec cs)"
proof -
  note old = records_okD [OF assms(1)]
  have d: "distinct (map fst (AList.update name rec cs))" using assms(1) by (simp add: records_ok_def distinct_update)
  have m: "x = (name, rec) \<or> x \<in> set cs" if "x \<in> set (AList.update name rec cs)" for x using that by (rule in_AList_update)
  have base: "cr_replicaBase r' \<noteq> []"
    if x: "(n, r) \<in> set (AList.update name rec cs)" and y: "(cr_replicaBase r, r') \<in> set (AList.update name rec cs)"
      and b: "cr_replicaBase r \<noteq> []" for n r r'
  proof
    assume e: "cr_replicaBase r' = []"
    from m [OF x] m [OF y] show False
    proof (elim disjE)
      assume "(n, r) = (name, rec)" "(cr_replicaBase r, r') = (name, rec)"
      with b e show False by simp
    next
      assume "(n, r) = (name, rec)" "(cr_replicaBase r, r') \<in> set cs"
      with b e assms(4) show False by auto
    next
      assume "(n, r) \<in> set cs" "(cr_replicaBase r, r') = (name, rec)"
      with b e assms(5) show False by auto
    next
      assume "(n, r) \<in> set cs" "(cr_replicaBase r, r') \<in> set cs"
      with old(4) [OF _ b] e show False by blast
    qed
  qed
  show ?thesis
  proof (rule records_okI [OF d])
    fix n r assume x: "(n, r) \<in> set (AList.update name rec cs)"
    show "cs_Name (cr_spec r) = n \<and> validatePortAudiences (cr_spec r) = None"
      using m [OF x] assms(2,3) old(1,2) [of n r] by auto
    show "n = OrdinalName (cr_replicaBase r) (cr_ordinal r)" if "cr_replicaBase r \<noteq> []"
      using m [OF x] that assms(4) old(3) [of n r] by auto
  qed (rule base)
qed

lemma audiences_ordinal [simp]: "validatePortAudiences (ordinalContainerSpec spec i) = None \<longleftrightarrow> validatePortAudiences spec = None"
  by (simp add: validatePortAudiences_def ordinalContainerSpec_def split: option.splits)

lemma volumes_wf:
  "fake_wf r \<Longrightarrow> fake_wf (ensure_ordinal_volume spec vm r)"
  by (auto simp: fake_wf_def ensure_ordinal_volume_def distinct_update dest!: in_AList_update)

lemma fold_wf: "(\<And>x r. fake_wf r \<Longrightarrow> fake_wf (f x r)) \<Longrightarrow> fake_wf r \<Longrightarrow> fake_wf (fold f xs r)"
  by (induction xs arbitrary: r) auto

lemma ensureOne_wf:
  assumes "fake_wf r" "records_ok (fr_containers (ensureOneLocked spec base i r))"
  shows "fake_wf (ensureOneLocked spec base i r)"
  using assms by (simp add: fake_wf_def fold_update_distinct)


definition no_single :: "string \<Rightarrow> FakeRuntime \<Rightarrow> bool" where
  "no_single name r \<longleftrightarrow> (case map_of (fr_containers r) name of None \<Rightarrow> True | Some rec \<Rightarrow> cr_replicaBase rec \<noteq> [])"

lemma ensure_ordinal_wf:
  assumes wf: "fake_wf r" and free: "no_single (cs_Name spec) r"
    and spec: "validatePortAudiences spec = None" "cs_Name spec \<noteq> []"
  shows "fake_wf (ensure_ordinal spec i r)"
proof -
  let ?o = "ordinalContainerSpec spec i" and ?cs = "fr_containers r"
  let ?r = "if cs_StableIdentity spec then fold (ensure_ordinal_volume spec) (cs_Volumes ?o) r else r"
  let ?rec = "\<lparr>cr_spec = ?o, cr_replicaBase = cs_Name spec, cr_ordinal = i\<rparr>"
  have d: "records_ok ?cs" using wf by (simp add: fake_wf_def)
  have none: "\<forall>(other, rec')\<in>set ?cs. other = cs_Name spec \<longrightarrow> cr_replicaBase rec' \<noteq> []"
  proof clarify
    fix rec' assume "(cs_Name spec, rec') \<in> set ?cs" "cr_replicaBase rec' = []"
    with d have "map_of ?cs (cs_Name spec) = Some rec'" "cr_replicaBase rec' = []" by (simp_all add: records_ok_def)
    with free show False by (simp add: no_single_def)
  qed
  have "records_ok (AList.update (OrdinalName (cs_Name spec) i) ?rec ?cs)"
    by (rule records_ok_update [OF d]) (use none spec in auto)
  then have "records_ok (fr_containers (ensureOneLocked ?o (cs_Name spec) i ?r))"
    using d by (simp add: ensureOne_containers)
  moreover have "fake_wf ?r" using wf by (simp add: fold_wf volumes_wf)
  ultimately show ?thesis unfolding ensure_ordinal_def Let_def by (rule ensureOne_wf [rotated])
qed

lemma ordinals_wf:
  "fake_wf r \<Longrightarrow> no_single (cs_Name spec) r \<Longrightarrow> validatePortAudiences spec = None \<Longrightarrow> cs_Name spec \<noteq> [] \<Longrightarrow>
    fake_wf (fold (ensure_ordinal spec) xs r)"
proof (induction xs arbitrary: r)
  case (Cons i xs)
  have "no_single (cs_Name spec) (ensure_ordinal spec i r)"
    using Cons.prems(2) ordinals_base [of spec "[i]" r] by (simp add: no_single_def)
  with Cons show ?case by (simp add: ensure_ordinal_wf)
qed simp

lemma containers_sub_wf:
  "fake_wf r \<Longrightarrow> set cs \<subseteq> set (fr_containers r) \<Longrightarrow> distinct (map fst cs) \<Longrightarrow> fake_wf (mutated (r\<lparr>fr_containers := cs\<rparr>))"
  "fake_wf r \<Longrightarrow> set cs \<subseteq> set (fr_containers r) \<Longrightarrow> distinct (map fst cs) \<Longrightarrow> fake_wf (r\<lparr>fr_containers := cs, fr_MutationCount := n\<rparr>)"
  using records_ok_subset by (auto simp: fake_wf_def)

lemma wf_distinct: "fake_wf r \<Longrightarrow> distinct (map fst (fr_containers r))"
  by (simp add: fake_wf_def records_ok_def)

lemma drop_stale_wf: "fake_wf r \<Longrightarrow> fake_wf (drop_stale base n r)"
  unfolding drop_stale_def Let_def
  by (rule containers_sub_wf) (auto simp: fake_wf_def records_ok_def distinct_map_filter)

lemma no_single_drop: "fake_wf r \<Longrightarrow> no_single base r \<Longrightarrow> no_single base (drop_stale base n r)"
  using drop_stale_map_of [OF _ wf_distinct, of base n r base] unfolding no_single_def
  by (cases "map_of (fr_containers (drop_stale base n r)) base") auto

lemma Remove_wf: "fake_wf r \<Longrightarrow> fake_wf (fake_Remove name r)"
proof -
  assume wf: "fake_wf r"
  note d = wf_distinct [OF wf]
  have "fake_wf (mutated (r\<lparr>fr_containers := AList.delete name (fr_containers r)\<rparr>))"
    by (rule containers_sub_wf(1) [OF wf]) (auto simp: d distinct_delete dest: in_AList_delete)
  moreover have "fake_wf (mutated (r\<lparr>fr_containers := filter P (fr_containers r)\<rparr>))" for P
    by (rule containers_sub_wf(1) [OF wf]) (auto simp: d distinct_map_filter)
  ultimately show ?thesis using wf by (simp add: fake_Remove_def Let_def)
qed

lemma EnsureContainer_wf:
  assumes "fake_wf r" "cs_Name spec \<noteq> []"
  shows "fake_wf (snd (fake_EnsureContainer spec r))"
proof (cases "validatePortAudiences spec")
  case None
  let ?n = "nat (ReplicaCount spec)" and ?rec = "\<lparr>cr_spec = spec, cr_replicaBase = [], cr_ordinal = 0\<rparr>"
  have single: "fake_wf (ensureOneLocked spec [] 0 r)" if "members_named (cs_Name spec) r = []"
  proof (rule ensureOne_wf [OF assms(1)])
    have d: "records_ok (fr_containers r)" using assms(1) by (simp add: fake_wf_def)
    have "records_ok (AList.update (cs_Name spec) ?rec (fr_containers r))"
      by (rule records_ok_update [OF d]) (use that None assms(2) in \<open>auto simp: members_named_def filter_empty_conv\<close>)
    with d show "records_ok (fr_containers (ensureOneLocked spec [] 0 r))" by (simp add: ensureOne_containers)
  qed
  have "fake_wf (fold (ensure_ordinal spec) [0..<?n] (drop_stale (cs_Name spec) ?n r))" if "no_single (cs_Name spec) r"
    using that assms None by (intro ordinals_wf drop_stale_wf no_single_drop)
  with single None assms(1) show ?thesis
    by (auto simp: fake_EnsureContainer_def Let_def ensureReplicaSetLocked_def no_single_def split: option.splits)
qed (use assms in \<open>simp add: fake_EnsureContainer_def\<close>)

lemma network_wf: "fake_wf r \<Longrightarrow> fake_wf (fake_EnsureNetwork spec r)" "fake_wf r \<Longrightarrow> fake_wf (snd (fake_RemoveNetwork name r))"
  by (auto simp: fake_wf_def fake_EnsureNetwork_def fake_RemoveNetwork_def distinct_update distinct_delete
      dest!: in_AList_update in_AList_delete split: option.splits)

lemma volume_wf: "fake_wf r \<Longrightarrow> fake_wf (fake_EnsureVolume vol r)" "fake_wf r \<Longrightarrow> fake_wf (fake_RemoveVolume name r)"
  by (auto simp: fake_wf_def fake_EnsureVolume_def fake_RemoveVolume_def distinct_update distinct_delete
      distinct_map_filter dest!: in_AList_update in_AList_delete split: option.splits)

lemma reaches_wf: "fake_reaches r \<Longrightarrow> fake_wf r"
proof (induction rule: fake_reaches.induct)
  case reach_new
  show ?case by (simp add: fake_wf_def New_fake_def records_ok_def)
qed (simp_all add: network_wf volume_wf EnsureContainer_wf Remove_wf)

text \<open>
  C32: ensuring a container is idempotent. When \<open>EnsureContainer\<close> succeeds, repeating it with the same
  specification succeeds with the same state and changes nothing: no record, no volume, no file
  and not the count of mutations. This holds for single containers and for replica sets, with or without
  stable identity.
\<close>

theorem ensure_idempotent:
  assumes "fake_reaches r" "cs_Name spec \<noteq> []"
    and "fake_EnsureContainer spec r = (Inr st, r1)"
  shows "fake_EnsureContainer spec r1 = (Inr st, r1)"
proof -
  have wf: "fake_wf r" using assms(1) by (rule reaches_wf)
  then have files: "distinct (map fst (fr_volumeFiles r))" by (simp add: fake_wf_def)
  let ?single = "ReplicaCount spec \<le> 1 \<and> \<not> cs_StableIdentity spec"
  from assms(3) have ok: "validatePortAudiences spec = None"
    by (auto simp: fake_EnsureContainer_def split: option.splits)
  show ?thesis
  proof (cases ?single)
    case True
    with assms(3) ok have r1: "members_named (cs_Name spec) r = []" "st = stateOf spec" "r1 = ensureOneLocked spec [] 0 r"
      by (auto simp: fake_EnsureContainer_def Let_def split: if_splits)
    have "members_named (cs_Name spec) r1 = []"
    proof -
      have "rec \<notin> set (members_named (cs_Name spec) r1)" for rec
        using r1(1) assms(2) set_AList_update [of "cs_Name spec" "\<lparr>cr_spec = spec, cr_replicaBase = [], cr_ordinal = 0\<rparr>" "fr_containers r"]
        unfolding members_named_iff r1(3) ensureOne_containers
        by (auto simp: members_named_def filter_empty_conv split: if_splits)
      then show ?thesis by (metis list.set_intros(1) neq_Nil_conv)
    qed
    moreover have "ensureOneLocked spec [] 0 r1 = r1"
      unfolding r1(3) using files by (intro ensureOne_idle ensureOne_settles) (simp add: fold_update_distinct)
    ultimately show ?thesis using True ok r1(2) by (auto simp: fake_EnsureContainer_def Let_def)
  next
    case False
    let ?n = "nat (ReplicaCount spec)"
    from assms(3) ok False have set: "ensureReplicaSetLocked spec ?n r = (st, r1)"
      and base: "\<not> (case map_of (fr_containers r) (cs_Name spec) of None \<Rightarrow> False | Some rec \<Rightarrow> cr_replicaBase rec = [])"
      by (auto simp: fake_EnsureContainer_def Let_def split: if_splits prod.splits)
    have "map_of (fr_containers r1) (cs_Name spec) = map_of (fr_containers (drop_stale (cs_Name spec) ?n r)) (cs_Name spec)"
      using set by (auto simp: ensureReplicaSetLocked_def Let_def ordinals_base)
    with base have "\<not> (case map_of (fr_containers r1) (cs_Name spec) of None \<Rightarrow> False | Some rec \<Rightarrow> cr_replicaBase rec = [])"
      using drop_stale_map_of [OF _ wf_distinct [OF wf]] by (auto split: option.splits)
    with replica_set_twice [OF files set] False ok show ?thesis
      by (auto simp: fake_EnsureContainer_def Let_def)
  qed
qed


text \<open>
  C33: the state of the in-memory runtime keeps its type. Whatever sequence of its methods has run, every
  container, network and volume is stored once and under its own name, every stored container declares an
  audience for each of its ports, a member of a replica set carries the name its ordinal gives it, and no
  name is both a single container and the base of a replica set.
\<close>

theorem fake_state_typed:
  assumes "fake_reaches r"
  shows "fake_wf r"
  using assms by (rule reaches_wf)

definition sample_run :: RunSpec where
  "sample_run = \<lparr>cs_Name = ''db'', cs_Replicas = 2, cs_Networks = [''n''], cs_Labels = [], cs_Resources = None, cs_AllowFromPeers = [],
     cs_AccessMode = [], cs_Image = ''img'', cs_PullPolicy = [], cs_ImagePullAuth = None, cs_Cmd = [], cs_Entrypoint = [], cs_Aliases = [],
     cs_Volumes = [\<lparr>vm_VolumeName = ''data'', vm_MountPath = ''/d''\<rparr>],
     cs_Files = [\<lparr>fm_Path = ''/d/f'', fm_Content = ''x'', fm_Mode = 0\<rparr>], cs_Env = [],
     cs_Ports = [\<lparr>pb_HostIP = [], pb_HostPort = 0, pb_ContainerPort = 5432, pb_Audience = ''internal'', pb_Protocol = []\<rparr>],
     cs_HealthCheck = None, cs_RestartPolicy = None, cs_Security = None, cs_LogConfig = None, cs_Sysctls = [], cs_StableIdentity = True\<rparr>"

theorem fake_state_typed_witness:
  "fake_wf (snd (fake_EnsureContainer sample_run New_fake))"
  by (rule fake_state_typed) (intro fake_reaches.intros, simp add: sample_run_def)

theorem ensure_idempotent_witness:
  "fst (fake_EnsureContainer sample_run New_fake) = Inr \<lparr>cst_Name = ''db'', cst_ID = ''fake-db'', cst_Image = ''img'', cst_Running = True,
     cst_Healthy = True, cst_Labels = [(LabelReplicaBase, ''db''), (LabelReplicaOrdinal, ''0'')], cst_Env = [],
     cst_Ports = [\<lparr>pb_HostIP = [], pb_HostPort = 0, pb_ContainerPort = 5432, pb_Audience = ''internal'', pb_Protocol = ''tcp''\<rparr>],
     cst_ReadyReplicas = 2\<rparr> \<and>
   fake_EnsureContainer sample_run (snd (fake_EnsureContainer sample_run New_fake)) = fake_EnsureContainer sample_run New_fake"
proof -
  let ?x = "fake_EnsureContainer sample_run New_fake"
  have e: "fst ?x = Inr \<lparr>cst_Name = ''db'', cst_ID = ''fake-db'', cst_Image = ''img'', cst_Running = True,
     cst_Healthy = True, cst_Labels = [(LabelReplicaBase, ''db''), (LabelReplicaOrdinal, ''0'')], cst_Env = [],
     cst_Ports = [\<lparr>pb_HostIP = [], pb_HostPort = 0, pb_ContainerPort = 5432, pb_Audience = ''internal'', pb_Protocol = ''tcp''\<rparr>],
     cst_ReadyReplicas = 2\<rparr>" (is "_ = Inr ?st") by code_simp
  have n: "cs_Name sample_run \<noteq> []" by (simp add: sample_run_def)
  from e have x: "?x = (Inr ?st, snd ?x)" by (metis prod.collapse)
  have "fake_EnsureContainer sample_run (snd ?x) = (Inr ?st, snd ?x)"
    by (rule ensure_idempotent [OF reach_new n x])
  with e x show ?thesis by simp
qed


end
