(* ===== verification/Garbage.thy ===== *)
theory Garbage
  imports Fake_Laws
begin

text \<open>
  Orphaned runtime objects: \<open>platformctl gc plan\<close> and \<open>gc apply\<close> of \<open>cmd/platformctl/gc.go\<close>, over the
  operations of the runtime port they call. The state document is what loading the store gives; printing is
  left out. The theorems run the commands on the in-memory runtime.
\<close>

section \<open>Orphans\<close>

record gcOrphan =
  go_Object :: string
  go_Namespace :: string
  go_Kind :: string
  go_Name :: string

record gcApplyOutput =
  ga_Removed :: "gcOrphan list"
  ga_Failed :: "(string \<times> string) list"

record 'w gc_port =
  gp_ListManaged :: "'w \<Rightarrow> string + ContainerState list"
  gp_ListManagedNetworks :: "'w \<Rightarrow> string + ManagedObject list"
  gp_ListManagedVolumes :: "'w \<Rightarrow> string + ManagedObject list"
  gp_Remove :: "string \<Rightarrow> 'w \<Rightarrow> string option \<times> 'w"
  gp_RemoveNetwork :: "string \<Rightarrow> 'w \<Rightarrow> string option \<times> 'w"
  gp_RemoveVolume :: "string \<Rightarrow> 'w \<Rightarrow> string option \<times> 'w"

datatype gc_error =
    NeedsConfirmation
  | GCRuntime registry_error
  | GCState string
  | ListContainers string
  | ListNetworks string
  | ListVolumes string

definition state_accounts :: "State \<Rightarrow> string \<Rightarrow> string \<Rightarrow> string \<Rightarrow> bool" where
  "state_accounts st namespace kind name \<longleftrightarrow>
     (if kind = [] \<or> name = [] then True
      else if kind = ''MediationFabric'' then st_MediationFabric st \<noteq> None
      else map_of (st_Resources st) (Key (NormalizeNamespace namespace) kind name) \<noteq> None)"

definition orphan_entry :: "State \<Rightarrow> string \<Rightarrow> string \<Rightarrow> labels \<Rightarrow> gcOrphan option" where
  "orphan_entry st prefix name ls =
     (let ns = get_or [] ls LabelNamespace; kind = get_or [] ls LabelKind; n = get_or [] ls LabelName in
      if state_accounts st ns kind n then None
      else Some \<lparr>go_Object = prefix @ name, go_Namespace = ns, go_Kind = kind, go_Name = n\<rparr>)"

definition gcOrphans :: "'w gc_port \<Rightarrow> State \<Rightarrow> 'w \<Rightarrow> gc_error + gcOrphan list" where
  "gcOrphans rt st w =
     (case gp_ListManaged rt w of Inl err \<Rightarrow> Inl (ListContainers err) | Inr containers \<Rightarrow>
       (let os1 = List.map_filter (\<lambda>c. orphan_entry st ''container:'' (cst_Name c) (cst_Labels c)) containers in
        case gp_ListManagedNetworks rt w of Inl err \<Rightarrow> Inl (ListNetworks err) | Inr nets \<Rightarrow>
          (let os2 = os1 @ List.map_filter (\<lambda>n. orphan_entry st ''network:'' (mo_Name n) (mo_Labels n)) nets in
           case gp_ListManagedVolumes rt w of Inl err \<Rightarrow> Inl (ListVolumes err) | Inr vols \<Rightarrow>
             (let os3 = os2 @ List.map_filter (\<lambda>v. orphan_entry st ''volume:'' (mo_Name v) (mo_Labels v)) vols
              in Inr (sort_key go_Object os3)))))"

definition app_gcOrphans :: "('p, 'w gc_port) Registry \<Rightarrow> string + State \<Rightarrow> string \<Rightarrow> 'w \<Rightarrow> gc_error + gcOrphan list" where
  "app_gcOrphans reg load runtimeType w =
     (case registry_Runtime reg runtimeType [] of Inl err \<Rightarrow> Inl (GCRuntime err) | Inr rt \<Rightarrow>
       (case load of Inl err \<Rightarrow> Inl (GCState err) | Inr st \<Rightarrow> gcOrphans rt st w))"

definition gc_remove :: "'w gc_port \<Rightarrow> gcOrphan \<Rightarrow> 'w \<Rightarrow> string option \<times> 'w" where
  "gc_remove rt orphan w = (case Cut (CHR '':'') (go_Object orphan) of (kind, name, _) \<Rightarrow>
     if kind = ''container'' then gp_Remove rt name w
     else if kind = ''network'' then gp_RemoveNetwork rt name w
     else if kind = ''volume'' then gp_RemoveVolume rt name w
     else (Some (''unknown object kind '' @ kind), w))"

definition gc_step :: "'w gc_port \<Rightarrow> gcOrphan \<Rightarrow> gcApplyOutput \<times> 'w \<Rightarrow> gcApplyOutput \<times> 'w" where
  "gc_step rt orphan s = (case s of (out, w) \<Rightarrow> (case gc_remove rt orphan w of
     (Some rmErr, w') \<Rightarrow> (out\<lparr>ga_Failed := AList.update (go_Object orphan) rmErr (ga_Failed out)\<rparr>, w')
   | (None, w') \<Rightarrow> (out\<lparr>ga_Removed := ga_Removed out @ [orphan]\<rparr>, w')))"

definition gc_loop :: "'w gc_port \<Rightarrow> gcOrphan list \<Rightarrow> 'w \<Rightarrow> gcApplyOutput \<times> 'w" where
  "gc_loop rt orphans w = fold (gc_step rt) orphans (\<lparr>ga_Removed = [], ga_Failed = []\<rparr>, w)"

text \<open>The result carries what was printed; the command exits with an error when something failed.\<close>

definition gc_apply ::
  "('p, 'w gc_port) Registry \<Rightarrow> string + State \<Rightarrow> string \<Rightarrow> bool \<Rightarrow> 'w \<Rightarrow> (gc_error + gcApplyOutput) \<times> 'w" where
  "gc_apply reg load runtimeType destructiveOK w =
     (if \<not> destructiveOK then (Inl NeedsConfirmation, w)
      else case app_gcOrphans reg load runtimeType w of Inl err \<Rightarrow> (Inl err, w) | Inr orphans \<Rightarrow>
        (case registry_Runtime reg runtimeType [] of Inl err \<Rightarrow> (Inl (GCRuntime err), w) | Inr rt \<Rightarrow>
          (case gc_loop rt orphans w of (out, w') \<Rightarrow> (Inr out, w'))))"

section \<open>On the in-memory runtime\<close>

definition fake_gc :: "(fake_error \<Rightarrow> string) \<Rightarrow> FakeRuntime gc_port" where
  "fake_gc msg = \<lparr>gp_ListManaged = (\<lambda>r. Inr (fake_ListManaged r)), gp_ListManagedNetworks = (\<lambda>r. Inr (fake_ListManagedNetworks r)),
     gp_ListManagedVolumes = (\<lambda>r. Inr (fake_ListManagedVolumes r)), gp_Remove = (\<lambda>n r. (None, fake_Remove n r)),
     gp_RemoveNetwork = (\<lambda>n r. (case fake_RemoveNetwork n r of (err, r') \<Rightarrow> (map_option msg err, r'))),
     gp_RemoveVolume = (\<lambda>n r. (None, fake_RemoveVolume n r))\<rparr>"


definition owned_by_nobody :: "State \<Rightarrow> labels \<Rightarrow> bool" where
  "owned_by_nobody st ls \<longleftrightarrow> is_managed ls \<and>
     \<not> state_accounts st (get_or [] ls LabelNamespace) (get_or [] ls LabelKind) (get_or [] ls LabelName)"

definition entry_of :: "string \<Rightarrow> string \<times> labels \<Rightarrow> gcOrphan" where
  "entry_of prefix x = \<lparr>go_Object = prefix @ fst x, go_Namespace = get_or [] (snd x) LabelNamespace,
     go_Kind = get_or [] (snd x) LabelKind, go_Name = get_or [] (snd x) LabelName\<rparr>"

definition orphans_in :: "State \<Rightarrow> string \<Rightarrow> (string \<times> labels) list \<Rightarrow> gcOrphan list" where
  "orphans_in st prefix xs = map (entry_of prefix) (filter (\<lambda>x. owned_by_nobody st (snd x)) xs)"

definition objects_of :: "('b \<Rightarrow> labels) \<Rightarrow> (string \<times> 'b) list \<Rightarrow> (string \<times> labels) list" where
  "objects_of lab xs = map (\<lambda>x. (fst x, lab (snd x))) xs"

lemma objects_of_names [simp]: "map fst (objects_of lab xs) = map fst xs"
  by (simp add: objects_of_def)

text \<open>The three kinds of object, each as names with labels.\<close>

definition container_objects :: "FakeRuntime \<Rightarrow> (string \<times> labels) list" where
  "container_objects r = objects_of (\<lambda>rec. cs_Labels (cr_spec rec)) (fr_containers r)"
definition network_objects :: "FakeRuntime \<Rightarrow> (string \<times> labels) list" where
  "network_objects r = objects_of ns_Labels (fr_networks r)"
definition volume_objects :: "FakeRuntime \<Rightarrow> (string \<times> labels) list" where
  "volume_objects r = objects_of vs_Labels (fr_volumes r)"

lemma map_filter_orphans:
  assumes "map (\<lambda>x. (nm x, ls x)) ys = filter (\<lambda>x. is_managed (snd x)) xs"
  shows "List.map_filter (\<lambda>c. orphan_entry st prefix (nm c) (ls c)) ys = orphans_in st prefix xs"
proof -
  have "List.map_filter (\<lambda>c. orphan_entry st prefix (nm c) (ls c)) ys =
      List.map_filter (\<lambda>x. orphan_entry st prefix (fst x) (snd x)) (map (\<lambda>x. (nm x, ls x)) ys)"
    by (simp add: List.map_filter_def filter_map comp_def)
  also have "\<dots> = List.map_filter (\<lambda>x. orphan_entry st prefix (fst x) (snd x)) (filter (\<lambda>x. is_managed (snd x)) xs)"
    by (simp only: assms)
  also have "\<dots> = orphans_in st prefix xs"
    by (induction xs) (auto simp: orphans_in_def List.map_filter_simps orphan_entry_def Let_def owned_by_nobody_def entry_of_def)
  finally show ?thesis .
qed

lemma fake_orphans:
  assumes "fake_wf r"
  shows "gcOrphans (fake_gc msg) st r = Inr (sort_key go_Object (orphans_in st ''container:'' (container_objects r) @
    orphans_in st ''network:'' (network_objects r) @ orphans_in st ''volume:'' (volume_objects r)))"
proof -
  have names: "\<forall>x\<in>set (fr_containers r). cs_Name (cr_spec (snd x)) = fst x"
    using assms records_okD(1) by (auto simp: fake_wf_def)
  have cs: "map ((\<lambda>c. (cst_Name c, cst_Labels c)) \<circ> (stateOf \<circ> cr_spec)) (filter (\<lambda>rec. is_managed (cs_Labels (cr_spec rec))) (map snd xs)) =
      filter (\<lambda>x. is_managed (snd x)) (objects_of (\<lambda>rec. cs_Labels (cr_spec rec)) xs)"
    if "\<forall>x\<in>set xs. cs_Name (cr_spec (snd x)) = fst x" for xs
    using that by (induction xs) (auto simp: stateOf_def objects_of_def)
  have "map (\<lambda>c. (cst_Name c, cst_Labels c)) (fake_ListManaged r) = filter (\<lambda>x. is_managed (snd x)) (container_objects r)"
    using cs [OF names] by (simp add: fake_ListManaged_def container_objects_def)
  moreover have "map (\<lambda>n. (mo_Name n, mo_Labels n)) (fake_ListManagedNetworks r) = filter (\<lambda>x. is_managed (snd x)) (network_objects r)"
    by (simp add: fake_ListManagedNetworks_def network_objects_def objects_of_def filter_map comp_def split_def)
  moreover have "map (\<lambda>n. (mo_Name n, mo_Labels n)) (fake_ListManagedVolumes r) = filter (\<lambda>x. is_managed (snd x)) (volume_objects r)"
    by (simp add: fake_ListManagedVolumes_def volume_objects_def objects_of_def filter_map comp_def split_def)
  ultimately show ?thesis
    unfolding gcOrphans_def fake_gc_def Let_def by (simp add: map_filter_orphans)
qed

section \<open>Sorted by kind of object\<close>

lemma sort_key_parts:
  fixes f :: "'a \<Rightarrow> 'b :: linorder"
  assumes "\<And>x y. x \<in> set xs \<Longrightarrow> y \<in> set ys \<Longrightarrow> f x \<le> f y"
  shows "sort_key f (xs @ ys) = sort_key f xs @ sort_key f ys"
proof (rule properties_for_sort_key)
  show "sorted (map f (sort_key f xs @ sort_key f ys))" using assms by (auto simp: sorted_append)
  have flip: "(\<lambda>x. f k = f x) = (\<lambda>x. f x = f k)" for k by auto
  show "filter (\<lambda>x. f k = f x) (sort_key f xs @ sort_key f ys) = filter (\<lambda>x. f k = f x) (xs @ ys)" for k
    unfolding flip by (simp add: sort_key_stable)
qed simp

lemma prefix_less: "''container:'' @ s \<le> ''network:'' @ t" "''container:'' @ s \<le> ''volume:'' @ t" "''network:'' @ s \<le> ''volume:'' @ t"
  by (simp_all add: Cons_less_Cons Cons_le_Cons)

lemma orphans_sorted:
  "sort_key go_Object (orphans_in st ''container:'' cs @ orphans_in st ''network:'' ns @ orphans_in st ''volume:'' vs) =
    sort_key go_Object (orphans_in st ''container:'' cs) @ sort_key go_Object (orphans_in st ''network:'' ns) @
    sort_key go_Object (orphans_in st ''volume:'' vs)"
  using prefix_less by (subst sort_key_parts, auto simp: orphans_in_def entry_of_def sort_key_parts)+


section \<open>Removing one kind of object\<close>

text \<open>
  What removing an object of one kind does: the object is deleted from its own list and nothing else the
  other kinds depend on changes, unless what stays behind makes it stuck. The loop of \<open>gc apply\<close> then removes
  exactly the listed objects that are not stuck and reports the others.
\<close>

locale sweeping =
  fixes rt :: "'s gc_port" and prefix :: string and view :: "'s \<Rightarrow> (string \<times> 'b) list" and rest :: "'s \<Rightarrow> 'r"
    and stuck :: "'r \<Rightarrow> string \<Rightarrow> string option"
  assumes removes: "go_Object orphan = prefix @ name \<Longrightarrow> name \<in> fst ` set (view s) \<Longrightarrow> stuck (rest s) name = None \<Longrightarrow>
      \<exists>s'. gc_remove rt orphan s = (None, s') \<and> view s' = AList.delete name (view s) \<and> rest s' = rest s"
    and refuses: "go_Object orphan = prefix @ name \<Longrightarrow> name \<in> fst ` set (view s) \<Longrightarrow> stuck (rest s) name = Some e \<Longrightarrow>
      gc_remove rt orphan s = (Some e, s)"
begin

abbreviation held :: "'r \<Rightarrow> gcOrphan \<Rightarrow> string option" where
  "held c orphan \<equiv> stuck c (drop (length prefix) (go_Object orphan))"

lemma update_new: "k \<notin> fst ` set al \<Longrightarrow> AList.update k v al = al @ [(k, v)]"
  by (induction al) auto

definition outcome :: "'r \<Rightarrow> gcOrphan list \<Rightarrow> gcApplyOutput \<Rightarrow> gcApplyOutput" where
  "outcome c os out = out\<lparr>ga_Removed := ga_Removed out @ filter (\<lambda>x. held c x = None) os,
     ga_Failed := ga_Failed out @ map (\<lambda>x. (go_Object x, the (held c x))) (filter (\<lambda>x. held c x \<noteq> None) os)\<rparr>"

lemma outcome_Cons: "outcome c os (outcome c [x] out) = outcome c (x # os) out"
  by (simp add: outcome_def)

lemma step_outcome:
  assumes "go_Object x = prefix @ name" "name \<in> fst ` set (view s)" "go_Object x \<notin> fst ` set (ga_Failed out)"
  shows "\<exists>s1. gc_step rt x (out, s) = (outcome (rest s) [x] out, s1) \<and> rest s1 = rest s \<and>
    view s1 = filter (\<lambda>y. fst y \<noteq> name \<or> stuck (rest s) name \<noteq> None) (view s)"
proof (cases "stuck (rest s) name")
  case None
  then obtain s1 where "gc_remove rt x s = (None, s1)" "view s1 = AList.delete name (view s)" "rest s1 = rest s"
    using removes assms by blast
  with None assms show ?thesis by (auto simp: gc_step_def outcome_def AList.delete_eq intro!: filter_cong)
next
  case (Some e)
  with assms show ?thesis by (simp add: gc_step_def outcome_def refuses [OF assms(1,2) Some] update_new)
qed

lemma swept:
  assumes "distinct (map go_Object os)" "\<And>x. x \<in> set os \<Longrightarrow> \<exists>name\<in>fst ` set (view s). go_Object x = prefix @ name"
    and "fst ` set (ga_Failed out) \<inter> go_Object ` set os = {}"
  shows "\<exists>s'. fold (gc_step rt) os (out, s) = (outcome (rest s) os out, s') \<and> rest s' = rest s \<and>
    view s' = filter (\<lambda>x. prefix @ fst x \<notin> go_Object ` set os \<or> stuck (rest s) (fst x) \<noteq> None) (view s)"
  using assms
proof (induction os arbitrary: out s)
  case (Cons x os)
  obtain name where name: "go_Object x = prefix @ name" "name \<in> fst ` set (view s)"
    using Cons.prems(2) [of x] by (auto simp del: bex_simps)
  have free: "go_Object x \<notin> fst ` set (ga_Failed out)" "go_Object x \<notin> go_Object ` set os" "distinct (map go_Object os)"
    using Cons.prems(1,3) by auto
  obtain s1 where s1: "gc_step rt x (out, s) = (outcome (rest s) [x] out, s1)" "rest s1 = rest s"
    "view s1 = filter (\<lambda>y. fst y \<noteq> name \<or> stuck (rest s) name \<noteq> None) (view s)"
    using step_outcome [OF name free(1)] by blast
  have "\<exists>n\<in>fst ` set (view s1). go_Object y = prefix @ n" if y: "y \<in> set os" for y
  proof -
    obtain n where "n \<in> fst ` set (view s)" "go_Object y = prefix @ n" using Cons.prems(2) [of y] y by (auto simp del: bex_simps)
    with name(1) free(2) y show ?thesis by (force simp: s1(3))
  qed
  moreover have "fst ` set (ga_Failed (outcome (rest s) [x] out)) \<inter> go_Object ` set os = {}"
    using Cons.prems(3) free(2) by (auto simp: outcome_def)
  ultimately obtain s2 where s2: "fold (gc_step rt) os (outcome (rest s) [x] out, s1) = (outcome (rest s1) os (outcome (rest s) [x] out), s2)"
    "rest s2 = rest s1" "view s2 = filter (\<lambda>x. prefix @ fst x \<notin> go_Object ` set os \<or> stuck (rest s1) (fst x) \<noteq> None) (view s1)"
    using Cons.IH [OF free(3)] by blast
  have "view s2 = filter (\<lambda>y. prefix @ fst y \<notin> go_Object ` set (x # os) \<or> stuck (rest s) (fst y) \<noteq> None) (view s)"
    unfolding s2(3) s1(2,3) filter_filter using name by (intro filter_cong refl) auto
  with s1 s2 show ?case by (auto simp: outcome_Cons)
qed (simp add: outcome_def)

end


lemma Cut_prefixes:
  "Cut (CHR '':'') (''container:'' @ s) = (''container'', s, True)" "Cut (CHR '':'') (''network:'' @ s) = (''network'', s, True)"
  "Cut (CHR '':'') (''volume:'' @ s) = (''volume'', s, True)"
  using Cut_sep [of "CHR '':''" "''container''" s] Cut_sep [of "CHR '':''" "''network''" s] Cut_sep [of "CHR '':''" "''volume''" s]
  by simp_all

lemma gc_remove_kinds:
  "go_Object x = ''container:'' @ name \<Longrightarrow> gc_remove (fake_gc msg) x s = (None, fake_Remove name s)"
  "go_Object x = ''network:'' @ name \<Longrightarrow> gc_remove (fake_gc msg) x s =
    (map_option msg (fst (fake_RemoveNetwork name s)), snd (fake_RemoveNetwork name s))"
  "go_Object x = ''volume:'' @ name \<Longrightarrow> gc_remove (fake_gc msg) x s = (None, fake_RemoveVolume name s)"
  by (simp_all only: gc_remove_def Cut_prefixes prod.case) (simp_all add: fake_gc_def split_def)

definition in_use :: "(fake_error \<Rightarrow> string) \<Rightarrow> (string \<times> containerRecord) list \<Rightarrow> string \<Rightarrow> string option" where
  "in_use msg cs name = map_option (\<lambda>rec. msg (NetworkInUse name (cs_Name (cr_spec rec))))
     (find (\<lambda>rec. name \<in> set (cs_Networks (cr_spec rec))) (map snd cs))"

lemma in_use_None: "in_use msg cs name = None \<longleftrightarrow> (\<forall>x\<in>set cs. name \<notin> set (cs_Networks (cr_spec (snd x))))"
  by (auto simp: in_use_def find_None_iff)

interpretation gc_containers: sweeping "fake_gc msg" "''container:''" fr_containers "\<lambda>r. (fr_networks r, fr_volumes r)" "\<lambda>_ _. None" for msg
  by unfold_locales (simp_all only: gc_remove_kinds, auto simp: fake_Remove_def map_of_eq_None_iff)

interpretation gc_networks: sweeping "fake_gc msg" "''network:''" fr_networks "\<lambda>r. (fr_containers r, fr_volumes r)" "\<lambda>c. in_use msg (fst c)" for msg
  by unfold_locales (simp_all only: gc_remove_kinds, auto simp: fake_RemoveNetwork_def map_of_eq_None_iff in_use_def
      attached_to_def split: option.splits)

interpretation gc_volumes: sweeping "fake_gc msg" "''volume:''" fr_volumes "\<lambda>r. (fr_containers r, fr_networks r)" "\<lambda>_ _. None" for msg
  by unfold_locales (simp_all only: gc_remove_kinds, auto simp: fake_RemoveVolume_def map_of_eq_None_iff)

lemma loop_reaches: "fake_reaches w \<Longrightarrow> fake_reaches (snd (fold (gc_step (fake_gc msg)) os (out, w)))"
proof (induction os arbitrary: out w)
  case (Cons x os)
  have "fake_reaches (snd (gc_step (fake_gc msg) x (out, w)))"
    using Cons.prems by (auto simp: gc_step_def gc_remove_def fake_gc_def split_def intro: fake_reaches.intros split: option.splits)
  with Cons.IH show ?case by (metis fold_simps(2) prod.collapse)
qed simp

lemma orphans_objects: "map go_Object (orphans_in st prefix xs) = map (\<lambda>x. prefix @ fst x) (filter (\<lambda>x. owned_by_nobody st (snd x)) xs)"
  by (simp add: orphans_in_def entry_of_def)

lemma orphans_distinct: "distinct (map fst xs) \<Longrightarrow> distinct (map go_Object (orphans_in st prefix xs))"
  unfolding orphans_objects by (auto simp: distinct_map inj_on_def)

lemma distinct_sort_key: "distinct (map f (sort_key g xs)) \<longleftrightarrow> distinct (map f xs)"
  by (metis mset_map mset_sort mset_eq_imp_distinct_iff)

lemma orphan_object_iff:
  "distinct (map fst xs) \<Longrightarrow> x \<in> set xs \<Longrightarrow> prefix @ fst x \<in> go_Object ` set (orphans_in st prefix xs) \<longleftrightarrow> owned_by_nobody st (snd x)"
  by (cases x) (auto simp: orphans_in_def entry_of_def image_image dest: eq_key_imp_eq_value intro: rev_image_eqI)


lemma orphans_named: "x \<in> set (orphans_in st prefix xs) \<Longrightarrow> \<exists>name\<in>fst ` set xs. go_Object x = prefix @ name"
  by (force simp: orphans_in_def entry_of_def)

text \<open>Every kind of object is swept over its own sorted orphans.\<close>

abbreviation sorted_orphans :: "State \<Rightarrow> string \<Rightarrow> (string \<times> labels) list \<Rightarrow> gcOrphan list" where
  "sorted_orphans st prefix xs \<equiv> sort_key go_Object (orphans_in st prefix xs)"

context sweeping
begin

lemma swept_orphans:
  fixes lab :: "'b \<Rightarrow> labels"
  defines "os s st \<equiv> sorted_orphans st prefix (objects_of lab (view s))"
  assumes d: "distinct (map fst (view s))" and free: "fst ` set (ga_Failed out) \<inter> range (append prefix) = {}"
  shows "\<exists>s'. fold (gc_step rt) (os s st) (out, s) = (outcome (rest s) (os s st) out, s') \<and> rest s' = rest s \<and>
    view s' = filter (\<lambda>x. \<not> owned_by_nobody st (lab (snd x)) \<or> stuck (rest s) (fst x) \<noteq> None) (view s)"
proof -
  let ?xs = "objects_of lab (view s)"
  have dx: "distinct (map fst ?xs)" using d by simp
  have n: "\<exists>name\<in>fst ` set (view s). go_Object x = prefix @ name" if "x \<in> set (os s st)" for x
  proof -
    have "x \<in> set (orphans_in st prefix ?xs)" using that by (simp add: os_def)
    then show ?thesis using orphans_named [of x st prefix ?xs] by (auto simp: objects_of_def image_image)
  qed
  have du: "distinct (map go_Object (os s st))" unfolding os_def using orphans_distinct [OF dx] by (simp only: distinct_sort_key)
  have "go_Object ` set (os s st) \<subseteq> range (append prefix)" using n by auto
  then have fr: "fst ` set (ga_Failed out) \<inter> go_Object ` set (os s st) = {}" using free by auto
  have iff: "prefix @ fst x \<notin> go_Object ` set (os s st) \<longleftrightarrow> \<not> owned_by_nobody st (lab (snd x))" if "x \<in> set (view s)" for x
    using orphan_object_iff [OF dx, of "(fst x, lab (snd x))" prefix st] that by (simp add: os_def objects_of_def)
  obtain s' where s': "fold (gc_step rt) (os s st) (out, s) = (outcome (rest s) (os s st) out, s')" "rest s' = rest s"
    and v: "view s' = filter (\<lambda>x. prefix @ fst x \<notin> go_Object ` set (os s st) \<or> stuck (rest s) (fst x) \<noteq> None) (view s)"
    using swept [OF du n fr] by blast
  have "view s' = filter (\<lambda>x. \<not> owned_by_nobody st (lab (snd x)) \<or> stuck (rest s) (fst x) \<noteq> None) (view s)"
    unfolding v by (rule filter_cong [OF refl]) (simp only: iff)
  with s' show ?thesis by blast
qed

end


lemma orphans_filter:
  "orphans_in st prefix (objects_of lab (filter (\<lambda>x. \<not> owned_by_nobody st (lab (snd x)) \<or> P (fst x)) xs)) =
    filter (\<lambda>x. P (drop (length prefix) (go_Object x))) (orphans_in st prefix (objects_of lab xs))"
  by (induction xs) (auto simp: orphans_in_def objects_of_def entry_of_def)

lemma orphans_gone:
  "orphans_in st prefix (objects_of lab (filter (\<lambda>x. \<not> owned_by_nobody st (lab (snd x))) xs)) = []"
  by (induction xs) (auto simp: orphans_in_def objects_of_def)

definition stays_used :: "State \<Rightarrow> FakeRuntime \<Rightarrow> (fake_error \<Rightarrow> string) \<Rightarrow> string \<Rightarrow> string option" where
  "stays_used st r msg = in_use msg (filter (\<lambda>x. \<not> owned_by_nobody st (cs_Labels (cr_spec (snd x)))) (fr_containers r))"

definition failed_networks :: "State \<Rightarrow> FakeRuntime \<Rightarrow> (fake_error \<Rightarrow> string) \<Rightarrow> gcOrphan list" where
  "failed_networks st r msg = filter (\<lambda>x. stays_used st r msg (drop (length ''network:'') (go_Object x)) \<noteq> None)
     (sorted_orphans st ''network:'' (network_objects r))"

lemma not_a_volume: "x \<in> set (failed_networks st r msg) \<Longrightarrow> go_Object x \<notin> range (append ''volume:'')"
  using orphans_named [of x st "''network:''" "network_objects r"] by (auto simp: failed_networks_def)

lemma gc_sweeps:
  assumes wf: "fake_wf r" and run: "gc_loop (fake_gc msg) (sort_key go_Object (orphans_in st ''container:'' (container_objects r) @
      orphans_in st ''network:'' (network_objects r) @ orphans_in st ''volume:'' (volume_objects r))) r = (out, r')"
  shows "map fst (ga_Failed out) = map go_Object (failed_networks st r msg) \<and>
    fr_containers r' = filter (\<lambda>x. \<not> owned_by_nobody st (cs_Labels (cr_spec (snd x)))) (fr_containers r) \<and>
    fr_volumes r' = filter (\<lambda>x. \<not> owned_by_nobody st (vs_Labels (snd x))) (fr_volumes r) \<and>
    fr_networks r' = filter (\<lambda>x. \<not> owned_by_nobody st (ns_Labels (snd x)) \<or> stays_used st r msg (fst x) \<noteq> None) (fr_networks r)"
proof -
  let ?cs = "sorted_orphans st ''container:'' (container_objects r)" and ?ns = "sorted_orphans st ''network:'' (network_objects r)"
    and ?vs = "sorted_orphans st ''volume:'' (volume_objects r)" and ?run = "\<lambda>os. fold (gc_step (fake_gc msg)) os"
  let ?f = "map (\<lambda>x. (go_Object x, the (stays_used st r msg (drop (length ''network:'') (go_Object x))))) (failed_networks st r msg)"
  have d: "distinct (map fst (fr_containers r))" "distinct (map fst (fr_networks r))" "distinct (map fst (fr_volumes r))"
    using wf by (simp_all add: fake_wf_def records_ok_def)
  obtain r1 where r1: "?run ?cs (\<lparr>ga_Removed = [], ga_Failed = []\<rparr>, r) = (\<lparr>ga_Removed = ?cs, ga_Failed = []\<rparr>, r1)"
    "fr_networks r1 = fr_networks r" "fr_volumes r1 = fr_volumes r"
    "fr_containers r1 = filter (\<lambda>x. \<not> owned_by_nobody st (cs_Labels (cr_spec (snd x)))) (fr_containers r)"
    using gc_containers.swept_orphans [OF d(1), where out = "\<lparr>ga_Removed = [], ga_Failed = []\<rparr>" and msg = msg and st = st
        and lab = "\<lambda>rec. cs_Labels (cr_spec rec)"]
    by (auto simp: gc_containers.outcome_def container_objects_def)
  have used: "in_use msg (fr_containers r1) = stays_used st r msg" by (simp add: stays_used_def r1(4))
  obtain gone r2 where r2: "?run ?ns (\<lparr>ga_Removed = ?cs, ga_Failed = []\<rparr>, r1) = (\<lparr>ga_Removed = gone, ga_Failed = ?f\<rparr>, r2)"
    "fr_containers r2 = fr_containers r1" "fr_volumes r2 = fr_volumes r"
    "fr_networks r2 = filter (\<lambda>x. \<not> owned_by_nobody st (ns_Labels (snd x)) \<or> stays_used st r msg (fst x) \<noteq> None) (fr_networks r)"
    using gc_networks.swept_orphans [of r1, where out = "\<lparr>ga_Removed = ?cs, ga_Failed = []\<rparr>" and msg = msg and st = st and lab = ns_Labels] d(2) r1(2,3)
    by (auto simp: gc_networks.outcome_def network_objects_def failed_networks_def used)
  have "fst ` set ?f = go_Object ` set (failed_networks st r msg)" by (simp add: image_image)
  moreover have "\<dots> \<inter> range (append ''volume:'') = {}" using not_a_volume [of _ st r msg] by blast
  ultimately obtain gone' r3 where r3: "?run ?vs (\<lparr>ga_Removed = gone, ga_Failed = ?f\<rparr>, r2) = (\<lparr>ga_Removed = gone', ga_Failed = ?f\<rparr>, r3)"
    "fr_containers r3 = fr_containers r1" "fr_networks r3 = fr_networks r2"
    "fr_volumes r3 = filter (\<lambda>x. \<not> owned_by_nobody st (vs_Labels (snd x))) (fr_volumes r)"
    using gc_volumes.swept_orphans [of r2, where out = "\<lparr>ga_Removed = gone, ga_Failed = ?f\<rparr>" and msg = msg and st = st and lab = vs_Labels] d(3) r2(2,3)
    by (auto simp: gc_volumes.outcome_def volume_objects_def)
  from run have "?run (?cs @ ?ns @ ?vs) (\<lparr>ga_Removed = [], ga_Failed = []\<rparr>, r) = (out, r')" by (simp only: gc_loop_def orphans_sorted)
  with r1(1) r2(1) r3(1) have "out = \<lparr>ga_Removed = gone', ga_Failed = ?f\<rparr>" "r' = r3" by simp_all
  with r1 r2 r3 show ?thesis by simp
qed

text \<open>
  C30: \<open>gc apply\<close> removes exactly what state does not account for. On every reachable in-memory runtime and
  every state document, the containers and volumes that carry ownership labels no entry accounts for are gone
  and every other one stays; a network without an entry is gone unless a container that stays is attached to
  it; nothing unlabelled and nothing accounted for is touched. The failures reported are exactly those
  networks, and a following \<open>gc plan\<close> lists exactly what failed.
\<close>

theorem gc_exact:
  assumes r: "fake_reaches r" and rt: "registry_Runtime reg name [] = Inr (fake_gc msg)"
    and gc: "gc_apply reg (Inr st) name True r = (res, r')"
  shows "\<exists>out after. res = Inr out \<and>
    fr_containers r' = filter (\<lambda>x. \<not> owned_by_nobody st (cs_Labels (cr_spec (snd x)))) (fr_containers r) \<and>
    fr_volumes r' = filter (\<lambda>x. \<not> owned_by_nobody st (vs_Labels (snd x))) (fr_volumes r) \<and>
    fr_networks r' = filter (\<lambda>x. \<not> owned_by_nobody st (ns_Labels (snd x)) \<or>
      (\<exists>c\<in>set (fr_containers r'). fst x \<in> set (cs_Networks (cr_spec (snd c))))) (fr_networks r) \<and>
    app_gcOrphans reg (Inr st) name r' = Inr after \<and> map go_Object after = map fst (ga_Failed out)"
proof -
  have wf: "fake_wf r" using r by (rule reaches_wf)
  obtain out where res: "res = Inr out" and run: "gc_loop (fake_gc msg) (sort_key go_Object (orphans_in st ''container:'' (container_objects r) @
      orphans_in st ''network:'' (network_objects r) @ orphans_in st ''volume:'' (volume_objects r))) r = (out, r')"
    using gc by (auto simp: gc_apply_def app_gcOrphans_def rt fake_orphans [OF wf] split: prod.splits)
  note swept = gc_sweeps [OF wf run]
  have used: "stays_used st r msg n \<noteq> None \<longleftrightarrow> (\<exists>c\<in>set (fr_containers r'). n \<in> set (cs_Networks (cr_spec (snd c))))" for n
    using swept in_use_None [of msg "fr_containers r'" n] by (simp add: stays_used_def)
  have "fake_reaches r'" using loop_reaches [OF r] run unfolding gc_loop_def by (metis snd_conv)
  then have "app_gcOrphans reg (Inr st) name r' = Inr (sort_key go_Object (orphans_in st ''container:'' (container_objects r') @
      orphans_in st ''network:'' (network_objects r') @ orphans_in st ''volume:'' (volume_objects r')))"
    by (simp add: app_gcOrphans_def rt fake_orphans reaches_wf)
  also have "\<dots> = Inr (failed_networks st r msg)"
    using swept by (simp only: container_objects_def volume_objects_def network_objects_def
        orphans_gone orphans_gone [where lab = "\<lambda>rec. cs_Labels (cr_spec rec)"]
        orphans_filter [where P = "\<lambda>n. stays_used st r msg n \<noteq> None" and lab = ns_Labels]
        failed_networks_def filter_sort append_Nil append_Nil2)
  finally show ?thesis using res swept used by auto
qed


definition shared_runtime :: FakeRuntime where
  "shared_runtime = (let net = (\<lambda>n. \<lparr>ns_Name = n, ns_Labels = ManagedLabels [] ''Provider'' ''gone'' [], ns_IsolationPolicy = [],
       ns_AllowFromNetworks = [], ns_Subnet = []\<rparr>);
     run = (\<lambda>n nets ls. sample_run\<lparr>cs_Name := n, cs_Networks := nets, cs_Labels := ls, cs_Replicas := 1, cs_Volumes := [],
       cs_StableIdentity := False\<rparr>)
   in snd (fake_EnsureContainer (run ''web'' [''used''] [])
       (snd (fake_EnsureContainer (run ''old'' [''idle''] (ManagedLabels [] ''Provider'' ''gone'' []))
         (fake_EnsureNetwork (net ''used'') (fake_EnsureNetwork (net ''idle'') New_fake))))))"

definition gc_registry :: "(nat, FakeRuntime gc_port) Registry" where
  "gc_registry = RegisterRuntime ''docker'' (\<lambda>_. Inr (fake_gc (\<lambda>_. ''in use''))) (New_Registry [])"

theorem gc_exact_witness:
  "fst ` set (fr_networks shared_runtime) = {''idle'', ''used''} \<and> fst ` set (fr_containers shared_runtime) = {''old'', ''web''} \<and>
   fst ` set (fr_containers (snd (gc_apply gc_registry (Inr zero_State) ''docker'' True shared_runtime))) = {''web''} \<and>
   fst ` set (fr_networks (snd (gc_apply gc_registry (Inr zero_State) ''docker'' True shared_runtime))) = {''used''}"
proof -
  have before: "fst ` set (fr_networks shared_runtime) = {''idle'', ''used''}" "fst ` set (fr_containers shared_runtime) = {''old'', ''web''}"
    by code_simp+
  have reach: "fake_reaches shared_runtime"
    unfolding shared_runtime_def Let_def by (intro fake_reaches.intros) (simp_all add: sample_run_def)
  have rt: "registry_Runtime gc_registry ''docker'' [] = Inr (fake_gc (\<lambda>_. ''in use''))"
    by (simp add: gc_registry_def registry_Runtime_def RegisterRuntime_def New_Registry_def PlannedRuntimes_def)
  let ?g = "gc_apply gc_registry (Inr zero_State) ''docker'' True shared_runtime"
  have "?g = (fst ?g, snd ?g)" by simp
  from gc_exact [OF reach rt this] have
    c: "fr_containers (snd ?g) = filter (\<lambda>x. \<not> owned_by_nobody zero_State (cs_Labels (cr_spec (snd x)))) (fr_containers shared_runtime)" and
    n: "fr_networks (snd ?g) = filter (\<lambda>x. \<not> owned_by_nobody zero_State (ns_Labels (snd x)) \<or>
      (\<exists>c\<in>set (fr_containers (snd ?g)). fst x \<in> set (cs_Networks (cr_spec (snd c))))) (fr_networks shared_runtime)"
    by blast+
  have c': "fst ` set (fr_containers (snd ?g)) = {''web''}" unfolding c by code_simp
  have "fst ` set (fr_networks (snd ?g)) = {''used''}" unfolding n c by code_simp
  with before c' show ?thesis by blast
qed

text \<open>
  What \<open>gc\<close> makes of the labels the program writes. An object labelled by \<open>ManagedLabels\<close> for a resource
  is an orphan exactly when the state has no entry under the namespace, kind and name of that resource,
  whatever the project label says: objects of another project on the same runtime, recorded in another state
  document, are orphans of this one.
\<close>

theorem managed_labels_verdict:
  assumes "kind \<noteq> []" "name \<noteq> []" "kind \<noteq> ''MediationFabric''"
  shows "owned_by_nobody st (AList.update LabelProject project (ManagedLabels namespace kind name generation)) \<longleftrightarrow>
    map_of (st_Resources st) (Key (NormalizeNamespace namespace) kind name) = None"
  using assms by (simp add: owned_by_nobody_def is_managed_def state_accounts_def ManagedLabels_def Let_def get_or_def update_conv
      LabelManagedBy_def LabelGeneration_def LabelNamespace_def LabelKind_def LabelName_def LabelProject_def NormalizeNamespace_def
      DefaultNamespace_def)

theorem managed_labels_verdict_witness:
  "owned_by_nobody zero_State (AList.update LabelProject ''other-project'' (ManagedLabels ''team'' ''Provider'' ''db'' []))"
proof -
  have "''Provider'' \<noteq> []" "''db'' \<noteq> []" "''Provider'' \<noteq> ''MediationFabric''" by simp_all
  from managed_labels_verdict [OF this, of zero_State "''other-project''" "''team''" "[]"] show ?thesis by (simp add: zero_State_def)
qed

end
