(* ===== verification/K8s_Network.thy ===== *)
theory K8s_Network
  imports Fake_Runtime
begin

text \<open>
  Isolation on Kubernetes: \<open>internal/adapters/runtime/kubernetes/network.go\<close> and the policy builders of
  \<open>convert.go\<close>, with the label rules of \<open>kubernetes.go\<close>. The API server is a record of functions on a
  world; \<open>api_serves\<close> states what its documentation promises about reading back what was written. What a
  set of NetworkPolicy objects admits follows the documented meaning of these objects. Label values are ASCII.
\<close>

section \<open>Labels\<close>

definition label_char :: "char \<Rightarrow> bool" where
  "label_char c \<longleftrightarrow> is_alnum c \<or> c \<in> {CHR ''-'', CHR ''_'', CHR ''.''}"

definition edge_char :: "char \<Rightarrow> bool" where
  "edge_char c \<longleftrightarrow> c \<in> {CHR ''-'', CHR ''_'', CHR ''.''}"

definition trim_right :: "string \<Rightarrow> string" where
  "trim_right s = rev (dropWhile edge_char (rev s))"

definition sanitizeLabelValue :: "string \<Rightarrow> string" where
  "sanitizeLabelValue v =
     (if v = [] then v
      else let out = trim_right (dropWhile edge_char (map (\<lambda>c. if label_char c then c else CHR ''-'') v))
        in if 63 < length out then trim_right (take 63 out) else out)"

definition sanitizeLabels :: "labels \<Rightarrow> labels" where
  "sanitizeLabels ls = map (\<lambda>(k, v). (k, sanitizeLabelValue v)) ls"

definition withOwnership :: "labels \<Rightarrow> labels" where
  "withOwnership ls = fold (\<lambda>(k, v). AList.update k v) (sanitizeLabels ls) [(LabelManagedBy, ManagedByValue)]"

section \<open>Policy objects\<close>

record PolicyPeer =
  pp_NamespaceSelector :: "labels option"
  pp_PodSelector :: "labels option"

record PolicyRule =
  pr_From :: "PolicyPeer list"
  pr_Ports :: "(string \<times> int) list"

record NetworkPolicy =
  pol_Name :: string
  pol_Labels :: labels
  pol_PodSelector :: labels
  pol_Ingress :: "PolicyRule list"

definition denyAllIngressPolicyName :: string where
  "denyAllIngressPolicyName = ''datascape-default-deny-ingress''"
definition allowSameNamespacePolicyName :: string where
  "allowSameNamespacePolicyName = ''datascape-allow-same-namespace''"
definition crossDomainIngressPolicyName :: string where
  "crossDomainIngressPolicyName = ''datascape-allow-cross-domain''"
definition externalIngressPolicyName :: "string \<Rightarrow> string" where
  "externalIngressPolicyName c = ''datascape-allow-external-'' @ c"
definition graphScopedIngressPolicyName :: "string \<Rightarrow> string" where
  "graphScopedIngressPolicyName c = ''datascape-allow-access-'' @ c"

definition NamespaceNameLabel :: string where "NamespaceNameLabel = ''kubernetes.io/metadata.name''"
definition AccessNodePort :: string where "AccessNodePort = ''node-port''"
definition AccessLoadBalancer :: string where "AccessLoadBalancer = ''load-balancer''"

definition buildNetworkPolicies :: "labels \<Rightarrow> bool \<Rightarrow> NetworkPolicy list" where
  "buildNetworkPolicies ls graphScoped =
     (let deny = \<lparr>pol_Name = denyAllIngressPolicyName, pol_Labels = withOwnership ls, pol_PodSelector = [], pol_Ingress = []\<rparr>;
          same = \<lparr>pol_Name = allowSameNamespacePolicyName, pol_Labels = withOwnership ls, pol_PodSelector = [],
            pol_Ingress = [\<lparr>pr_From = [\<lparr>pp_NamespaceSelector = None, pp_PodSelector = Some []\<rparr>], pr_Ports = []\<rparr>]\<rparr>
      in if graphScoped then [deny] else [deny, same])"

definition buildCrossDomainIngressPolicy :: "labels \<Rightarrow> string list \<Rightarrow> NetworkPolicy option" where
  "buildCrossDomainIngressPolicy ls allowFrom =
     (if allowFrom = [] then None
      else Some \<lparr>pol_Name = crossDomainIngressPolicyName, pol_Labels = withOwnership ls, pol_PodSelector = [],
        pol_Ingress = [\<lparr>pr_From = map (\<lambda>n. \<lparr>pp_NamespaceSelector = Some [(NamespaceNameLabel, n)], pp_PodSelector = None\<rparr>) allowFrom,
          pr_Ports = []\<rparr>]\<rparr>)"

definition buildExternalIngressPolicy :: "RunSpec \<Rightarrow> NetworkPolicy option" where
  "buildExternalIngressPolicy spec =
     (if cs_AccessMode spec \<noteq> AccessNodePort \<and> cs_AccessMode spec \<noteq> AccessLoadBalancer then None
      else let ports = map (\<lambda>p. (if lowerASCII (pb_Protocol p) = ''udp'' then ''UDP'' else ''TCP'', pb_ContainerPort p)) (cs_Ports spec) in
        if ports = [] then None
        else Some \<lparr>pol_Name = externalIngressPolicyName (cs_Name spec),
          pol_Labels = AList.update ''app'' (cs_Name spec) (withOwnership (cs_Labels spec)),
          pol_PodSelector = [(''app'', cs_Name spec)], pol_Ingress = [\<lparr>pr_From = [], pr_Ports = ports\<rparr>]\<rparr>)"

definition buildGraphScopedIngressPolicy :: "'z NetContainerSpec_scheme \<Rightarrow> NetworkPolicy option" where
  "buildGraphScopedIngressPolicy spec =
     (if cs_AllowFromPeers spec = [] then None
      else Some \<lparr>pol_Name = graphScopedIngressPolicyName (cs_Name spec),
        pol_Labels = AList.update ''app'' (cs_Name spec) (withOwnership (cs_Labels spec)),
        pol_PodSelector = [(''app'', cs_Name spec)],
        pol_Ingress = [\<lparr>pr_From = map (\<lambda>p. \<lparr>pp_NamespaceSelector = Some [(NamespaceNameLabel, np_Network p)],
          pp_PodSelector = Some [(''app'', np_Name p)]\<rparr>) (cs_AllowFromPeers spec), pr_Ports = []\<rparr>]\<rparr>)"

section \<open>The API server\<close>

datatype 'a reading = Got 'a | Missing | ReadError string
datatype write_result = Written | AlreadyExists | WriteError string

record 'w k8s_api =
  ka_GetNamespace :: "string \<Rightarrow> 'w \<Rightarrow> labels reading"
  ka_CreateNamespace :: "string \<Rightarrow> labels \<Rightarrow> 'w \<Rightarrow> write_result \<times> 'w"
  ka_DeleteNamespace :: "string \<Rightarrow> 'w \<Rightarrow> string option \<times> 'w"
  ka_ListNamespaces :: "labels \<Rightarrow> 'w \<Rightarrow> string + (string \<times> labels) list"
  ka_GetPolicy :: "string \<Rightarrow> string \<Rightarrow> 'w \<Rightarrow> NetworkPolicy reading"
  ka_CreatePolicy :: "string \<Rightarrow> NetworkPolicy \<Rightarrow> 'w \<Rightarrow> write_result \<times> 'w"
  ka_UpdatePolicy :: "string \<Rightarrow> NetworkPolicy \<Rightarrow> 'w \<Rightarrow> write_result \<times> 'w"
  ka_DeletePolicy :: "string \<Rightarrow> string \<Rightarrow> 'w \<Rightarrow> string option \<times> 'w"
  ka_ListDeployments :: "string \<Rightarrow> 'w \<Rightarrow> string + string list"
  ka_ListStatefulSets :: "string \<Rightarrow> 'w \<Rightarrow> string + string list"

text \<open>\<open>ka_DeletePolicy\<close> and \<open>ka_DeleteNamespace\<close> report only errors other than "not found".\<close>

datatype k8s_error =
    NamespaceUnmanaged string
  | NamespaceReadError string string
  | NamespaceCreateError string string
  | NamespaceDeleteError string string
  | PolicyReadError string string string
  | PolicyWriteError string string string
  | PolicyDeleteError string string string
  | ListError string string
  | NamespaceInUse string nat

text \<open>
  The create-or-update pattern that the policies of a namespace and of a container share: read the
  object by name, create it when it is missing, otherwise update it.
\<close>

definition put_policy :: "'w k8s_api \<Rightarrow> string \<Rightarrow> NetworkPolicy \<Rightarrow> 'w \<Rightarrow> k8s_error option \<times> 'w" where
  "put_policy api ns policy w = (case ka_GetPolicy api ns (pol_Name policy) w of
     Missing \<Rightarrow> (case ka_CreatePolicy api ns policy w of
         (WriteError err, w') \<Rightarrow> (Some (PolicyWriteError ns (pol_Name policy) err), w') | (_, w') \<Rightarrow> (None, w'))
   | ReadError err \<Rightarrow> (Some (PolicyReadError ns (pol_Name policy) err), w)
   | Got _ \<Rightarrow> (case ka_UpdatePolicy api ns policy w of
         (WriteError err, w') \<Rightarrow> (Some (PolicyWriteError ns (pol_Name policy) err), w')
       | (AlreadyExists, w') \<Rightarrow> (Some (PolicyWriteError ns (pol_Name policy) []), w') | (Written, w') \<Rightarrow> (None, w')))"

definition delete_policy :: "'w k8s_api \<Rightarrow> string \<Rightarrow> string \<Rightarrow> 'w \<Rightarrow> k8s_error option \<times> 'w" where
  "delete_policy api ns name w = (case ka_DeletePolicy api ns name w of
     (Some err, w') \<Rightarrow> (Some (PolicyDeleteError ns name err), w') | (None, w') \<Rightarrow> (None, w'))"

fun put_policies :: "'w k8s_api \<Rightarrow> string \<Rightarrow> NetworkPolicy list \<Rightarrow> 'w \<Rightarrow> k8s_error option \<times> 'w" where
  "put_policies api ns [] w = (None, w)"
| "put_policies api ns (p # ps) w = (case put_policy api ns p w of
     (Some err, w') \<Rightarrow> (Some err, w') | (None, w') \<Rightarrow> put_policies api ns ps w')"

definition ensureNetworkPolicies :: "'w k8s_api \<Rightarrow> string \<Rightarrow> labels \<Rightarrow> bool \<Rightarrow> 'w \<Rightarrow> k8s_error option \<times> 'w" where
  "ensureNetworkPolicies api ns ls graphScoped w = (case put_policies api ns (buildNetworkPolicies ls graphScoped) w of
     (Some err, w') \<Rightarrow> (Some err, w')
   | (None, w') \<Rightarrow> (if graphScoped then delete_policy api ns allowSameNamespacePolicyName w' else (None, w')))"

definition ensureCrossDomainIngressPolicy ::
  "'w k8s_api \<Rightarrow> string \<Rightarrow> labels \<Rightarrow> string list \<Rightarrow> 'w \<Rightarrow> k8s_error option \<times> 'w" where
  "ensureCrossDomainIngressPolicy api ns ls allowFrom w = (case buildCrossDomainIngressPolicy ls allowFrom of
     None \<Rightarrow> delete_policy api ns crossDomainIngressPolicyName w | Some desired \<Rightarrow> put_policy api ns desired w)"

definition ensureExternalIngressPolicy :: "'w k8s_api \<Rightarrow> string \<Rightarrow> RunSpec \<Rightarrow> 'w \<Rightarrow> k8s_error option \<times> 'w" where
  "ensureExternalIngressPolicy api ns spec w =
     (let drop = delete_policy api ns (externalIngressPolicyName (cs_Name spec)) w in
      case buildExternalIngressPolicy spec of None \<Rightarrow> drop | Some desired \<Rightarrow>
        (case ka_GetPolicy api ns denyAllIngressPolicyName w of
           Missing \<Rightarrow> drop
         | ReadError err \<Rightarrow> (Some (PolicyReadError ns denyAllIngressPolicyName err), w)
         | Got _ \<Rightarrow> put_policy api ns desired w))"

definition ensureGraphScopedIngressPolicy ::
  "'w k8s_api \<Rightarrow> string \<Rightarrow> 'z NetContainerSpec_scheme \<Rightarrow> 'w \<Rightarrow> k8s_error option \<times> 'w" where
  "ensureGraphScopedIngressPolicy api ns spec w = (case buildGraphScopedIngressPolicy spec of
     None \<Rightarrow> delete_policy api ns (graphScopedIngressPolicyName (cs_Name spec)) w | Some desired \<Rightarrow> put_policy api ns desired w)"

definition ensure_namespace :: "'w k8s_api \<Rightarrow> NetworkSpec \<Rightarrow> 'w \<Rightarrow> k8s_error option \<times> 'w" where
  "ensure_namespace api spec w = (case ka_GetNamespace api (ns_Name spec) w of
     Got ls \<Rightarrow> (if is_managed ls then (None, w) else (Some (NamespaceUnmanaged (ns_Name spec)), w))
   | Missing \<Rightarrow> (case ka_CreateNamespace api (ns_Name spec) (withOwnership (ns_Labels spec)) w of
       (WriteError err, w') \<Rightarrow> (Some (NamespaceCreateError (ns_Name spec) err), w') | (_, w') \<Rightarrow> (None, w'))
   | ReadError err \<Rightarrow> (Some (NamespaceReadError (ns_Name spec) err), w))"

definition k8s_EnsureNetwork :: "'w k8s_api \<Rightarrow> NetworkSpec \<Rightarrow> 'w \<Rightarrow> k8s_error option \<times> 'w" where
  "k8s_EnsureNetwork api spec w = (case ensure_namespace api spec w of
     (Some err, w') \<Rightarrow> (Some err, w')
   | (None, w') \<Rightarrow>
       (if ns_IsolationPolicy spec = IsolationNone then (None, w')
        else case ensureNetworkPolicies api (ns_Name spec) (ns_Labels spec) (ns_IsolationPolicy spec = IsolationGraphScoped) w' of
          (Some err, w'') \<Rightarrow> (Some err, w'')
        | (None, w'') \<Rightarrow> ensureCrossDomainIngressPolicy api (ns_Name spec) (ns_Labels spec) (ns_AllowFromNetworks spec) w''))"

definition k8s_RemoveNetwork :: "'w k8s_api \<Rightarrow> string \<Rightarrow> 'w \<Rightarrow> k8s_error option \<times> 'w" where
  "k8s_RemoveNetwork api name w = (case ka_GetNamespace api name w of
     Missing \<Rightarrow> (None, w)
   | ReadError err \<Rightarrow> (Some (NamespaceReadError name err), w)
   | Got ls \<Rightarrow>
       (if \<not> is_managed ls then (Some (NamespaceUnmanaged name), w)
        else case ka_ListDeployments api name w of Inl err \<Rightarrow> (Some (ListError name err), w) | Inr ds \<Rightarrow>
          (case ka_ListStatefulSets api name w of Inl err \<Rightarrow> (Some (ListError name err), w) | Inr ss \<Rightarrow>
             (if 0 < length ds + length ss then (Some (NamespaceInUse name (length ds + length ss)), w)
              else case ka_DeleteNamespace api name w of
                (Some err, w') \<Rightarrow> (Some (NamespaceDeleteError name err), w') | (None, w') \<Rightarrow> (None, w')))))"

definition k8s_ListManagedNetworks :: "'w k8s_api \<Rightarrow> 'w \<Rightarrow> k8s_error + ManagedObject list" where
  "k8s_ListManagedNetworks api w = (case ka_ListNamespaces api [(LabelManagedBy, ManagedByValue)] w of
     Inl err \<Rightarrow> Inl (ListError [] err)
   | Inr items \<Rightarrow> Inr (map (\<lambda>(n, ls). \<lparr>mo_Name = n, mo_Labels = ls\<rparr>) items))"

section \<open>What the objects mean\<close>

text \<open>
  A selector matches labels that contain each of its pairs. A pod that no policy selects accepts
  everything; otherwise it accepts what some rule of a policy that selects it admits. A peer without a
  namespace selector means the namespace of the policy; a rule without peers admits every source.
\<close>

definition selects :: "labels \<Rightarrow> labels \<Rightarrow> bool" where
  "selects sel ls \<longleftrightarrow> list_all (\<lambda>(k, v). map_of ls k = Some v) sel"

record pod =
  pod_ns :: string
  pod_labels :: labels

definition peer_admits :: "string \<Rightarrow> PolicyPeer \<Rightarrow> pod \<Rightarrow> bool" where
  "peer_admits ns peer src \<longleftrightarrow>
     (case pp_NamespaceSelector peer of None \<Rightarrow> pod_ns src = ns | Some sel \<Rightarrow> selects sel [(NamespaceNameLabel, pod_ns src)]) \<and>
     (case pp_PodSelector peer of None \<Rightarrow> True | Some sel \<Rightarrow> selects sel (pod_labels src))"

definition rule_admits :: "string \<Rightarrow> PolicyRule \<Rightarrow> pod \<Rightarrow> string \<times> int \<Rightarrow> bool" where
  "rule_admits ns rule src port \<longleftrightarrow>
     (pr_From rule = [] \<or> list_ex (\<lambda>peer. peer_admits ns peer src) (pr_From rule)) \<and>
     (pr_Ports rule = [] \<or> port \<in> set (pr_Ports rule))"

type_synonym policies = "string \<times> string \<Rightarrow> NetworkPolicy option"

definition isolated :: "policies \<Rightarrow> pod \<Rightarrow> bool" where
  "isolated ps dst \<longleftrightarrow> (\<exists>name p. ps (pod_ns dst, name) = Some p \<and> selects (pol_PodSelector p) (pod_labels dst))"

definition admits :: "policies \<Rightarrow> pod \<Rightarrow> pod \<Rightarrow> string \<times> int \<Rightarrow> bool" where
  "admits ps src dst port \<longleftrightarrow> \<not> isolated ps dst \<or>
     (\<exists>name p. ps (pod_ns dst, name) = Some p \<and> selects (pol_PodSelector p) (pod_labels dst) \<and>
        list_ex (\<lambda>rule. rule_admits (pod_ns dst) rule src port) (pol_Ingress p))"

text \<open>
  What the API server promises: a read returns the stored object, a successful write stores the object
  under its namespace and name and changes no other policy, a delete removes it, and namespaces are
  apart from policies. Writes may still fail.
\<close>

definition api_serves :: "'w k8s_api \<Rightarrow> ('w \<Rightarrow> policies) \<Rightarrow> bool" where
  "api_serves api view \<longleftrightarrow>
     (\<forall>ns name w. ka_GetPolicy api ns name w = (case view w (ns, name) of None \<Rightarrow> Missing | Some p \<Rightarrow> Got p)) \<and>
     (\<forall>ns p w r w'. ka_CreatePolicy api ns p w = (r, w') \<and> view w (ns, pol_Name p) = None \<longrightarrow>
        (case r of Written \<Rightarrow> view w' = (view w)((ns, pol_Name p) \<mapsto> p) | AlreadyExists \<Rightarrow> False | WriteError _ \<Rightarrow> view w' = view w)) \<and>
     (\<forall>ns p w r w'. ka_UpdatePolicy api ns p w = (r, w') \<longrightarrow>
        (case r of Written \<Rightarrow> view w' = (view w)((ns, pol_Name p) \<mapsto> p) | _ \<Rightarrow> view w' = view w)) \<and>
     (\<forall>ns name w r w'. ka_DeletePolicy api ns name w = (r, w') \<longrightarrow>
        (case r of None \<Rightarrow> view w' = (view w)((ns, name) := None) | Some _ \<Rightarrow> view w' = view w)) \<and>
     (\<forall>ns ls w r w'. ka_CreateNamespace api ns ls w = (r, w') \<longrightarrow> view w' = view w)"


section \<open>Label values\<close>

lemma label_char_iff: "label_char c \<longleftrightarrow> is_alnum c \<or> c \<in> set ''_.-''"
  by (auto simp: label_char_def)

lemma edge_char_iff: "edge_char c \<longleftrightarrow> c \<in> set ''_.-''"
  by (auto simp: edge_char_def)

lemma is_alnum_edge: "is_alnum c \<Longrightarrow> \<not> edge_char c"
  by (auto simp: edge_char_def is_alnum_def is_lower_alnum_def)

definition tidy :: "string \<Rightarrow> bool" where
  "tidy s \<longleftrightarrow> list_all label_char s \<and> (s \<noteq> [] \<longrightarrow> \<not> edge_char (hd s) \<and> \<not> edge_char (last s))"

lemma trim_right_prefix: "\<exists>t. s = trim_right s @ t"
proof -
  have "rev s = takeWhile edge_char (rev s) @ dropWhile edge_char (rev s)" by simp
  then have "s = rev (dropWhile edge_char (rev s)) @ rev (takeWhile edge_char (rev s))" by (metis rev_append rev_rev_ident)
  then show ?thesis unfolding trim_right_def by blast
qed

lemma trim_right_last: "trim_right s \<noteq> [] \<Longrightarrow> \<not> edge_char (last (trim_right s))"
  unfolding trim_right_def using hd_dropWhile [of edge_char "rev s"] by (simp add: last_rev)

lemma tidy_trim:
  assumes "list_all label_char s" "s \<noteq> [] \<Longrightarrow> \<not> edge_char (hd s)"
  shows "tidy (trim_right s)"
proof -
  obtain t where t: "s = trim_right s @ t" using trim_right_prefix by blast
  have "list_all label_char (trim_right s)" using assms(1) by (subst (asm) t) simp
  moreover have "\<not> edge_char (hd (trim_right s))" if "trim_right s \<noteq> []"
  proof -
    have "hd s = hd (trim_right s)" using that t by (metis hd_append2)
    moreover have "s \<noteq> []" using that by (auto simp: trim_right_def)
    ultimately show ?thesis using assms(2) by simp
  qed
  ultimately show ?thesis using trim_right_last by (simp add: tidy_def)
qed

lemma tidy_take: "tidy s \<Longrightarrow> tidy (trim_right (take n s))"
  by (rule tidy_trim) (auto simp: tidy_def list_all_iff dest: in_set_takeD)

lemma trim_right_length: "length (trim_right s) \<le> length s"
  by (simp add: trim_right_def le_trans [OF length_dropWhile_le])

lemma trim_idle: "s = [] \<or> \<not> edge_char (last s) \<Longrightarrow> trim_right s = s" "s = [] \<or> \<not> edge_char (hd s) \<Longrightarrow> dropWhile edge_char s = s"
  by (cases s rule: rev_cases; simp add: trim_right_def) (cases s; simp)

lemma tidy_valid: "ValidateLabelValue s = None \<longleftrightarrow> tidy s \<and> length s \<le> 63"
proof -
  have all: "list_all (\<lambda>c. is_alnum c \<or> c \<in> set ''_.-'') s \<longleftrightarrow> list_all label_char s" by (simp only: label_char_iff [abs_def])
  have one: "is_alnum c \<longleftrightarrow> \<not> edge_char c" if "label_char c" for c
    using that is_alnum_edge [of c] unfolding label_char_iff edge_char_iff by blast
  have "labelSegmentPattern s \<longleftrightarrow> tidy s" if "s \<noteq> []"
  proof -
    have "label_char (hd s)" "label_char (last s)" if "list_all label_char s"
      using that \<open>s \<noteq> []\<close> by (simp_all add: list_all_iff)
    then show ?thesis using that one unfolding labelSegmentPattern_def bracketed_def tidy_def all by blast
  qed
  then show ?thesis unfolding ValidateLabelValue_def tidy_def by (cases "s = []") auto
qed

text \<open>
  C35: label values fit Kubernetes. Whatever value it is given, \<open>sanitizeLabelValue\<close> returns one the syntax
  accepts: at most 63 characters, letters, digits, dashes, underscores and dots, bounded by a letter or digit,
  or empty. It leaves a value alone exactly when the value is acceptable already.
\<close>

theorem sanitize_bounds:
  "length (sanitizeLabelValue v) \<le> 63 \<and> ValidateLabelValue (sanitizeLabelValue v) = None \<and>
   (sanitizeLabelValue v = v \<longleftrightarrow> ValidateLabelValue v = None)"
proof -
  let ?m = "map (\<lambda>c. if label_char c then c else CHR ''-'') v"
  let ?d = "dropWhile edge_char ?m"
  have chars: "list_all label_char ?m" by (auto simp: list_all_iff label_char_def)
  have "tidy (trim_right ?d)"
  proof (rule tidy_trim)
    show "list_all label_char ?d" using chars unfolding list_all_iff by (blast dest: set_dropWhileD)
    show "?d \<noteq> [] \<Longrightarrow> \<not> edge_char (hd ?d)" by (rule hd_dropWhile)
  qed
  then have t: "tidy (sanitizeLabelValue v)" "length (sanitizeLabelValue v) \<le> 63"
    using tidy_take [of "trim_right ?d" 63] trim_right_length [of "take 63 (trim_right ?d)"]
    unfolding sanitizeLabelValue_def Let_def by (simp_all add: tidy_def [of "[]"])
  have "sanitizeLabelValue v = v" if "tidy v" "length v \<le> 63"
  proof -
    have "?m = v" using that(1) by (intro map_idI) (auto simp: tidy_def list_all_iff)
    moreover have "trim_right (dropWhile edge_char v) = v" using that(1) trim_idle [of v] by (auto simp: tidy_def)
    ultimately show ?thesis using that(2) by (simp add: sanitizeLabelValue_def)
  qed
  then have "ValidateLabelValue v = None \<Longrightarrow> sanitizeLabelValue v = v" using tidy_valid [of v] by blast
  moreover have ok: "ValidateLabelValue (sanitizeLabelValue v) = None" using t tidy_valid by blast
  ultimately have "sanitizeLabelValue v = v \<longleftrightarrow> ValidateLabelValue v = None" by force
  with t(2) ok show ?thesis by blast
qed


section \<open>What the calls leave stored\<close>

lemma api_servesD:
  assumes "api_serves api view"
  shows "ka_GetPolicy api ns name w = (case view w (ns, name) of None \<Rightarrow> Missing | Some p \<Rightarrow> Got p)"
    and "ka_CreatePolicy api ns p w = (r, w') \<Longrightarrow> view w (ns, pol_Name p) = None \<Longrightarrow>
      (case r of Written \<Rightarrow> view w' = (view w)((ns, pol_Name p) \<mapsto> p) | AlreadyExists \<Rightarrow> False | WriteError _ \<Rightarrow> view w' = view w)"
    and "ka_UpdatePolicy api ns p w = (r, w') \<Longrightarrow>
      (case r of Written \<Rightarrow> view w' = (view w)((ns, pol_Name p) \<mapsto> p) | _ \<Rightarrow> view w' = view w)"
    and "ka_DeletePolicy api ns name w = (e, w') \<Longrightarrow>
      (case e of None \<Rightarrow> view w' = (view w)((ns, name) := None) | Some _ \<Rightarrow> view w' = view w)"
    and "ka_CreateNamespace api ns ls w = (r, w') \<Longrightarrow> view w' = view w"
  subgoal using assms unfolding api_serves_def by simp
  subgoal using assms unfolding api_serves_def by meson
  subgoal using assms unfolding api_serves_def by meson
  subgoal using assms unfolding api_serves_def by meson
  subgoal using assms unfolding api_serves_def by meson
  done

lemma put_policy_ok:
  assumes "api_serves api view" "put_policy api ns p w = (None, w')"
  shows "view w' = (view w)((ns, pol_Name p) \<mapsto> p)"
proof (cases "view w (ns, pol_Name p)")
  case None
  obtain r w1 where c: "ka_CreatePolicy api ns p w = (r, w1)" by fastforce
  show ?thesis using assms(2) api_servesD(1) [OF assms(1), of ns "pol_Name p" w] api_servesD(2) [OF assms(1) c None]
    by (auto simp: put_policy_def None c split: write_result.splits)
next
  case (Some q)
  obtain r w1 where c: "ka_UpdatePolicy api ns p w = (r, w1)" by fastforce
  show ?thesis using assms(2) api_servesD(1) [OF assms(1), of ns "pol_Name p" w] api_servesD(3) [OF assms(1) c]
    by (auto simp: put_policy_def Some c split: write_result.splits)
qed

lemma delete_policy_ok:
  assumes "api_serves api view" "delete_policy api ns name w = (None, w')"
  shows "view w' = (view w)((ns, name) := None)"
  using assms(2) api_servesD(4) [OF assms(1), of ns name w] by (auto simp: delete_policy_def split: prod.splits option.splits)

lemma ensure_namespace_ok:
  assumes "api_serves api view" "ensure_namespace api spec w = (None, w')"
  shows "view w' = view w"
  using assms(2) api_servesD(5) [OF assms(1), of "ns_Name spec" "withOwnership (ns_Labels spec)" w]
  by (auto simp: ensure_namespace_def split: reading.splits prod.splits write_result.splits if_splits)

lemma cross_domain_ok:
  assumes "api_serves api view" "ensureCrossDomainIngressPolicy api ns ls allowFrom w = (None, w')"
  shows "view w' = (view w)((ns, crossDomainIngressPolicyName) := buildCrossDomainIngressPolicy ls allowFrom)"
proof (cases "buildCrossDomainIngressPolicy ls allowFrom")
  case None
  with assms delete_policy_ok show ?thesis by (fastforce simp: ensureCrossDomainIngressPolicy_def)
next
  case (Some p)
  then have "pol_Name p = crossDomainIngressPolicyName" by (auto simp: buildCrossDomainIngressPolicy_def split: if_splits)
  with Some assms put_policy_ok [OF assms(1), of ns p w w'] show ?thesis by (simp add: ensureCrossDomainIngressPolicy_def)
qed

lemma graph_scoped_ok:
  assumes "api_serves api view" "ensureGraphScopedIngressPolicy api ns spec w = (None, w')"
  shows "view w' = (view w)((ns, graphScopedIngressPolicyName (cs_Name spec)) := buildGraphScopedIngressPolicy spec)"
proof (cases "buildGraphScopedIngressPolicy spec")
  case None
  with assms delete_policy_ok show ?thesis by (fastforce simp: ensureGraphScopedIngressPolicy_def)
next
  case (Some p)
  then have "pol_Name p = graphScopedIngressPolicyName (cs_Name spec)" by (auto simp: buildGraphScopedIngressPolicy_def split: if_splits)
  with Some assms put_policy_ok [OF assms(1), of ns p w w'] show ?thesis by (simp add: ensureGraphScopedIngressPolicy_def)
qed

definition deny_policy :: "labels \<Rightarrow> NetworkPolicy" where "deny_policy ls = hd (buildNetworkPolicies ls True)"
definition same_namespace_policy :: "labels \<Rightarrow> NetworkPolicy" where "same_namespace_policy ls = last (buildNetworkPolicies ls False)"

lemma network_policies_ok:
  assumes "api_serves api view" "ensureNetworkPolicies api ns ls gs w = (None, w')"
  shows "view w' = (view w)((ns, denyAllIngressPolicyName) \<mapsto> deny_policy ls,
    (ns, allowSameNamespacePolicyName) := (if gs then None else Some (same_namespace_policy ls)))"
proof -
  obtain w1 where w1: "put_policies api ns (buildNetworkPolicies ls gs) w = (None, w1)"
    "if gs then delete_policy api ns allowSameNamespacePolicyName w1 = (None, w') else w1 = w'"
    using assms(2) by (auto simp: ensureNetworkPolicies_def split: prod.splits option.splits if_splits)
  have names: "pol_Name (deny_policy ls) = denyAllIngressPolicyName" "pol_Name (same_namespace_policy ls) = allowSameNamespacePolicyName"
    "buildNetworkPolicies ls gs = deny_policy ls # (if gs then [] else [same_namespace_policy ls])"
    by (simp_all add: deny_policy_def same_namespace_policy_def buildNetworkPolicies_def Let_def)
  obtain w2 where w2: "put_policy api ns (deny_policy ls) w = (None, w2)"
    "if gs then w1 = w2 else put_policy api ns (same_namespace_policy ls) w2 = (None, w1)"
    using w1(1) by (auto simp: names split: prod.splits option.splits if_splits)
  show ?thesis using w1(2) w2 put_policy_ok [OF assms(1)] delete_policy_ok [OF assms(1)] names by (auto split: if_splits)
qed

lemma ensure_network_ok:
  assumes "api_serves api view" "k8s_EnsureNetwork api spec w = (None, w')" "ns_IsolationPolicy spec \<noteq> IsolationNone"
  shows "view w' = (view w)((ns_Name spec, denyAllIngressPolicyName) \<mapsto> deny_policy (ns_Labels spec),
    (ns_Name spec, allowSameNamespacePolicyName) :=
      (if ns_IsolationPolicy spec = IsolationGraphScoped then None else Some (same_namespace_policy (ns_Labels spec))),
    (ns_Name spec, crossDomainIngressPolicyName) := buildCrossDomainIngressPolicy (ns_Labels spec) (ns_AllowFromNetworks spec))"
proof -
  obtain w1 w2 where "ensure_namespace api spec w = (None, w1)"
    "ensureNetworkPolicies api (ns_Name spec) (ns_Labels spec) (ns_IsolationPolicy spec = IsolationGraphScoped) w1 = (None, w2)"
    "ensureCrossDomainIngressPolicy api (ns_Name spec) (ns_Labels spec) (ns_AllowFromNetworks spec) w2 = (None, w')"
    using assms(2,3) by (auto simp: k8s_EnsureNetwork_def split: prod.splits option.splits)
  from ensure_namespace_ok [OF assms(1) this(1)] network_policies_ok [OF assms(1) this(2)] cross_domain_ok [OF assms(1) this(3)]
  show ?thesis by simp
qed

lemma policy_names_apart [simp]:
  "denyAllIngressPolicyName \<noteq> allowSameNamespacePolicyName" "denyAllIngressPolicyName \<noteq> crossDomainIngressPolicyName"
  "allowSameNamespacePolicyName \<noteq> crossDomainIngressPolicyName" "graphScopedIngressPolicyName c \<noteq> denyAllIngressPolicyName"
  "graphScopedIngressPolicyName c \<noteq> allowSameNamespacePolicyName" "graphScopedIngressPolicyName c \<noteq> crossDomainIngressPolicyName"
  by (simp_all add: denyAllIngressPolicyName_def allowSameNamespacePolicyName_def crossDomainIngressPolicyName_def graphScopedIngressPolicyName_def)


section \<open>What the pods accept\<close>

lemma selects_Nil [simp]: "selects [] ls"
  by (simp add: selects_def)

lemma deny_policy_fields [simp]: "pol_PodSelector (deny_policy ls) = []" "pol_Ingress (deny_policy ls) = []"
  by (simp_all add: deny_policy_def buildNetworkPolicies_def Let_def)

text \<open>Every policy of the namespace that selects the pod is one of those named.\<close>

definition only_policies :: "string set \<Rightarrow> policies \<Rightarrow> pod \<Rightarrow> bool" where
  "only_policies names ps dst \<longleftrightarrow>
     (\<forall>name p. ps (pod_ns dst, name) = Some p \<and> selects (pol_PodSelector p) (pod_labels dst) \<longrightarrow> name \<in> names)"

lemma admits_denied:
  assumes "ps (pod_ns dst, denyAllIngressPolicyName) = Some (deny_policy ls)"
    and "only_policies (insert denyAllIngressPolicyName names) ps dst"
  shows "admits ps src dst port \<longleftrightarrow> (\<exists>name\<in>names. \<exists>p. ps (pod_ns dst, name) = Some p \<and>
    selects (pol_PodSelector p) (pod_labels dst) \<and> list_ex (\<lambda>rule. rule_admits (pod_ns dst) rule src port) (pol_Ingress p))"
proof -
  have "isolated ps dst" unfolding isolated_def using assms(1) deny_policy_fields(1) selects_Nil by metis
  moreover have "name \<in> names \<or> name = denyAllIngressPolicyName" if "ps (pod_ns dst, name) = Some p" "selects (pol_PodSelector p) (pod_labels dst)" for name p
    using assms(2) that by (auto simp: only_policies_def)
  ultimately show ?thesis unfolding admits_def using assms(1) by fastforce
qed

lemma admits_peers:
  assumes "api_serves api view" "k8s_EnsureNetwork api net w = (None, w1)" "ns_IsolationPolicy net = IsolationGraphScoped"
    and "ns_AllowFromNetworks net = []" "ensureGraphScopedIngressPolicy api (ns_Name net) spec w1 = (None, w2)"
    and "pod_ns dst = ns_Name net" "map_of (pod_labels dst) ''app'' = Some (cs_Name spec)"
    and "only_policies {denyAllIngressPolicyName, allowSameNamespacePolicyName, crossDomainIngressPolicyName,
      graphScopedIngressPolicyName (cs_Name spec)} (view w) dst"
  shows "admits (view w2) src dst port \<longleftrightarrow>
    (\<exists>peer\<in>set (cs_AllowFromPeers spec). pod_ns src = np_Network peer \<and> map_of (pod_labels src) ''app'' = Some (np_Name peer))"
proof -
  let ?ns = "ns_Name net" and ?g = "graphScopedIngressPolicyName (cs_Name spec)"
  have "IsolationGraphScoped \<noteq> IsolationNone" by (simp add: IsolationGraphScoped_def IsolationNone_def)
  with assms(3) have iso: "ns_IsolationPolicy net \<noteq> IsolationNone" by simp
  have v: "view w2 = (view w)((?ns, denyAllIngressPolicyName) \<mapsto> deny_policy (ns_Labels net), (?ns, allowSameNamespacePolicyName) := None,
      (?ns, crossDomainIngressPolicyName) := None, (?ns, ?g) := buildGraphScopedIngressPolicy spec)"
    using graph_scoped_ok [OF assms(1,5)] ensure_network_ok [OF assms(1,2) iso] assms(3,4) by (simp add: buildCrossDomainIngressPolicy_def)
  have deny: "view w2 (pod_ns dst, denyAllIngressPolicyName) = Some (deny_policy (ns_Labels net))"
    by (simp add: v assms(6) graphScopedIngressPolicyName_def denyAllIngressPolicyName_def allowSameNamespacePolicyName_def
        crossDomainIngressPolicyName_def)
  have g: "view w2 (pod_ns dst, ?g) = buildGraphScopedIngressPolicy spec" by (simp add: v assms(6))
  have "only_policies (insert denyAllIngressPolicyName {?g}) (view w2) dst"
    using assms(8) unfolding only_policies_def v assms(6) by (auto split: if_splits)
  from admits_denied [of "view w2", OF deny this] show ?thesis using assms(7)
    by (auto simp: g buildGraphScopedIngressPolicy_def selects_def list_ex_iff rule_admits_def peer_admits_def)
qed


definition pod_identity :: "domainRuntime \<Rightarrow> Key \<Rightarrow> (string \<times> string) option" where
  "pod_identity d k = map_option (\<lambda>env. (NetworkName (dr_token d) (ContainerDomain k (dr_resources d)), RuntimeObjectName env))
     (map_of (dr_resources d) k)"

lemma k8sPeers_iff:
  "(\<exists>peer\<in>set (k8sPeers d). ns = np_Network peer \<and> app = np_Name peer) \<longleftrightarrow>
    (\<exists>k\<in>set (dr_ingressPeers d). pod_identity d k = Some (ns, app))"
  by (force simp: k8sPeers_def pod_identity_def List.map_filter_def)


text \<open>The network operation of the Kubernetes runtime behind the port.\<close>

definition k8s_network_op :: "(k8s_error \<Rightarrow> string) \<Rightarrow> 'w k8s_api \<Rightarrow> NetworkSpec \<Rightarrow> 'w \<Rightarrow> string option \<times> 'w" where
  "k8s_network_op msg api spec w = (case k8s_EnsureNetwork api spec w of (e, w') \<Rightarrow> (map_option msg e, w'))"

lemma other_network:
  assumes "api_serves api view" "k8s_network_op msg api spec w = (None, w')"
    and "ns_IsolationPolicy spec \<noteq> IsolationNone" "ns \<noteq> ns_Name spec"
  shows "view w' (ns, name) = view w (ns, name)"
  using ensure_network_ok [OF assms(1) _ assms(3)] assms(2,4) by (auto simp: k8s_network_op_def split: prod.splits)

lemma other_networks:
  assumes "api_serves api view" "rp_EnsureNetwork rt = k8s_network_op msg api"
  shows "ensure_networks rt nets w = (None, w') \<Longrightarrow> \<forall>n\<in>set nets. ns_IsolationPolicy n \<noteq> IsolationNone \<and> ns \<noteq> ns_Name n \<Longrightarrow>
    view w' (ns, name) = view w (ns, name)"
proof (induction nets arbitrary: w)
  case (Cons n nets)
  from Cons.prems(1) obtain w1 where w1: "k8s_network_op msg api n w = (None, w1)" "ensure_networks rt nets w1 = (None, w')"
    by (auto simp: assms(2) split: prod.splits option.splits)
  with Cons other_network [OF assms(1) w1(1)] show ?case by simp
qed simp


lemma domain_network:
  assumes "api_serves api view" "rp_EnsureNetwork rt = k8s_network_op msg api"
    and "d = newDomainRuntime cfg provEnv env byKey False lbl edges ''kubernetes'' pt" "\<not> dr_pinned d"
    and "ns_Name spec = dr_token d" "ns_IsolationPolicy spec = []" "ns_AllowFromNetworks spec = []"
    and "dr_EnsureNetwork d rt spec w = (None, w')" "home = NetworkName (dr_token d) (dr_domain d)" "home \<notin> set (holeNetworks d)"
  shows "view w' (home, name) = (if name = crossDomainIngressPolicyName then buildCrossDomainIngressPolicy (ns_Labels spec) (holeNetworks d)
    else if name = denyAllIngressPolicyName then Some (deny_policy (ns_Labels spec))
    else if name = allowSameNamespacePolicyName then Some (same_namespace_policy (ns_Labels spec)) else view w (home, name))"
proof -
  have gs: "\<not> dr_graphScoped d" by (simp add: assms(3) newDomainRuntime_def Let_def split: prod.splits)
  have ht: "isHomeToken d (ns_Name spec)" using assms(4,5) by (simp add: isHomeToken_def)
  let ?net = "network_spec d spec"
  have net: "ns_Name ?net = home" "ns_Labels ?net = ns_Labels spec" "ns_IsolationPolicy ?net = []" "ns_AllowFromNetworks ?net = holeNetworks d"
    using gs ht assms(4-7,9) by (simp_all add: network_spec_def Let_def translate_def holeNetworks_def)
  have iso: "[] \<noteq> IsolationNone" "[] \<noteq> IsolationGraphScoped" by (simp_all add: IsolationNone_def IsolationGraphScoped_def)
  obtain w1 where w1: "k8s_network_op msg api ?net w = (None, w1)"
    "ensure_networks rt (map (\<lambda>n. plain_network n [] (ns_Labels spec)) (holeNetworks d)) w1 = (None, w')"
    using assms(8) ht by (auto simp: dr_EnsureNetwork_def assms(2) split: prod.splits option.splits)
  have e: "k8s_EnsureNetwork api ?net w = (None, w1)" using w1(1) by (auto simp: k8s_network_op_def split: prod.splits)
  have "view w' (home, name) = view w1 (home, name)"
    using other_networks [OF assms(1,2) w1(2)] assms(10) iso by (auto simp: plain_network_def)
  also have "\<dots> = (if name = crossDomainIngressPolicyName then buildCrossDomainIngressPolicy (ns_Labels spec) (holeNetworks d)
    else if name = denyAllIngressPolicyName then Some (deny_policy (ns_Labels spec))
    else if name = allowSameNamespacePolicyName then Some (same_namespace_policy (ns_Labels spec)) else view w (home, name))"
    using ensure_network_ok [OF assms(1) e] net iso by (simp add: policy_names_apart(1) [symmetric])
  finally show ?thesis .
qed



section \<open>A server on a list of policies\<close>

definition mem_api :: "((string \<times> string) \<times> NetworkPolicy) list k8s_api" where
  "mem_api = \<lparr>ka_GetNamespace = (\<lambda>ns w. Got [(LabelManagedBy, ManagedByValue)]), ka_CreateNamespace = (\<lambda>ns ls w. (AlreadyExists, w)),
     ka_DeleteNamespace = (\<lambda>ns w. (None, w)), ka_ListNamespaces = (\<lambda>ls w. Inr []),
     ka_GetPolicy = (\<lambda>ns name w. (case map_of w (ns, name) of None \<Rightarrow> Missing | Some p \<Rightarrow> Got p)),
     ka_CreatePolicy = (\<lambda>ns p w. if map_of w (ns, pol_Name p) = None then (Written, ((ns, pol_Name p), p) # w) else (AlreadyExists, w)),
     ka_UpdatePolicy = (\<lambda>ns p w. (Written, AList.update (ns, pol_Name p) p w)),
     ka_DeletePolicy = (\<lambda>ns name w. (None, AList.delete (ns, name) w)),
     ka_ListDeployments = (\<lambda>ns w. Inr []), ka_ListStatefulSets = (\<lambda>ns w. Inr [])\<rparr>"

lemma mem_api_serves: "api_serves mem_api map_of"
  by (auto simp: api_serves_def mem_api_def update_conv' delete_conv' split: write_result.splits)

definition cluster_port :: "(((string \<times> string) \<times> NetworkPolicy) list, unit, unit, unit) runtime_port" where
  "cluster_port = \<lparr>rp_EnsureNetwork = k8s_network_op (\<lambda>_. ''refused'') mem_api, rp_RemoveNetwork = (\<lambda>_ w. (None, w)),
     rp_EnsureVolume = (\<lambda>_ w. (None, w)), rp_EnsureContainer = (\<lambda>_ w. (Inr (), w)), rp_ProbeReachable = (\<lambda>_ _ w. (None, w))\<rparr>"

definition broker_k8s :: domainRuntime where
  "broker_k8s = newDomainRuntime [] (in_domain ''core'' broker_env) stream_env zoned_set True False access_edges ''kubernetes'' ''redpanda''"

definition core_net :: NetworkSpec where
  "core_net = \<lparr>ns_Name = ''datascape-core'', ns_Labels = [], ns_IsolationPolicy = ''graph-scoped'', ns_AllowFromNetworks = [], ns_Subnet = []\<rparr>"

definition broker_spec :: NetContainerSpec where
  "broker_spec = home_spec\<lparr>cs_Name := ''broker'', cs_AllowFromPeers := k8sPeers broker_k8s\<rparr>"

definition app_pod :: "string \<Rightarrow> string \<Rightarrow> pod" where "app_pod ns app = \<lparr>pod_ns = ns, pod_labels = [(''app'', app)]\<rparr>"


definition two_connections :: resources where
  "two_connections = map (\<lambda>e. (env_Key e, e)) [access_env ''Connection'' ''used'' [], access_env ''Connection'' ''idle'' [],
     in_domain ''edge'' (access_env ''Binding'' ''reads'' [(''connectionRef'', AMap [(''name'', AStr ''used'')])])]"

definition conn_dr :: "string \<Rightarrow> domainRuntime" where
  "conn_dr n = newDomainRuntime [] broker_env (access_env ''Connection'' n []) two_connections False False [] ''kubernetes'' ''proxy''"


end
