(* ===== verification/Provider_Lints.thy ===== *)
theory Provider_Lints
  imports Lints
begin

text \<open>
  The design lints providers contribute: \<open>LintDesign\<close> of \<open>internal/adapters/providers/redpanda/lint.go\<close>,
  \<open>s3sink/lint.go\<close> and \<open>debezium/lint.go\<close>, with the broker count and the replication check of
  \<open>redpanda/redpanda.go\<close> they are about. The regular expression engine is the argument \<open>rx\<close>:
  \<open>regexp.Compile\<close> of a pattern, nothing where it fails, applied to a string. Ranges over Go maps only
  feed sorted or boolean results.
\<close>

section \<open>References\<close>

definition lint_resolveRef :: "Graph \<Rightarrow> Envelope \<Rightarrow> string \<Rightarrow> string \<Rightarrow> Envelope option" where
  "lint_resolveRef g e field kind =
     (let ref = RefFromSpec (env_Spec e) field in
      if ref_Name ref = [] then None else map_of (Nodes g) (ref_Key ref (md_Namespace (env_Metadata e)) kind))"

text \<open>The Provider a resource names, when it decodes and has the given type.\<close>

definition lint_provider :: "Graph \<Rightarrow> Envelope \<Rightarrow> string \<Rightarrow> (Envelope \<times> Provider) option" where
  "lint_provider g e type = (case lint_resolveRef g e ''providerRef'' ''Provider'' of None \<Rightarrow> None | Some provEnv \<Rightarrow>
     (case Provider_FromEnvelope provEnv of (_, Some _) \<Rightarrow> None
      | (pr, None) \<Rightarrow> (if pv_Type pr \<noteq> type then None else Some (provEnv, pr))))"

section \<open>Pairs within a list\<close>

text \<open>The indexes a nested loop over \<open>i < j\<close> marks on both sides, in ascending order.\<close>

definition marked :: "('a \<Rightarrow> 'a \<Rightarrow> bool) \<Rightarrow> 'a list \<Rightarrow> nat list" where
  "marked R xs = filter (\<lambda>i. list_ex (\<lambda>j. j \<noteq> i \<and> R (xs ! min i j) (xs ! max i j)) [0..<length xs]) [0..<length xs]"

definition other_names :: "('a \<Rightarrow> Envelope) \<Rightarrow> 'a list \<Rightarrow> nat list \<Rightarrow> nat \<Rightarrow> string list" where
  "other_names env xs off i = map (\<lambda>j. md_Name (env_Metadata (env (xs ! j)))) (filter (\<lambda>j. j \<noteq> i) off)"

section \<open>Redpanda\<close>

definition brokersDeclared :: "Provider \<Rightarrow> int \<times> bool" where
  "brokersDeclared cfg = (case map_of (pv_Configuration cfg) ''brokers'' of
     None \<Rightarrow> (0, False) | Some (AInt n) \<Rightarrow> (n, True) | Some (AFloat q) \<Rightarrow> (trunc_rat q, True) | Some _ \<Rightarrow> (0, True))"

datatype replication_error = ReplicationExceeds int int | ReplicationEven int

definition ValidateStreamReplication :: "Provider \<Rightarrow> int \<Rightarrow> replication_error option" where
  "ValidateStreamReplication cfg replication =
     (let (m, declared) = brokersDeclared cfg; n = (if \<not> declared \<or> m < 1 then 1 else m) in
      if replication > n then Some (ReplicationExceeds replication n)
      else if replication > 1 \<and> replication mod 2 = 0 then Some (ReplicationEven replication)
      else None)"

definition LintCodeReplicationBelowBrokers :: string where "LintCodeReplicationBelowBrokers = ''DL-redpanda-001''"

definition redpanda_finding :: "Graph \<Rightarrow> Envelope \<Rightarrow> Finding option" where
  "redpanda_finding g e =
     (if env_Kind e \<noteq> ''EventStream'' then None
      else case EventStream_FromEnvelope e of (_, Some _) \<Rightarrow> None | (es, None) \<Rightarrow>
        (if es_External es then None
         else case lint_provider g e ''redpanda'' of None \<Rightarrow> None | Some (provEnv, pr) \<Rightarrow>
           (let (brokers, declared) = brokersDeclared pr in
            if \<not> declared \<or> brokers \<le> 1 then None
            else if ReplicationFactor es \<ge> brokers then None
            else Some (mk_finding LintCodeReplicationBelowBrokers Info (env_Key e)
              (ReplicationBelowBrokers (md_Name (env_Metadata e)) (ReplicationFactor es) brokers (md_Name (env_Metadata provEnv)))))))"

definition redpanda_LintDesign :: "Envelope list \<Rightarrow> Graph \<Rightarrow> Finding list" where
  "redpanda_LintDesign envelopes g = List.map_filter (redpanda_finding g) envelopes"

section \<open>S3 sink\<close>

definition LintCodePrefixHierarchyCollision :: string where "LintCodePrefixHierarchyCollision = ''DL-s3sink-001''"

record prefixTarget =
  pt_env :: Envelope
  pt_bucket :: string
  pt_prefix :: string
  pt_datasetName :: string

definition isPathPrefixOf :: "string \<Rightarrow> string \<Rightarrow> bool" where
  "isPathPrefixOf a b \<longleftrightarrow>
     (if a = [] then False
      else let an = (if last a = CHR ''/'' then a else a @ ''/'') in starts_with an b)"

definition s3sink_target :: "Graph \<Rightarrow> Envelope \<Rightarrow> prefixTarget option" where
  "s3sink_target g e =
     (if env_Kind e \<noteq> ''Binding'' then None
      else case Binding_FromEnvelope e of (_, Some _) \<Rightarrow> None | (b, None) \<Rightarrow>
        (if bi_Mode b \<noteq> ''sink'' then None
         else case lint_provider g e ''s3sink'' of None \<Rightarrow> None | Some _ \<Rightarrow>
           (case lint_resolveRef g e ''targetRef'' ''Dataset'' of None \<Rightarrow> None | Some tgtEnv \<Rightarrow>
             (case Dataset_FromEnvelope tgtEnv of (_, Some _) \<Rightarrow> None | (ds, None) \<Rightarrow>
               Some \<lparr>pt_env = e, pt_bucket = da_Bucket ds, pt_prefix = da_Prefix ds, pt_datasetName = md_Name (env_Metadata tgtEnv)\<rparr>))))"

definition prefixes_collide :: "prefixTarget \<Rightarrow> prefixTarget \<Rightarrow> bool" where
  "prefixes_collide a b \<longleftrightarrow>
     (if pt_bucket a \<noteq> pt_bucket b then False
      else if pt_prefix a = pt_prefix b then False
      else isPathPrefixOf (pt_prefix a) (pt_prefix b) \<or> isPathPrefixOf (pt_prefix b) (pt_prefix a))"

definition s3sink_targets :: "Envelope list \<Rightarrow> Graph \<Rightarrow> prefixTarget list" where
  "s3sink_targets envelopes g = sort_by (\<lambda>t. key_String (env_Key (pt_env t))) (List.map_filter (s3sink_target g) envelopes)"

definition s3sink_LintDesign :: "Envelope list \<Rightarrow> Graph \<Rightarrow> Finding list" where
  "s3sink_LintDesign envelopes g =
     (let targets = s3sink_targets envelopes g; off = marked prefixes_collide targets in
      map (\<lambda>i. let t = targets ! i in mk_finding LintCodePrefixHierarchyCollision Warning (env_Key (pt_env t))
        (PrefixHierarchyCollision (md_Name (env_Metadata (pt_env t))) (pt_bucket t) (pt_prefix t) (other_names pt_env targets off i))) off)"

section \<open>Debezium\<close>

definition LintCodeReplicationSlotPressure :: string where "LintCodeReplicationSlotPressure = ''DL-debezium-001''"
definition LintCodeOverlappingPatternCapture :: string where "LintCodeOverlappingPatternCapture = ''DL-debezium-002''"

definition parseTables :: "Binding \<Rightarrow> string list" where
  "parseTables b = (case is_list (index_any (bi_Options b) ''tables'') of None \<Rightarrow> []
     | Some raw \<Rightarrow> filter (\<lambda>s. s \<noteq> []) (List.map_filter is_string raw))"

definition isAllTables :: "Binding \<Rightarrow> bool" where
  "isAllTables b \<longleftrightarrow> (case is_list (index_any (bi_Options b) ''tables'') of None \<Rightarrow> True | Some raw \<Rightarrow> raw = [])"

definition patternTriggerChars :: string where "patternTriggerChars = ''*?[]()|+''"

definition regexMatches :: "(string \<Rightarrow> (string \<Rightarrow> bool) option) \<Rightarrow> string \<Rightarrow> string \<Rightarrow> bool" where
  "regexMatches rx pattern literal = (case rx (''^(?:'' @ pattern @ '')$'') of None \<Rightarrow> False | Some re \<Rightarrow> re literal)"

definition is_pattern :: "string \<Rightarrow> bool" where
  "is_pattern s \<longleftrightarrow> list_ex (\<lambda>c. c \<in> set patternTriggerChars) s"

definition patternOverlap :: "(string \<Rightarrow> (string \<Rightarrow> bool) option) \<Rightarrow> capture \<Rightarrow> capture \<Rightarrow> bool" where
  "patternOverlap rx a b \<longleftrightarrow>
     (if cap_all a \<or> cap_all b then False
      else list_ex (\<lambda>ta. list_ex (\<lambda>tb. ta \<noteq> tb \<and>
        (is_pattern ta \<and> regexMatches rx ta tb \<or> is_pattern tb \<and> regexMatches rx tb ta)) (cap_tables b)) (cap_tables a))"

text \<open>The Source a debezium Binding captures with its tables, and the Provider of a managed Source.\<close>

definition debezium_capture :: "Graph \<Rightarrow> Envelope \<Rightarrow> ((Key \<times> capture) \<times> Key option) option" where
  "debezium_capture g e =
     (if env_Kind e \<noteq> ''Binding'' then None
      else case Binding_FromEnvelope e of (_, Some _) \<Rightarrow> None | (b, None) \<Rightarrow>
        (if bi_Mode b \<noteq> ''cdc'' then None
         else case lint_provider g e ''debezium'' of None \<Rightarrow> None | Some _ \<Rightarrow>
           (case lint_resolveRef g e ''sourceRef'' ''Source'' of None \<Rightarrow> None | Some srcEnv \<Rightarrow>
             Some ((env_Key srcEnv, \<lparr>cap_env = e, cap_tables = parseTables b, cap_all = isAllTables b\<rparr>),
               (case Source_FromEnvelope srcEnv of (_, Some _) \<Rightarrow> None | (src, None) \<Rightarrow>
                 (if so_External src \<or> so_ProviderRef src = None then None
                  else map_option env_Key (lint_resolveRef g srcEnv ''providerRef'' ''Provider'')))))))"

definition slot_findings :: "Key \<Rightarrow> Envelope list \<Rightarrow> Finding list" where
  "slot_findings serverKey members =
     (if length members < 2 then []
      else let grp = sort_by (\<lambda>e. key_String (env_Key e)) members in
        map (\<lambda>i. mk_finding LintCodeReplicationSlotPressure Warning (env_Key (grp ! i))
          (ReplicationSlotPressure (md_Name (env_Metadata (grp ! i))) (length grp) (key_Name serverKey)
            (other_names (\<lambda>e. e) grp [0..<length grp] i))) [0..<length grp])"

definition lintReplicationSlotPressure :: "(Key \<times> Envelope list) list \<Rightarrow> Finding list" where
  "lintReplicationSlotPressure byServer =
     concat (map (\<lambda>k. slot_findings k (get_or [] byServer k)) (sort_by key_String (map fst byServer)))"

definition pattern_findings :: "(string \<Rightarrow> (string \<Rightarrow> bool) option) \<Rightarrow> capture list \<Rightarrow> Finding list" where
  "pattern_findings rx members =
     (if length members < 2 then []
      else let grp = sort_by (\<lambda>c. key_String (env_Key (cap_env c))) members; off = marked (patternOverlap rx) grp in
        map (\<lambda>i. mk_finding LintCodeOverlappingPatternCapture Warning (env_Key (cap_env (grp ! i)))
          (OverlappingPatternCapture (md_Name (env_Metadata (cap_env (grp ! i)))) (other_names cap_env grp off i))) off)"

definition lintOverlappingPatternCapture ::
  "(string \<Rightarrow> (string \<Rightarrow> bool) option) \<Rightarrow> (Key \<times> capture list) list \<Rightarrow> Finding list" where
  "lintOverlappingPatternCapture rx bySource =
     concat (map (\<lambda>k. pattern_findings rx (get_or [] bySource k)) (sort_by key_String (map fst bySource)))"

definition debezium_LintDesign :: "(string \<Rightarrow> (string \<Rightarrow> bool) option) \<Rightarrow> Envelope list \<Rightarrow> Graph \<Rightarrow> Finding list" where
  "debezium_LintDesign rx envelopes g =
     (let found = List.map_filter (debezium_capture g) envelopes;
          bySource = fold (\<lambda>((k, c), _) gs. add_group k c gs) found [];
          byServer = fold (\<lambda>((_, c), server) gs. case server of None \<Rightarrow> gs | Some k \<Rightarrow> add_group k (cap_env c) gs) found []
      in lintReplicationSlotPressure byServer @ lintOverlappingPatternCapture rx bySource)"

section \<open>What is reported\<close>

lemma set_marked:
  assumes "\<And>a b. R a b = R b a"
  shows "i \<in> set (marked R xs) \<longleftrightarrow> i < length xs \<and> (\<exists>j<length xs. j \<noteq> i \<and> R (xs ! i) (xs ! j))"
proof -
  have "R (xs ! min i j) (xs ! max i j) = R (xs ! i) (xs ! j)" for j
    using assms by (simp add: min_def max_def)
  then show ?thesis by (auto simp: marked_def list_ex_iff)
qed

lemma prefixes_collide_iff: "prefixes_collide a b \<longleftrightarrow> pt_bucket a = pt_bucket b \<and> pt_prefix a \<noteq> pt_prefix b \<and>
    (isPathPrefixOf (pt_prefix a) (pt_prefix b) \<or> isPathPrefixOf (pt_prefix b) (pt_prefix a))"
  by (simp add: prefixes_collide_def)

lemma prefixes_collide_sym: "prefixes_collide a b = prefixes_collide b a"
  unfolding prefixes_collide_iff by (rule iffI; elim conjE disjE; simp)

definition tables_clash :: "(string \<Rightarrow> (string \<Rightarrow> bool) option) \<Rightarrow> string \<Rightarrow> string \<Rightarrow> bool" where
  "tables_clash rx ta tb \<longleftrightarrow> ta \<noteq> tb \<and> (is_pattern ta \<and> regexMatches rx ta tb \<or> is_pattern tb \<and> regexMatches rx tb ta)"

lemma tables_clash_sym: "tables_clash rx ta tb \<longleftrightarrow> tables_clash rx tb ta"
  by (cases "ta = tb") (auto simp: tables_clash_def)

lemma patternOverlap_iff: "patternOverlap rx a b \<longleftrightarrow> \<not> cap_all a \<and> \<not> cap_all b \<and>
    (\<exists>ta\<in>set (cap_tables a). \<exists>tb\<in>set (cap_tables b). tables_clash rx ta tb)"
  by (simp add: patternOverlap_def list_ex_iff tables_clash_def)

lemma patternOverlap_sym: "patternOverlap rx a b = patternOverlap rx b a"
  unfolding patternOverlap_iff using tables_clash_sym by blast

lemma prefix_lint_iff:
  assumes "distinct (map (\<lambda>t. key_String (env_Key (pt_env t))) (List.map_filter (s3sink_target g) envelopes))"
    and "t \<in> set (List.map_filter (s3sink_target g) envelopes)"
  shows "(\<exists>f\<in>set (s3sink_LintDesign envelopes g). f_Resource f = env_Key (pt_env t)) \<longleftrightarrow>
    (\<exists>u\<in>set (List.map_filter (s3sink_target g) envelopes). u \<noteq> t \<and> pt_bucket u = pt_bucket t \<and> pt_prefix u \<noteq> pt_prefix t \<and>
       (isPathPrefixOf (pt_prefix u) (pt_prefix t) \<or> isPathPrefixOf (pt_prefix t) (pt_prefix u)))"
proof -
  let ?ts = "s3sink_targets envelopes g" and ?k = "\<lambda>t. key_String (env_Key (pt_env t))"
  have set: "set ?ts = set (List.map_filter (s3sink_target g) envelopes)" by (simp add: s3sink_targets_def sort_by_def)
  have "distinct (map ?k ?ts)" unfolding s3sink_targets_def sort_by_def using assms(1)
    by (metis mset_map mset_sort mset_eq_imp_distinct_iff)
  then have inj: "i < length ?ts \<Longrightarrow> j < length ?ts \<Longrightarrow> ?k (?ts ! i) = ?k (?ts ! j) \<longleftrightarrow> i = j" for i j
    using nth_eq_iff_index_eq [of "map ?k ?ts" i j] by simp
  obtain i where i: "i < length ?ts" "?ts ! i = t" using assms(2) set by (metis in_set_conv_nth)
  have "(\<exists>f\<in>set (s3sink_LintDesign envelopes g). f_Resource f = env_Key (pt_env t)) \<longleftrightarrow> i \<in> set (marked prefixes_collide ?ts)"
  proof
    assume "\<exists>f\<in>set (s3sink_LintDesign envelopes g). f_Resource f = env_Key (pt_env t)"
    then obtain j where j: "j \<in> set (marked prefixes_collide ?ts)" "env_Key (pt_env (?ts ! j)) = env_Key (pt_env t)"
      by (auto simp: s3sink_LintDesign_def Let_def mk_finding_def)
    then have "j < length ?ts" by (simp add: set_marked [OF prefixes_collide_sym])
    with i j inj [of i j] show "i \<in> set (marked prefixes_collide ?ts)" by simp
  qed (use i in \<open>auto simp: s3sink_LintDesign_def Let_def mk_finding_def\<close>)
  also have "\<dots> \<longleftrightarrow> (\<exists>u\<in>set ?ts. u \<noteq> t \<and> prefixes_collide t u)"
    unfolding set_marked [OF prefixes_collide_sym] using i inj by (metis in_set_conv_nth)
  finally show ?thesis unfolding set prefixes_collide_iff by metis
qed

text \<open>
  The prefix lint reports exactly the sinks whose prefix trees overlap. A sink Binding of an s3sink
  Provider is reported exactly when another one writes the same bucket below it or above it, where the prefix
  of the upper one is not empty.
\<close>

theorem prefix_lint_exact:
  assumes "distinct (map (\<lambda>t. key_String (env_Key (pt_env t))) (List.map_filter (s3sink_target g) envelopes))"
    and "t \<in> set (List.map_filter (s3sink_target g) envelopes)"
  shows "(\<exists>f\<in>set (s3sink_LintDesign envelopes g). f_Resource f = env_Key (pt_env t)) \<longleftrightarrow>
    (\<exists>u\<in>set (List.map_filter (s3sink_target g) envelopes). u \<noteq> t \<and> pt_bucket u = pt_bucket t \<and> pt_prefix u \<noteq> pt_prefix t \<and>
       (isPathPrefixOf (pt_prefix u) (pt_prefix t) \<or> isPathPrefixOf (pt_prefix t) (pt_prefix u)))"
  using assms by (rule prefix_lint_iff)

definition sink_provider :: Envelope where
  "sink_provider = access_env ''Provider'' ''sink'' [(''type'', AStr ''s3sink''), (''runtime'', AMap [(''type'', AStr ''docker'')])]"

definition bucket_env :: "string \<Rightarrow> string \<Rightarrow> string \<Rightarrow> Envelope" where
  "bucket_env name bucket prefix = access_env ''Dataset'' name [(''providerRef'', AMap [(''name'', AStr ''store'')]),
     (''bucket'', AStr bucket), (''prefix'', AStr prefix), (''format'', AStr ''parquet'')]"

definition sink_env_to :: "string \<Rightarrow> string \<Rightarrow> Envelope" where
  "sink_env_to name target = access_env ''Binding'' name [(''mode'', AStr ''sink''), (''providerRef'', AMap [(''name'', AStr ''sink'')]),
     (''sourceRef'', AMap [(''name'', AStr ''orders'')]), (''targetRef'', AMap [(''name'', AStr target)])]"

definition lake :: Graph where
  "lake = \<lparr>Nodes = map (\<lambda>e. (env_Key e, e)) [sink_provider, bucket_env ''all'' ''lake'' [], bucket_env ''events'' ''lake'' ''events'',
     bucket_env ''raw'' ''lake'' ''events/raw'', bucket_env ''hot'' ''cache'' ''hot'', bucket_env ''day'' ''cache'' ''hot/day''], Edges = []\<rparr>"

lemma lake_targets:
  "map_option pt_prefix (s3sink_target lake (sink_env_to ''a'' ''events'')) = Some ''events''"
  "map_option pt_prefix (s3sink_target lake (sink_env_to ''b'' ''raw'')) = Some ''events/raw''"
  "map_option pt_prefix (s3sink_target lake (sink_env_to ''r'' ''all'')) = Some []"
  "map_option pt_bucket (s3sink_target lake (sink_env_to ''a'' ''events'')) = Some ''lake''"
  "map_option pt_bucket (s3sink_target lake (sink_env_to ''c'' ''hot'')) = Some ''cache''"
  by code_simp+

theorem prefix_lint_exact_witness:
  "\<exists>f\<in>set (s3sink_LintDesign [sink_env_to ''a'' ''events'', sink_env_to ''b'' ''raw''] lake). f_Resource f = env_Key (sink_env_to ''a'' ''events'')"
proof -
  let ?es = "[sink_env_to ''a'' ''events'', sink_env_to ''b'' ''raw'']"
  let ?t = "the (s3sink_target lake (sink_env_to ''a'' ''events''))" and ?u = "the (s3sink_target lake (sink_env_to ''b'' ''raw''))"
  have d: "distinct (map (\<lambda>t. key_String (env_Key (pt_env t))) (List.map_filter (s3sink_target lake) ?es))" by code_simp
  have ts: "List.map_filter (s3sink_target lake) ?es = [?t, ?u]" by code_simp
  have u: "?u \<noteq> ?t" "pt_bucket ?u = pt_bucket ?t" "pt_prefix ?u \<noteq> pt_prefix ?t" "isPathPrefixOf (pt_prefix ?t) (pt_prefix ?u)"
    "env_Key (pt_env ?t) = env_Key (sink_env_to ''a'' ''events'')"
    by code_simp+
  have "?t \<in> set (List.map_filter (s3sink_target lake) ?es)" unfolding ts by simp
  from prefix_lint_exact [OF d this] show ?thesis unfolding u(5) [symmetric] ts using u by auto
qed

text \<open>
  A sink that writes the root of a bucket is never reported. A sink Binding whose Dataset has no prefix
  contains every other prefix of its bucket, yet no prefix finding names it, whatever the other Bindings
  write.
\<close>

theorem root_sink_unreported:
  assumes "distinct (map (\<lambda>t. key_String (env_Key (pt_env t))) (List.map_filter (s3sink_target g) envelopes))"
    and "t \<in> set (List.map_filter (s3sink_target g) envelopes)" "pt_prefix t = []"
  shows "(\<forall>u. starts_with (pt_prefix t) (pt_prefix u)) \<and> (\<forall>f\<in>set (s3sink_LintDesign envelopes g). f_Resource f \<noteq> env_Key (pt_env t))"
proof -
  have "\<not> isPathPrefixOf p []" for p by (auto simp: isPathPrefixOf_def Let_def starts_with_def)
  then have "\<not> (\<exists>f\<in>set (s3sink_LintDesign envelopes g). f_Resource f = env_Key (pt_env t))"
    unfolding prefix_lint_iff [OF assms(1,2)] by (simp add: assms(3) isPathPrefixOf_def [of "[]"])
  then show ?thesis by (simp add: assms(3) starts_with_def)
qed

theorem root_sink_unreported_witness:
  "s3sink_LintDesign [sink_env_to ''r'' ''all'', sink_env_to ''a'' ''events''] lake = [] \<and>
   \<not> (\<exists>f\<in>set (s3sink_LintDesign [sink_env_to ''r'' ''all'', sink_env_to ''a'' ''events''] lake).
     f_Resource f = env_Key (sink_env_to ''r'' ''all''))"
proof -
  let ?es = "[sink_env_to ''r'' ''all'', sink_env_to ''a'' ''events'']"
  let ?t = "the (s3sink_target lake (sink_env_to ''r'' ''all''))" and ?u = "the (s3sink_target lake (sink_env_to ''a'' ''events''))"
  have d: "distinct (map (\<lambda>t. key_String (env_Key (pt_env t))) (List.map_filter (s3sink_target lake) ?es))" by code_simp
  have ts: "List.map_filter (s3sink_target lake) ?es = [?t, ?u]" by code_simp
  have t: "pt_prefix ?t = []" "env_Key (pt_env ?t) = env_Key (sink_env_to ''r'' ''all'')" by code_simp+
  have "?t \<in> set (List.map_filter (s3sink_target lake) ?es)" unfolding ts by simp
  from root_sink_unreported [OF d this t(1)] have "\<not> (\<exists>f\<in>set (s3sink_LintDesign ?es lake). f_Resource f = env_Key (sink_env_to ''r'' ''all''))"
    unfolding t(2) by blast
  moreover have "s3sink_LintDesign ?es lake = []" by code_simp
  ultimately show ?thesis by blast
qed

text \<open>
  A prefix finding names Bindings it has nothing to do with. The message for a sink of one bucket lists
  sinks of another bucket, because the other names are all Bindings that overlap with anything.
\<close>

theorem prefix_lint_names_strangers:
  "\<exists>f\<in>set (s3sink_LintDesign [sink_env_to ''a'' ''events'', sink_env_to ''b'' ''raw'', sink_env_to ''c'' ''hot'', sink_env_to ''d'' ''day''] lake).
     f_Message f = PrefixHierarchyCollision ''a'' ''lake'' ''events'' [''b'', ''c'', ''d''] \<and>
     map_option pt_bucket (s3sink_target lake (sink_env_to ''c'' ''hot'')) = Some ''cache''"
  by code_simp

text \<open>
  The replication lint asks for what validation refuses. For a cluster with an even number of brokers, a
  topic with one replica less than brokers has the highest replication factor that passes
  \<open>ValidateStreamReplication\<close>, and \<open>LintDesign\<close> reports it as too low.
\<close>

theorem replication_advice_unmeetable:
  assumes "env_Kind e = ''EventStream''" "EventStream_FromEnvelope e = (es, None)" "\<not> es_External es"
    and "lint_provider g e ''redpanda'' = Some (provEnv, pr)" "brokersDeclared pr = (n, True)" "n mod 2 = 0" "n \<ge> 2"
    and "ReplicationFactor es = n - 1" "e \<in> set envelopes"
  shows "ValidateStreamReplication pr (ReplicationFactor es) = None \<and>
    (\<forall>r>ReplicationFactor es. ValidateStreamReplication pr r \<noteq> None) \<and>
    (\<exists>f\<in>set (redpanda_LintDesign envelopes g). f_Resource f = env_Key e)"
proof (intro conjI allI impI)
  have odd: "(n - 1) mod 2 = 1" using assms(6) by presburger
  show "ValidateStreamReplication pr (ReplicationFactor es) = None"
    using assms(5,7,8) odd by (simp add: ValidateStreamReplication_def)
  show "ValidateStreamReplication pr r \<noteq> None" if "ReplicationFactor es < r" for r
  proof (cases "r > n")
    case False
    with that assms(8) have "r = n" by simp
    with assms(5-7) show ?thesis by (simp add: ValidateStreamReplication_def)
  qed (use assms(5,7) in \<open>simp add: ValidateStreamReplication_def\<close>)
  let ?f = "mk_finding LintCodeReplicationBelowBrokers Info (env_Key e)
    (ReplicationBelowBrokers (md_Name (env_Metadata e)) (ReplicationFactor es) n (md_Name (env_Metadata provEnv)))"
  have "redpanda_finding g e = Some ?f" using assms by (simp add: redpanda_finding_def)
  then have "?f \<in> set (redpanda_LintDesign envelopes g)" using assms(9) by (force simp: redpanda_LintDesign_def List.map_filter_def)
  then show "\<exists>f\<in>set (redpanda_LintDesign envelopes g). f_Resource f = env_Key e" by (force simp: mk_finding_def)
qed

definition four_brokers :: Envelope where
  "four_brokers = access_env ''Provider'' ''broker'' [(''type'', AStr ''redpanda''), (''runtime'', AMap [(''type'', AStr ''docker'')]),
     (''configuration'', AMap [(''brokers'', AInt 4)])]"

definition orders_stream :: Envelope where
  "orders_stream = access_env ''EventStream'' ''orders'' [(''providerRef'', AMap [(''name'', AStr ''broker'')]), (''replication'', AInt 3)]"

definition cluster :: Graph where
  "cluster = \<lparr>Nodes = map (\<lambda>e. (env_Key e, e)) [four_brokers, orders_stream], Edges = []\<rparr>"

theorem replication_advice_unmeetable_witness:
  "\<exists>f\<in>set (redpanda_LintDesign [orders_stream] cluster). f_Resource f = env_Key orders_stream"
proof -
  let ?es = "fst (EventStream_FromEnvelope orders_stream)" and ?p = "the (lint_provider cluster orders_stream ''redpanda'')"
  have f: "env_Kind orders_stream = ''EventStream''" "EventStream_FromEnvelope orders_stream = (?es, None)" "\<not> es_External ?es"
    "lint_provider cluster orders_stream ''redpanda'' = Some (fst ?p, snd ?p)" "brokersDeclared (snd ?p) = (4, True)"
    "ReplicationFactor ?es = 4 - 1"
    by code_simp+
  from replication_advice_unmeetable [OF f(1-5) _ _ f(6)] show ?thesis by simp
qed

end
