(* ===== verification/Secret_Stores.thy ===== *)
theory Secret_Stores
  imports Engine_Steps
begin

text \<open>
  The secret stores behind the \<open>SecretStore\<close> port: \<open>internal/adapters/secrets/env\<close>, \<open>file\<close>,
  \<open>kubernetes\<close> and \<open>vault\<close>, and \<open>router\<close>, which the engine is built with
  (\<open>newEngine\<close> of \<open>cmd/platformctl/root.go\<close>). What the stores read is a record of the process
  environment, the files, the Kubernetes Secrets and the replies of the Vault server; none of them changes it.
  The contract the engine relies on is the locale \<open>secret_backend\<close>: what resolves has exactly the
  declared keys and passes the preflight.
\<close>

section \<open>Paths (path/filepath)\<close>

fun clean_step :: "bool \<Rightarrow> string \<Rightarrow> string list \<Rightarrow> string list" where
  "clean_step rooted part acc =
     (if part = [] \<or> part = ''.'' then acc
      else if part = ''..'' then (case acc of
          [] \<Rightarrow> if rooted then [] else [''..'']
        | x # xs \<Rightarrow> if x = ''..'' then ''..'' # acc else xs)
      else part # acc)"

definition path_Clean :: "string \<Rightarrow> string" where
  "path_Clean s =
     (if s = [] then ''.''
      else let rooted = (hd s = CHR ''/'');
               body = Join (rev (fold (clean_step rooted) (Split (CHR ''/'') s) [])) ''/''
           in if rooted then CHR ''/'' # body else if body = [] then ''.'' else body)"

definition path_Join :: "string list \<Rightarrow> string" where
  "path_Join elems = (let rest = dropWhile (\<lambda>e. e = []) elems in
     if rest = [] then [] else path_Clean (Join rest ''/''))"

section \<open>What the stores read\<close>

text \<open>A path names a readable file or something that can be looked at but not read.\<close>

datatype file_node = Readable string | Unreadable

datatype k8s_secret = SecretNotFound | SecretGetError string | SecretData "(string \<times> string) list"

text \<open>The request is not sent, or a reply with a status, its text and what the text decodes to.\<close>

datatype vault_reply = VaultRequestError string | VaultReply int string "string + anymap"

record secret_world =
  sw_Environ :: "(string \<times> string) list"
  sw_Files :: "(string \<times> file_node) list"
  sw_Clientset :: "string option"
  sw_Secrets :: "string \<Rightarrow> string \<Rightarrow> k8s_secret"
  sw_Vault :: "string \<Rightarrow> string \<Rightarrow> vault_reply"
  sw_FormatFloat :: "rat \<Rightarrow> string"

datatype secret_error =
    WrongBackend string string string
  | EnvKeyNotFound string string string
  | UnsetVariables string "string list"
  | SecretsDirUnset string
  | KeyNotReadable string string string
  | MissingKeyFiles string "string list"
  | NoClientset string string
  | K8sSecretNotFound string string string
  | K8sGetFailed string string string string
  | K8sMissingKeys string string string "string list"
  | VaultUnconfigured string
  | VaultRequestFailed string string
  | VaultStatus string int string string
  | VaultDecode string string
  | VaultKeyAbsent string string string
  | BackendUnavailable string string "string list"

definition Getenv :: "secret_world \<Rightarrow> string \<Rightarrow> string" where
  "Getenv w v = get_or [] (sw_Environ w) v"

section \<open>Environment variables\<close>

definition to_upper :: "char \<Rightarrow> char" where
  "to_upper c = (let n = (of_char c :: nat) in if 97 \<le> n \<and> n \<le> 122 then char_of (n - 32) else c)"

definition env_norm :: "string \<Rightarrow> string" where
  "env_norm s = map to_upper (map (\<lambda>c. if c = CHR ''-'' then CHR ''_'' else c) s)"

definition envVarName :: "string \<Rightarrow> string \<Rightarrow> string" where
  "envVarName name key = ''DATASCAPE_SECRET_'' @ env_norm name @ ''_'' @ env_norm key"

definition env_Resolve :: "SecretReference \<Rightarrow> secret_world \<Rightarrow> secret_error + (string \<times> string) list" where
  "env_Resolve ref w =
     (if sr_Backend ref \<noteq> ''env'' then Inl (WrongBackend (sr_Name ref) (sr_Backend ref) ''env'')
      else fold_err (\<lambda>key out. let envVar = envVarName (sr_Name ref) key in
        case map_of (sw_Environ w) envVar of
          None \<Rightarrow> Inl (EnvKeyNotFound (sr_Name ref) key envVar)
        | Some val \<Rightarrow> Inr (AList.update key val out)) (sr_Keys ref) [])"

definition env_Preflight :: "SecretReference \<Rightarrow> secret_world \<Rightarrow> secret_error option" where
  "env_Preflight ref w =
     (if sr_Backend ref \<noteq> ''env'' then Some (WrongBackend (sr_Name ref) (sr_Backend ref) ''env'')
      else let missing = filter (\<lambda>v. map_of (sw_Environ w) v = None) (map (envVarName (sr_Name ref)) (sr_Keys ref))
           in if missing \<noteq> [] then Some (UnsetVariables (sr_Name ref) missing) else None)"

section \<open>Files\<close>

definition dirEnv :: string where "dirEnv = ''DATASCAPE_SECRETS_DIR''"

definition trim_newlines :: "string \<Rightarrow> string" where
  "trim_newlines s = rev (dropWhile (\<lambda>c. c = CHR 0x0A) (rev s))"

definition file_Resolve :: "SecretReference \<Rightarrow> secret_world \<Rightarrow> secret_error + (string \<times> string) list" where
  "file_Resolve ref w =
     (if sr_Backend ref \<noteq> ''file'' then Inl (WrongBackend (sr_Name ref) (sr_Backend ref) ''file'')
      else let base = Getenv w dirEnv in
        if base = [] then Inl (SecretsDirUnset (sr_Name ref))
        else fold_err (\<lambda>key out. let p = path_Join [base, sr_Name ref, key] in
          case map_of (sw_Files w) p of
            Some (Readable data) \<Rightarrow> Inr (AList.update key (trim_newlines data) out)
          | _ \<Rightarrow> Inl (KeyNotReadable (sr_Name ref) key p)) (sr_Keys ref) [])"

definition file_Preflight :: "SecretReference \<Rightarrow> secret_world \<Rightarrow> secret_error option" where
  "file_Preflight ref w =
     (if sr_Backend ref \<noteq> ''file'' then Some (WrongBackend (sr_Name ref) (sr_Backend ref) ''file'')
      else let base = Getenv w dirEnv in
        if base = [] then Some (SecretsDirUnset (sr_Name ref))
        else let missing = filter (\<lambda>p. map_of (sw_Files w) p = None)
               (map (\<lambda>key. path_Join [base, sr_Name ref, key]) (sr_Keys ref))
          in if missing \<noteq> [] then Some (MissingKeyFiles (sr_Name ref) missing) else None)"

section \<open>Kubernetes Secrets\<close>

definition k8s_target :: "SecretReference \<Rightarrow> string \<times> string" where
  "k8s_target ref =
     (let name = (if sr_KubernetesName ref = [] then sr_Name ref else sr_KubernetesName ref);
          namespace = (if sr_KubernetesNamespace ref = [] then sr_Namespace ref else sr_KubernetesNamespace ref);
          namespace = (if namespace = [] then ''default'' else namespace)
      in (name, namespace))"

definition k8s_values :: "(string \<times> string) list \<Rightarrow> string list \<Rightarrow> (string \<times> string) list \<times> string list" where
  "k8s_values data keys = fold (\<lambda>key (out, missing). case map_of data key of
     None \<Rightarrow> (out, missing @ [key]) | Some v \<Rightarrow> (AList.update key v out, missing)) keys ([], [])"

definition k8s_Resolve :: "SecretReference \<Rightarrow> secret_world \<Rightarrow> secret_error + (string \<times> string) list" where
  "k8s_Resolve ref w =
     (if sr_Backend ref \<noteq> ''kubernetes'' then Inl (WrongBackend (sr_Name ref) (sr_Backend ref) ''kubernetes'')
      else case sw_Clientset w of Some err \<Rightarrow> Inl (NoClientset (sr_Name ref) err) | None \<Rightarrow>
        (case k8s_target ref of (name, namespace) \<Rightarrow>
          (case sw_Secrets w namespace name of
             SecretNotFound \<Rightarrow> Inl (K8sSecretNotFound (sr_Name ref) namespace name)
           | SecretGetError err \<Rightarrow> Inl (K8sGetFailed (sr_Name ref) namespace name err)
           | SecretData data \<Rightarrow> (case k8s_values data (sr_Keys ref) of (out, missing) \<Rightarrow>
               (if missing \<noteq> [] then Inl (K8sMissingKeys (sr_Name ref) namespace name (sort_by id missing))
                else Inr out)))))"

definition k8s_Preflight :: "SecretReference \<Rightarrow> secret_world \<Rightarrow> secret_error option" where
  "k8s_Preflight ref w = (case k8s_Resolve ref w of Inl err \<Rightarrow> Some err | Inr _ \<Rightarrow> None)"

section \<open>Vault\<close>

text \<open>\<open>fmt.Sprintf\<close> with \<open>%v\<close> on a decoded JSON value; the text of a float is a parameter.\<close>

fun format_v :: "(rat \<Rightarrow> string) \<Rightarrow> any \<Rightarrow> string" where
  "format_v ff ANil = ''<nil>''"
| "format_v ff (ABool b) = (if b then ''true'' else ''false'')"
| "format_v ff (AInt i) = (if i < 0 then CHR ''-'' # show_nat (nat (- i)) else show_nat (nat i))"
| "format_v ff (AFloat q) = ff q"
| "format_v ff (AStr s) = s"
| "format_v ff (AList xs) = ''['' @ Join (map (format_v ff) xs) '' '' @ '']''"
| "format_v ff (AMap m) = ''map['' @ Join (map (\<lambda>(k, s). k @ '':'' @ s)
     (sort_by fst (map (\<lambda>(k, v). (k, format_v ff v)) m))) '' '' @ '']''"

definition vault_config :: "secret_world \<Rightarrow> (string \<times> string \<times> string \<times> string) option" where
  "vault_config w =
     (let addr = Getenv w ''VAULT_ADDR''; token = Getenv w ''VAULT_TOKEN'' in
      if addr = [] \<or> token = [] then None
      else let mount = Getenv w ''DATASCAPE_VAULT_MOUNT''; mount = (if mount = [] then ''secret'' else mount);
               base = Getenv w ''DATASCAPE_VAULT_BASE''; base = (if base = [] then ''datascape'' else base)
           in Some (addr, token, mount, base))"

definition vault_url :: "string \<Rightarrow> string \<Rightarrow> string \<Rightarrow> string \<Rightarrow> string" where
  "vault_url addr mount base name = addr @ ''/v1/'' @ mount @ ''/data/'' @ base @ ''/'' @ name"

definition vault_Resolve :: "SecretReference \<Rightarrow> secret_world \<Rightarrow> secret_error + (string \<times> string) list" where
  "vault_Resolve ref w =
     (if sr_Backend ref \<noteq> ''vault'' then Inl (WrongBackend (sr_Name ref) (sr_Backend ref) ''vault'')
      else case vault_config w of None \<Rightarrow> Inl (VaultUnconfigured (sr_Name ref)) | Some (addr, token, mount, base) \<Rightarrow>
        (let url = vault_url addr mount base (sr_Name ref) in
         case sw_Vault w url token of
           VaultRequestError err \<Rightarrow> Inl (VaultRequestFailed (sr_Name ref) err)
         | VaultReply status msg body \<Rightarrow>
             (if status \<noteq> 200 then Inl (VaultStatus (sr_Name ref) status url msg)
              else case body of Inl err \<Rightarrow> Inl (VaultDecode (sr_Name ref) err) | Inr data \<Rightarrow>
                fold_err (\<lambda>key out. case map_of data key of
                    None \<Rightarrow> Inl (VaultKeyAbsent (sr_Name ref) key (mount @ ''/'' @ base @ ''/'' @ sr_Name ref))
                  | Some v \<Rightarrow> Inr (AList.update key (format_v (sw_FormatFloat w) v) out)) (sr_Keys ref) [])))"

definition vault_Preflight :: "SecretReference \<Rightarrow> secret_world \<Rightarrow> secret_error option" where
  "vault_Preflight ref w = (case vault_Resolve ref w of Inl err \<Rightarrow> Some err | Inr _ \<Rightarrow> None)"

section \<open>The router\<close>

record secret_store =
  st_Resolve :: "SecretReference \<Rightarrow> secret_world \<Rightarrow> secret_error + (string \<times> string) list"
  st_Preflight :: "SecretReference \<Rightarrow> secret_world \<Rightarrow> secret_error option"

type_synonym Router = "(string \<times> secret_store) list"

definition Register_store :: "string \<Rightarrow> secret_store \<Rightarrow> Router \<Rightarrow> Router" where
  "Register_store backend store r = AList.update backend store r"

definition router_Resolve :: "Router \<Rightarrow> SecretReference \<Rightarrow> secret_world \<Rightarrow> secret_error + (string \<times> string) list" where
  "router_Resolve r ref w = (case map_of r (sr_Backend ref) of
     None \<Rightarrow> Inl (BackendUnavailable (sr_Name ref) (sr_Backend ref) (sort_by id (map fst r)))
   | Some store \<Rightarrow> st_Resolve store ref w)"

definition router_Preflight :: "Router \<Rightarrow> SecretReference \<Rightarrow> secret_world \<Rightarrow> secret_error option" where
  "router_Preflight r ref w = (case map_of r (sr_Backend ref) of
     None \<Rightarrow> Some (BackendUnavailable (sr_Name ref) (sr_Backend ref) (sort_by id (map fst r)))
   | Some store \<Rightarrow> st_Preflight store ref w)"

definition engine_secrets :: "gates \<Rightarrow> Router" where
  "engine_secrets g =
     (let r = Register_store ''file'' \<lparr>st_Resolve = file_Resolve, st_Preflight = file_Preflight\<rparr>
            (Register_store ''env'' \<lparr>st_Resolve = env_Resolve, st_Preflight = env_Preflight\<rparr> []);
          r = (if Enabled g ''VaultSecretBackend''
               then Register_store ''vault'' \<lparr>st_Resolve = vault_Resolve, st_Preflight = vault_Preflight\<rparr> r else r)
      in if Enabled g ''KubernetesSecretBackend''
         then Register_store ''kubernetes'' \<lparr>st_Resolve = k8s_Resolve, st_Preflight = k8s_Preflight\<rparr> r else r)"

text \<open>The router as the engine's port; \<open>msg\<close> is the text of an error.\<close>

definition secrets_port :: "(secret_error \<Rightarrow> string) \<Rightarrow> Router \<Rightarrow> secret_world SecretStore" where
  "secrets_port msg r =
     \<lparr>ss_Resolve = (\<lambda>ref w. (map_sum msg id (router_Resolve r ref w), w)),
      ss_Preflight = (\<lambda>ref w. (map_option msg (router_Preflight r ref w), w))\<rparr>"

section \<open>The contract of a secret store\<close>

definition collected :: "(string \<times> string) list \<Rightarrow> string list \<Rightarrow> bool" where
  "collected vals keys \<longleftrightarrow> distinct (map fst vals) \<and> set (map fst vals) = set keys"

definition collect :: "('k \<Rightarrow> 'v option) \<Rightarrow> 'k list \<Rightarrow> ('k \<times> 'v) list \<Rightarrow> ('k \<times> 'v) list" where
  "collect f ks out = fold (\<lambda>k. AList.update k (the (f k))) ks out"

lemma collect_simps [simp]:
  "collect f [] out = out" "collect f (k # ks) out = collect f ks (AList.update k (the (f k)) out)"
  by (simp_all add: collect_def)

lemma distinct_collect: "distinct (map fst out) \<Longrightarrow> distinct (map fst (collect f ks out))"
  by (induction ks arbitrary: out) (simp_all add: distinct_update)

lemma keys_collect: "set (map fst (collect f ks out)) = set (map fst out) \<union> set ks"
  by (induction ks arbitrary: out) (auto simp: dom_update [unfolded dom_map_of_conv_image_fst])

lemma collected_collect: "collected (collect f ks []) ks"
  using distinct_collect [of "[]" f ks] keys_collect [of f ks "[]"] by (simp add: collected_def)

lemma fold_err_collect:
  "fold_err (\<lambda>k out. case f k of None \<Rightarrow> Inl (e k) | Some v \<Rightarrow> Inr (AList.update k v out)) ks out =
     (case find (\<lambda>k. f k = None) ks of Some k \<Rightarrow> Inl (e k) | None \<Rightarrow> Inr (collect f ks out))"
  by (induction ks arbitrary: out) (auto split: option.splits)

lemma fold_err_collect_Inr:
  assumes "fold_err (\<lambda>k out. case f k of None \<Rightarrow> Inl (e k) | Some v \<Rightarrow> Inr (AList.update k v out)) ks [] = Inr vals"
  shows "collected vals ks" "k \<in> set ks \<Longrightarrow> f k \<noteq> None"
  using assms collected_collect [of f ks]
  by (auto simp: fold_err_collect find_None_iff split: option.splits)

lemma fold_err_collect_total:
  "(\<And>k. k \<in> set ks \<Longrightarrow> f k \<noteq> None) \<Longrightarrow>
    fold_err (\<lambda>k out. case f k of None \<Rightarrow> Inl (e k) | Some v \<Rightarrow> Inr (AList.update k v out)) ks [] =
      Inr (collect f ks [])"
proof -
  assume "\<And>k. k \<in> set ks \<Longrightarrow> f k \<noteq> None"
  then have "find (\<lambda>k. f k = None) ks = None" by (auto simp: find_None_iff)
  then show ?thesis by (simp add: fold_err_collect)
qed

lemma k8s_values_eq:
  "k8s_values data keys =
    (collect (map_of data) (filter (\<lambda>k. map_of data k \<noteq> None) keys) [], filter (\<lambda>k. map_of data k = None) keys)"
proof -
  have "fold (\<lambda>key (out, missing). case map_of data key of
        None \<Rightarrow> (out, missing @ [key]) | Some v \<Rightarrow> (AList.update key v out, missing)) keys (out, missing) =
      (collect (map_of data) (filter (\<lambda>k. map_of data k \<noteq> None) keys) out,
       missing @ filter (\<lambda>k. map_of data k = None) keys)" for out missing
    by (induction keys arbitrary: out missing) (auto split: option.splits)
  then show ?thesis by (simp add: k8s_values_def)
qed

text \<open>
  \<open>trusted\<close> is what has to hold of the world, beyond a clean preflight, for a reference to resolve; it is
  trivial for every store but the files.
\<close>

locale secret_contract =
  fixes resolve :: "SecretReference \<Rightarrow> secret_world \<Rightarrow> secret_error + (string \<times> string) list"
    and preflight :: "SecretReference \<Rightarrow> secret_world \<Rightarrow> secret_error option"
    and trusted :: "SecretReference \<Rightarrow> secret_world \<Rightarrow> bool"
  assumes resolved: "resolve ref w = Inr vals \<Longrightarrow> collected vals (sr_Keys ref) \<and> preflight ref w = None"
    and checked: "preflight ref w = None \<Longrightarrow> trusted ref w \<Longrightarrow> \<exists>vals. resolve ref w = Inr vals"
begin

lemma preflight_exact: "trusted ref w \<Longrightarrow> preflight ref w = None \<longleftrightarrow> (\<exists>vals. resolve ref w = Inr vals)"
  using resolved checked by blast

lemma preflight_collects:
  "preflight ref w = None \<Longrightarrow> trusted ref w \<Longrightarrow> \<exists>vals. resolve ref w = Inr vals \<and> collected vals (sr_Keys ref)"
  using resolved checked by blast

text \<open>The engine's preflight loop over this store.\<close>

definition port :: "(secret_error \<Rightarrow> string) \<Rightarrow> secret_world SecretStore" where
  "port msg = \<lparr>ss_Resolve = (\<lambda>ref w. (map_sum msg id (resolve ref w), w)),
     ss_Preflight = (\<lambda>ref w. (map_option msg (preflight ref w), w))\<rparr>"

lemma preflight_loop_clean:
  "preflight_loop (port msg) envs ps w = ([], w') \<longleftrightarrow>
     ps = [] \<and> w' = w \<and> (\<forall>env\<in>set envs. env_Kind env = ''SecretReference'' \<longrightarrow>
       SecretReference_Validate (secretRefFrom env) = None \<and> preflight (secretRefFrom env) w = None)"
  by (induction envs arbitrary: ps) (auto simp: port_def split: option.splits)

end

locale secret_backend = secret_contract +
  fixes backend :: string
  assumes foreign: "sr_Backend ref \<noteq> backend \<Longrightarrow> preflight ref w \<noteq> None"
begin

lemma resolves_own: "resolve ref w = Inr vals \<Longrightarrow> sr_Backend ref = backend"
  using resolved foreign by blast

end

lemma env_Resolve_Inr:
  assumes "env_Resolve ref w = Inr vals"
  shows "sr_Backend ref = ''env''" "collected vals (sr_Keys ref)"
    "\<And>key. key \<in> set (sr_Keys ref) \<Longrightarrow> map_of (sw_Environ w) (envVarName (sr_Name ref) key) \<noteq> None"
proof -
  show b: "sr_Backend ref = ''env''" using assms by (simp add: env_Resolve_def split: if_splits)
  have *: "fold_err (\<lambda>key out. case map_of (sw_Environ w) (envVarName (sr_Name ref) key) of
      None \<Rightarrow> Inl (EnvKeyNotFound (sr_Name ref) key (envVarName (sr_Name ref) key))
    | Some v \<Rightarrow> Inr (AList.update key v out)) (sr_Keys ref) [] = Inr vals"
    using assms b by (simp add: env_Resolve_def Let_def)
  show "collected vals (sr_Keys ref)" by (rule fold_err_collect_Inr(1) [OF *])
  show "map_of (sw_Environ w) (envVarName (sr_Name ref) key) \<noteq> None" if "key \<in> set (sr_Keys ref)" for key
    by (rule fold_err_collect_Inr(2) [OF * that])
qed

lemma env_Preflight_None:
  "env_Preflight ref w = None \<longleftrightarrow> sr_Backend ref = ''env'' \<and>
    (\<forall>key\<in>set (sr_Keys ref). map_of (sw_Environ w) (envVarName (sr_Name ref) key) \<noteq> None)"
  by (auto simp: env_Preflight_def Let_def filter_empty_conv)

lemma env_Resolve_total:
  assumes "env_Preflight ref w = None"
  shows "env_Resolve ref w =
    Inr (collect (\<lambda>key. map_of (sw_Environ w) (envVarName (sr_Name ref) key)) (sr_Keys ref) [])"
  using assms unfolding env_Preflight_None env_Resolve_def Let_def
  by (simp add: fold_err_collect_total)

interpretation envs: secret_backend env_Resolve env_Preflight "\<lambda>_ _. True" "''env''"
proof
  fix ref w vals assume "env_Resolve ref w = Inr vals"
  then show "collected vals (sr_Keys ref) \<and> env_Preflight ref w = None"
    using env_Resolve_Inr unfolding env_Preflight_None by blast
qed (simp_all add: env_Resolve_total env_Preflight_None)

text \<open>A key file the file store can look at but not read passes its preflight.\<close>

definition key_path :: "SecretReference \<Rightarrow> secret_world \<Rightarrow> string \<Rightarrow> string" where
  "key_path ref w key = path_Join [Getenv w dirEnv, sr_Name ref, key]"

definition key_text :: "SecretReference \<Rightarrow> secret_world \<Rightarrow> string \<Rightarrow> string option" where
  "key_text ref w key = (case map_of (sw_Files w) (key_path ref w key) of
     Some (Readable data) \<Rightarrow> Some (trim_newlines data) | _ \<Rightarrow> None)"

definition keys_readable :: "SecretReference \<Rightarrow> secret_world \<Rightarrow> bool" where
  "keys_readable ref w \<longleftrightarrow> (\<forall>key\<in>set (sr_Keys ref). map_of (sw_Files w) (key_path ref w key) \<noteq> Some Unreadable)"

lemma file_Resolve_eq:
  "file_Resolve ref w =
     (if sr_Backend ref \<noteq> ''file'' then Inl (WrongBackend (sr_Name ref) (sr_Backend ref) ''file'')
      else if Getenv w dirEnv = [] then Inl (SecretsDirUnset (sr_Name ref))
      else fold_err (\<lambda>key out. case key_text ref w key of
          None \<Rightarrow> Inl (KeyNotReadable (sr_Name ref) key (key_path ref w key))
        | Some v \<Rightarrow> Inr (AList.update key v out)) (sr_Keys ref) [])"
proof -
  have "(\<lambda>key out. case map_of (sw_Files w) (key_path ref w key) of
        Some (Readable data) \<Rightarrow> Inr (AList.update key (trim_newlines data) out)
      | _ \<Rightarrow> Inl (KeyNotReadable (sr_Name ref) key (key_path ref w key))) =
    (\<lambda>key out. case key_text ref w key of
        None \<Rightarrow> Inl (KeyNotReadable (sr_Name ref) key (key_path ref w key))
      | Some v \<Rightarrow> Inr (AList.update key v out))"
    by (intro ext) (auto simp: key_text_def split: option.splits file_node.splits)
  then show ?thesis unfolding file_Resolve_def Let_def key_path_def [symmetric] by simp
qed

lemma file_Preflight_None:
  "file_Preflight ref w = None \<longleftrightarrow> sr_Backend ref = ''file'' \<and> Getenv w dirEnv \<noteq> [] \<and>
    (\<forall>key\<in>set (sr_Keys ref). map_of (sw_Files w) (key_path ref w key) \<noteq> None)"
  by (auto simp: file_Preflight_def Let_def filter_empty_conv key_path_def)

lemma key_text_None:
  "key_text ref w key = None \<longleftrightarrow> map_of (sw_Files w) (key_path ref w key) \<in> {None, Some Unreadable}"
  by (auto simp: key_text_def split: option.splits file_node.splits)

lemma file_Resolve_Inr:
  assumes "file_Resolve ref w = Inr vals"
  shows "sr_Backend ref = ''file''" "Getenv w dirEnv \<noteq> []" "collected vals (sr_Keys ref)"
    "\<And>key. key \<in> set (sr_Keys ref) \<Longrightarrow> key_text ref w key \<noteq> None"
proof -
  show b: "sr_Backend ref = ''file''" "Getenv w dirEnv \<noteq> []"
    using assms by (simp_all add: file_Resolve_eq split: if_splits)
  have *: "fold_err (\<lambda>key out. case key_text ref w key of
      None \<Rightarrow> Inl (KeyNotReadable (sr_Name ref) key (key_path ref w key))
    | Some v \<Rightarrow> Inr (AList.update key v out)) (sr_Keys ref) [] = Inr vals"
    using assms b by (simp add: file_Resolve_eq)
  show "collected vals (sr_Keys ref)" by (rule fold_err_collect_Inr(1) [OF *])
  show "key_text ref w key \<noteq> None" if "key \<in> set (sr_Keys ref)" for key
    by (rule fold_err_collect_Inr(2) [OF * that])
qed

lemma file_Resolve_total:
  assumes "file_Preflight ref w = None" "keys_readable ref w"
  shows "file_Resolve ref w = Inr (collect (key_text ref w) (sr_Keys ref) [])"
proof -
  have "key_text ref w key \<noteq> None" if "key \<in> set (sr_Keys ref)" for key
    using that assms unfolding file_Preflight_None keys_readable_def key_text_None by blast
  then show ?thesis
    using assms(1) unfolding file_Preflight_None file_Resolve_eq by (simp add: fold_err_collect_total)
qed

interpretation files: secret_backend file_Resolve file_Preflight keys_readable "''file''"
proof
  fix ref w vals assume "file_Resolve ref w = Inr vals"
  note r = file_Resolve_Inr [OF this]
  from r(4) have "\<forall>key\<in>set (sr_Keys ref). map_of (sw_Files w) (key_path ref w key) \<noteq> None"
    unfolding key_text_None by auto
  with r(1-3) show "collected vals (sr_Keys ref) \<and> file_Preflight ref w = None"
    unfolding file_Preflight_None by blast
qed (simp_all add: file_Resolve_total file_Preflight_None)

lemma k8s_Resolve_Inr:
  assumes "k8s_Resolve ref w = Inr vals"
  shows "sr_Backend ref = ''kubernetes''" "collected vals (sr_Keys ref)"
proof -
  show b: "sr_Backend ref = ''kubernetes''" using assms by (simp add: k8s_Resolve_def split: if_splits)
  obtain data where "filter (\<lambda>k. map_of data k = None) (sr_Keys ref) = []"
      "vals = collect (map_of data) (filter (\<lambda>k. map_of data k \<noteq> None) (sr_Keys ref)) []"
    using assms unfolding k8s_Resolve_def k8s_values_eq
    by (auto split: if_splits option.splits prod.splits k8s_secret.splits)
  moreover from this have "filter (\<lambda>k. map_of data k \<noteq> None) (sr_Keys ref) = sr_Keys ref"
    by (auto simp: filter_empty_conv intro: filter_True)
  ultimately show "collected vals (sr_Keys ref)" by (simp add: collected_collect)
qed

interpretation kube: secret_backend k8s_Resolve k8s_Preflight "\<lambda>_ _. True" "''kubernetes''"
proof
  fix ref w vals assume "k8s_Resolve ref w = Inr vals"
  then show "collected vals (sr_Keys ref) \<and> k8s_Preflight ref w = None"
    using k8s_Resolve_Inr by (simp add: k8s_Preflight_def)
qed (auto simp: k8s_Preflight_def k8s_Resolve_def split: sum.splits)

lemma vault_Resolve_Inr:
  assumes "vault_Resolve ref w = Inr vals"
  shows "sr_Backend ref = ''vault''" "collected vals (sr_Keys ref)"
proof -
  show b: "sr_Backend ref = ''vault''" using assms by (simp add: vault_Resolve_def split: if_splits)
  obtain addr token mount base where c: "vault_config w = Some (addr, token, mount, base)"
    using assms b unfolding vault_Resolve_def by (cases "vault_config w") auto
  obtain msg data where "sw_Vault w (vault_url addr mount base (sr_Name ref)) token = VaultReply 200 msg (Inr data)"
    using assms b c unfolding vault_Resolve_def Let_def
    by (auto split: vault_reply.splits if_splits sum.splits)
  then have *: "fold_err (\<lambda>key out. case map_of data key of
        None \<Rightarrow> Inl (VaultKeyAbsent (sr_Name ref) key (mount @ ''/'' @ base @ ''/'' @ sr_Name ref))
      | Some v \<Rightarrow> Inr (AList.update key (format_v (sw_FormatFloat w) v) out)) (sr_Keys ref) [] = Inr vals"
    using assms b c by (simp add: vault_Resolve_def Let_def)
  have "(\<lambda>key out. case map_of data key of
        None \<Rightarrow> Inl (VaultKeyAbsent (sr_Name ref) key (mount @ ''/'' @ base @ ''/'' @ sr_Name ref))
      | Some v \<Rightarrow> Inr (AList.update key (format_v (sw_FormatFloat w) v) out)) =
    (\<lambda>key out. case map_option (format_v (sw_FormatFloat w)) (map_of data key) of
        None \<Rightarrow> Inl (VaultKeyAbsent (sr_Name ref) key (mount @ ''/'' @ base @ ''/'' @ sr_Name ref))
      | Some v \<Rightarrow> Inr (AList.update key v out))"
    by (intro ext) (simp split: option.splits)
  note ** = * [unfolded this]
  show "collected vals (sr_Keys ref)" by (rule fold_err_collect_Inr(1) [OF **])
qed

interpretation vaults: secret_backend vault_Resolve vault_Preflight "\<lambda>_ _. True" "''vault''"
proof
  fix ref w vals assume "vault_Resolve ref w = Inr vals"
  then show "collected vals (sr_Keys ref) \<and> vault_Preflight ref w = None"
    using vault_Resolve_Inr by (simp add: vault_Preflight_def)
qed (auto simp: vault_Preflight_def vault_Resolve_def split: sum.splits)

section \<open>The stores of the engine\<close>

lemma engine_secrets_lookup:
  "map_of (engine_secrets g) b =
     (if b = ''env'' then Some \<lparr>st_Resolve = env_Resolve, st_Preflight = env_Preflight\<rparr>
      else if b = ''file'' then Some \<lparr>st_Resolve = file_Resolve, st_Preflight = file_Preflight\<rparr>
      else if b = ''vault'' \<and> Enabled g ''VaultSecretBackend''
      then Some \<lparr>st_Resolve = vault_Resolve, st_Preflight = vault_Preflight\<rparr>
      else if b = ''kubernetes'' \<and> Enabled g ''KubernetesSecretBackend''
      then Some \<lparr>st_Resolve = k8s_Resolve, st_Preflight = k8s_Preflight\<rparr> else None)"
  by (simp add: engine_secrets_def Register_store_def Let_def update_conv')

lemma engine_secrets_cases:
  assumes "map_of (engine_secrets g) b = Some s"
  obtains "s = \<lparr>st_Resolve = env_Resolve, st_Preflight = env_Preflight\<rparr>"
  | "b = ''file''" "s = \<lparr>st_Resolve = file_Resolve, st_Preflight = file_Preflight\<rparr>"
  | "s = \<lparr>st_Resolve = vault_Resolve, st_Preflight = vault_Preflight\<rparr>"
  | "s = \<lparr>st_Resolve = k8s_Resolve, st_Preflight = k8s_Preflight\<rparr>"
  using assms unfolding engine_secrets_lookup by (auto split: if_splits)

definition files_trusted :: "SecretReference \<Rightarrow> secret_world \<Rightarrow> bool" where
  "files_trusted ref w \<longleftrightarrow> (sr_Backend ref = ''file'' \<longrightarrow> keys_readable ref w)"

interpretation routed: secret_contract "router_Resolve (engine_secrets g)" "router_Preflight (engine_secrets g)"
    files_trusted for g
proof
  fix ref w vals assume r: "router_Resolve (engine_secrets g) ref w = Inr vals"
  then obtain s where s: "map_of (engine_secrets g) (sr_Backend ref) = Some s"
    by (auto simp: router_Resolve_def split: option.splits)
  from s show "collected vals (sr_Keys ref) \<and> router_Preflight (engine_secrets g) ref w = None"
    by (cases rule: engine_secrets_cases)
      (use r s envs.resolved files.resolved vaults.resolved kube.resolved in
        \<open>simp_all add: router_Resolve_def router_Preflight_def\<close>)
next
  fix ref w assume r: "router_Preflight (engine_secrets g) ref w = None" "files_trusted ref w"
  then obtain s where s: "map_of (engine_secrets g) (sr_Backend ref) = Some s"
    by (auto simp: router_Preflight_def split: option.splits)
  from s show "\<exists>vals. router_Resolve (engine_secrets g) ref w = Inr vals"
    by (cases rule: engine_secrets_cases)
      (use r s envs.checked files.checked vaults.checked kube.checked in
        \<open>simp_all add: router_Resolve_def router_Preflight_def files_trusted_def\<close>)
qed

lemma secrets_port_eq: "secrets_port msg (engine_secrets g) = routed.port g msg"
  by (simp add: secrets_port_def routed.port_def)

lemma clean_preflight_resolves:
  assumes "en_SecretStore e = Some (secrets_port msg (engine_secrets g))"
    "PreflightSecrets e envelopes w = ([], w')" "env \<in> set envelopes" "env_Kind env = ''SecretReference''"
    "files_trusted (secretRefFrom env) w"
  shows "\<exists>vals. resolve_reference e env w = (Inr vals, w) \<and> collected vals (sr_Keys (secretRefFrom env))"
proof -
  have ok: "SecretReference_Validate (secretRefFrom env) = None"
    "router_Preflight (engine_secrets g) (secretRefFrom env) w = None"
    using assms(1-4) unfolding PreflightSecrets_def secrets_port_eq
    by (simp_all add: routed.preflight_loop_clean)
  from routed.preflight_collects [OF ok(2) assms(5)]
  obtain vals where "router_Resolve (engine_secrets g) (secretRefFrom env) w = Inr vals"
    "collected vals (sr_Keys (secretRefFrom env))" by blast
  then show ?thesis using ok(1) assms(1)
    by (simp add: resolve_reference_def Let_def secrets_port_def)
qed

text \<open>
  C28: with the stores \<open>newEngine\<close> wires up, a clean secret preflight of a manifest set means that every
  SecretReference in it resolves afterwards, to a value for exactly its declared keys. For the file backend
  this needs that no key file is present but unreadable, which the preflight does not look at.
\<close>

theorem preflight_guarantees_secrets:
  assumes "en_SecretStore e = Some (secrets_port msg (engine_secrets g))"
    "PreflightSecrets e envelopes w = ([], w')" "env \<in> set envelopes" "env_Kind env = ''SecretReference''"
    "sr_Backend (secretRefFrom env) = ''file'' \<longrightarrow> keys_readable (secretRefFrom env) w"
  shows "\<exists>vals. resolve_reference e env w = (Inr vals, w) \<and> distinct (map fst vals) \<and>
    set (map fst vals) = set (sr_Keys (secretRefFrom env))"
  using clean_preflight_resolves [OF assms(1-4)] assms(5) by (simp add: files_trusted_def collected_def)

text \<open>
  The file store's preflight is not exact. A reference that passes it fails to resolve exactly when one
  of its key files is there but cannot be read (a directory, or a file without permission).
\<close>

theorem file_preflight_gap:
  assumes "file_Preflight ref w = None"
  shows "(\<exists>err. file_Resolve ref w = Inl err) \<longleftrightarrow>
    (\<exists>key\<in>set (sr_Keys ref). map_of (sw_Files w) (path_Join [Getenv w dirEnv, sr_Name ref, key]) = Some Unreadable)"
proof
  assume "\<exists>err. file_Resolve ref w = Inl err"
  then have "\<not> keys_readable ref w" using file_Resolve_total [OF assms] by auto
  then show "\<exists>key\<in>set (sr_Keys ref). map_of (sw_Files w) (path_Join [Getenv w dirEnv, sr_Name ref, key]) = Some Unreadable"
    by (simp add: keys_readable_def key_path_def)
next
  assume "\<exists>key\<in>set (sr_Keys ref). map_of (sw_Files w) (path_Join [Getenv w dirEnv, sr_Name ref, key]) = Some Unreadable"
  then obtain key where "key \<in> set (sr_Keys ref)" "key_text ref w key = None"
    unfolding key_path_def [symmetric] key_text_None by auto
  then have "\<And>vals. file_Resolve ref w \<noteq> Inr vals" using file_Resolve_Inr(4) by blast
  then show "\<exists>err. file_Resolve ref w = Inl err" by (cases "file_Resolve ref w") auto
qed

text \<open>
  The environment variable of a secret does not determine it: a reference \<open>a-b\<close> with key \<open>c\<close> and a
  reference \<open>a\<close> with key \<open>b-c\<close> read the same variable, and so do equal names of two namespaces.
\<close>

theorem env_secrets_shared:
  "env_Resolve \<lparr>sr_Name = a @ ''-'' @ b, sr_Namespace = n, sr_Backend = ''env'', sr_Keys = [c],
      sr_KubernetesName = [], sr_KubernetesNamespace = []\<rparr> w = Inr [(c, v)] \<longleftrightarrow>
   env_Resolve \<lparr>sr_Name = a, sr_Namespace = n', sr_Backend = ''env'', sr_Keys = [b @ ''-'' @ c],
      sr_KubernetesName = [], sr_KubernetesNamespace = []\<rparr> w = Inr [(b @ ''-'' @ c, v)]"
proof -
  have "envVarName (a @ ''-'' @ b) c = envVarName a (b @ ''-'' @ c)"
    by (simp add: envVarName_def env_norm_def to_upper_def)
  then show ?thesis by (simp add: env_Resolve_def Let_def split: option.splits)
qed

section \<open>A concrete set of secrets\<close>

definition secret_files :: secret_world where
  "secret_files = \<lparr>sw_Environ = [(''DATASCAPE_SECRETS_DIR'', ''/run/secrets/'')],
     sw_Files = [(''/run/secrets/db/password'', Readable (''pw'' @ [CHR 0x0A])), (''/run/secrets/db/ca'', Unreadable)],
     sw_Clientset = None, sw_Secrets = (\<lambda>_ _. SecretNotFound), sw_Vault = (\<lambda>_ _. VaultRequestError []),
     sw_FormatFloat = (\<lambda>_. [])\<rparr>"

definition secret_manifest :: "string \<Rightarrow> Envelope" where
  "secret_manifest key = (sample_env ''SecretReference'' ''db'')\<lparr>env_Spec :=
     [(''backend'', AStr ''file''), (''keys'', AList [AStr key])]\<rparr>"

definition secret_engine :: "(secret_world, unit) Engine" where
  "secret_engine = \<lparr>en_Registry = New_Registry [],
     en_SecretStore = Some (secrets_port (\<lambda>_. ''secret'') (engine_secrets sample_gates)), en_Load = (\<lambda>_. Inl []),
     en_Save = (\<lambda>_ w. (None, w)), en_Now = (\<lambda>_. 0), en_HaltOnError = False, en_HealDrift = False,
     en_AllowDestructive = False, en_AllowImportedDeletes = False, en_Mediation = None, en_Fabric = None,
     en_DomainRuntime = (\<lambda>rt _ _ _ _ _ _. Inr rt), en_EnsureReachable = (\<lambda>_ _ _ w. (Inl [], w)),
     en_ProbeReachable = (\<lambda>_ _ _ w. (None, w)), en_ProbeTCP = (\<lambda>_ w. (None, w)),
     en_Sleep = id, en_Time = (\<lambda>_. 0), en_Done = (\<lambda>_. False), en_ScaledWait = id,
     en_Digest = render, en_Error = (\<lambda>_. [])\<rparr>"

theorem preflight_guarantees_secrets_witness:
  "\<exists>vals. resolve_reference secret_engine (secret_manifest ''password'') secret_files = (Inr vals, secret_files) \<and>
    set (map fst vals) = {''password''}"
proof -
  have k: "sr_Keys (secretRefFrom (secret_manifest ''password'')) = [''password'']" by code_simp
  have "fst (PreflightSecrets secret_engine [secret_manifest ''password''] secret_files) = []" by code_simp
  then obtain w' where "PreflightSecrets secret_engine [secret_manifest ''password''] secret_files = ([], w')"
    by (cases "PreflightSecrets secret_engine [secret_manifest ''password''] secret_files") simp
  moreover have "en_SecretStore secret_engine = Some (secrets_port (\<lambda>_. ''secret'') (engine_secrets sample_gates))"
    by (simp add: secret_engine_def)
  moreover have "env_Kind (secret_manifest ''password'') = ''SecretReference''" by (simp add: secret_manifest_def sample_env_def)
  moreover have "keys_readable (secretRefFrom (secret_manifest ''password'')) secret_files" by code_simp
  moreover have "secret_manifest ''password'' \<in> set [secret_manifest ''password'']" by simp
  ultimately have "\<exists>vals. resolve_reference secret_engine (secret_manifest ''password'') secret_files = (Inr vals, secret_files) \<and>
      distinct (map fst vals) \<and> set (map fst vals) = set (sr_Keys (secretRefFrom (secret_manifest ''password'')))"
    using preflight_guarantees_secrets by blast
  then show ?thesis unfolding k by auto
qed

theorem file_preflight_gap_witness:
  "\<exists>err. file_Resolve (secretRefFrom (secret_manifest ''ca'')) secret_files = Inl err"
proof -
  let ?ref = "secretRefFrom (secret_manifest ''ca'')"
  have "file_Preflight ?ref secret_files = None" by code_simp
  moreover have "sr_Keys ?ref = [''ca'']" by code_simp
  moreover have "map_of (sw_Files secret_files) (path_Join [Getenv secret_files dirEnv, sr_Name ?ref, ''ca'']) = Some Unreadable"
    by code_simp
  ultimately show ?thesis using file_preflight_gap [of ?ref secret_files] by simp
qed

end
