(* ===== verification/State_Doctor.thy ===== *)
theory State_Doctor
  imports Secret_Stores State_Backends Lock_Protocols
begin

text \<open>
  The state commands of \<open>cmd/platformctl/state.go\<close>: the choice of the store (\<open>stateStore\<close>, with
  \<open>New\<close> of the s3 store), \<open>state inspect\<close>, \<open>state doctor\<close>, \<open>state repair\<close> and \<open>state unlock\<close>. A store is
  the record of its methods, over a world that holds the persisted state and the lock; the two backends of
  \<open>State_Backends\<close> with the locks of \<open>Lock_Protocols\<close> are its instances, and the contract the commands
  rely on is the locale \<open>locked_store\<close>. Output is left out.
\<close>

section \<open>Choosing the store\<close>

record S3Config =
  sc_Endpoint :: string
  sc_AccessKey :: string
  sc_SecretKey :: string
  sc_Bucket :: string
  sc_Prefix :: string
  sc_Secure :: bool
  sc_Region :: string
  sc_LeaseTTL :: int
  sc_Holder :: string

record S3Store =
  s3s_bucket :: string
  s3s_prefix :: string
  s3s_holder :: string
  s3s_leaseTTL :: int

definition DefaultLeaseTTL :: int where "DefaultLeaseTTL = 15 * 60 * 1000000000"

datatype store_choice_error =
    StoreGate gate_error
  | BucketFlagRequired
  | StateSecretRef secret_error
  | S3BucketRequired
  | S3ClientError string string
  | UnknownStateBackend string

text \<open>The client library accepts or refuses the configuration; the default holder is \<open>host:pid\<close>.\<close>

definition s3_New :: "(S3Config \<Rightarrow> string option) \<Rightarrow> string \<Rightarrow> S3Config \<Rightarrow> store_choice_error + S3Store" where
  "s3_New minio_New process cfg =
     (if sc_Bucket cfg = [] then Inl S3BucketRequired
      else case minio_New cfg of Some err \<Rightarrow> Inl (S3ClientError (sc_Endpoint cfg) err) | None \<Rightarrow>
        Inr \<lparr>s3s_bucket = sc_Bucket cfg, s3s_prefix = sc_Prefix cfg,
          s3s_holder = (if sc_Holder cfg = [] then process else sc_Holder cfg),
          s3s_leaseTTL = (if sc_LeaseTTL cfg \<le> 0 then DefaultLeaseTTL else sc_LeaseTTL cfg)\<rparr>)"

definition stateKey :: "S3Store \<Rightarrow> string" where "stateKey s = s3s_prefix s @ ''state.json''"
definition lockKey :: "S3Store \<Rightarrow> string" where "lockKey s = s3s_prefix s @ ''state.lock''"

record store_flags =
  fl_stateBackend :: string
  fl_stateFile :: string
  fl_stateBucket :: string
  fl_stateSecretRef :: string
  fl_stateEndpoint :: string
  fl_statePrefix :: string
  fl_stateInsecure :: bool
  fl_stateRegion :: string
  fl_stateLockTTL :: int

datatype chosen_store = LocalStore string | SharedStore S3Store

definition state_credentials :: "secret_world \<Rightarrow> string \<Rightarrow> secret_error + (string \<times> string)" where
  "state_credentials w name =
     (if name = [] then Inr ([], [])
      else map_sum id (\<lambda>creds. (get_or [] creds ''accessKey'', get_or [] creds ''secretKey''))
        (env_Resolve \<lparr>sr_Name = name, sr_Namespace = [], sr_Backend = ''env'', sr_Keys = [''accessKey'', ''secretKey''],
           sr_KubernetesName = [], sr_KubernetesNamespace = []\<rparr> w))"

definition stateStore ::
  "(S3Config \<Rightarrow> string option) \<Rightarrow> string \<Rightarrow> gates \<Rightarrow> secret_world \<Rightarrow> store_flags \<Rightarrow> store_choice_error + chosen_store" where
  "stateStore minio_New process gates w a =
     (if fl_stateBackend a = [] \<or> fl_stateBackend a = ''local'' then Inr (LocalStore (fl_stateFile a))
      else if fl_stateBackend a = ''s3''
      then (case Require gates ''SharedStateBackend'' of Some err \<Rightarrow> Inl (StoreGate err) | None \<Rightarrow>
        (if fl_stateBucket a = [] then Inl BucketFlagRequired
         else case state_credentials w (fl_stateSecretRef a) of Inl err \<Rightarrow> Inl (StateSecretRef err)
         | Inr (accessKey, secretKey) \<Rightarrow>
             map_sum id SharedStore (s3_New minio_New process
               \<lparr>sc_Endpoint = fl_stateEndpoint a, sc_AccessKey = accessKey, sc_SecretKey = secretKey,
                sc_Bucket = fl_stateBucket a, sc_Prefix = fl_statePrefix a, sc_Secure = (\<not> fl_stateInsecure a),
                sc_Region = fl_stateRegion a, sc_LeaseTTL = fl_stateLockTTL a, sc_Holder = []\<rparr>)))
      else Inl (UnknownStateBackend (fl_stateBackend a)))"

section \<open>Doctor\<close>

text \<open>The methods of a store; the optional ones are the interfaces \<open>rawVersionReader\<close> and \<open>forceUnlocker\<close>.\<close>

record 'w StatePort =
  sp_RawVersion :: "('w \<Rightarrow> string + int) option"
  sp_Load :: "'w \<Rightarrow> string + State"
  sp_Save :: "State \<Rightarrow> 'w \<Rightarrow> string option \<times> 'w"
  sp_Lock :: "'w \<Rightarrow> string option \<times> 'w"
  sp_Unlock :: "'w \<Rightarrow> 'w"
  sp_ForceUnlock :: "('w \<Rightarrow> string option \<times> 'w) option"

record doctorFindings =
  df_FileVersion :: int
  df_LegacyOrphans :: "Key list"
  df_CorruptEntries :: "Key list"
  df_GoneObjects :: "Key list"

datatype doctor_error =
    StoreUnavailable string
  | NoRawVersion
  | RawVersionFailed string
  | LoadFailed string
  | DoctorRuntime registry_error
  | InspectFailed string

definition Healthy :: "doctorFindings \<Rightarrow> bool" where
  "Healthy f \<longleftrightarrow> df_FileVersion f \<ge> CurrentVersion \<and> df_LegacyOrphans f = [] \<and> df_CorruptEntries f = [] \<and>
     df_GoneObjects f = []"

record stateDoctorReport =
  dr_FileVersion :: int
  dr_CurrentVersion :: int
  dr_StaleFormat :: bool
  dr_LegacyOrphans :: "string list"
  dr_CorruptEntries :: "string list"
  dr_GoneObjects :: "string list"

definition doctor_report :: "doctorFindings \<Rightarrow> stateDoctorReport" where
  "doctor_report f = \<lparr>dr_FileVersion = df_FileVersion f, dr_CurrentVersion = CurrentVersion,
     dr_StaleFormat = (df_FileVersion f < CurrentVersion), dr_LegacyOrphans = map key_String (df_LegacyOrphans f),
     dr_CorruptEntries = map key_String (df_CorruptEntries f), dr_GoneObjects = map key_String (df_GoneObjects f)\<rparr>"

text \<open>
  One entry. The runtime is built at the first Provider entry that needs it; \<open>insp\<close> is its \<open>Inspect\<close>,
  which answers whether the object is there.
\<close>

definition doctor_step ::
  "('p, 'r) Registry \<Rightarrow> string \<Rightarrow> ('r \<Rightarrow> string \<Rightarrow> 'w \<Rightarrow> string + bool) \<Rightarrow> State \<Rightarrow> 'w
    \<Rightarrow> Key \<Rightarrow> 'r option \<times> doctorFindings \<Rightarrow> doctor_error + 'r option \<times> doctorFindings" where
  "doctor_step reg runtimeType insp st w key s = (case s of (rt, f) \<Rightarrow>
     (case rs_LastApplied (get_or zero_ResourceState (st_Resources st) key) of
        None \<Rightarrow> Inr (rt, f\<lparr>df_LegacyOrphans := df_LegacyOrphans f @ [key]\<rparr>)
      | Some env \<Rightarrow>
         (if env_Key env \<noteq> key then Inr (rt, f\<lparr>df_CorruptEntries := df_CorruptEntries f @ [key]\<rparr>)
          else if key_Kind key \<noteq> ''Provider'' then Inr (rt, f)
          else case (case rt of Some r \<Rightarrow> Inr r | None \<Rightarrow> registry_Runtime reg runtimeType []) of
            Inl err \<Rightarrow> Inl (DoctorRuntime err)
          | Inr r \<Rightarrow> (case insp r (RuntimeObjectName env) w of
              Inl err \<Rightarrow> Inl (InspectFailed err)
            | Inr found \<Rightarrow> Inr (Some r, if found then f else f\<lparr>df_GoneObjects := df_GoneObjects f @ [key]\<rparr>)))))"

definition doctor_loop ::
  "('p, 'r) Registry \<Rightarrow> string \<Rightarrow> ('r \<Rightarrow> string \<Rightarrow> 'w \<Rightarrow> string + bool) \<Rightarrow> State \<Rightarrow> 'w \<Rightarrow> int
    \<Rightarrow> doctor_error + doctorFindings" where
  "doctor_loop reg runtimeType insp st w fileVersion =
     map_sum id snd (fold_err (doctor_step reg runtimeType insp st w) (sort_by key_String (map fst (st_Resources st)))
       (None, \<lparr>df_FileVersion = fileVersion, df_LegacyOrphans = [], df_CorruptEntries = [], df_GoneObjects = []\<rparr>))"

definition stateDoctor ::
  "string + 'w StatePort \<Rightarrow> ('p, 'r) Registry \<Rightarrow> string \<Rightarrow> ('r \<Rightarrow> string \<Rightarrow> 'w \<Rightarrow> string + bool) \<Rightarrow> 'w
    \<Rightarrow> doctor_error + doctorFindings \<times> State" where
  "stateDoctor store reg runtimeType insp w =
     (case store of Inl err \<Rightarrow> Inl (StoreUnavailable err) | Inr sp \<Rightarrow>
       (case sp_RawVersion sp of None \<Rightarrow> Inl NoRawVersion | Some raw \<Rightarrow>
         (case raw w of Inl err \<Rightarrow> Inl (RawVersionFailed err) | Inr fileVersion \<Rightarrow>
           (case sp_Load sp w of Inl err \<Rightarrow> Inl (LoadFailed err) | Inr st \<Rightarrow>
             (case doctor_loop reg runtimeType insp st w fileVersion of
                Inl err \<Rightarrow> Inl err | Inr f \<Rightarrow> Inr (f, st))))))"

section \<open>The commands\<close>

datatype command_exit = ExitValidation string | ExitExecution doctor_error | ExitLockHeld string | SaveFailed string
  | NoForceUnlock | UnlockFailed string | ExitPlanChanges stateDoctorReport

record stateEntryOutput =
  se_Key :: string
  se_SpecHash :: string
  se_Lifecycle :: string
  se_Imported :: bool
  se_HasLastApplied :: bool
  se_ProviderState :: anymap

definition state_entry :: "State \<Rightarrow> Key \<Rightarrow> stateEntryOutput" where
  "state_entry st k = (let rs = get_or zero_ResourceState (st_Resources st) k in
     \<lparr>se_Key = key_String k, se_SpecHash = rs_SpecHash rs, se_Lifecycle = rs_Lifecycle rs, se_Imported = rs_Imported rs,
      se_HasLastApplied = (rs_LastApplied rs \<noteq> None), se_ProviderState = rs_Provider rs\<rparr>)"

definition inspectCmd :: "string + 'w StatePort \<Rightarrow> 'w \<Rightarrow> command_exit + int \<times> stateEntryOutput list" where
  "inspectCmd store w =
     (case store of Inl err \<Rightarrow> Inl (ExitValidation err) | Inr sp \<Rightarrow>
       (case sp_Load sp w of Inl err \<Rightarrow> Inl (ExitExecution (LoadFailed err)) | Inr st \<Rightarrow>
          Inr (st_Version st, map (state_entry st) (sort_by key_String (map fst (st_Resources st))))))"

definition doctorCmd ::
  "string + 'w StatePort \<Rightarrow> ('p, 'r) Registry \<Rightarrow> string \<Rightarrow> ('r \<Rightarrow> string \<Rightarrow> 'w \<Rightarrow> string + bool) \<Rightarrow> 'w
    \<Rightarrow> command_exit + stateDoctorReport" where
  "doctorCmd store reg runtimeType insp w =
     (case stateDoctor store reg runtimeType insp w of Inl err \<Rightarrow> Inl (ExitExecution err)
      | Inr (f, st) \<Rightarrow> if Healthy f then Inr (doctor_report f) else Inl (ExitPlanChanges (doctor_report f)))"

datatype repairAction = DroppedGoneObject string | MigratedFormat int int

record repairOutput =
  ro_Applied :: "repairAction list"
  ro_Cancelled :: bool

definition drop_entries :: "Key list \<Rightarrow> State \<Rightarrow> State" where
  "drop_entries ks st = st\<lparr>st_Resources := fold AList.delete ks (st_Resources st)\<rparr>"

text \<open>What happens under the lock; \<open>answer\<close> is the word typed at the prompt.\<close>

definition repair_locked ::
  "'w StatePort \<Rightarrow> doctorFindings \<Rightarrow> State \<Rightarrow> bool \<Rightarrow> string \<Rightarrow> 'w \<Rightarrow> (command_exit + repairOutput) \<times> 'w" where
  "repair_locked sp f st autoApprove answer w =
     (if df_GoneObjects f \<noteq> [] \<and> \<not> autoApprove \<and> answer \<noteq> ''yes''
      then (Inr \<lparr>ro_Applied = [], ro_Cancelled = True\<rparr>, w)
      else let dropped = map (\<lambda>k. DroppedGoneObject (key_String k)) (df_GoneObjects f);
               st' = drop_entries (df_GoneObjects f) st in
        case sp_Save sp st' w of
          (Some err, w') \<Rightarrow> (Inl (SaveFailed err), w')
        | (None, w') \<Rightarrow>
            (Inr \<lparr>ro_Applied = dropped @ (if df_FileVersion f < CurrentVersion
                then [MigratedFormat (df_FileVersion f) CurrentVersion] else []), ro_Cancelled = False\<rparr>, w'))"

text \<open>
  The doctor runs before the lock is taken: \<open>meanwhile\<close> is what other processes do to the store between
  the two (\<open>id\<close> when there are none).
\<close>

definition repairCmd ::
  "string + 'w StatePort \<Rightarrow> ('p, 'r) Registry \<Rightarrow> string \<Rightarrow> ('r \<Rightarrow> string \<Rightarrow> 'w \<Rightarrow> string + bool) \<Rightarrow> bool \<Rightarrow> string
    \<Rightarrow> ('w \<Rightarrow> 'w) \<Rightarrow> 'w \<Rightarrow> (command_exit + repairOutput) \<times> 'w" where
  "repairCmd store reg runtimeType insp autoApprove answer meanwhile w =
     (case stateDoctor store reg runtimeType insp w of Inl err \<Rightarrow> (Inl (ExitExecution err), w)
      | Inr (f, st) \<Rightarrow>
         (if Healthy f then (Inr \<lparr>ro_Applied = [], ro_Cancelled = False\<rparr>, w)
          else case store of Inl err \<Rightarrow> (Inl (ExitValidation err), w) | Inr sp \<Rightarrow>
            (case sp_Lock sp (meanwhile w) of
               (Some err, w1) \<Rightarrow> (Inl (ExitLockHeld err), w1)
             | (None, w1) \<Rightarrow> (case repair_locked sp f st autoApprove answer w1 of (r, w2) \<Rightarrow> (r, sp_Unlock sp w2)))))"

definition unlockCmd :: "string + 'w StatePort \<Rightarrow> 'w \<Rightarrow> command_exit option \<times> 'w" where
  "unlockCmd store w =
     (case store of Inl err \<Rightarrow> (Some (ExitValidation err), w) | Inr sp \<Rightarrow>
       (case sp_ForceUnlock sp of None \<Rightarrow> (Some NoForceUnlock, w) | Some fu \<Rightarrow>
         (case fu w of (Some err, w') \<Rightarrow> (Some (UnlockFailed err), w') | (None, w') \<Rightarrow> (None, w'))))"

section \<open>The two stores as ports\<close>

text \<open>
  Process \<open>p\<close> on the local disk: the state file beside the lock file. \<open>Lock\<close> opens and flocks,
  the unlock function drops the flock and removes the path. \<open>msg\<close> is the text of an error.
\<close>

record local_disk =
  ld_files :: file_system
  ld_lock :: flock_world

definition local_Lock :: "nat \<Rightarrow> local_disk \<Rightarrow> string option \<times> local_disk" where
  "local_Lock p d = (case run_flock [OpenFile p, Flock p] (ld_lock d) of
     None \<Rightarrow> (Some ''lock'', d)
   | Some l \<Rightarrow> ((case flock_pc l p of Holding _ \<Rightarrow> None | _ \<Rightarrow> Some ''locked by another platformctl process''),
       d\<lparr>ld_lock := l\<rparr>))"

definition local_Unlock :: "nat \<Rightarrow> local_disk \<Rightarrow> local_disk" where
  "local_Unlock p d = (case run_flock [FlockUn p, RemovePath p] (ld_lock d) of
     None \<Rightarrow> d | Some l \<Rightarrow> d\<lparr>ld_lock := l\<rparr>)"

definition local_port :: "nat \<Rightarrow> (store_error \<Rightarrow> string) \<Rightarrow> (io_op \<Rightarrow> bool) \<Rightarrow> local_disk StatePort" where
  "local_port p msg fails =
     \<lparr>sp_RawVersion = Some (\<lambda>d. map_sum msg id (RawVersion (\<lambda>_. False) (ld_files d))),
      sp_Load = (\<lambda>d. map_sum msg id (Load (\<lambda>_. False) (ld_files d))),
      sp_Save = (\<lambda>st d. case Save fails st (ld_files d) of (r, fs) \<Rightarrow> (map_option msg r, d\<lparr>ld_files := fs\<rparr>)),
      sp_Lock = local_Lock p, sp_Unlock = local_Unlock p,
      sp_ForceUnlock = Some (\<lambda>d. (None, d\<lparr>ld_lock := (ld_lock d)\<lparr>lock_path := None\<rparr>\<rparr>))\<rparr>"

text \<open>Process \<open>p\<close> on the object store: the state object beside the lease object.\<close>

record shared_bucket =
  sb_state :: state_object
  sb_lease :: s3_world

definition s3_run :: "int \<Rightarrow> s3_action list \<Rightarrow> s3_world \<Rightarrow> s3_world" where
  "s3_run ttl as w = fold (\<lambda>a w. case s3_do ttl a w of None \<Rightarrow> w | Some w' \<Rightarrow> w') as w"

definition s3_port :: "nat \<Rightarrow> int \<Rightarrow> (s3_error \<Rightarrow> string) \<Rightarrow> (s3_op \<Rightarrow> bool) \<Rightarrow> shared_bucket StatePort" where
  "s3_port p ttl msg fails =
     \<lparr>sp_RawVersion = Some (\<lambda>b. map_sum msg id (S3RawVersion (\<lambda>_. False) (sb_state b))),
      sp_Load = (\<lambda>b. map_sum msg id (S3Load (\<lambda>_. False) (sb_state b))),
      sp_Save = (\<lambda>st b. case S3Save fails st (sb_state b) of (r, obj) \<Rightarrow> (map_option msg r, b\<lparr>sb_state := obj\<rparr>)),
      sp_Lock = (\<lambda>b. let l = s3_run ttl [LockStart p, LockCreate p, LockInspect p, LockReclaim p] (sb_lease b) in
        ((case w_pc l p of Held _ \<Rightarrow> None | _ \<Rightarrow> Some ''locked by another platformctl process''), b\<lparr>sb_lease := l\<rparr>)),
      sp_Unlock = (\<lambda>b. b\<lparr>sb_lease := s3_run ttl [ReleaseStart p, ReleaseRead p, ReleaseRemove p] (sb_lease b)\<rparr>),
      sp_ForceUnlock = Some (\<lambda>b. (None, b\<lparr>sb_lease := (sb_lease b)\<lparr>w_obj := None\<rparr>\<rparr>))\<rparr>"

section \<open>What the doctor finds\<close>

definition last_applied :: "State \<Rightarrow> Key \<Rightarrow> Envelope option" where
  "last_applied st k = rs_LastApplied (get_or zero_ResourceState (st_Resources st) k)"

definition corrupt_entry :: "State \<Rightarrow> Key \<Rightarrow> bool" where
  "corrupt_entry st k \<longleftrightarrow> (case last_applied st k of None \<Rightarrow> False | Some env \<Rightarrow> env_Key env \<noteq> k)"

definition gone_entry ::
  "('p, 'r) Registry \<Rightarrow> string \<Rightarrow> ('r \<Rightarrow> string \<Rightarrow> 'w \<Rightarrow> string + bool) \<Rightarrow> State \<Rightarrow> 'w \<Rightarrow> Key \<Rightarrow> bool" where
  "gone_entry reg runtimeType insp st w k \<longleftrightarrow> (case last_applied st k of None \<Rightarrow> False | Some env \<Rightarrow>
     env_Key env = k \<and> key_Kind k = ''Provider'' \<and>
     (case registry_Runtime reg runtimeType [] of Inl err \<Rightarrow> False
      | Inr rt \<Rightarrow> insp rt (RuntimeObjectName env) w = Inr False))"

lemma doctor_step_cases:
  assumes "doctor_step reg ty insp st w key (rt, f) = Inr (rt', f')"
    "\<And>r. rt = Some r \<Longrightarrow> registry_Runtime reg ty [] = Inr r"
  shows "f' = f\<lparr>df_LegacyOrphans := df_LegacyOrphans f @ (if last_applied st key = None then [key] else []),
       df_CorruptEntries := df_CorruptEntries f @ (if corrupt_entry st key then [key] else []),
       df_GoneObjects := df_GoneObjects f @ (if gone_entry reg ty insp st w key then [key] else [])\<rparr>"
    "\<And>r. rt' = Some r \<Longrightarrow> registry_Runtime reg ty [] = Inr r"
  using assms
  by (auto simp: doctor_step_def last_applied_def corrupt_entry_def gone_entry_def
      split: option.splits if_splits sum.splits)

lemma doctor_fold:
  assumes "fold_err (doctor_step reg ty insp st w) ks (rt, f) = Inr (rt', f')"
    "\<And>r. rt = Some r \<Longrightarrow> registry_Runtime reg ty [] = Inr r"
  shows "f' = f\<lparr>df_LegacyOrphans := df_LegacyOrphans f @ filter (\<lambda>k. last_applied st k = None) ks,
       df_CorruptEntries := df_CorruptEntries f @ filter (corrupt_entry st) ks,
       df_GoneObjects := df_GoneObjects f @ filter (gone_entry reg ty insp st w) ks\<rparr>"
  using assms
proof (induction ks arbitrary: rt f)
  case (Cons k ks)
  obtain rt1 f1 where s: "doctor_step reg ty insp st w k (rt, f) = Inr (rt1, f1)"
    using Cons.prems(1) by (auto split: sum.splits)
  note c = doctor_step_cases [OF s Cons.prems(2)]
  show ?case using Cons.IH [of rt1 f1] Cons.prems(1) s c by simp
qed simp

lemma doctor_loop_eq:
  assumes "doctor_loop reg ty insp st w v = Inr f"
  defines "ks \<equiv> sort_by key_String (map fst (st_Resources st))"
  shows "f = \<lparr>df_FileVersion = v, df_LegacyOrphans = filter (\<lambda>k. last_applied st k = None) ks,
    df_CorruptEntries = filter (corrupt_entry st) ks, df_GoneObjects = filter (gone_entry reg ty insp st w) ks\<rparr>"
proof -
  obtain rt where "fold_err (doctor_step reg ty insp st w) ks
      (None, \<lparr>df_FileVersion = v, df_LegacyOrphans = [], df_CorruptEntries = [], df_GoneObjects = []\<rparr>) = Inr (rt, f)"
    using assms(1) unfolding doctor_loop_def ks_def by (auto simp: map_sum_def split: sum.splits)
  from doctor_fold [OF this] show ?thesis by simp
qed

lemma stateDoctor_Inr:
  assumes "stateDoctor (Inr sp) reg ty insp w = Inr (f, st)"
  obtains raw v where "sp_RawVersion sp = Some raw" "raw w = Inr v" "sp_Load sp w = Inr st"
    "doctor_loop reg ty insp st w v = Inr f"
  using assms by (auto simp: stateDoctor_def split: option.splits sum.splits)

lemma drop_entries_eq:
  "drop_entries ks st = st\<lparr>st_Resources := filter (\<lambda>(k, rs). k \<notin> set ks) (st_Resources st)\<rparr>"
proof -
  have "fold AList.delete ks al = filter (\<lambda>(k, v). k \<notin> set ks) al" for al :: "(Key \<times> ResourceState) list"
    by (induction ks arbitrary: al) (auto simp: AList.delete_eq split_def intro!: filter_cong)
  then show ?thesis by (simp add: drop_entries_def)
qed

lemma wf_drop_entries: "wf_State st \<Longrightarrow> wf_State (drop_entries ks st)"
  by (auto simp: wf_State_def drop_entries_eq split_def distinct_map_filter)

lemma map_of_drop_keys:
  "map_of (filter (\<lambda>(k, v). k \<notin> S) kvs) k = (if k \<in> S then None else map_of kvs k)"
  by (induction kvs) auto

lemma norm_entries_fixed: "norm_entries kvs = kvs \<Longrightarrow> (k, v) \<in> set kvs \<Longrightarrow> norm_LastApplied v = v"
  by (induction kvs) (auto simp: norm_entries_def)

lemma set_update_subset: "set (AList.update k v kvs) \<subseteq> insert (k, v) (set kvs)"
  by (induction kvs) auto

lemma rekey_values: "(k, v) \<in> set (rekey f kvs) \<Longrightarrow> \<exists>k'. (k', v) \<in> set kvs"
proof (induction kvs arbitrary: k v rule: rev_induct)
  case (snoc kv kvs)
  obtain a b where "kv = (a, b)" by (cases kv)
  with snoc show ?case using set_update_subset [of "f a" b "rekey f kvs"] by (fastforce simp: rekey_snoc)
qed simp

lemma ParseKey_namespace: "key_Namespace (ParseKey s) \<noteq> []"
  by (auto simp: ParseKey_def parseV1Key_def NormalizeNamespace_def DefaultNamespace_def Let_def
      split: list.splits prod.splits)

lemma Normalize_wf:
  "wf_State (Normalize s)" "norm_entries (st_Resources (Normalize s)) = st_Resources (Normalize s)"
proof -
  obtain raw where r: "st_Resources (Normalize s) = rekey ParseKey (norm_entries raw)"
    by (auto simp: Normalize_def Let_def norm_entries_def)
  have "k \<in> fst ` set (st_Resources (Normalize s)) \<Longrightarrow> key_Namespace k \<noteq> []" for k
    unfolding r rekey_keys using ParseKey_namespace by blast
  then show "wf_State (Normalize s)" by (simp add: wf_State_def r)
  have "norm_LastApplied v = v" if kv: "(k, v) \<in> set (rekey ParseKey (norm_entries raw))" for k v
  proof -
    obtain k' where "(k', v) \<in> set (norm_entries raw)" using rekey_values [OF kv] by blast
    then show ?thesis by (auto simp: norm_entries_def)
  qed
  then show "norm_entries (st_Resources (Normalize s)) = st_Resources (Normalize s)"
    unfolding r by (auto simp: norm_entries_def intro!: map_idI)
qed

section \<open>The contract of a locked store\<close>

text \<open>Taking and releasing the lock leaves the state alone, and what is loaded is well formed.\<close>

locale locked_store = state_store "sp_Load sp" "sp_Save sp" for sp :: "'w StatePort" +
  assumes load_wf: "sp_Load sp w = Inr st \<Longrightarrow> wf_State st \<and> norm_entries (st_Resources st) = st_Resources st"
    and lock_keeps: "sp_Load sp (snd (sp_Lock sp w)) = sp_Load sp w"
    and unlock_keeps: "sp_Load sp (sp_Unlock sp w) = sp_Load sp w"
begin

lemma repair_locked_effect:
  assumes "wf_State st" "repair_locked sp f st yes ans w = (Inr out, w')"
  shows "sp_Load sp w' = (if ro_Cancelled out then sp_Load sp w else Inr (reloaded (drop_entries (df_GoneObjects f) st)))"
    "ro_Cancelled out \<longleftrightarrow> df_GoneObjects f \<noteq> [] \<and> \<not> yes \<and> ans \<noteq> ''yes''"
proof -
  show c: "ro_Cancelled out \<longleftrightarrow> df_GoneObjects f \<noteq> [] \<and> \<not> yes \<and> ans \<noteq> ''yes''"
    using assms(2) by (auto simp: repair_locked_def Let_def split: if_splits prod.splits option.splits)
  show "sp_Load sp w' = (if ro_Cancelled out then sp_Load sp w else Inr (reloaded (drop_entries (df_GoneObjects f) st)))"
  proof (cases "ro_Cancelled out")
    case True
    then show ?thesis using assms(2) c by (auto simp: repair_locked_def)
  next
    case False
    then have "sp_Save sp (drop_entries (df_GoneObjects f) st) w = (None, w')"
      using assms(2) c by (auto simp: repair_locked_def Let_def split: prod.splits option.splits)
    then show ?thesis using False save_ok [OF wf_drop_entries [OF assms(1)]] by simp
  qed
qed

lemma repair_effect:
  assumes d: "stateDoctor (Inr sp) reg ty insp w = Inr (f, st)"
    and r: "repairCmd (Inr sp) reg ty insp yes ans meanwhile w = (Inr out, w')"
  shows "sp_Load sp w' = (if Healthy f then sp_Load sp w else if ro_Cancelled out then sp_Load sp (meanwhile w)
      else Inr (reloaded (drop_entries (df_GoneObjects f) st)))"
    "Healthy f \<Longrightarrow> w' = w"
    "ro_Cancelled out \<longleftrightarrow> df_GoneObjects f \<noteq> [] \<and> \<not> yes \<and> ans \<noteq> ''yes''"
proof -
  show h: "w' = w" if "Healthy f" using that d r by (simp add: repairCmd_def)
  have wf: "wf_State st" using d load_wf by (auto elim: stateDoctor_Inr)
  have *: "sp_Load sp w' = (if ro_Cancelled out then sp_Load sp (meanwhile w)
      else Inr (reloaded (drop_entries (df_GoneObjects f) st))) \<and>
    (ro_Cancelled out \<longleftrightarrow> df_GoneObjects f \<noteq> [] \<and> \<not> yes \<and> ans \<noteq> ''yes'')" if n: "\<not> Healthy f"
  proof -
    obtain w1 where l: "sp_Lock sp (meanwhile w) = (None, w1)"
      using d r n by (auto simp: repairCmd_def split: prod.splits option.splits)
    obtain w2 where k: "repair_locked sp f st yes ans w1 = (Inr out, w2)" "w' = sp_Unlock sp w2"
      using d r n l by (auto simp: repairCmd_def split: prod.splits)
    show ?thesis
      using repair_locked_effect [OF wf k(1)] lock_keeps [of "meanwhile w"] l k(2) by (simp add: unlock_keeps)
  qed
  show "sp_Load sp w' = (if Healthy f then sp_Load sp w else if ro_Cancelled out then sp_Load sp (meanwhile w)
      else Inr (reloaded (drop_entries (df_GoneObjects f) st)))"
    using * h by simp
  show "ro_Cancelled out \<longleftrightarrow> df_GoneObjects f \<noteq> [] \<and> \<not> yes \<and> ans \<noteq> ''yes''"
    using * d r by (cases "Healthy f") (auto simp: repairCmd_def Healthy_def)
qed

lemma repaired_lookup:
  assumes d: "stateDoctor (Inr sp) reg ty insp w = Inr (f, st)"
    and r: "repairCmd (Inr sp) reg ty insp yes ans meanwhile w = (Inr out, w')"
    and n: "\<not> Healthy f" "\<not> ro_Cancelled out"
  shows "\<exists>st'. sp_Load sp w' = Inr st' \<and> (\<forall>k. map_of (st_Resources st') k =
    (if k \<in> set (df_GoneObjects f) then None else map_of (st_Resources st) k))"
proof -
  have st: "norm_entries (st_Resources st) = st_Resources st"
    using d load_wf by (auto elim: stateDoctor_Inr)
  let ?keep = "filter (\<lambda>(k, rs). k \<notin> set (df_GoneObjects f)) (st_Resources st)"
  have "norm_LastApplied v = v" if "(k, v) \<in> set (st_Resources st)" for k v
    using st that by (rule norm_entries_fixed)
  then have "norm_entries ?keep = ?keep"
    by (auto simp: norm_entries_def intro!: map_idI)
  then have "st_Resources (reloaded (drop_entries (df_GoneObjects f) st)) = ?keep"
    by (simp add: reloaded_def drop_entries_eq Let_def)
  then show ?thesis using repair_effect(1) [OF d r] n by (simp add: map_of_drop_keys)
qed

end

lemma Load_normal: "Load fails fs = Inr st \<Longrightarrow> \<exists>s. st = Normalize s"
  by (auto simp: Load_def Let_def split: option.splits content.splits if_splits)

lemma S3Load_normal: "S3Load fails obj = Inr st \<Longrightarrow> \<exists>s. st = Normalize s"
  by (auto simp: S3Load_def Let_def split: state_object.splits content.splits if_splits)

lemma map_sum_Inr: "map_sum f id x = Inr y \<longleftrightarrow> x = Inr y"
  by (cases x) auto

interpretation disk: locked_store "local_port p msg fails" for p msg fails
proof
  fix s d d' assume a: "wf_State s" "sp_Save (local_port p msg fails) s d = (None, d')"
  then obtain fs where "Save fails s (ld_files d) = (None, fs)" "d' = d\<lparr>ld_files := fs\<rparr>"
    by (auto simp: local_port_def split: prod.splits)
  then show "sp_Load (local_port p msg fails) d' = Inr (reloaded s)"
    using localfile.save_ok [OF a(1)] by (simp add: local_port_def)
next
  fix s d e d' assume "sp_Save (local_port p msg fails) s d = (Some e, d')"
  then obtain e' fs where "Save fails s (ld_files d) = (Some e', fs)" "d' = d\<lparr>ld_files := fs\<rparr>"
    by (auto simp: local_port_def split: prod.splits)
  then show "sp_Load (local_port p msg fails) d' = sp_Load (local_port p msg fails) d"
    using localfile.save_error by (simp add: local_port_def)
next
  fix d st assume "sp_Load (local_port p msg fails) d = Inr st"
  then show "wf_State st \<and> norm_entries (st_Resources st) = st_Resources st"
    using Load_normal Normalize_wf by (fastforce simp: local_port_def map_sum_Inr)
qed (auto simp: local_port_def local_Lock_def local_Unlock_def split: option.splits)

interpretation bucket: locked_store "s3_port p ttl msg fails" for p ttl msg fails
proof
  fix s b b' assume a: "wf_State s" "sp_Save (s3_port p ttl msg fails) s b = (None, b')"
  then obtain obj where "S3Save fails s (sb_state b) = (None, obj)" "b' = b\<lparr>sb_state := obj\<rparr>"
    by (auto simp: s3_port_def split: prod.splits)
  then show "sp_Load (s3_port p ttl msg fails) b' = Inr (reloaded s)"
    using s3.save_ok [OF a(1)] by (simp add: s3_port_def)
next
  fix s b e b' assume "sp_Save (s3_port p ttl msg fails) s b = (Some e, b')"
  then obtain e' obj where "S3Save fails s (sb_state b) = (Some e', obj)" "b' = b\<lparr>sb_state := obj\<rparr>"
    by (auto simp: s3_port_def split: prod.splits)
  then show "sp_Load (s3_port p ttl msg fails) b' = sp_Load (s3_port p ttl msg fails) b"
    using s3.save_error by (simp add: s3_port_def)
next
  fix b st assume "sp_Load (s3_port p ttl msg fails) b = Inr st"
  then show "wf_State st \<and> norm_entries (st_Resources st) = st_Resources st"
    using S3Load_normal Normalize_wf by (fastforce simp: s3_port_def map_sum_Inr)
qed (auto simp: s3_port_def Let_def)

section \<open>Repair\<close>

lemma stateDoctor_lists:
  assumes "stateDoctor (Inr sp) reg ty insp w = Inr (f, st)"
  defines "ks \<equiv> sort_by key_String (map fst (st_Resources st))"
  shows "sp_Load sp w = Inr st" "df_LegacyOrphans f = filter (\<lambda>k. last_applied st k = None) ks"
    "df_CorruptEntries f = filter (corrupt_entry st) ks" "df_GoneObjects f = filter (gone_entry reg ty insp st w) ks"
proof -
  from assms(1) obtain v where l: "sp_Load sp w = Inr st" "doctor_loop reg ty insp st w v = Inr f"
    by (rule stateDoctor_Inr)
  from l(1) show "sp_Load sp w = Inr st" .
  from doctor_loop_eq [OF l(2)] show "df_LegacyOrphans f = filter (\<lambda>k. last_applied st k = None) ks"
    "df_CorruptEntries f = filter (corrupt_entry st) ks" "df_GoneObjects f = filter (gone_entry reg ty insp st w) ks"
    by (simp_all add: ks_def)
qed

text \<open>
  The doctor's three lists are sorted and hold the entries without a last-applied manifest, those whose
  manifest has another key, and the Provider entries whose object the runtime does not have; it reports a healthy
  state exactly when there is no such entry and the stored format is current.
\<close>

theorem doctor_exact:
  assumes "stateDoctor (Inr sp) reg runtimeType insp w = Inr (f, st)"
  shows "sp_Load sp w = Inr st \<and>
    df_LegacyOrphans f = filter (\<lambda>k. last_applied st k = None) (sort_by key_String (map fst (st_Resources st))) \<and>
    df_CorruptEntries f = filter (corrupt_entry st) (sort_by key_String (map fst (st_Resources st))) \<and>
    df_GoneObjects f = filter (gone_entry reg runtimeType insp st w) (sort_by key_String (map fst (st_Resources st))) \<and>
    (Healthy f \<longleftrightarrow> CurrentVersion \<le> df_FileVersion f \<and> (\<forall>(k, rs)\<in>set (st_Resources st).
       last_applied st k \<noteq> None \<and> \<not> corrupt_entry st k \<and> \<not> gone_entry reg runtimeType insp st w k))"
proof -
  note l = stateDoctor_lists [OF assms]
  have "Healthy f \<longleftrightarrow> CurrentVersion \<le> df_FileVersion f \<and> (\<forall>(k, rs)\<in>set (st_Resources st).
       last_applied st k \<noteq> None \<and> \<not> corrupt_entry st k \<and> \<not> gone_entry reg runtimeType insp st w k)"
    unfolding Healthy_def l(2-4) by (auto simp: filter_empty_conv)
  with l show ?thesis by simp
qed

text \<open>
  C27: when no other process interferes, a repair of the local state that is not cancelled removes exactly the
  gone Provider entries; every other entry, legacy and corrupt ones included, is loaded afterwards as before. A
  healthy state is not written.
\<close>

theorem repair_exact:
  assumes "stateDoctor (Inr (local_port p msg fails)) reg runtimeType insp d = Inr (f, st)"
    "repairCmd (Inr (local_port p msg fails)) reg runtimeType insp yes answer id d = (Inr out, d')"
  shows "if Healthy f then d' = d
    else if df_GoneObjects f \<noteq> [] \<and> \<not> yes \<and> answer \<noteq> ''yes'' then Load (\<lambda>_. False) (ld_files d') = Inr st
    else \<exists>st'. Load (\<lambda>_. False) (ld_files d') = Inr st' \<and> (\<forall>k. map_of (st_Resources st') k =
      (if gone_entry reg runtimeType insp st d k then None else map_of (st_Resources st) k))"
proof -
  note e = disk.repair_effect [OF assms]
  have l: "sp_Load (local_port p msg fails) d = Inr st" using assms(1) by (auto elim: stateDoctor_Inr)
  have ld: "sp_Load (local_port p msg fails) x = Inr y \<longleftrightarrow> Load (\<lambda>_. False) (ld_files x) = Inr y" for x y
    by (simp add: local_port_def map_sum_Inr)
  have g: "k \<in> set (df_GoneObjects f) \<longleftrightarrow> k \<in> fst ` set (st_Resources st) \<and> gone_entry reg runtimeType insp st d k" for k
    by (simp add: stateDoctor_lists(4) [OF assms(1)])
  have n: "gone_entry reg runtimeType insp st d k \<Longrightarrow> k \<in> fst ` set (st_Resources st) \<or> map_of (st_Resources st) k = None" for k
    by (auto simp: map_of_eq_None_iff)
  consider "Healthy f" | "\<not> Healthy f" "ro_Cancelled out" | "\<not> Healthy f" "\<not> ro_Cancelled out" by blast
  then show ?thesis
  proof cases
    case 1
    then show ?thesis using e(2) by simp
  next
    case 2
    then show ?thesis using e(1,3) l unfolding ld [symmetric] by simp
  next
    case 3
    from disk.repaired_lookup [OF assms 3] obtain st' where st': "Load (\<lambda>_. False) (ld_files d') = Inr st'"
      "\<And>k. map_of (st_Resources st') k = (if k \<in> set (df_GoneObjects f) then None else map_of (st_Resources st) k)"
      unfolding ld by blast
    have "map_of (st_Resources st') k =
        (if gone_entry reg runtimeType insp st d k then None else map_of (st_Resources st) k)" for k
      using st'(2) [of k] g [of k] n [of k] by (auto simp: map_of_eq_None_iff)
    with st'(1) 3 e(3) show ?thesis by auto
  qed
qed

text \<open>
  C38: the doctor loads the state before the lock is taken, and the repair saves that copy under the lock. Whatever
  another process saved in between is lost: an entry it added is not there after the repair.
\<close>

theorem repair_loses_updates:
  assumes "stateDoctor (Inr (local_port p msg fails)) reg runtimeType insp d = Inr (f, st)" "\<not> Healthy f"
    "repairCmd (Inr (local_port p msg fails)) reg runtimeType insp yes answer meanwhile d = (Inr out, d')"
    "\<not> ro_Cancelled out"
    "Load (\<lambda>_. False) (ld_files (meanwhile d)) = Inr theirs"
    "map_of (st_Resources theirs) k = Some rs" "map_of (st_Resources st) k = None"
  shows "\<exists>st'. Load (\<lambda>_. False) (ld_files d') = Inr st' \<and> map_of (st_Resources st') k = None"
  using disk.repaired_lookup [OF assms(1,3,2,4)] assms(7) by (auto simp: local_port_def map_sum_Inr)

text \<open>
  The doctor does not look at the lifecycle of an entry. An external Provider, for which the engine never
  creates a container, is reported as gone, and the state as not healthy.
\<close>

theorem external_provider_reported_gone:
  assumes "stateDoctor (Inr sp) reg runtimeType insp w = Inr (f, st)"
    "map_of (st_Resources st) k = Some rs" "rs_Lifecycle rs = ''External''" "rs_LastApplied rs = Some env"
    "isExternal env" "env_Key env = k" "key_Kind k = ''Provider''"
    "registry_Runtime reg runtimeType [] = Inr rt" "insp rt (RuntimeObjectName env) w = Inr False"
  shows "k \<in> set (df_GoneObjects f) \<and> \<not> Healthy f"
proof -
  have "gone_entry reg runtimeType insp st w k"
    using assms(2,4,6-9) by (simp add: gone_entry_def last_applied_def get_or_def)
  moreover have "k \<in> fst ` set (st_Resources st)" using map_of_SomeD [OF assms(2)] by force
  ultimately have "k \<in> set (df_GoneObjects f)" by (simp add: stateDoctor_lists(4) [OF assms(1)])
  then show ?thesis by (auto simp: Healthy_def)
qed

section \<open>A concrete disk\<close>

text \<open>
  A state of the first format with one external Provider, as the engine records it, and one of another process
  with a Source beside it.
\<close>

definition external_pg :: Envelope where
  "external_pg = (sample_env ''Provider'' ''pg'')\<lparr>env_Metadata := zero_Metadata\<lparr>md_Name := ''pg'', md_Namespace := ''default''\<rparr>,
     env_Spec := [(''external'', ABool True)]\<rparr>"

definition external_entry :: ResourceState where
  "external_entry = zero_ResourceState\<lparr>rs_Lifecycle := ''External'', rs_LastApplied := Some external_pg\<rparr>"

definition old_disk :: local_disk where
  "old_disk = \<lparr>ld_files = \<lparr>state_file = Some (Doc \<lparr>doc_Version = None,
       doc_resources = [(''Provider/pg'', external_entry)], doc_mediationFabric = None\<rparr>), temp_file = None\<rparr>,
     ld_lock = flock_init\<rparr>"

definition source_saved :: "local_disk \<Rightarrow> local_disk" where
  "source_saved d = d\<lparr>ld_files := snd (Save (\<lambda>_. False) (zero_State\<lparr>st_Resources :=
     [(Key ''default'' ''Provider'' ''pg'', external_entry), (Key ''default'' ''Source'' ''s'', zero_ResourceState)]\<rparr>) (ld_files d))\<rparr>"

definition no_containers :: "unit \<Rightarrow> string \<Rightarrow> local_disk \<Rightarrow> string + bool" where
  "no_containers rt name d = Inr False"

definition docker_registry :: "(unit, unit) Registry" where
  "docker_registry = (New_Registry [])\<lparr>reg_runtimes := [(''docker'', \<lambda>_. Inr ())]\<rparr>"

abbreviation "old_doctor \<equiv> stateDoctor (Inr (local_port 0 (\<lambda>_. []) (\<lambda>_. False))) docker_registry ''docker'' no_containers old_disk"
abbreviation "old_repair m \<equiv> repairCmd (Inr (local_port 0 (\<lambda>_. []) (\<lambda>_. False))) docker_registry ''docker'' no_containers True [] m old_disk"

definition pg_key :: Key where "pg_key = Key ''default'' ''Provider'' ''pg''"

lemma old_doctor_run:
  "old_doctor = Inr (\<lparr>df_FileVersion = 1, df_LegacyOrphans = [], df_CorruptEntries = [], df_GoneObjects = [pg_key]\<rparr>,
     snd (projr old_doctor))"
proof -
  have "isl old_doctor = False" "fst (projr old_doctor) =
      \<lparr>df_FileVersion = 1, df_LegacyOrphans = [], df_CorruptEntries = [], df_GoneObjects = [pg_key]\<rparr>" by code_simp+
  then show ?thesis by (metis prod.collapse sum.collapse(2))
qed

lemma old_repair_run:
  "fst (old_repair m) = Inr \<lparr>ro_Applied = [DroppedGoneObject ''default/Provider/pg'', MigratedFormat 1 2], ro_Cancelled = False\<rparr>"
  if "m = id \<or> m = source_saved"
proof -
  have "fst (old_repair id) = Inr \<lparr>ro_Applied = [DroppedGoneObject ''default/Provider/pg'', MigratedFormat 1 2], ro_Cancelled = False\<rparr>"
    "fst (old_repair source_saved) = Inr \<lparr>ro_Applied = [DroppedGoneObject ''default/Provider/pg'', MigratedFormat 1 2], ro_Cancelled = False\<rparr>"
    by code_simp+
  with that show ?thesis by blast
qed

lemma old_state:
  "map_of (st_Resources (snd (projr old_doctor))) pg_key = Some external_entry"
  "map_of (st_Resources (snd (projr old_doctor))) (Key ''default'' ''Source'' ''s'') = None"
  by code_simp+

theorem doctor_exact_witness:
  "sp_Load (local_port 0 (\<lambda>_. []) (\<lambda>_. False)) old_disk = Inr (snd (projr old_doctor)) \<and>
   filter (gone_entry docker_registry ''docker'' no_containers (snd (projr old_doctor)) old_disk)
     (sort_by key_String (map fst (st_Resources (snd (projr old_doctor))))) = [pg_key]"
  using doctor_exact [OF old_doctor_run] by simp

theorem repair_exact_witness:
  "\<exists>st'. Load (\<lambda>_. False) (ld_files (snd (old_repair id))) = Inr st' \<and> map_of (st_Resources st') pg_key = None"
proof -
  let ?f = "\<lparr>df_FileVersion = 1, df_LegacyOrphans = [], df_CorruptEntries = [], df_GoneObjects = [pg_key]\<rparr>"
  have "old_repair id = (fst (old_repair id), snd (old_repair id))" by simp
  then have r: "old_repair id = (Inr \<lparr>ro_Applied = [DroppedGoneObject ''default/Provider/pg'', MigratedFormat 1 2],
      ro_Cancelled = False\<rparr>, snd (old_repair id))" unfolding old_repair_run [of id, simplified] .
  have "gone_entry docker_registry ''docker'' no_containers (snd (projr old_doctor)) old_disk pg_key" by code_simp
  then show ?thesis using repair_exact [OF old_doctor_run r] by (auto simp: Healthy_def)
qed

theorem repair_loses_updates_witness:
  "\<exists>st'. Load (\<lambda>_. False) (ld_files (snd (old_repair source_saved))) = Inr st' \<and>
    map_of (st_Resources st') (Key ''default'' ''Source'' ''s'') = None"
proof -
  let ?theirs = "projr (Load (\<lambda>_. False) (ld_files (source_saved old_disk)))"
  have "old_repair source_saved = (fst (old_repair source_saved), snd (old_repair source_saved))" by simp
  then have r: "old_repair source_saved = (Inr \<lparr>ro_Applied = [DroppedGoneObject ''default/Provider/pg'', MigratedFormat 1 2],
      ro_Cancelled = False\<rparr>, snd (old_repair source_saved))" unfolding old_repair_run [of source_saved, simplified] .
  have "\<not> isl (Load (\<lambda>_. False) (ld_files (source_saved old_disk)))"
    "map_of (st_Resources ?theirs) (Key ''default'' ''Source'' ''s'') = Some zero_ResourceState" by code_simp+
  then have "Load (\<lambda>_. False) (ld_files (source_saved old_disk)) = Inr ?theirs"
    "map_of (st_Resources ?theirs) (Key ''default'' ''Source'' ''s'') = Some zero_ResourceState" by simp_all
  with repair_loses_updates [OF old_doctor_run _ r] show ?thesis
    using old_state(2) by (simp add: Healthy_def)
qed

theorem external_provider_reported_gone_witness:
  "pg_key \<in> set (df_GoneObjects (fst (projr old_doctor)))"
proof -
  let ?f = "\<lparr>df_FileVersion = 1, df_LegacyOrphans = [], df_CorruptEntries = [], df_GoneObjects = [pg_key]\<rparr>"
  have "rs_Lifecycle external_entry = ''External''" "rs_LastApplied external_entry = Some external_pg"
    "isExternal external_pg" "env_Key external_pg = pg_key" "key_Kind pg_key = ''Provider''"
    "registry_Runtime docker_registry ''docker'' [] = Inr ()" by code_simp+
  then have "pg_key \<in> set (df_GoneObjects ?f)"
    using external_provider_reported_gone [OF old_doctor_run old_state(1)] by (simp add: no_containers_def)
  moreover have "fst (projr old_doctor) = ?f" by (subst old_doctor_run) simp
  ultimately show ?thesis by simp
qed

end
