(* ===== verification/Policy_Audit.thy ===== *)
theory Policy_Audit
  imports Policy_Eval
begin

text \<open>
  The audit of declared edges, \<open>internal/application/policy/audit.go\<close>: one row per data-flow edge and per
  access grant, with its verdict and why. The theorem ties the denied rows to the decisions of the evaluator.
\<close>

section \<open>Rows\<close>

datatype EdgeKind = EdgeKindBinding | EdgeKindConnection | EdgeKindGrant
datatype Verdict = Permitted | Denied
datatype Justification = JustifyNoDeny | JustifyGrant | JustifyExemption | JustifyDenyRule

definition EdgeKind_string :: "EdgeKind \<Rightarrow> string" where
  "EdgeKind_string k = (case k of EdgeKindBinding \<Rightarrow> ''binding'' | EdgeKindConnection \<Rightarrow> ''connection'' | EdgeKindGrant \<Rightarrow> ''grant'')"

datatype audit_detail = RuleText string | NoRuleDenies Key Key | AccessGranted Key string "string option"

record EdgeAudit =
  ea_Owner :: Key
  ea_From :: string
  ea_To :: string
  ea_Kind :: EdgeKind
  ea_Verdict :: Verdict
  ea_Justification :: Justification
  ea_RuleID :: string
  ea_Detail :: audit_detail
  ea_ExemptReason :: string

definition audit_message :: "Rule \<Rightarrow> audit_detail \<Rightarrow> audit_detail" where
  "audit_message rule fallback = (if r_Message rule \<noteq> [] then RuleText (r_Message rule) else fallback)"

section \<open>Matching rules\<close>

definition edge_rule_matches :: "crossDomainEdge \<Rightarrow> bool \<Rightarrow> Rule \<Rightarrow> bool" where
  "edge_rule_matches edge gate rule \<longleftrightarrow>
     (if rule_Kind rule \<noteq> RuleKindEdge then False
      else case em_CrossDomain (the (r_MatchEdge rule)) of
        Some sel \<Rightarrow> cde_FromDomain edge = cd_From sel \<and> cde_ToDomain edge = cd_To sel
      | None \<Rightarrow> if \<not> gate then False
          else let sel = the (em_Selector (the (r_MatchEdge rule))) in
            Selects_labels (es_From sel) (md_Labels (env_Metadata (cde_From edge))) \<and>
            Selects_labels (es_To sel) (md_Labels (env_Metadata (cde_To edge))))"

definition matchingEdgeRules :: "Policy list \<Rightarrow> crossDomainEdge \<Rightarrow> bool \<Rightarrow> Rule list" where
  "matchingEdgeRules policies edge gate = filter (edge_rule_matches edge gate) (all_rules policies)"

definition matchingGrantRules :: "Policy list \<Rightarrow> string \<Rightarrow> Rule list" where
  "matchingGrantRules policies ns = filter (\<lambda>rule. rule_Kind rule = RuleKindGrant \<and>
     gm_Namespace (the (r_MatchGrant rule)) = ns) (all_rules policies)"

definition exemptionFor :: "Envelope \<Rightarrow> string \<Rightarrow> (string \<times> bool) list \<Rightarrow> string option" where
  "exemptionFor owner ruleID exemptible =
     (if \<not> get_or False exemptible ruleID then None
      else map_option ex_Reason (find (\<lambda>ex. ex_RuleID ex = ruleID) (ParseExemptions (md_Annotations (env_Metadata owner)))))"

text \<open>The rules in order; the first exempted deny is remembered, the first one that is not exempted decides.\<close>

fun resolve_loop ::
  "Envelope \<Rightarrow> (string \<times> bool) list \<Rightarrow> Rule list \<Rightarrow> (Rule \<times> string) option \<Rightarrow> EdgeAudit \<Rightarrow> EdgeAudit" where
  "resolve_loop owner exemptible [] exempted base = (case exempted of
     None \<Rightarrow> base
   | Some (rule, reason) \<Rightarrow> base\<lparr>ea_Verdict := Permitted, ea_Justification := JustifyExemption, ea_RuleID := r_ID rule,
       ea_ExemptReason := reason, ea_Detail := audit_message rule (ea_Detail base)\<rparr>)"
| "resolve_loop owner exemptible (rule # rules) exempted base =
     (if r_Effect rule \<noteq> Deny then resolve_loop owner exemptible rules exempted base
      else case exemptionFor owner (r_ID rule) exemptible of
        Some reason \<Rightarrow> resolve_loop owner exemptible rules (case exempted of None \<Rightarrow> Some (rule, reason) | Some x \<Rightarrow> Some x) base
      | None \<Rightarrow> base\<lparr>ea_Verdict := Denied, ea_Justification := JustifyDenyRule, ea_RuleID := r_ID rule,
          ea_Detail := audit_message rule (ea_Detail base)\<rparr>)"

definition resolveVerdict :: "Rule list \<Rightarrow> Envelope \<Rightarrow> (string \<times> bool) list \<Rightarrow> EdgeAudit \<Rightarrow> EdgeAudit" where
  "resolveVerdict matching owner exemptible base = resolve_loop owner exemptible (sort_by r_ID matching) None base"

section \<open>The audit\<close>

definition edge_row :: "Policy list \<Rightarrow> bool \<Rightarrow> crossDomainEdge \<Rightarrow> EdgeAudit" where
  "edge_row policies gate edge =
     (let base = \<lparr>ea_Owner = env_Key (cde_Owner edge), ea_From = key_String (env_Key (cde_From edge)),
        ea_To = key_String (env_Key (cde_To edge)),
        ea_Kind = (if env_Kind (cde_Owner edge) = ''Binding'' then EdgeKindBinding else EdgeKindConnection),
        ea_Verdict = Permitted, ea_Justification = JustifyNoDeny, ea_RuleID = [],
        ea_Detail = NoRuleDenies (env_Key (cde_From edge)) (env_Key (cde_To edge)), ea_ExemptReason = []\<rparr>
      in resolveVerdict (matchingEdgeRules policies edge gate) (cde_Owner edge) (exemptibleByID policies) base)"

definition grant_row :: "Policy list \<Rightarrow> Envelope \<Rightarrow> AccessGrant \<Rightarrow> EdgeAudit" where
  "grant_row policies e grant =
     (let base = \<lparr>ea_Owner = env_Key e, ea_From = key_String (env_Key e), ea_To = ''namespace/'' @ ag_Namespace grant,
        ea_Kind = EdgeKindGrant, ea_Verdict = Permitted, ea_Justification = JustifyGrant, ea_RuleID = [],
        ea_Detail = AccessGranted (env_Key e) (ag_Namespace grant)
          (if ag_Selector grant = None then None else Some (selector_String (ag_Selector grant))), ea_ExemptReason = []\<rparr>
      in resolveVerdict (matchingGrantRules policies (ag_Namespace grant)) e (exemptibleByID policies) base)"

definition Audit :: "Policy list \<Rightarrow> Envelope list \<Rightarrow> Graph option \<Rightarrow> bool \<Rightarrow> EdgeAudit list" where
  "Audit policies envelopes g gate =
     sort_key (\<lambda>r. (key_String (ea_Owner r), EdgeKind_string (ea_Kind r), ea_To r))
       (map (edge_row policies gate) (crossDomainEdges envelopes g) @
        concat (map (\<lambda>e. map (grant_row policies e) (AccessGrants e)) envelopes))"

section \<open>Denied rows\<close>

lemma resolve_loop_Owner [simp]: "ea_Owner (resolve_loop owner m rules ex base) = ea_Owner base"
  by (induction rules arbitrary: ex) (auto split: option.splits)

lemma resolve_loop_Denied:
  assumes "ea_Verdict base = Permitted"
  shows "ea_Verdict (resolve_loop owner m rules ex base) = Denied \<longleftrightarrow>
    (\<exists>r\<in>set rules. r_Effect r = Deny \<and> exemptionFor owner (r_ID r) m = None)"
  using assms by (induction rules arbitrary: ex) (auto split: option.splits)

lemma resolveVerdict_sel:
  "ea_Owner (resolveVerdict rules owner m base) = ea_Owner base"
  "ea_Verdict base = Permitted \<Longrightarrow> ea_Verdict (resolveVerdict rules owner m base) = Denied \<longleftrightarrow>
    (\<exists>r\<in>set rules. r_Effect r = Deny \<and> exemptionFor owner (r_ID r) m = None)"
  by (simp_all add: resolveVerdict_def resolve_loop_Denied)

lemma exemptionFor_exact:
  assumes "distinct (map r_ID (all_rules policies))" "rule \<in> set (all_rules policies)"
    "map_of (by_key envelopes) (env_Key owner) = Some owner"
  shows "exemptionFor owner (r_ID rule) (exemptibleByID policies) = None \<longleftrightarrow> \<not> exempts envelopes rule (env_Key owner)"
proof -
  have "get_or False (exemptibleByID policies) (r_ID rule) = r_Exemptible rule"
    using fold_update_lookup [OF assms(1,2), of r_Exemptible "[]"] by (simp add: exemptibleByID_def get_or_def)
  then show ?thesis using assms(3) by (auto simp: exemptionFor_def exempts_def find_None_iff)
qed

lemma edge_violation_matches:
  assumes "rule_Kind rule = RuleKindEdge"
  shows "edge_violation envelopes g gate rule k \<longleftrightarrow>
    (\<exists>edge\<in>set (crossDomainEdges envelopes g). env_Key (cde_Owner edge) = k \<and> edge_rule_matches edge gate rule)"
proof (cases "em_CrossDomain (the (r_MatchEdge rule))")
  case None
  then obtain sel where "em_Selector (the (r_MatchEdge rule)) = Some sel"
    using assms by (auto simp: rule_Kind_def split: if_splits option.splits)
  with None assms show ?thesis by (auto simp: edge_violation_def edge_rule_matches_def)
qed (use assms in \<open>auto simp: edge_violation_def edge_rule_matches_def\<close>)

lemma cross_edge_owner: "cross_edge g e = Some edge \<Longrightarrow> cde_Owner edge = e"
  unfolding cross_edge_def by (auto simp: mk_edge_def split: option.split_asm if_split_asm)

lemma crossDomainEdges_owner: "edge \<in> set (crossDomainEdges envelopes g) \<Longrightarrow> cde_Owner edge \<in> set envelopes"
  by (cases g) (auto simp: crossDomainEdges_def set_map_filter dest: cross_edge_owner)

definition denies :: "Envelope list \<Rightarrow> Rule \<Rightarrow> Key \<Rightarrow> bool" where
  "denies envelopes rule k \<longleftrightarrow> r_Effect rule = Deny \<and> \<not> exempts envelopes rule k"

lemma edge_row_Denied:
  assumes "distinct (map r_ID (all_rules policies))" "distinct (map env_Key envelopes)"
    "edge \<in> set (crossDomainEdges envelopes g)"
  shows "ea_Owner (edge_row policies gate edge) = env_Key (cde_Owner edge)"
    "ea_Verdict (edge_row policies gate edge) = Denied \<longleftrightarrow> (\<exists>rule\<in>set (all_rules policies).
      edge_rule_matches edge gate rule \<and> denies envelopes rule (env_Key (cde_Owner edge)))"
  using exemptionFor_exact [OF assms(1) _ by_key_Some [OF assms(2) crossDomainEdges_owner [OF assms(3)]]]
  by (auto simp: edge_row_def Let_def resolveVerdict_sel matchingEdgeRules_def denies_def)

lemma grant_row_Denied:
  assumes "distinct (map r_ID (all_rules policies))" "distinct (map env_Key envelopes)" "e \<in> set envelopes"
  shows "ea_Owner (grant_row policies e grant) = env_Key e"
    "ea_Verdict (grant_row policies e grant) = Denied \<longleftrightarrow> (\<exists>rule\<in>set (all_rules policies). rule_Kind rule = RuleKindGrant \<and>
      ag_Namespace grant = gm_Namespace (the (r_MatchGrant rule)) \<and> denies envelopes rule (env_Key e))"
  using exemptionFor_exact [OF assms(1) _ by_key_Some [OF assms(2,3)]]
  by (auto simp: grant_row_def Let_def resolveVerdict_sel matchingGrantRules_def denies_def)

lemma Audit_set:
  "set (Audit policies envelopes g gate) = edge_row policies gate ` set (crossDomainEdges envelopes g) \<union>
    (\<Union>e\<in>set envelopes. grant_row policies e ` set (AccessGrants e))"
  by (auto simp: Audit_def)

definition audited_kind :: "Rule \<Rightarrow> bool" where
  "audited_kind rule \<longleftrightarrow> rule_Kind rule = RuleKindEdge \<or> rule_Kind rule = RuleKindGrant"

lemma denied_rows:
  assumes "distinct (map r_ID (all_rules policies))" "distinct (map env_Key envelopes)"
  shows "(\<exists>row\<in>set (Audit policies envelopes g gate). ea_Owner row = k \<and> ea_Verdict row = Denied) \<longleftrightarrow>
    (\<exists>rule\<in>set (all_rules policies). audited_kind rule \<and> violates lib envelopes g findings gate rule k \<and> denies envelopes rule k)"
    (is "?L \<longleftrightarrow> _")
proof -
  let ?R = "set (all_rules policies)"
  note er = edge_row_Denied [OF assms, of _ g gate] and gr = grant_row_Denied [OF assms]
  have "edge_rule_matches edge gate rule \<Longrightarrow> rule_Kind rule = RuleKindEdge" for edge rule
    by (auto simp: edge_rule_matches_def split: if_splits)
  then have ev: "(rule_Kind rule = RuleKindEdge \<and> violates lib envelopes g findings gate rule k) \<longleftrightarrow>
      (\<exists>edge\<in>set (crossDomainEdges envelopes g). env_Key (cde_Owner edge) = k \<and> edge_rule_matches edge gate rule)" for rule
    using edge_violation_matches [of rule envelopes g gate k] by (auto simp: violates_def)
  have gv: "(rule_Kind rule = RuleKindGrant \<and> violates lib envelopes g findings gate rule k) \<longleftrightarrow>
      rule_Kind rule = RuleKindGrant \<and> (\<exists>e\<in>set envelopes. env_Key e = k \<and>
        (\<exists>grant\<in>set (AccessGrants e). ag_Namespace grant = gm_Namespace (the (r_MatchGrant rule))))" for rule
    by (cases "rule_Kind rule = RuleKindGrant") (simp_all add: violates_def)
  have "?L \<longleftrightarrow> (\<exists>edge\<in>set (crossDomainEdges envelopes g). env_Key (cde_Owner edge) = k \<and>
        (\<exists>rule\<in>?R. edge_rule_matches edge gate rule \<and> denies envelopes rule k)) \<or>
      (\<exists>e\<in>set envelopes. \<exists>grant\<in>set (AccessGrants e). env_Key e = k \<and> (\<exists>rule\<in>?R.
        rule_Kind rule = RuleKindGrant \<and> ag_Namespace grant = gm_Namespace (the (r_MatchGrant rule)) \<and> denies envelopes rule k))"
    unfolding Audit_set using er gr by (simp add: bex_Un) blast
  also have "\<dots> \<longleftrightarrow> (\<exists>rule\<in>?R. (rule_Kind rule = RuleKindEdge \<and> violates lib envelopes g findings gate rule k) \<and> denies envelopes rule k) \<or>
      (\<exists>rule\<in>?R. (rule_Kind rule = RuleKindGrant \<and> violates lib envelopes g findings gate rule k) \<and> denies envelopes rule k)"
    unfolding ev gv by blast
  also have "\<dots> \<longleftrightarrow> (\<exists>rule\<in>?R. audited_kind rule \<and> violates lib envelopes g findings gate rule k \<and> denies envelopes rule k)"
    unfolding audited_kind_def by blast
  finally show ?thesis .
qed

text \<open>
  C25: the audit and the evaluator agree. On a validated policy set and manifests with distinct keys, a resource
  owns a denied row exactly when the evaluator has an unexempted deny decision about it from an edge or a grant rule,
  and there is one row for every data-flow edge and every access grant.
\<close>

theorem audit_agrees:
  assumes "Validate_policies lib policies = None" "distinct (map env_Key envelopes)"
  shows "\<exists>ds. policy_Run lib policies envelopes g findings gate = Inr ds \<and>
    (\<forall>k. (\<exists>row\<in>set (Audit policies envelopes g gate). ea_Owner row = k \<and> ea_Verdict row = Denied) \<longleftrightarrow>
      (\<exists>d\<in>set ds. d_Resource d = k \<and> d_Effect d = Deny \<and> \<not> d_Exempted d \<and>
        (\<exists>rule\<in>set (all_rules policies). r_ID rule = d_RuleID d \<and> audited_kind rule))) \<and>
    length (Audit policies envelopes g gate) =
      length (crossDomainEdges envelopes g) + (\<Sum>e\<leftarrow>envelopes. length (AccessGrants e))"
proof -
  note ok = Validate_policies_rules [OF assms(1)]
  obtain ds where run: "policy_Run lib policies envelopes g findings gate = Inr ds"
    and found: "\<And>rule k. rule \<in> set (all_rules policies) \<Longrightarrow>
      (\<exists>d\<in>set ds. d_RuleID d = r_ID rule \<and> d_Resource d = k) \<longleftrightarrow> violates lib envelopes g findings gate rule k"
    and given: "\<And>d. d \<in> set ds \<Longrightarrow> \<exists>rule\<in>set (all_rules policies). d_RuleID d = r_ID rule \<and> d_Effect d = r_Effect rule \<and>
      (d_Exempted d \<longleftrightarrow> exempts envelopes rule (d_Resource d))"
    using run_exact [OF assms(1), of envelopes g findings gate] by (elim exE conjE) (rule that, blast+)
  have same: "d_Effect d = r_Effect rule \<and> (d_Exempted d \<longleftrightarrow> exempts envelopes rule (d_Resource d))"
    if "d \<in> set ds" "rule \<in> set (all_rules policies)" "d_RuleID d = r_ID rule" for d rule
    using given [OF that(1)] that(2,3) ok(2) by (metis distinct_map inj_onD)
  have "(\<exists>row\<in>set (Audit policies envelopes g gate). ea_Owner row = k \<and> ea_Verdict row = Denied) \<longleftrightarrow>
      (\<exists>d\<in>set ds. d_Resource d = k \<and> d_Effect d = Deny \<and> \<not> d_Exempted d \<and>
        (\<exists>rule\<in>set (all_rules policies). r_ID rule = d_RuleID d \<and> audited_kind rule))"
    (is "?D \<longleftrightarrow> ?E") for k
  proof -
    have "?D \<longleftrightarrow> (\<exists>rule\<in>set (all_rules policies). audited_kind rule \<and>
        violates lib envelopes g findings gate rule k \<and> denies envelopes rule k)"
      by (rule denied_rows [OF ok(2) assms(2)])
    also have "\<dots> \<longleftrightarrow> ?E"
    proof
      assume "\<exists>rule\<in>set (all_rules policies). audited_kind rule \<and>
        violates lib envelopes g findings gate rule k \<and> denies envelopes rule k"
      then obtain rule where r: "rule \<in> set (all_rules policies)" "audited_kind rule" "denies envelopes rule k"
        "violates lib envelopes g findings gate rule k" by blast
      then obtain d where d: "d \<in> set ds" "d_RuleID d = r_ID rule" "d_Resource d = k" using found by blast
      with r same [OF d(1) r(1) d(2)] show ?E unfolding denies_def by metis
    next
      assume ?E
      then obtain d rule where d: "d \<in> set ds" "d_Resource d = k" "d_Effect d = Deny" "\<not> d_Exempted d"
        and r: "rule \<in> set (all_rules policies)" "d_RuleID d = r_ID rule" "audited_kind rule" by metis
      from found [OF r(1), of k] d(1,2) r(2) have "violates lib envelopes g findings gate rule k" by blast
      with same [OF d(1) r(1,2)] d r show "\<exists>rule\<in>set (all_rules policies). audited_kind rule \<and>
        violates lib envelopes g findings gate rule k \<and> denies envelopes rule k" unfolding denies_def by metis
    qed
    finally show ?thesis .
  qed
  moreover have "length (Audit policies envelopes g gate) =
      length (crossDomainEdges envelopes g) + (\<Sum>e\<leftarrow>envelopes. length (AccessGrants e))"
    by (simp add: Audit_def length_concat comp_def)
  ultimately show ?thesis using run by blast
qed

section \<open>An example\<close>

text \<open>A rule against flows inside the default domain; both Bindings of the example are denied.\<close>

definition flow_rule :: Rule where
  "flow_rule = \<lparr>r_ID = ''no-local-flow'', r_Match = None, r_Assert = None, r_MatchFinding = None, r_MatchPlan = None,
     r_MatchEdge = Some \<lparr>em_CrossDomain = Some \<lparr>cd_From = ''default'', cd_To = ''default''\<rparr>, em_Selector = None\<rparr>,
     r_MatchGrant = None, r_Effect = Deny, r_Exemptible = True, r_Message = []\<rparr>"

definition flow_policies :: "Policy list" where
  "flow_policies = [\<lparr>pol_APIVersion = APIVersion, pol_Kind = KindName, pol_Name = ''flows'', pol_Rules = [flow_rule]\<rparr>]"

theorem audit_agrees_witness:
  "\<exists>ds. policy_Run sample_lib flow_policies pipeline (Some pipeline_graph) [] False = Inr ds \<and>
    (\<exists>d\<in>set ds. d_Resource d = env_Key (cdc_env ''left'') \<and> d_Effect d = Deny \<and> \<not> d_Exempted d) \<and>
    length (Audit flow_policies pipeline (Some pipeline_graph) False) = 2"
proof -
  have v: "Validate_policies sample_lib flow_policies = None" by code_simp
  have k: "distinct (map env_Key pipeline)" by code_simp
  have d: "\<exists>row\<in>set (Audit flow_policies pipeline (Some pipeline_graph) False).
      ea_Owner row = env_Key (cdc_env ''left'') \<and> ea_Verdict row = Denied" by code_simp
  have n: "length (crossDomainEdges pipeline (Some pipeline_graph)) + (\<Sum>e\<leftarrow>pipeline. length (AccessGrants e)) = 2"
    by code_simp
  from audit_agrees [OF v k, of "Some pipeline_graph" "[]" False] d n show ?thesis by metis
qed

end
