(* ===== verification/Manifest_Load.thy ===== *)
theory Manifest_Load
  imports Secret_Stores
begin

text \<open>
  Loading manifests: \<open>internal/application/manifest\<close> (\<open>manifest.go\<close>, \<open>project.go\<close>, \<open>schema.go\<close>,
  \<open>fragment.go\<close>), the project file \<open>internal/domain/project/project.go\<close> and the tables of \<open>schemas\<close>. The
  file system and what the YAML decoder makes of a file are a record of functions; JSON Schema validation
  is a function per schema path. A Go panic is an error value of its own, and a run that never returns is
  \<open>None\<close>.
\<close>

section \<open>Paths\<close>

definition base_name :: "string \<Rightarrow> string" where
  "base_name p = rev (takeWhile (\<lambda>c. c \<noteq> CHR ''/'') (rev p))"

definition path_Ext :: "string \<Rightarrow> string" where
  "path_Ext p = (let name = base_name p in
     if CHR ''.'' \<in> set name then CHR ''.'' # rev (takeWhile (\<lambda>c. c \<noteq> CHR ''.'') (rev name)) else [])"

definition path_Dir :: "string \<Rightarrow> string" where
  "path_Dir p = path_Clean (rev (dropWhile (\<lambda>c. c \<noteq> CHR ''/'') (rev p)))"

definition manifest_ext :: "string \<Rightarrow> bool" where
  "manifest_ext p \<longleftrightarrow> path_Ext p \<in> set [''.yaml'', ''.yml'', ''.json'']"

section \<open>Files and schemas\<close>

datatype stat_result = StatError string | DirInfo | FileInfo

text \<open>A file that is read decodes to its documents up to the end of the stream, some of them errors.\<close>

datatype read_result = NotExist | ReadError string | Documents "(string + anymap) list"

record manifest_files =
  mf_Stat :: "string \<Rightarrow> stat_result"
  mf_ReadFile :: "string \<Rightarrow> read_result"
  mf_ReadDir :: "string \<Rightarrow> string + (string \<times> bool) list"

record schema_lib =
  sl_Schema :: "string \<Rightarrow> anymap \<Rightarrow> string option"
  sl_Fragment :: "string \<Rightarrow> anymap \<Rightarrow> string option"

definition KindFiles :: "(string \<times> (string \<times> string) list) list" where
  "KindFiles = [(''datascape.io/v1alpha1'',
     [(''Provider'', ''v1alpha1/provider.json''), (''Source'', ''v1alpha1/source.json''),
      (''EventStream'', ''v1alpha1/eventstream.json''), (''Binding'', ''v1alpha1/binding.json''),
      (''Dataset'', ''v1alpha1/dataset.json''), (''SecretReference'', ''v1alpha1/secretreference.json''),
      (''Catalog'', ''v1alpha1/catalog.json''), (''Connection'', ''v1alpha1/connection.json''),
      (''Project'', ''v1alpha1/project.json'')])]"

definition ProviderConfigFragments :: "(string \<times> string) list" where
  "ProviderConfigFragments = map (\<lambda>(t, f). (t, ''v1alpha1/fragments/provider/'' @ f @ ''.json''))
     [(''redpanda'', ''redpanda''), (''postgres'', ''postgres''), (''mysql'', ''mysql''), (''mariadb'', ''mysql''),
      (''debezium'', ''debezium''), (''s3'', ''s3''), (''minio'', ''s3''), (''s3sink'', ''s3sink''),
      (''jdbcsink'', ''jdbcsink''), (''s3source'', ''s3source''), (''nessie'', ''nessie''),
      (''openlineage'', ''openlineage''), (''proxy'', ''proxy''), (''prometheus'', ''prometheus''),
      (''grafana'', ''grafana''), (''ingress'', ''ingress''), (''trino'', ''trino''), (''wireguard'', ''wireguard''),
      (''openziti'', ''openziti'')]"

definition SourceEngineFragments :: "(string \<times> string) list" where
  "SourceEngineFragments = map (\<lambda>t. (t, ''v1alpha1/fragments/source/'' @ t @ ''.json'')) [''postgres'', ''mysql'', ''mariadb'']"

definition CatalogEngineFragments :: "(string \<times> string) list" where
  "CatalogEngineFragments = [(''nessie'', ''v1alpha1/fragments/catalog/nessie.json'')]"

definition BindingOptionsFragments :: "(string \<times> string) list" where
  "BindingOptionsFragments = map (\<lambda>d. (d, ''v1alpha1/fragments/binding/'' @ d @ ''.json''))
     [''cdc-debezium'', ''sink-s3sink'', ''sink-jdbcsink'', ''ingest-s3source'']"

datatype manifest_error =
    InvalidResource resource_error
  | UnknownKind string string
  | UnsupportedAPIVersion string string
  | DuplicateResource Key
  | InvalidKind kind_error
  | BadFragment string string string
  | SchemaFailed string any string
  | PanicMetadataNotAMap
  | StatusAuthored string string
  | YamlError string
  | InDocument string nat manifest_error
  | StatFailed string string
  | ReadFailed string string
  | ReadDirFailed string string
  | NoManifestFiles string
  | NoMemberFiles string
  | MemberMissing string string
  | NotAManifestFile string
  | MemberWithoutProject string
  | MemberWithoutResources string
  | MemberDeclaresRuntime string
  | OneDocumentExpected
  | NotAProject string
  | InProjectFile string manifest_error
  | RuntimeTypeRequired string
  | ForeignRuntime string string string

section \<open>Decoding one document\<close>

definition stringMap :: "any \<Rightarrow> (string \<times> string) list" where
  "stringMap v = (case is_map v of None \<Rightarrow> [] | Some m \<Rightarrow>
     List.map_filter (\<lambda>(k, val). map_option (Pair k) (is_string val)) m)"

definition observer_of :: "any \<Rightarrow> ObserverRef option" where
  "observer_of o' = map_option (\<lambda>om. \<lparr>obs_Name = str_of (index_any om ''name''), obs_Namespace = str_of (index_any om ''namespace'')\<rparr>)
     (is_map o')"

definition envelope_of :: "anymap \<Rightarrow> Envelope" where
  "envelope_of raw =
     (let meta = map_or_nil (index_any raw ''metadata'') in
      \<lparr>env_APIVersion = str_of (index_any raw ''apiVersion''), env_Kind = str_of (index_any raw ''kind''),
       env_Metadata = \<lparr>md_Name = str_of (index_any meta ''name''),
         md_Namespace = NormalizeNamespace (str_of (index_any meta ''namespace'')),
         md_Labels = stringMap (index_any meta ''labels''), md_Annotations = stringMap (index_any meta ''annotations''),
         md_Observers = (case is_list (index_any meta ''observers'') of None \<Rightarrow> [] | Some os \<Rightarrow> List.map_filter observer_of os),
         md_Protect = bool_of (index_any meta ''protect''),
         md_Domain = NormalizeDomain (str_of (index_any meta ''domain''))\<rparr>,
       env_Spec = map_or_nil (index_any raw ''spec''), env_Status = zero_Status\<rparr>)"

definition envelopeFrom :: "anymap \<Rightarrow> manifest_error + Envelope" where
  "envelopeFrom raw = (let e = envelope_of raw in
     if map_of raw ''status'' \<noteq> None then Inl (StatusAuthored (env_Kind e) (md_Name (env_Metadata e))) else Inr e)"

text \<open>The type assertion on the metadata has no comma-ok form: it panics on anything but a map.\<close>

definition validateAgainstSchema :: "schema_lib \<Rightarrow> anymap \<Rightarrow> manifest_error option" where
  "validateAgainstSchema lib raw =
     (let kind = str_of (index_any raw ''kind'') in
      case map_of KindFiles (str_of (index_any raw ''apiVersion'')) of None \<Rightarrow> None | Some byKind \<Rightarrow>
       (case map_of byKind kind of None \<Rightarrow> None | Some path \<Rightarrow>
         (case is_map (index_any raw ''metadata'') of None \<Rightarrow> Some PanicMetadataNotAMap | Some meta \<Rightarrow>
           map_option (SchemaFailed kind (index_any meta ''name'')) (sl_Schema lib path raw))))"

section \<open>Validation of the set\<close>

definition KnownKinds :: "string list" where
  "KnownKinds = [''Provider'', ''Source'', ''EventStream'', ''Binding'', ''Dataset'', ''SecretReference'', ''Catalog'', ''Connection'']"

definition fragment_check :: "schema_lib \<Rightarrow> (string \<times> string) list \<Rightarrow> Envelope \<Rightarrow> string \<Rightarrow> anymap \<Rightarrow> manifest_error option" where
  "fragment_check lib fragments e disc block = (case map_of fragments disc of None \<Rightarrow> None
   | Some path \<Rightarrow> map_option (BadFragment (env_Kind e) (env_name e)) (sl_Fragment lib path block))"

definition validateProviderConfigurationFragment :: "schema_lib \<Rightarrow> Envelope \<Rightarrow> string \<Rightarrow> manifest_error option" where
  "validateProviderConfigurationFragment lib e providerType =
     fragment_check lib ProviderConfigFragments e providerType (map_or_nil (index_any (env_Spec e) ''configuration''))"

definition validateEngineFragment ::
  "schema_lib \<Rightarrow> Envelope \<Rightarrow> string \<Rightarrow> anymap \<Rightarrow> (string \<times> string) list \<Rightarrow> manifest_error option" where
  "validateEngineFragment lib e engine block fragments = fragment_check lib fragments e engine block"

definition validateBindingOptionsFragment ::
  "schema_lib \<Rightarrow> Envelope \<Rightarrow> string \<Rightarrow> anymap \<Rightarrow> (Key \<times> string) list \<Rightarrow> manifest_error option" where
  "validateBindingOptionsFragment lib e mode options providerTypeByKey =
     (let ref = RefFromSpec (env_Spec e) ''providerRef'' in
      if ref_Name ref = [] then None
      else case map_of providerTypeByKey (ref_Key ref (md_Namespace (env_Metadata e)) ''Provider'') of
        None \<Rightarrow> None
      | Some providerType \<Rightarrow> fragment_check lib BindingOptionsFragments e (mode @ ''-'' @ providerType) options)"

definition secretFromEnvelope :: "Envelope \<Rightarrow> kind_error option" where
  "secretFromEnvelope e = SecretReference_Validate
     \<lparr>sr_Name = env_name e, sr_Namespace = [], sr_Backend = str_of (index_any (env_Spec e) ''backend''),
      sr_Keys = (case is_list (index_any (env_Spec e) ''keys'') of None \<Rightarrow> [] | Some ks \<Rightarrow> string_items ks),
      sr_KubernetesName = [], sr_KubernetesNamespace = []\<rparr>"

definition providerTypesByKey :: "Envelope list \<Rightarrow> (Key \<times> string) list" where
  "providerTypesByKey envelopes = fold (\<lambda>e m. let t = str_of (index_any (env_Spec e) ''type'') in
     if env_Kind e \<noteq> ''Provider'' \<or> t = [] then m else AList.update (env_Key e) t m) envelopes []"

definition decoded :: "'a \<times> kind_error option \<Rightarrow> ('a \<Rightarrow> manifest_error option) \<Rightarrow> manifest_error option" where
  "decoded r check = (case r of (v, Some err) \<Rightarrow> Some (InvalidKind err) | (v, None) \<Rightarrow> check v)"

text \<open>The switch on the kind; decoding a Connection records its claim on a host port.\<close>

definition validate_kind ::
  "schema_lib \<Rightarrow> (Key \<times> string) list \<Rightarrow> Envelope \<Rightarrow> int claims \<Rightarrow> manifest_error option \<times> int claims" where
  "validate_kind lib types e claims =
     (let kind = env_Kind e in
      if kind = ''Provider'' then (decoded (Provider_FromEnvelope e) (\<lambda>p.
         validateProviderConfigurationFragment lib e (pv_Type p)), claims)
      else if kind = ''Source'' then (decoded (Source_FromEnvelope e) (\<lambda>s.
         validateEngineFragment lib e (so_Engine s) (so_EngineConfig s) SourceEngineFragments), claims)
      else if kind = ''EventStream'' then (decoded (EventStream_FromEnvelope e) (\<lambda>_. None), claims)
      else if kind = ''Binding'' then (decoded (Binding_FromEnvelope e) (\<lambda>b.
         validateBindingOptionsFragment lib e (bi_Mode b) (bi_Options b) types), claims)
      else if kind = ''Dataset'' then (decoded (Dataset_FromEnvelope e) (\<lambda>_. None), claims)
      else if kind = ''Catalog'' then (decoded (Catalog_FromEnvelope e) (\<lambda>c.
         validateEngineFragment lib e (ca_Engine c) (ca_EngineConfig c) CatalogEngineFragments), claims)
      else if kind = ''Connection'' then (case Connection_FromEnvelope e claims of
         (r, claims') \<Rightarrow> (decoded r (\<lambda>_. None), claims'))
      else if kind = ''SecretReference'' then (map_option InvalidKind (secretFromEnvelope e), claims)
      else (None, claims))"

definition validate_step ::
  "schema_lib \<Rightarrow> (Key \<times> string) list \<Rightarrow> Envelope \<Rightarrow> Key list \<times> int claims \<Rightarrow> manifest_error + Key list \<times> int claims" where
  "validate_step lib types e s = (case s of (seen, claims) \<Rightarrow>
     (case Validate e of Some err \<Rightarrow> Inl (InvalidResource err) | None \<Rightarrow>
       (if env_Kind e \<notin> set KnownKinds then Inl (UnknownKind (env_Kind e) (env_name e))
        else if \<not> starts_with ''datascape.io/'' (env_APIVersion e)
        then Inl (UnsupportedAPIVersion (env_Kind e) (env_APIVersion e))
        else if env_Key e \<in> set seen then Inl (DuplicateResource (env_Key e))
        else case validate_kind lib types e claims of
          (Some err, claims') \<Rightarrow> Inl err
        | (None, claims') \<Rightarrow> Inr (env_Key e # seen, claims'))))"

definition manifest_Validate :: "schema_lib \<Rightarrow> Envelope list \<Rightarrow> int claims \<Rightarrow> manifest_error + int claims" where
  "manifest_Validate lib envelopes claims =
     map_sum id snd (fold_err (validate_step lib (providerTypesByKey envelopes)) envelopes ([], claims))"

section \<open>The project file\<close>

definition ProjectFileName :: string where "ProjectFileName = ''datascape.yaml''"

record Project =
  pj_Name :: string
  pj_RuntimeType :: string
  pj_RuntimeConfig :: anymap
  pj_ZeroTrust :: bool
  pj_Resources :: "string list"

definition Project_FromEnvelope :: "Envelope \<Rightarrow> Project" where
  "Project_FromEnvelope e =
     (let rt = is_map (index_any (env_Spec e) ''runtime'') in
      \<lparr>pj_Name = env_name e,
       pj_RuntimeType = (case rt of None \<Rightarrow> [] | Some rt \<Rightarrow> str_of (index_any rt ''type'')),
       pj_RuntimeConfig = (case rt of None \<Rightarrow> [] | Some rt \<Rightarrow> rt),
       pj_ZeroTrust = (case is_bool (index_any (env_Spec e) ''zeroTrust'') of None \<Rightarrow> True | Some v \<Rightarrow> v),
       pj_Resources = (case is_list (index_any (env_Spec e) ''resources'') of None \<Rightarrow> []
         | Some raw \<Rightarrow> filter (\<lambda>s. s \<noteq> []) (string_items raw))\<rparr>)"

definition RequireRuntime :: "Project \<Rightarrow> manifest_error option" where
  "RequireRuntime p = (if pj_RuntimeType p = [] then Some (RuntimeTypeRequired (pj_Name p)) else None)"

definition parse_project :: "schema_lib \<Rightarrow> (string + anymap) list \<Rightarrow> manifest_error + Project" where
  "parse_project lib docs = (case docs of
     [] \<Rightarrow> Inl (YamlError ''EOF'')
   | Inl err # rest \<Rightarrow> Inl (YamlError err)
   | Inr raw # rest \<Rightarrow>
      (if rest \<noteq> [] \<and> \<not> isl (hd rest) then Inl OneDocumentExpected
       else case validateAgainstSchema lib raw of Some err \<Rightarrow> Inl err | None \<Rightarrow>
        (case envelopeFrom raw of Inl err \<Rightarrow> Inl err | Inr env \<Rightarrow>
          (if env_Kind env \<noteq> ''Project'' then Inl (NotAProject (env_Kind env))
           else if \<not> starts_with ''datascape.io/'' (env_APIVersion env)
           then Inl (UnsupportedAPIVersion (env_Kind env) (env_APIVersion env))
           else Inr (Project_FromEnvelope env)))))"

definition readProjectFile :: "schema_lib \<Rightarrow> manifest_files \<Rightarrow> string \<Rightarrow> manifest_error + Project option" where
  "readProjectFile lib fs dir =
     (let projectPath = path_Join [dir, ProjectFileName] in
      case mf_ReadFile fs projectPath of
        NotExist \<Rightarrow> Inr None
      | ReadError err \<Rightarrow> Inl (ReadFailed projectPath err)
      | Documents docs \<Rightarrow> map_sum (\<lambda>err. if err = PanicMetadataNotAMap then err else InProjectFile projectPath err) Some
          (parse_project lib docs))"

definition LoadProject :: "schema_lib \<Rightarrow> manifest_files \<Rightarrow> string \<Rightarrow> manifest_error + Project option" where
  "LoadProject lib fs path =
     (let root = (if mf_Stat fs path = FileInfo then path_Dir path else path) in
      case readProjectFile lib fs root of
        Inl err \<Rightarrow> Inl err
      | Inr None \<Rightarrow> Inr None
      | Inr (Some proj) \<Rightarrow> (case RequireRuntime proj of Some err \<Rightarrow> Inl err | None \<Rightarrow> Inr (Some proj)))"

definition loadIncludeProject :: "schema_lib \<Rightarrow> manifest_files \<Rightarrow> string \<Rightarrow> manifest_error + Project option" where
  "loadIncludeProject lib fs dir = (case readProjectFile lib fs dir of
     Inl err \<Rightarrow> Inl err
   | Inr None \<Rightarrow> Inr None
   | Inr (Some proj) \<Rightarrow> (if pj_RuntimeType proj \<noteq> [] then Inl (MemberDeclaresRuntime (path_Join [dir, ProjectFileName]))
       else Inr (Some proj)))"

section \<open>The project runtime\<close>

definition layer_runtime :: "anymap \<Rightarrow> anymap \<Rightarrow> anymap" where
  "layer_runtime base own = foldr (\<lambda>(k, v) m. AList.update k v m) own base"

definition set_runtime :: "anymap \<Rightarrow> Envelope \<Rightarrow> Envelope" where
  "set_runtime rt e = e\<lparr>env_Spec := AList.update ''runtime'' (AMap rt) (env_Spec e)\<rparr>"

definition resolve_runtime :: "Project \<Rightarrow> Envelope \<Rightarrow> manifest_error + Envelope" where
  "resolve_runtime proj e =
     (if env_Kind e \<noteq> ''Provider'' then Inr e
      else case is_map (index_any (env_Spec e) ''runtime'') of
        None \<Rightarrow> Inr (set_runtime (pj_RuntimeConfig proj) e)
      | Some rt \<Rightarrow> (let rtType = str_of (index_any rt ''type'') in
          if rtType = [] then Inr (set_runtime (layer_runtime (pj_RuntimeConfig proj) rt) e)
          else if rtType \<noteq> pj_RuntimeType proj then Inl (ForeignRuntime (env_name e) rtType (pj_RuntimeType proj))
          else Inr e))"

fun map_err :: "('a \<Rightarrow> 'e + 'b) \<Rightarrow> 'a list \<Rightarrow> 'e + 'b list" where
  "map_err f [] = Inr []"
| "map_err f (x # xs) = (case f x of Inl err \<Rightarrow> Inl err | Inr y \<Rightarrow> map_sum id ((#) y) (map_err f xs))"

definition ResolveProjectRuntime :: "Envelope list \<Rightarrow> Project option \<Rightarrow> manifest_error + Envelope list" where
  "ResolveProjectRuntime envelopes proj = (case proj of None \<Rightarrow> Inr envelopes
   | Some p \<Rightarrow> map_err (resolve_runtime p) envelopes)"

section \<open>Collecting the files\<close>

definition manifestFilesIn :: "manifest_files \<Rightarrow> string \<Rightarrow> manifest_error + string list" where
  "manifestFilesIn fs dir = (case mf_ReadDir fs dir of
     Inl err \<Rightarrow> Inl (ReadDirFailed dir err)
   | Inr entries \<Rightarrow> Inr (map (\<lambda>(name, _). path_Join [dir, name])
       (filter (\<lambda>(name, isDir). \<not> (isDir \<or> name = ProjectFileName) \<and> manifest_ext name) entries)))"

text \<open>What a member turns out to be, before the recursion.\<close>

datatype member = MemberFile string | MemberDir string "string list" | BadMember manifest_error

definition member_of :: "schema_lib \<Rightarrow> manifest_files \<Rightarrow> string \<Rightarrow> string \<Rightarrow> member" where
  "member_of lib fs baseDir r =
     (let full = path_Join [baseDir, r] in
      case mf_Stat fs full of
        StatError err \<Rightarrow> BadMember (MemberMissing r err)
      | FileInfo \<Rightarrow> (if manifest_ext full then MemberFile full else BadMember (NotAManifestFile r))
      | DirInfo \<Rightarrow> (case loadIncludeProject lib fs full of
          Inl err \<Rightarrow> BadMember err
        | Inr None \<Rightarrow> BadMember (MemberWithoutProject r)
        | Inr (Some sub) \<Rightarrow> if pj_Resources sub = [] then BadMember (MemberWithoutResources r)
            else MemberDir full (pj_Resources sub)))"

text \<open>Run a step that may fail or never return, then go on with its result.\<close>

definition and_then :: "('e + 'a) option \<Rightarrow> ('a \<Rightarrow> ('e + 'b) option) \<Rightarrow> ('e + 'b) option" where
  "and_then m f = Option.bind m (\<lambda>r. case r of Inl err \<Rightarrow> Some (Inl err) | Inr x \<Rightarrow> f x)"

lemma and_then_simps [simp]:
  "and_then None f = None" "and_then (Some (Inl err)) f = Some (Inl err)" "and_then (Some (Inr x)) f = f x"
  by (simp_all add: and_then_def)

lemma and_then_mono [partial_function_mono]:
  assumes "mono_option B" "\<And>y. mono_option (\<lambda>f. C y f)"
  shows "mono_option (\<lambda>f. and_then (B f) (\<lambda>y. C y f))"
  unfolding and_then_def
proof (rule bind_mono [OF assms(1)])
  fix r show "mono_option (\<lambda>f. case r of Inl err \<Rightarrow> Some (Inl err) | Inr x \<Rightarrow> C x f)"
    using assms(2) by (cases r) (simp_all add: option.const_mono)
qed

partial_function (option) collect_members ::
  "(string \<Rightarrow> string \<Rightarrow> member) \<Rightarrow> string \<Rightarrow> string list \<Rightarrow> (manifest_error + string list) option" where
  "collect_members find_member baseDir resources = (case resources of
     [] \<Rightarrow> Some (Inr [])
   | r # rest \<Rightarrow> (case find_member baseDir r of
       BadMember err \<Rightarrow> Some (Inl err)
     | MemberFile full \<Rightarrow> and_then (collect_members find_member baseDir rest) (\<lambda>files. Some (Inr (full # files)))
     | MemberDir full subs \<Rightarrow> and_then (collect_members find_member full subs) (\<lambda>subFiles.
         and_then (collect_members find_member baseDir rest) (\<lambda>files. Some (Inr (subFiles @ files))))))"

declare collect_members.simps [code]

definition collectResources ::
  "schema_lib \<Rightarrow> manifest_files \<Rightarrow> string \<Rightarrow> string list \<Rightarrow> (manifest_error + string list) option" where
  "collectResources lib fs baseDir resources = collect_members (member_of lib fs) baseDir resources"

definition collectFiles ::
  "schema_lib \<Rightarrow> manifest_files \<Rightarrow> string \<Rightarrow> Project option \<Rightarrow> (manifest_error + string list) option" where
  "collectFiles lib fs path proj = (case mf_Stat fs path of
     StatError err \<Rightarrow> Some (Inl (StatFailed path err))
   | FileInfo \<Rightarrow> Some (Inr [path])
   | DirInfo \<Rightarrow> (case proj of
       Some p \<Rightarrow> if pj_Resources p \<noteq> [] then collectResources lib fs path (pj_Resources p)
         else Some (map_sum id sort (manifestFilesIn fs path))
     | None \<Rightarrow> Some (map_sum id sort (manifestFilesIn fs path))))"

section \<open>Load\<close>

fun load_docs :: "schema_lib \<Rightarrow> string \<Rightarrow> nat \<Rightarrow> (string + anymap) list \<Rightarrow> manifest_error + Envelope list" where
  "load_docs lib f i [] = Inr []"
| "load_docs lib f i (Inl err # docs) = Inl (InDocument f (i + 1) (YamlError err))"
| "load_docs lib f i (Inr raw # docs) =
     (if raw = [] then load_docs lib f (i + 1) docs
      else case validateAgainstSchema lib raw of
        Some err \<Rightarrow> Inl (if err = PanicMetadataNotAMap then err else InDocument f (i + 1) err)
      | None \<Rightarrow> (case envelopeFrom raw of
          Inl err \<Rightarrow> Inl (InDocument f (i + 1) err)
        | Inr env \<Rightarrow> map_sum id ((#) env) (load_docs lib f (i + 1) docs)))"

fun load_files :: "schema_lib \<Rightarrow> manifest_files \<Rightarrow> string list \<Rightarrow> manifest_error + Envelope list" where
  "load_files lib fs [] = Inr []"
| "load_files lib fs (f # files) = (case mf_ReadFile fs f of
     NotExist \<Rightarrow> Inl (ReadFailed f ''not exist'')
   | ReadError err \<Rightarrow> Inl (ReadFailed f err)
   | Documents docs \<Rightarrow> (case load_docs lib f 0 docs of
       Inl err \<Rightarrow> Inl err
     | Inr envs \<Rightarrow> map_sum id ((@) envs) (load_files lib fs files)))"

definition load_collected ::
  "schema_lib \<Rightarrow> manifest_files \<Rightarrow> string \<Rightarrow> Project option \<Rightarrow> int claims \<Rightarrow> string list
    \<Rightarrow> manifest_error + Envelope list \<times> int claims" where
  "load_collected lib fs path proj claims files =
     (if files = [] then Inl (if (case proj of None \<Rightarrow> False | Some p \<Rightarrow> pj_Resources p \<noteq> []) then NoMemberFiles path
        else NoManifestFiles path)
      else case load_files lib fs files of Inl err \<Rightarrow> Inl err | Inr envelopes \<Rightarrow>
       (case ResolveProjectRuntime envelopes proj of Inl err \<Rightarrow> Inl err | Inr resolved \<Rightarrow>
         (case manifest_Validate lib resolved claims of Inl err \<Rightarrow> Inl err | Inr claims' \<Rightarrow> Inr (resolved, claims'))))"

definition manifest_Load ::
  "schema_lib \<Rightarrow> manifest_files \<Rightarrow> int claims \<Rightarrow> string \<Rightarrow> (manifest_error + Envelope list \<times> int claims) option" where
  "manifest_Load lib fs claims path = (case LoadProject lib fs path of
     Inl err \<Rightarrow> Some (Inl err)
   | Inr proj \<Rightarrow> and_then (collectFiles lib fs path proj) (\<lambda>files. Some (load_collected lib fs path proj claims files)))"

section \<open>Termination and cycles of includes\<close>

lemma and_then_returns: "m = Some r \<Longrightarrow> (\<And>x. r = Inr x \<Longrightarrow> \<exists>y. f x = Some y) \<Longrightarrow> \<exists>y. and_then m f = Some y"
  by (cases r) auto

lemma collect_members_returns:
  assumes "\<And>base r full subs s full' subs'. m base r = MemberDir full subs \<Longrightarrow> s \<in> set subs \<Longrightarrow>
      m full s = MemberDir full' subs' \<Longrightarrow> rank full' < (rank full :: nat)"
    "\<And>r full subs. r \<in> set rs \<Longrightarrow> m base r = MemberDir full subs \<Longrightarrow> rank full < n"
  shows "\<exists>res. collect_members m base rs = Some res"
  using assms(2)
proof (induction n arbitrary: base rs rule: less_induct)
  case (less n)
  note outer = less.IH
  from less.prems show ?case
  proof (induction rs)
    case Nil
    then show ?case by (subst collect_members.simps) simp
  next
    case (Cons r rest)
    have rest: "\<exists>res. collect_members m base rest = Some res"
      by (rule Cons.IH) (use Cons.prems in \<open>auto intro: list.set_intros(2)\<close>)
    show ?case
    proof (cases "m base r")
      case (MemberDir full subs)
      have "rank full < n" using Cons.prems [of r] MemberDir by simp
      then have sub: "\<exists>res. collect_members m full subs = Some res"
        using outer assms(1) MemberDir by blast
      from sub rest obtain a b where "collect_members m full subs = Some a" "collect_members m base rest = Some b" by blast
      then show ?thesis using MemberDir
        by (subst collect_members.simps) (cases a; cases b; simp)
    next
      case (MemberFile full)
      with rest show ?thesis by (subst collect_members.simps) (auto intro!: and_then_returns)
    qed (subst collect_members.simps, simp)
  qed
qed

definition includes_forever :: "schema_lib \<Rightarrow> manifest_files \<Rightarrow> (string \<times> string list) set \<Rightarrow> bool" where
  "includes_forever lib fs D \<longleftrightarrow> (\<forall>(dir, members)\<in>D. \<exists>full subs. members \<noteq> [] \<and>
     member_of lib fs dir (hd members) = MemberDir full subs \<and> (full, subs) \<in> D)"

lemma collect_members_not_forever:
  assumes "includes_forever lib fs D" "collect_members m dir members = Some y"
  shows "m = member_of lib fs \<longrightarrow> (dir, members) \<notin> D"
proof (rule collect_members.raw_induct [OF _ assms(2)])
  fix f :: "(string \<Rightarrow> string \<Rightarrow> member) \<Rightarrow> string \<Rightarrow> string list \<Rightarrow> (manifest_error + string list) option"
  fix m :: "string \<Rightarrow> string \<Rightarrow> member" and dir members y
  assume IH: "\<And>m dir members y. f m dir members = Some y \<Longrightarrow> m = member_of lib fs \<longrightarrow> (dir, members) \<notin> D"
  assume run: "(case members of [] \<Rightarrow> Some (Inr [])
     | r # rest \<Rightarrow> (case m dir r of
         MemberFile full \<Rightarrow> and_then (f m dir rest) (\<lambda>files. Some (Inr (full # files)))
       | MemberDir full subs \<Rightarrow> and_then (f m full subs) (\<lambda>subFiles.
           and_then (f m dir rest) (\<lambda>files. Some (Inr (subFiles @ files))))
       | BadMember err \<Rightarrow> Some (Inl err))) = Some y"
  show "m = member_of lib fs \<longrightarrow> (dir, members) \<notin> D"
  proof (intro impI notI)
    assume m: "m = member_of lib fs" and d: "(dir, members) \<in> D"
    from assms(1) d obtain full subs where s: "members \<noteq> []" "m dir (hd members) = MemberDir full subs" "(full, subs) \<in> D"
      unfolding includes_forever_def m by fastforce
    then have "f m full subs = None" using IH m by (metis not_None_eq)
    with run s show False by (cases members) auto
  qed
qed

lemma collect_members_diverges:
  "includes_forever lib fs D \<Longrightarrow> (dir, members) \<in> D \<Longrightarrow> collect_members (member_of lib fs) dir members = None"
  using collect_members_not_forever by (metis not_None_eq)

section \<open>Validation, exactly\<close>

definition kind_valid :: "schema_lib \<Rightarrow> (Key \<times> string) list \<Rightarrow> Envelope \<Rightarrow> bool" where
  "kind_valid lib types e \<longleftrightarrow> fst (validate_kind lib types e []) = None"

definition document_valid :: "schema_lib \<Rightarrow> (Key \<times> string) list \<Rightarrow> Envelope \<Rightarrow> bool" where
  "document_valid lib types e \<longleftrightarrow> Validate e = None \<and> env_Kind e \<in> set KnownKinds \<and>
     starts_with ''datascape.io/'' (env_APIVersion e) \<and> kind_valid lib types e"

lemma Connection_claims: "fst (Connection_FromEnvelope e claims) = fst (Connection_FromEnvelope e claims')"
  by (simp add: Connection_FromEnvelope_def hostport_Resolve_def Let_def split: prod.splits)

lemma validate_kind_claims: "fst (validate_kind lib types e claims) = None \<longleftrightarrow> kind_valid lib types e"
  using Connection_claims [of e claims "[]"]
  by (auto simp: kind_valid_def validate_kind_def Let_def split: prod.splits)

lemma validate_step_Inr:
  "(\<exists>c. validate_step lib types e (seen, claims) = Inr (e2, c)) \<longleftrightarrow>
     document_valid lib types e \<and> env_Key e \<notin> set seen \<and> e2 = env_Key e # seen"
  using validate_kind_claims [of lib types e claims]
  by (cases "validate_kind lib types e claims")
    (auto simp: validate_step_def document_valid_def split: option.splits)

lemma validate_loop:
  "(\<exists>s. fold_err (validate_step lib types) es (seen, claims) = Inr s) \<longleftrightarrow>
     (\<forall>e\<in>set es. document_valid lib types e) \<and> distinct (map env_Key es) \<and>
     (\<forall>e\<in>set es. env_Key e \<notin> set seen)"
proof (induction es arbitrary: seen claims)
  case (Cons e es)
  show ?case
  proof (cases "validate_step lib types e (seen, claims)")
    case (Inl err)
    then have "\<not> (document_valid lib types e \<and> env_Key e \<notin> set seen)"
      using validate_step_Inr [of lib types e seen claims "env_Key e # seen"] by auto
    with Inl show ?thesis by auto
  next
    case (Inr s)
    then obtain c where s: "s = (env_Key e # seen, c)" "document_valid lib types e" "env_Key e \<notin> set seen"
      using validate_step_Inr [of lib types e seen claims "fst s"] by (cases s) auto
    have "(\<forall>x\<in>set es. env_Key x \<notin> set (env_Key e # seen)) \<longleftrightarrow>
        env_Key e \<notin> env_Key ` set es \<and> (\<forall>x\<in>set es. env_Key x \<notin> set seen)"
      by (auto simp: image_iff)
    moreover have "fold_err (validate_step lib types) (e # es) (seen, claims) =
        fold_err (validate_step lib types) es (env_Key e # seen, c)" using Inr s(1) by simp
    ultimately show ?thesis using Cons.IH [of "env_Key e # seen" c] s(2,3) by (simp only:) auto
  qed
qed simp

lemma manifest_Validate_ok:
  "(\<exists>c. manifest_Validate lib envelopes claims = Inr c) \<longleftrightarrow>
     distinct (map env_Key envelopes) \<and> (\<forall>e\<in>set envelopes. document_valid lib (providerTypesByKey envelopes) e)"
proof -
  have "(\<exists>c. manifest_Validate lib envelopes claims = Inr c) \<longleftrightarrow>
      (\<exists>s. fold_err (validate_step lib (providerTypesByKey envelopes)) envelopes ([], claims) = Inr s)"
    by (auto simp: manifest_Validate_def map_sum_def split: sum.splits)
  then show ?thesis unfolding validate_loop by auto
qed

section \<open>The project runtime, resolved\<close>

lemma map_err_origin: "map_err f xs = Inr ys \<Longrightarrow> y \<in> set ys \<Longrightarrow> \<exists>x\<in>set xs. f x = Inr y"
  by (induction xs arbitrary: ys) (auto simp: map_sum_def split: sum.splits)

lemma layer_runtime_lookup:
  "map_of (layer_runtime base own) k = (case map_of own k of None \<Rightarrow> map_of base k | Some v \<Rightarrow> Some v)"
  unfolding layer_runtime_def by (induction own) auto

definition runtime_type :: "Envelope \<Rightarrow> string" where
  "runtime_type e = str_of (index_any (map_or_nil (index_any (env_Spec e) ''runtime'')) ''type'')"

lemma index_set_runtime: "index_any (env_Spec (set_runtime rt e)) f = (if f = ''runtime'' then AMap rt else index_any (env_Spec e) f)"
  by (simp add: set_runtime_def index_any_def)

lemma set_runtime_Kind [simp]: "env_Kind (set_runtime rt e) = env_Kind e" "env_Metadata (set_runtime rt e) = env_Metadata e"
  by (simp_all add: set_runtime_def)

lemma runtime_type_set [simp]: "runtime_type (set_runtime rt e) = str_of (index_any rt ''type'')"
  by (simp add: runtime_type_def index_set_runtime map_or_nil_def)

lemma resolve_runtime_type:
  assumes "resolve_runtime proj e = Inr e'" "pj_RuntimeType proj = str_of (index_any (pj_RuntimeConfig proj) ''type'')"
    "env_Kind e = ''Provider''"
  shows "runtime_type e' = pj_RuntimeType proj \<or> runtime_type e' = []"
proof (cases "is_map (index_any (env_Spec e) ''runtime'')")
  case None
  with assms show ?thesis by (auto simp: resolve_runtime_def)
next
  case (Some rt)
  then have t: "runtime_type e = str_of (index_any rt ''type'')" by (simp add: runtime_type_def map_or_nil_def)
  show ?thesis
  proof (cases "str_of (index_any rt ''type'') = []")
    case True
    then have "e' = set_runtime (layer_runtime (pj_RuntimeConfig proj) rt) e"
      using assms(1,3) Some by (simp add: resolve_runtime_def)
    moreover have "index_any (layer_runtime (pj_RuntimeConfig proj) rt) ''type'' =
        (if map_of rt ''type'' = None then index_any (pj_RuntimeConfig proj) ''type'' else index_any rt ''type'')"
      by (auto simp: index_any_def layer_runtime_lookup)
    ultimately show ?thesis using True assms(2) by simp
  next
    case False
    then show ?thesis using assms(1,3) Some t by (auto simp: resolve_runtime_def Let_def split: if_splits)
  qed
qed

lemma resolve_runtime_frame:
  "resolve_runtime proj e = Inr e' \<Longrightarrow> env_Kind e' = env_Kind e \<and> env_Metadata e' = env_Metadata e \<and>
     (env_Kind e \<noteq> ''Provider'' \<longrightarrow> e' = e)"
  by (auto simp: resolve_runtime_def Let_def split: if_splits option.splits)

lemma LoadProject_runtime:
  assumes "LoadProject lib fs path = Inr (Some proj)"
  shows "pj_RuntimeType proj \<noteq> []" "pj_RuntimeType proj = str_of (index_any (pj_RuntimeConfig proj) ''type'')"
proof -
  obtain root where r: "readProjectFile lib fs root = Inr (Some proj)" "RequireRuntime proj = None"
    using assms by (auto simp: LoadProject_def Let_def split: sum.splits option.splits)
  from r(2) show ne: "pj_RuntimeType proj \<noteq> []" by (auto simp: RequireRuntime_def split: if_splits)
  from r(1) obtain docs where "parse_project lib docs = Inr proj"
    by (auto simp: readProjectFile_def Let_def map_sum_def split: read_result.splits sum.splits)
  then obtain env where "proj = Project_FromEnvelope env"
    by (auto simp: parse_project_def split: list.splits sum.splits option.splits if_splits)
  with ne show "pj_RuntimeType proj = str_of (index_any (pj_RuntimeConfig proj) ''type'')"
    by (auto simp: Project_FromEnvelope_def Let_def split: option.splits)
qed

lemma Provider_valid_runtime:
  assumes "document_valid lib types e" "env_Kind e = ''Provider''"
  shows "runtime_type e \<noteq> []"
proof -
  have "snd (Provider_FromEnvelope e) = None"
    using assms by (auto simp: document_valid_def kind_valid_def validate_kind_def decoded_def Let_def
        split: prod.splits option.splits)
  then have "pv_RuntimeType (fst (Provider_FromEnvelope e)) \<noteq> []"
    by (auto simp: Provider_FromEnvelope_def Provider_validate_def Let_def split: if_splits)
  then show ?thesis by (simp add: Provider_FromEnvelope_def runtime_type_def Let_def)
qed

lemma manifest_Load_Inr:
  assumes "manifest_Load lib fs claims path = Some (Inr (envs, claims'))"
  obtains proj loaded where "LoadProject lib fs path = Inr proj" "ResolveProjectRuntime loaded proj = Inr envs"
    "manifest_Validate lib envs claims = Inr claims'"
proof -
  from assms obtain proj where p: "LoadProject lib fs path = Inr proj"
    by (auto simp: manifest_Load_def split: sum.splits)
  with assms have c: "and_then (collectFiles lib fs path proj) (\<lambda>files. Some (load_collected lib fs path proj claims files)) =
      Some (Inr (envs, claims'))" by (simp add: manifest_Load_def)
  then obtain r where "collectFiles lib fs path proj = Some r" by (cases "collectFiles lib fs path proj") auto
  with c obtain files where "load_collected lib fs path proj claims files = Inr (envs, claims')" by (cases r) auto
  with p that show ?thesis by (auto simp: load_collected_def split: if_splits sum.splits)
qed


text \<open>
  C26: a project has one runtime. Whatever its manifests declare, when loading succeeds under a project file every
  Provider of the result targets the runtime type the project file names.
\<close>

theorem load_single_runtime:
  assumes "manifest_Load lib fs claims path = Some (Inr (envs, claims'))" "LoadProject lib fs path = Inr (Some proj)"
    "e \<in> set envs" "env_Kind e = ''Provider''"
  shows "pv_RuntimeType (fst (Provider_FromEnvelope e)) = pj_RuntimeType proj \<and> pj_RuntimeType proj \<noteq> []"
proof -
  from assms(1) obtain proj' loaded where l: "LoadProject lib fs path = Inr proj'"
    "ResolveProjectRuntime loaded proj' = Inr envs" "manifest_Validate lib envs claims = Inr claims'"
    by (rule manifest_Load_Inr)
  then have "map_err (resolve_runtime proj) loaded = Inr envs"
    using assms(2) by (auto simp: ResolveProjectRuntime_def)
  from map_err_origin [OF this assms(3)] obtain x where x: "resolve_runtime proj x = Inr e" by blast
  have "document_valid lib (providerTypesByKey envs) e"
    using manifest_Validate_ok [of lib envs claims, THEN iffD1, OF exI, OF l(3)] assms(3) by simp
  then have "runtime_type e \<noteq> []" using assms(4) by (rule Provider_valid_runtime)
  moreover have "env_Kind x = ''Provider''" using resolve_runtime_frame [OF x] assms(4) by simp
  ultimately have "runtime_type e = pj_RuntimeType proj"
    using resolve_runtime_type [OF x LoadProject_runtime(2) [OF assms(2)]] by blast
  then show ?thesis using LoadProject_runtime(1) [OF assms(2)]
    by (simp add: Provider_FromEnvelope_def runtime_type_def Let_def)
qed

text \<open>
  C29: loading returns, with a result or an error, whenever every included directory that another one includes
  has a smaller rank, that is, when the includes do not run in a circle.
\<close>

theorem manifest_Load_returns:
  assumes "\<forall>base r full subs s full' subs'. member_of lib fs base r = MemberDir full subs \<longrightarrow> s \<in> set subs \<longrightarrow>
      member_of lib fs full s = MemberDir full' subs' \<longrightarrow> rank full' < (rank full :: nat)"
  shows "\<exists>result. manifest_Load lib fs claims path = Some result"
proof -
  have "\<exists>res. collectResources lib fs base rs = Some res" for base rs
  proof -
    let ?rank = "\<lambda>r. case member_of lib fs base r of MemberDir full subs \<Rightarrow> rank full | _ \<Rightarrow> 0"
    have "rank full < Suc (\<Sum>r\<leftarrow>rs. ?rank r)" if "r \<in> set rs" "member_of lib fs base r = MemberDir full subs" for r full subs
    proof -
      have "?rank r \<in> set (map ?rank rs)" using that(1) by (simp only: set_map) (rule imageI)
      then have "?rank r \<le> (\<Sum>r\<leftarrow>rs. ?rank r)" by (rule member_le_sum_list) simp
      then show ?thesis using that(2) by simp
    qed
    then show ?thesis unfolding collectResources_def
      by (intro collect_members_returns [where rank = rank]) (use assms in blast)+
  qed
  then have "\<exists>res. collectFiles lib fs path proj = Some res" for proj
    by (auto simp: collectFiles_def split: stat_result.splits option.splits)
  note files = this
  show ?thesis
  proof (cases "LoadProject lib fs path")
    case (Inr proj)
    from files [of proj] obtain r where "collectFiles lib fs path proj = Some r" by blast
    then show ?thesis using Inr by (cases r) (simp_all add: manifest_Load_def)
  qed (simp add: manifest_Load_def)
qed



section \<open>A concrete project\<close>

text \<open>A project of two planes: the root includes \<open>a\<close>, \<open>a\<close> includes \<open>b\<close>, and \<open>b\<close> has the given members.\<close>

definition api_doc :: "string \<Rightarrow> string \<Rightarrow> anymap \<Rightarrow> anymap" where
  "api_doc kind name spec = [(''apiVersion'', AStr ''datascape.io/v1alpha1''), (''kind'', AStr kind),
     (''metadata'', AMap [(''name'', AStr name)]), (''spec'', AMap spec)]"

definition members_doc :: "string list \<Rightarrow> anymap \<Rightarrow> anymap" where
  "members_doc members runtime = api_doc ''Project'' ''plane''
     ((if runtime = [] then [] else [(''runtime'', AMap runtime)]) @ [(''resources'', AList (map AStr members))])"

definition planes :: "string list \<Rightarrow> manifest_files" where
  "planes bs = \<lparr>mf_Stat = (\<lambda>f. if f \<in> set [''/p'', ''/p/a'', ''/p/b''] then DirInfo
       else if f = ''/p/b/pg.yaml'' then FileInfo else StatError ''no such file''),
     mf_ReadFile = (\<lambda>f. if f = ''/p/datascape.yaml'' then Documents [Inr (members_doc [''a''] [(''type'', AStr ''docker'')])]
       else if f = ''/p/a/datascape.yaml'' then Documents [Inr (members_doc [''../b''] [])]
       else if f = ''/p/b/datascape.yaml'' then Documents [Inr (members_doc bs [])]
       else if f = ''/p/b/pg.yaml'' then Documents [Inr (api_doc ''Provider'' ''pg''
         [(''type'', AStr ''postgres''), (''runtime'', AMap [(''network'', AStr ''n'')])])]
       else NotExist),
     mf_ReadDir = (\<lambda>_. Inr [])\<rparr>"

definition lenient :: schema_lib where
  "lenient = \<lparr>sl_Schema = (\<lambda>_ _. None), sl_Fragment = (\<lambda>_ _. None)\<rparr>"

definition planes_loaded :: "Envelope list" where
  "planes_loaded = fst (projr (the (manifest_Load lenient (planes [''pg.yaml'']) [] ''/p'')))"

lemma planes_run: "\<exists>c. manifest_Load lenient (planes [''pg.yaml'']) [] ''/p'' = Some (Inr (planes_loaded, c))"
proof -
  have "manifest_Load lenient (planes [''pg.yaml'']) [] ''/p'' \<noteq> None"
    "\<not> isl (the (manifest_Load lenient (planes [''pg.yaml'']) [] ''/p''))" by code_simp+
  then show ?thesis unfolding planes_loaded_def by (metis option.collapse prod.collapse sum.collapse(2))
qed

lemma planes_project:
  "LoadProject lenient (planes bs) ''/p'' = Inr (Some \<lparr>pj_Name = ''plane'', pj_RuntimeType = ''docker'',
     pj_RuntimeConfig = [(''type'', AStr ''docker'')], pj_ZeroTrust = True, pj_Resources = [''a'']\<rparr>)"
proof -
  have "LoadProject lenient (planes [''pg.yaml'']) ''/p'' = Inr (Some \<lparr>pj_Name = ''plane'', pj_RuntimeType = ''docker'',
     pj_RuntimeConfig = [(''type'', AStr ''docker'')], pj_ZeroTrust = True, pj_Resources = [''a'']\<rparr>)" by code_simp
  moreover have "path_Join [''/p'', ProjectFileName] = ''/p/datascape.yaml''" by code_simp
  ultimately show ?thesis by (simp add: LoadProject_def readProjectFile_def planes_def Let_def)
qed


theorem load_single_runtime_witness:
  "map (\<lambda>e. pv_RuntimeType (fst (Provider_FromEnvelope e))) planes_loaded = [''docker'']"
proof -
  obtain c where l: "manifest_Load lenient (planes [''pg.yaml'']) [] ''/p'' = Some (Inr (planes_loaded, c))"
    using planes_run by blast
  have n: "length planes_loaded = 1" "env_Kind (hd planes_loaded) = ''Provider''" by code_simp+
  from n(1) obtain e where e: "planes_loaded = [e]" by (auto simp: length_Suc_conv)
  have "env_Kind e = ''Provider''" using n(2) unfolding e list.sel(1) .
  then show ?thesis using load_single_runtime [OF l planes_project, of e] by (simp add: e)
qed

lemma planes_members:
  "member_of lenient (planes bs) base r = MemberDir full subs \<Longrightarrow>
     (full = ''/p/a'' \<and> subs = [''../b'']) \<or> (full = ''/p/b'' \<and> subs = filter (\<lambda>s. s \<noteq> []) bs)"
proof -
  assume m: "member_of lenient (planes bs) base r = MemberDir full subs"
  have inc: "loadIncludeProject lenient (planes bs) ''/p'' = Inl (MemberDeclaresRuntime ''/p/datascape.yaml'')"
    "loadIncludeProject lenient (planes bs) ''/p/a'' = Inr (Some \<lparr>pj_Name = ''plane'', pj_RuntimeType = [],
       pj_RuntimeConfig = [], pj_ZeroTrust = True, pj_Resources = [''../b'']\<rparr>)"
  proof -
    have "loadIncludeProject lenient (planes []) ''/p'' = Inl (MemberDeclaresRuntime ''/p/datascape.yaml'')"
      "loadIncludeProject lenient (planes []) ''/p/a'' = Inr (Some \<lparr>pj_Name = ''plane'', pj_RuntimeType = [],
         pj_RuntimeConfig = [], pj_ZeroTrust = True, pj_Resources = [''../b'']\<rparr>)" by code_simp+
    moreover have "path_Join [''/p'', ProjectFileName] = ''/p/datascape.yaml''"
      "path_Join [''/p/a'', ProjectFileName] = ''/p/a/datascape.yaml''" by code_simp+
    ultimately show "loadIncludeProject lenient (planes bs) ''/p'' = Inl (MemberDeclaresRuntime ''/p/datascape.yaml'')"
      "loadIncludeProject lenient (planes bs) ''/p/a'' = Inr (Some \<lparr>pj_Name = ''plane'', pj_RuntimeType = [],
         pj_RuntimeConfig = [], pj_ZeroTrust = True, pj_Resources = [''../b'']\<rparr>)"
      by (simp_all add: loadIncludeProject_def readProjectFile_def planes_def Let_def)
  qed
  have b: "pj_Resources sub = filter (\<lambda>s. s \<noteq> []) bs" if "loadIncludeProject lenient (planes bs) ''/p/b'' = Inr (Some sub)" for sub
  proof -
    have "path_Join [''/p/b'', ProjectFileName] = ''/p/b/datascape.yaml''" by code_simp
    moreover have "string_items (map AStr bs) = bs" by (induction bs) (simp_all add: string_items_def)
    ultimately show ?thesis using that
      by (auto simp: loadIncludeProject_def readProjectFile_def planes_def parse_project_def envelopeFrom_def
          envelope_of_def members_doc_def api_doc_def Project_FromEnvelope_def index_any_def map_or_nil_def str_of_def
          Let_def map_sum_def split: if_splits option.splits sum.splits)
  qed
  have "mf_Stat (planes bs) (path_Join [base, r]) = DirInfo" "full = path_Join [base, r]"
    using m by (auto simp: member_of_def Let_def split: stat_result.splits if_splits sum.splits option.splits)
  then have "full = ''/p'' \<or> full = ''/p/a'' \<or> full = ''/p/b''" "full = path_Join [base, r]"
    by (auto simp: planes_def split: if_splits)
  then show ?thesis
    using m inc b by (auto simp: member_of_def Let_def split: stat_result.splits if_splits sum.splits option.splits)
qed

theorem manifest_Load_returns_witness:
  "\<exists>result. manifest_Load lenient (planes [''pg.yaml'']) [] ''/p'' = Some result"
proof (rule manifest_Load_returns [where rank = "\<lambda>f. if f = ''/p/a'' then 1 else 0"], intro allI impI)
  fix base r full subs s full' subs'
  assume m: "member_of lenient (planes [''pg.yaml'']) base r = MemberDir full subs" "s \<in> set subs"
    and m': "member_of lenient (planes [''pg.yaml'']) full s = MemberDir full' subs'"
  have "member_of lenient (planes [''pg.yaml'']) ''/p/b'' ''pg.yaml'' = MemberFile ''/p/b/pg.yaml''"
    "member_of lenient (planes [''pg.yaml'']) ''/p/a'' ''../b'' = MemberDir ''/p/b'' [''pg.yaml'']" by code_simp+
  with planes_members [OF m(1)] m(2) m' have "full = ''/p/a''" "full' = ''/p/b''" by auto
  then show "(if full' = ''/p/a'' then 1 else 0) < (if full = ''/p/a'' then 1 else (0 :: nat))" by simp
qed


end
