(* ===== verification/Spec2Isabelle.thy ===== *)
theory Spec2Isabelle
  imports Go_Prelude Dag_Search Status Resource Naming Alloc Dep_Graph Graph_Queries State_Store State_Backends
    Lock_Protocols Planner Kinds Facts Feature_Gates Ports Compatibility Requests
    Engine_Steps Engine_Runs Convergence Engine_Safety Teardown Engine_Parallel
    Policy Graph_Access Lints Policy_Eval Domain_Runtime
    Backup_Ops Fake_Runtime Fake_Laws Garbage K8s_Network Provider_Lints
    Secret_Stores State_Doctor Policy_Audit Manifest_Load
begin

text \<open>
  A verification library for platformctl, the Go program under \<open>src/\<close>. The program reads a set of
  YAML manifests (Providers, Sources, Datasets, EventStreams, Catalogs, Connections, Bindings,
  SecretReferences), plans the difference to a recorded state, and carries the plan out against
  container runtimes through provider plug-ins.

  \<^bold>\<open>How the parts interact.\<close> \<open>manifest.Load\<close> collects the files of a project and its includes; their documents become envelopes (\<open>internal/domain/resource\<close>), the kinds
  parse their specs, \<open>graph.Build\<close> resolves the references between them, \<open>compatibility.Check\<close>, the
  design lints and the policies judge the set, \<open>plan.Compute\<close> compares it with the state that a state
  backend loads under a lock, and \<open>engine.Apply\<close> walks the levels of the graph: for each resource it
  resolves a request (secrets, addresses, facts), wraps the runtime in the network decorator, calls the
  provider and saves the state after each step. \<open>engine.Destroy\<close> walks the other way.

  \<^bold>\<open>Theories and the code they model.\<close>

  \<^item> \<open>Go_Prelude\<close>: what the source uses of Go: strings, maps as association lists in an order that
    theorems quantify over, \<open>map[string]any\<close> values, results. \<open>Dag_Search\<close>: depth-first search and
    reachability, shared by the graph theories.
  \<^item> \<open>Status\<close>, \<open>Resource\<close>, \<open>Naming\<close>, \<open>Alloc\<close>: \<open>domain/status/status.go\<close>, \<open>domain/resource\<close>,
    \<open>domain/naming\<close>, \<open>domain/hostport\<close> and \<open>domain/subnet\<close>. Hashes are computed on machine words.
  \<^item> \<open>Dep_Graph\<close>, \<open>Graph_Queries\<close>: \<open>domain/graph/graph.go\<close>. \<open>Build\<close> is sound and resolves each reference,
    the cycle search is exact, the levels are a layering.
  \<^item> \<open>State_Store\<close>, \<open>State_Backends\<close>, \<open>Lock_Protocols\<close>: \<open>ports/state\<close>, \<open>adapters/state/localfile\<close>,
    \<open>adapters/state/s3\<close>. Saving is a sequence of file operations that may stop anywhere; the backends
    implement the locale of a state store; the two lock protocols are step relations.
  \<^item> \<open>Planner\<close>: \<open>application/plan/plan.go\<close>. \<open>Kinds\<close>, \<open>Facts\<close>: the kind packages, \<open>domain/endpoint\<close>,
    \<open>domain/versionprofile\<close>, \<open>domain/backup\<close>.
  \<^item> \<open>Feature_Gates\<close>, \<open>Ports\<close>: \<open>application/featuregate\<close>, \<open>application/registry\<close>, \<open>ports/reconciler\<close>.
    A provider implementation is a record of optional functions on a world.
  \<^item> \<open>Compatibility\<close>, \<open>Requests\<close>: \<open>application/compatibility\<close>, and the resolution of requests in
    \<open>application/engine/engine.go\<close> with \<open>mediation_transport.go\<close> and \<open>mediation_fabric.go\<close>.
  \<^item> \<open>Engine_Steps\<close>, \<open>Engine_Runs\<close>: the reconcile, probe and delete paths, \<open>kind_handler.go\<close>, \<open>Apply\<close>,
    \<open>Destroy\<close>, \<open>Import\<close> and \<open>Probe\<close>. \<open>Convergence\<close>, \<open>Engine_Safety\<close>, \<open>Teardown\<close>: what the runs guarantee.
    \<open>Engine_Parallel\<close>: the executor with several workers as a step relation.
  \<^item> \<open>Policy\<close>, \<open>Policy_Eval\<close>: \<open>domain/policy\<close> and \<open>application/policy\<close> (\<open>evaluator.go\<close>, \<open>exemption.go\<close>).
  \<^item> \<open>Graph_Access\<close>: \<open>application/graphaccess\<close>. \<open>Lints\<close>: \<open>domain/lint\<close> and \<open>application/lint\<close>.
  \<^item> \<open>Domain_Runtime\<close>: \<open>application/engine/domainruntime.go\<close> and \<open>graphscoped.go\<close>.
  \<^item> \<open>Backup_Ops\<close>: \<open>application/engine/backup.go\<close>.
  \<^item> \<open>Fake_Runtime\<close>, \<open>Fake_Laws\<close>: \<open>adapters/runtime/fake/fake.go\<close> with the types of \<open>ports/runtime/runtime.go\<close>;
    the shape of its states and the idempotence of ensuring a container. \<open>Garbage\<close>: \<open>cmd/platformctl/gc.go\<close>,
    run on that runtime.
  \<^item> \<open>K8s_Network\<close>: namespaces and NetworkPolicy objects of \<open>adapters/runtime/kubernetes\<close> (\<open>network.go\<close>, the
    policy builders of \<open>convert.go\<close>, the labels of \<open>kubernetes.go\<close>), and what the policies admit.
  \<^item> \<open>Provider_Lints\<close>: the design lints of the redpanda, s3sink and debezium providers.
  \<^item> \<open>Secret_Stores\<close>: \<open>adapters/secrets\<close> (\<open>env\<close>, \<open>file\<close>, \<open>kubernetes\<close>, \<open>vault\<close>, \<open>router\<close>) and the router that
    \<open>newEngine\<close> of \<open>cmd/platformctl/root.go\<close> registers them in. The stores implement one locale, a secret backend.
  \<^item> \<open>State_Doctor\<close>: \<open>cmd/platformctl/state.go\<close>, the choice of the state store (with \<open>New\<close> of \<open>adapters/state/s3\<close>)
    and the commands inspect, doctor, repair and unlock, run on a locale of locked stores that the local and the shared
    backend implement.
  \<^item> \<open>Policy_Audit\<close>: \<open>application/policy/audit.go\<close>, tied to the decisions of \<open>Policy_Eval\<close>.
  \<^item> \<open>Manifest_Load\<close>: \<open>application/manifest\<close> (\<open>manifest.go\<close>, \<open>project.go\<close>, \<open>schema.go\<close>, \<open>fragment.go\<close>),
    \<open>domain/project\<close> and the tables of \<open>schemas/embed.go\<close>: loading and validating a project.

  \<^bold>\<open>State and effects.\<close> A Go method on a pointer is a function from the old to the new record. Errors
  are values of sum or option types, one constructor per message of the source. The engine threads
  a record of the recorded state, the store behind it and the world the providers act on. The order in which Go
  iterates over a map is the order of an association list; a property that must not depend on it is
  stated for every order. The body that a worker of \<open>Apply\<close> runs between two operations on shared state
  is one step of the concurrent executor: the source holds its mutex there.

  \<^bold>\<open>Parameters.\<close> Provider implementations, runtimes, dialling and the clock are
  arguments of the definitions, and the engine takes any secret store. What the secret stores read (environment,
  files, Kubernetes Secrets, replies of Vault) is the record \<open>secret_world\<close>; the file system and the documents that the
  YAML decoder finds in a file are \<open>manifest_files\<close>; JSON Schema validation is \<open>schema_lib\<close>; the constructor of the
  MinIO client is an argument of \<open>s3_New\<close>. \<open>golib\<close> collects what policies use of \<open>encoding/json\<close>, \<open>fmt\<close> and \<open>regexp\<close>;
  \<open>capable\<close> and \<open>mediates\<close> say whether a provider mediates; \<open>lint_of\<close> is a provider's own linter;
  \<open>backup_of\<close> gives the backup operations of a provider; the Kubernetes API server is the record \<open>k8s_api\<close>, of
  which \<open>api_serves\<close> states that reads return what was written; \<open>rx\<close> compiles regular expressions; SHA-256
  is a parameter wherever a digest is compared, and only its determinism is used.

  \<^bold>\<open>Loops.\<close> Searches in graphs carry as fuel the number of nodes, deletion orders the number of recorded
  keys that are not desired, and retry loops the seconds of their window; each is shown to be enough, or
  the loop is shown to end within it. The concurrent executor is shown to terminate from every start.
  Following includes is a partial function, where \<open>None\<close> is a run that never returns: it is shown to return when the
  includes decrease some rank, and not to return when they form a cycle.

  \<^bold>\<open>What the lemmas show.\<close> Planning: exactly which entries are no-ops, that a plan without changes is a
  state in sync, that deletes respect protection. Execution: that a successful run converges, sequentially and in every
  interleaving, that failures stay contained, that teardown never removes what remaining resources need. State: round
  trips, crash atomicity, mutual exclusion with the exact conditions under which it fails. Validation: that accepted
  Bindings can be realised, that lints and policies report exactly what they should. Access: that requests
  carry only declared secrets, and that the compiled networks, on Docker and on Kubernetes, connect exactly the
  declared pairs. Runtime objects: that ensuring twice changes nothing, that garbage collection removes exactly
  what state does not account for, that restores are guarded. Secrets: that what passes the
  preflight resolves, and for which stores it need not. State commands: exactly what the doctor reports and what a repair
  changes. Loading: exactly which sets are valid, that one runtime governs a project.

  \<^bold>\<open>Not modelled.\<close> The provider adapters apart from their lints, the Docker runtime and the workload objects
  of the Kubernetes runtime (clients of external services), the command line apart from garbage collection and
  the state commands, decoding YAML, checking JSON Schemas, the generators of
  documentation, blueprints and architecture views, the composition wizard, the condition catalogue (texts), log
  lines, progress reports and metrics; the delegations of the network decorator to optional runtime
  capabilities; time formatting.
\<close>

end
